(* ===== verification/Cairn_Prelude.thy ===== *)
theory Cairn_Prelude
  imports Complex_Main "HOL-Library.List_Lexorder" "HOL-Library.Char_ord" "HOL-Library.Product_Lexorder"
begin

text \<open>
  Shared vocabulary of the development: instants and durations, Go's 64-bit signed
  arithmetic, results of fallible operations, and tables as lists of rows with the SQL
  statements the stores use on them (\<open>UPDATE ... WHERE\<close>, \<open>ORDER BY ... LIMIT 1\<close>).

  Instants count nanoseconds from Go's zero time, so \<open>time.Time.IsZero\<close> is equality with
  \<open>0\<close> and \<open>UTC()\<close> is the identity; durations are nanoseconds as in Go. PostgreSQL stores
  instants at microsecond resolution: that truncation is not modelled.
\<close>

named_theorems cairn_defs \<open>unfolding rules of the small definitions of the model\<close>
named_theorems cycle_frame \<open>which tables an operation leaves alone\<close>

subsection \<open>Time\<close>

type_synonym instant = int
type_synonym duration = int

abbreviation millisecond :: duration where "millisecond \<equiv> 1000000"
abbreviation second :: duration where "second \<equiv> 1000000000"
abbreviation minute :: duration where "minute \<equiv> 60000000000"
abbreviation hour :: duration where "hour \<equiv> 3600000000000"
abbreviation day :: duration where "day \<equiv> 86400000000000"

subsection \<open>Go's int64\<close>

definition wrap64 :: "int \<Rightarrow> int" where
  "wrap64 x = (x + 2 ^ 63) mod 2 ^ 64 - 2 ^ 63"

definition int64_range :: "int \<Rightarrow> bool" where
  "int64_range x \<longleftrightarrow> - (2 ^ 63) \<le> x \<and> x < 2 ^ 63"

lemma wrap64_id [simp]: "int64_range x \<Longrightarrow> wrap64 x = x"
  by (simp add: wrap64_def int64_range_def)

lemma wrap64_range [simp]: "int64_range (wrap64 x)"
proof -
  have "0 \<le> (x + 2 ^ 63) mod 2 ^ 64" and "(x + 2 ^ 63) mod 2 ^ 64 < 2 ^ 64" by simp_all
  then show ?thesis by (simp add: wrap64_def int64_range_def)
qed

lemma wrap64_add_left: "wrap64 (wrap64 x + y) = wrap64 (x + y)"
proof -
  have "(x + 2 ^ 63) mod 2 ^ 64 - 2 ^ 63 + y + 2 ^ 63 = (x + 2 ^ 63) mod 2 ^ 64 + (y :: int)"
    by simp
  then have "(wrap64 x + y + 2 ^ 63) mod 2 ^ 64 = ((x + 2 ^ 63) mod 2 ^ 64 + y) mod 2 ^ 64"
    by (simp only: wrap64_def)
  also have "\<dots> = (x + 2 ^ 63 + y) mod 2 ^ 64"
    by (rule mod_add_left_eq)
  also have "x + 2 ^ 63 + y = x + y + 2 ^ 63"
    by simp
  finally show ?thesis by (simp only: wrap64_def)
qed

lemma wrap64_add_right: "wrap64 (x + wrap64 y) = wrap64 (x + y)"
  using wrap64_add_left [of y x] by (simp add: add.commute)

text \<open>\<open>time.Time.Sub\<close> saturates at the bounds of \<open>time.Duration\<close>.\<close>

definition time_Sub :: "instant \<Rightarrow> instant \<Rightarrow> duration" where
  "time_Sub a b = max (- (2 ^ 63)) (min (2 ^ 63 - 1) (a - b))"

lemma time_Sub_exact: "int64_range (a - b) \<Longrightarrow> time_Sub a b = a - b"
  by (simp add: time_Sub_def int64_range_def)

lemma time_Sub_le_iff: "- (2 ^ 63) \<le> d \<Longrightarrow> d < 2 ^ 63 - 1 \<Longrightarrow> time_Sub a b \<le> d \<longleftrightarrow> a - b \<le> d"
  by (auto simp: time_Sub_def)

lemma time_Sub_ge_iff: "- (2 ^ 63) < d \<Longrightarrow> d < 2 ^ 63 \<Longrightarrow> d \<le> time_Sub a b \<longleftrightarrow> d \<le> a - b"
  by (auto simp: time_Sub_def)

text \<open>Go's integer division truncates towards zero; a zero divisor panics, so the callers
  guard it.\<close>

definition go_div :: "int \<Rightarrow> int \<Rightarrow> int" where
  "go_div a b = sgn a * sgn b * (\<bar>a\<bar> div \<bar>b\<bar>)"

lemma go_div_nonneg: "0 \<le> a \<Longrightarrow> 0 < b \<Longrightarrow> go_div a b = a div b"
  by (cases "a = 0") (simp_all add: go_div_def)

subsection \<open>Results\<close>

text \<open>A fallible operation returns \<open>Inl\<close> its error or \<open>Inr\<close> its value.\<close>

definition bindE :: "'e + 'a \<Rightarrow> ('a \<Rightarrow> 'e + 'b) \<Rightarrow> 'e + 'b" where
  "bindE m f = (case m of Inl e \<Rightarrow> Inl e | Inr a \<Rightarrow> f a)"

lemma bindE_simps [simp]: "bindE (Inl e) f = Inl e" "bindE (Inr a) f = f a"
  by (simp_all add: bindE_def)

lemma bindE_Inr_iff: "bindE m f = Inr b \<longleftrightarrow> (\<exists>a. m = Inr a \<and> f a = Inr b)"
  by (cases m) auto

lemma bindE_InrE [elim!]:
  assumes "bindE m f = Inr b"
  obtains a where "m = Inr a" and "f a = Inr b"
  using assms by (auto simp: bindE_Inr_iff)

text \<open>A loop whose body may return early with an error.\<close>

fun foldE :: "('a \<Rightarrow> 's \<Rightarrow> 'e + 's) \<Rightarrow> 'a list \<Rightarrow> 's \<Rightarrow> 'e + 's" where
  "foldE f [] s = Inr s"
| "foldE f (x # xs) s = bindE (f x s) (foldE f xs)"

lemma foldE_invariant:
  assumes "foldE f xs s = Inr s'" and "I s"
    and "\<And>x s s'. x \<in> set xs \<Longrightarrow> I s \<Longrightarrow> f x s = Inr s' \<Longrightarrow> I s'"
  shows "I s'"
  using assms
proof (induction xs arbitrary: s)
  case (Cons x xs)
  from Cons.prems(1) obtain s1 where s1: "f x s = Inr s1" "foldE f xs s1 = Inr s'" by auto
  have "I s1" using Cons.prems(2,3) s1(1) by auto
  with s1(2) show ?case using Cons.IH Cons.prems(3) by auto
qed simp

lemma foldE_total:
  assumes "I s" and "\<And>x s. x \<in> set xs \<Longrightarrow> I s \<Longrightarrow> \<exists>s'. f x s = Inr s' \<and> I s'"
  shows "\<exists>s'. foldE f xs s = Inr s' \<and> I s'"
  using assms
proof (induction xs arbitrary: s)
  case (Cons x xs)
  from Cons.prems obtain s1 where "f x s = Inr s1" and "I s1" by fastforce
  moreover from Cons.IH [OF this(2)] Cons.prems(2)
  obtain s' where "foldE f xs s1 = Inr s'" and "I s'" by auto
  ultimately show ?case by auto
qed simp

lemma foldE_append: "foldE f (xs @ ys) s = bindE (foldE f xs s) (foldE f ys)"
proof (induction xs arbitrary: s)
  case (Cons x xs)
  then show ?case by (cases "f x s") auto
qed simp

subsection \<open>Tables\<close>

text \<open>\<open>UPDATE t SET f WHERE P\<close>: rows keep their places.\<close>

definition update_where :: "('r \<Rightarrow> bool) \<Rightarrow> ('r \<Rightarrow> 'r) \<Rightarrow> 'r list \<Rightarrow> 'r list" where
  "update_where P f rows = map (\<lambda>r. if P r then f r else r) rows"

lemma length_update_where [simp]: "length (update_where P f rows) = length rows"
  by (simp add: update_where_def)

lemma update_where_Nil [simp]: "update_where P f [] = []"
  by (simp add: update_where_def)

lemma update_where_Cons [simp]:
  "update_where P f (r # rows) = (if P r then f r else r) # update_where P f rows"
  by (simp add: update_where_def)

lemma set_update_where: "set (update_where P f rows) = (\<lambda>r. if P r then f r else r) ` set rows"
  by (simp add: update_where_def)

lemma in_update_where:
  "r \<in> set (update_where P f rows) \<Longrightarrow> (\<exists>r0 \<in> set rows. P r0 \<and> r = f r0) \<or> r \<in> set rows \<and> \<not> P r"
  by (induction rows) (auto split: if_splits)

lemma update_whereE:
  assumes "r \<in> set (update_where P f rows)"
  obtains (updated) r0 where "r0 \<in> set rows" and "P r0" and "r = f r0"
    | (kept) "r \<in> set rows" and "\<not> P r"
  using in_update_where [OF assms] by blast

lemma map_update_where:
  "(\<And>r. r \<in> set rows \<Longrightarrow> P r \<Longrightarrow> k (f r) = k r) \<Longrightarrow> map k (update_where P f rows) = map k rows"
  by (simp add: update_where_def)

lemma filter_update_where:
  "(\<And>r. r \<in> set rows \<Longrightarrow> P r \<Longrightarrow> Q (f r) = Q r) \<Longrightarrow>
    filter Q (update_where P f rows) = update_where P f (filter Q rows)"
  by (induction rows) auto

lemma update_where_none: "(\<And>r. r \<in> set rows \<Longrightarrow> \<not> P r) \<Longrightarrow> update_where P f rows = rows"
  by (induction rows) auto

text \<open>\<open>ORDER BY k LIMIT 1\<close>, ascending and descending: the first row with the least or the
  greatest key.\<close>

fun first_min :: "('r \<Rightarrow> 'k::linorder) \<Rightarrow> 'r list \<Rightarrow> 'r option" where
  "first_min k [] = None"
| "first_min k (r # rs) =
     (case first_min k rs of None \<Rightarrow> Some r | Some m \<Rightarrow> Some (if k m < k r then m else r))"

fun first_max :: "('r \<Rightarrow> 'k::linorder) \<Rightarrow> 'r list \<Rightarrow> 'r option" where
  "first_max k [] = None"
| "first_max k (r # rs) =
     (case first_max k rs of None \<Rightarrow> Some r | Some m \<Rightarrow> Some (if k r < k m then m else r))"

lemma first_min_None [simp]: "first_min k rs = None \<longleftrightarrow> rs = []"
  by (cases rs) (auto split: option.splits)

lemma first_max_None [simp]: "first_max k rs = None \<longleftrightarrow> rs = []"
  by (cases rs) (auto split: option.splits)

lemma first_min_in: "first_min k rs = Some m \<Longrightarrow> m \<in> set rs"
  by (induction rs arbitrary: m) (auto split: option.splits if_splits)

lemma first_max_in: "first_max k rs = Some m \<Longrightarrow> m \<in> set rs"
  by (induction rs arbitrary: m) (auto split: option.splits if_splits)

lemma first_min_le: "first_min k rs = Some m \<Longrightarrow> r \<in> set rs \<Longrightarrow> k m \<le> k r"
proof (induction rs arbitrary: m)
  case (Cons a rs)
  then show ?case
    by (cases "first_min k rs") (auto split: if_splits intro: order_trans less_imp_le)
qed simp

lemma first_max_ge: "first_max k rs = Some m \<Longrightarrow> r \<in> set rs \<Longrightarrow> k r \<le> k m"
proof (induction rs arbitrary: m)
  case (Cons a rs)
  then show ?case
    by (cases "first_max k rs") (auto split: if_splits intro: order_trans less_imp_le)
qed simp

lemma find_eq_None: "find P xs = None \<longleftrightarrow> (\<forall>x \<in> set xs. \<not> P x)"
  by (auto simp: find_None_iff)

lemma find_SomeD: "find P xs = Some x \<Longrightarrow> x \<in> set xs \<and> P x"
  by (induction xs) (auto split: if_splits)

lemma find_distinct_key:
  assumes "distinct (map k xs)" and "x \<in> set xs"
  shows "find (\<lambda>y. k y = k x) xs = Some x"
  using assms by (induction xs) auto

lemma find_update_where:
  assumes "\<And>r. r \<in> set rows \<Longrightarrow> P r \<Longrightarrow> Q (f r) = Q r"
  shows "find Q (update_where P f rows) = map_option (\<lambda>r. if P r then f r else r) (find Q rows)"
  using assms by (induction rows) auto

end
