(* ===== verification/Go_Strings.thy ===== *)
theory Go_Strings
  imports Cairn_Prelude
begin

text \<open>
  Go strings are byte sequences: a \<open>string\<close> here is a list of bytes, and text outside ASCII
  is written as its UTF-8 encoding. The theory models the operations of the packages
  \<^verbatim>\<open>strings\<close> and \<^verbatim>\<open>unicode/utf8\<close> that the sources use, on top of the decoding of a
  string into runes: \<open>TrimSpace\<close>, \<open>Fields\<close>, \<open>Join\<close>, \<open>Split\<close>, \<open>len([]rune(s))\<close> and
  the conversion \<open>string([]rune(s)[:n])\<close>.
\<close>

subsection \<open>Decoding\<close>

definition in_range :: "nat \<Rightarrow> nat \<Rightarrow> char \<Rightarrow> bool" where
  "in_range lo hi c \<longleftrightarrow> lo \<le> of_char c \<and> of_char c \<le> (hi :: nat)"

abbreviation cont_byte :: "char \<Rightarrow> bool" where
  "cont_byte \<equiv> in_range 128 191"

text \<open>The first byte gives the length of an encoding, \<open>0\<close> when it starts none.\<close>

definition lead_width :: "char \<Rightarrow> nat" where
  "lead_width b =
     (if in_range 0 127 b then 1 else if in_range 194 223 b then 2
      else if in_range 224 239 b then 3 else if in_range 240 244 b then 4 else 0)"

text \<open>The accepted second bytes exclude overlong encodings, surrogates and values above
  U+10FFFF; the others are continuation bytes.\<close>

fun tail_ok :: "char \<Rightarrow> string \<Rightarrow> bool" where
  "tail_ok b [] = True"
| "tail_ok b (c # cs) =
     ((if of_char b = (224 :: nat) then in_range 160 191 c
       else if of_char b = (237 :: nat) then in_range 128 159 c
       else if of_char b = (240 :: nat) then in_range 144 191 c
       else if of_char b = (244 :: nat) then in_range 128 143 c
       else cont_byte c) \<and> list_all cont_byte cs)"

text \<open>The number of bytes of the first rune, \<open>0\<close> when the first byte starts no valid
  encoding (\<open>utf8.DecodeRune\<close> then consumes one byte).\<close>

fun rune_width :: "string \<Rightarrow> nat" where
  "rune_width [] = 0"
| "rune_width (b # bs) =
     (let n = lead_width b; cs = take (n - 1) bs
      in if length cs = n - 1 \<and> tail_ok b cs then n else 0)"

declare rune_width.simps(2) [simp del]

text \<open>The byte chunks of the runes of a string, in order; an invalid byte is a chunk of its
  own.\<close>

function rune_chunks :: "string \<Rightarrow> string list" where
  "rune_chunks [] = []"
| "rune_chunks (b # bs) =
     (let n = max 1 (rune_width (b # bs)) in take n (b # bs) # rune_chunks (drop n (b # bs)))"
  by pat_completeness auto
termination
  by (relation "measure length") auto

declare rune_chunks.simps(2) [simp del]

lemma concat_rune_chunks [simp]: "concat (rune_chunks s) = s"
  by (induction s rule: rune_chunks.induct) (simp_all add: rune_chunks.simps Let_def)

lemma rune_chunks_nonempty: "c \<in> set (rune_chunks s) \<Longrightarrow> c \<noteq> []"
  by (induction s rule: rune_chunks.induct) (auto simp: rune_chunks.simps Let_def)

lemma rune_chunks_Nil_iff [simp]: "rune_chunks s = [] \<longleftrightarrow> s = []"
  by (cases s) (simp_all add: rune_chunks.simps Let_def)

definition rune_count :: "string \<Rightarrow> nat" where
  "rune_count s = length (rune_chunks s)"

lemma rune_count_le_length: "rune_count s \<le> length s"
proof (induction s rule: rune_chunks.induct)
  case (2 b bs)
  then show ?case by (auto simp: rune_count_def rune_chunks.simps Let_def)
qed (simp add: rune_count_def)

text \<open>Pure ASCII: one rune per byte.\<close>

definition ascii :: "string \<Rightarrow> bool" where
  "ascii s \<longleftrightarrow> list_all (in_range 0 127) s"

lemma ascii_simps [simp]: "ascii []" "ascii (c # s) \<longleftrightarrow> in_range 0 127 c \<and> ascii s"
  by (simp_all add: ascii_def)

lemma rune_chunks_ascii: "ascii s \<Longrightarrow> rune_chunks s = map (\<lambda>c. [c]) s"
  by (induction s) (auto simp: rune_chunks.simps(2) rune_width.simps lead_width_def Let_def)

subsection \<open>White space\<close>

text \<open>\<open>unicode.IsSpace\<close> on the chunk of a rune.\<close>

definition is_space :: "string \<Rightarrow> bool" where
  "is_space c \<longleftrightarrow>
     c \<in> {[CHR 0x09], [CHR 0x0A], [CHR 0x0B], [CHR 0x0C], [CHR 0x0D], [CHR 0x20],
          [CHR 0xC2, CHR 0x85], [CHR 0xC2, CHR 0xA0], [CHR 0xE1, CHR 0x9A, CHR 0x80],
          [CHR 0xE2, CHR 0x80, CHR 0xA8], [CHR 0xE2, CHR 0x80, CHR 0xA9],
          [CHR 0xE2, CHR 0x80, CHR 0xAF], [CHR 0xE2, CHR 0x81, CHR 0x9F],
          [CHR 0xE3, CHR 0x80, CHR 0x80]} \<or>
     (case c of [x, y, z] \<Rightarrow> x = CHR 0xE2 \<and> y = CHR 0x80 \<and> in_range 128 138 z | _ \<Rightarrow> False)"

definition trim_chunks :: "string list \<Rightarrow> string list" where
  "trim_chunks cs = rev (dropWhile is_space (rev (dropWhile is_space cs)))"

definition TrimSpace :: "string \<Rightarrow> string" where
  "TrimSpace s = concat (trim_chunks (rune_chunks s))"

definition blank :: "string \<Rightarrow> bool" where
  "blank s \<longleftrightarrow> list_all is_space (rune_chunks s)"

lemma trim_chunks_Nil_iff: "trim_chunks cs = [] \<longleftrightarrow> list_all is_space cs"
proof (cases "dropWhile is_space cs")
  case Nil
  then have "list_all is_space cs" by (simp add: list_all_iff dropWhile_eq_Nil_conv)
  moreover have "trim_chunks cs = []" unfolding trim_chunks_def Nil by simp
  ultimately show ?thesis by simp
next
  case (Cons d ds)
  then have "d \<in> set (dropWhile is_space cs)" by simp
  then have "d \<in> set cs" by (rule set_dropWhileD)
  moreover from Cons have "\<not> is_space d" by (simp add: dropWhile_eq_Cons_conv)
  ultimately show ?thesis using Cons
    by (auto simp: trim_chunks_def list_all_iff dropWhile_eq_Nil_conv)
qed

lemma set_trim_chunks: "set (trim_chunks cs) \<subseteq> set cs"
  unfolding trim_chunks_def by (metis set_dropWhileD set_rev subsetI)

lemma TrimSpace_Nil_iff: "TrimSpace s = [] \<longleftrightarrow> blank s"
proof -
  have "c \<noteq> []" if "c \<in> set (trim_chunks (rune_chunks s))" for c
    using that set_trim_chunks rune_chunks_nonempty by blast
  then have "TrimSpace s = [] \<longleftrightarrow> trim_chunks (rune_chunks s) = []"
    by (cases "trim_chunks (rune_chunks s)") (auto simp: TrimSpace_def)
  then show ?thesis by (simp add: trim_chunks_Nil_iff blank_def)
qed

lemma TrimSpace_Nil [simp]: "TrimSpace [] = []"
  by (simp add: TrimSpace_Nil_iff blank_def)

subsection \<open>Fields and Join\<close>

fun fields_chunks :: "string list \<Rightarrow> string list \<Rightarrow> string list list" where
  "fields_chunks [] acc = (if acc = [] then [] else [acc])"
| "fields_chunks (c # cs) acc =
     (if is_space c then (if acc = [] then [] else [acc]) @ fields_chunks cs []
      else fields_chunks cs (acc @ [c]))"

definition Fields :: "string \<Rightarrow> string list" where
  "Fields s = map concat (fields_chunks (rune_chunks s) [])"

fun Join :: "string list \<Rightarrow> string \<Rightarrow> string" where
  "Join [] sep = []"
| "Join [x] sep = x"
| "Join (x # y # ys) sep = x @ sep @ Join (y # ys) sep"

text \<open>The conversion \<open>[]rune(s)\<close>: an invalid byte becomes U+FFFD.\<close>

definition rune_of_chunk :: "string \<Rightarrow> string" where
  "rune_of_chunk c = (if rune_width c = length c then c else [CHR 0xEF, CHR 0xBF, CHR 0xBD])"

definition runes :: "string \<Rightarrow> string list" where
  "runes s = map rune_of_chunk (rune_chunks s)"

lemma length_runes [simp]: "length (runes s) = rune_count s"
  by (simp add: runes_def rune_count_def)

text \<open>U+2026, the ellipsis that marks a truncated text.\<close>

definition ellipsis :: string where
  "ellipsis = [CHR 0xE2, CHR 0x80, CHR 0xA6]"

definition valid_rune :: "string \<Rightarrow> bool" where
  "valid_rune c \<longleftrightarrow> c \<noteq> [] \<and> rune_width c = length c"

lemma rune_width_append:
  "0 < rune_width s \<Longrightarrow> rune_width (s @ t) = rune_width s"
  by (cases s) (auto simp: rune_width.simps Let_def split: if_splits)

lemma rune_width_le: "rune_width s \<le> length s"
  by (cases s) (auto simp: rune_width.simps Let_def min_def split: if_splits)

lemma rune_chunks_valid_Cons: "valid_rune c \<Longrightarrow> rune_chunks (c @ s) = c # rune_chunks s"
proof -
  assume c: "valid_rune c"
  then obtain b bs where b: "c = b # bs" by (auto simp: valid_rune_def neq_Nil_conv)
  from c have "rune_width (c @ s) = length c" and "0 < length c"
    using rune_width_append [of c s] by (auto simp: valid_rune_def)
  then show ?thesis
    using b rune_chunks.simps(2) [of b "bs @ s"] by (auto simp: Let_def max_def)
qed

lemma rune_chunks_concat_valid: "list_all valid_rune cs \<Longrightarrow> rune_chunks (concat cs) = cs"
  by (induction cs) (simp_all add: rune_chunks_valid_Cons)

lemma valid_rune_of_chunk: "c \<in> set (rune_chunks s) \<Longrightarrow> valid_rune (rune_of_chunk c)"
  using rune_chunks_nonempty [of c s]
  by (auto simp: valid_rune_def rune_of_chunk_def rune_width.simps lead_width_def Let_def in_range_def)

lemma valid_runes: "list_all valid_rune (runes s)"
  by (auto simp: runes_def list_all_iff valid_rune_of_chunk)

lemma runes_concat_valid: "list_all valid_rune cs \<Longrightarrow> runes (concat cs) = cs"
  by (induction cs) (auto simp: runes_def rune_chunks_valid_Cons rune_of_chunk_def valid_rune_def)

lemma valid_ellipsis [simp]: "valid_rune ellipsis"
  by (simp add: valid_rune_def ellipsis_def rune_width.simps lead_width_def Let_def in_range_def)

subsection \<open>Words and single spaces\<close>

text \<open>A rune encoding never extends over a byte that is no continuation byte, so decoding
  splits there.\<close>

lemma tail_ok_cont: "tail_ok b cs \<Longrightarrow> list_all cont_byte cs"
  by (cases cs) (auto simp: in_range_def split: if_splits)

lemma rune_width_stop:
  assumes "x \<noteq> []" and "rune_width x = 0" and "s = [] \<or> \<not> cont_byte (hd s)"
  shows "rune_width (x @ s) = 0"
proof (cases x)
  case (Cons b bs)
  let ?n = "lead_width b"
  show ?thesis
  proof (cases "?n - 1 \<le> length bs")
    case True
    then show ?thesis using assms(2) Cons by (auto simp: rune_width.simps Let_def split: if_splits)
  next
    case False
    then show ?thesis
      using Cons assms(3)
      by (cases s) (auto simp: rune_width.simps Let_def take_Cons' dest!: tail_ok_cont)
  qed
qed (use assms in simp)

lemma rune_chunks_split:
  assumes "s = [] \<or> \<not> cont_byte (hd s)"
  shows "rune_chunks (x @ s) = rune_chunks x @ rune_chunks s"
proof (induction x rule: rune_chunks.induct)
  case (2 b bs)
  let ?n = "max 1 (rune_width (b # bs))"
  have w: "rune_width (b # bs @ s) = rune_width (b # bs)"
    using rune_width_append [of "b # bs" s] rune_width_stop [OF _ _ assms, of "b # bs"]
    by (cases "rune_width (b # bs)") auto
  have le: "?n \<le> length (b # bs)" using rune_width_le [of "b # bs"] by auto
  have "rune_chunks (b # bs @ s) = take ?n (b # bs @ s) # rune_chunks (drop ?n (b # bs @ s))"
    by (simp only: rune_chunks.simps(2) w Let_def)
  also have "drop ?n (b # bs @ s) = drop ?n (b # bs) @ s"
    using le drop_append [of ?n "b # bs" s] by simp
  also have "take ?n (b # bs @ s) = take ?n (b # bs)"
    using le take_append [of ?n "b # bs" s] by simp
  finally show ?case using "2.IH" [OF refl] by (simp add: rune_chunks.simps(2) Let_def)
qed simp

definition space :: string where "space = [CHR '' '']"

lemma is_space_space [simp]: "is_space space"
  by (simp add: is_space_def space_def)

lemma valid_space [simp]: "valid_rune space"
  by (simp add: valid_rune_def space_def rune_width.simps lead_width_def Let_def in_range_def)

fun spaced :: "string list list \<Rightarrow> string list" where
  "spaced [] = []"
| "spaced [w] = w"
| "spaced (w # v # vs) = w @ space # spaced (v # vs)"

definition words :: "string list list \<Rightarrow> bool" where
  "words ws \<longleftrightarrow> (\<forall>w \<in> set ws. w \<noteq> [] \<and> (\<forall>c \<in> set w. \<not> is_space c))"

lemma words_simps [simp]:
  "words []" "words (w # ws) \<longleftrightarrow> w \<noteq> [] \<and> (\<forall>c \<in> set w. \<not> is_space c) \<and> words ws"
  by (auto simp: words_def)

lemma words_append [simp]: "words (vs @ ws) \<longleftrightarrow> words vs \<and> words ws"
  by (auto simp: words_def)

lemma words_fields: "(\<forall>c \<in> set acc. \<not> is_space c) \<Longrightarrow> words (fields_chunks cs acc)"
  by (induction cs acc rule: fields_chunks.induct) auto

lemma fields_chunks_word:
  "(\<forall>c \<in> set w. \<not> is_space c) \<Longrightarrow> fields_chunks (w @ cs) acc = fields_chunks cs (acc @ w)"
  by (induction w arbitrary: acc) auto

lemma fields_chunks_spaced: "words ws \<Longrightarrow> fields_chunks (spaced ws) [] = ws"
proof (induction ws rule: spaced.induct)
  case (2 w)
  then show ?case using fields_chunks_word [of w "[]" "[]"] by simp
next
  case (3 w v vs)
  then show ?case by (simp add: fields_chunks_word)
qed simp

lemma Join_concat: "Join (map concat ws) space = concat (spaced ws)"
  by (induction ws rule: spaced.induct) auto

lemma map_spaced: "f space = space \<Longrightarrow> map f (spaced ws) = spaced (map (map f) ws)"
  by (induction ws rule: spaced.induct) auto

lemma take_spaced:
  assumes "words ws" and "\<not> is_space e"
  shows "\<exists>vs. vs \<noteq> [] \<and> words vs \<and> take n (spaced ws) @ [e] = spaced vs"
  using assms(1)
proof (induction ws arbitrary: n rule: spaced.induct)
  case 1
  show ?case using assms(2) by (intro exI [of _ "[[e]]"]) simp
next
  case (2 w)
  then show ?case using assms(2)
    by (intro exI [of _ "[take n w @ [e]]"]) (auto dest: in_set_takeD)
next
  case (3 w v vs)
  show ?case
  proof (cases "n \<le> length w")
    case True
    then show ?thesis using assms(2) 3(2)
      by (intro exI [of _ "[take n w @ [e]]"]) (auto dest: in_set_takeD)
  next
    case False
    define m where "m = n - Suc (length w)"
    with False have m: "n = length w + Suc m" by simp
    have "words (v # vs)" using "3.prems" by simp
    from "3.IH" [OF this, of m] obtain us
      where us: "us \<noteq> []" "words us" "take m (spaced (v # vs)) @ [e] = spaced us" by blast
    then obtain u us' where u: "us = u # us'" by (cases us) auto
    have "take n (spaced (w # v # vs)) @ [e] = w @ space # (take m (spaced (v # vs)) @ [e])"
      by (simp add: m)
    also have "\<dots> = spaced (w # us)" using us(3) u by simp
    finally show ?thesis using us(2) 3(2) by (intro exI [of _ "w # us"]) simp
  qed
qed

text \<open>The chunks of \<open>strings.Join(strings.Fields(s), " ")\<close>.\<close>

lemma space_not_cont: "is_space c \<Longrightarrow> \<not> cont_byte (hd (c @ s))"
  by (auto simp: is_space_def in_range_def split: list.splits)

lemma rune_chunks_suffix: "rune_chunks s = cs @ ds \<Longrightarrow> rune_chunks (concat ds) = ds"
proof (induction s arbitrary: cs rule: rune_chunks.induct)
  case (2 b bs)
  show ?case
  proof (cases cs)
    case Nil
    with "2.prems" have "concat ds = b # bs" using concat_rune_chunks [of "b # bs"] by simp
    with "2.prems" Nil show ?thesis by simp
  next
    case (Cons c cs')
    with 2 show ?thesis by (auto simp: rune_chunks.simps(2) Let_def)
  qed
qed simp

lemma rune_chunks_prefix:
  assumes "rune_chunks (concat cs) = cs" and "cs = ws @ ds" and "ds = [] \<or> is_space (hd ds)"
  shows "rune_chunks (concat ws) = ws"
proof -
  have ds: "rune_chunks (concat ds) = ds" using assms rune_chunks_suffix by blast
  have "concat ds = [] \<or> \<not> cont_byte (hd (concat ds))"
    using assms(3) space_not_cont by (cases ds) auto
  from rune_chunks_split [OF this, of "concat ws"] assms ds show ?thesis by simp
qed

definition decoded :: "string list \<Rightarrow> bool" where
  "decoded cs \<longleftrightarrow> rune_chunks (concat cs) = cs"

lemma decoded_spaced:
  assumes "\<forall>w \<in> set ws. decoded w" shows "decoded (spaced ws)"
  using assms
proof (induction ws rule: spaced.induct)
  case (3 w v vs)
  have "\<not> cont_byte (hd (concat (space # spaced (v # vs))))"
    using space_not_cont [of space] by simp
  from rune_chunks_split [OF disjI2 [OF this], of "concat w"] 3 show ?case
    using rune_chunks_valid_Cons [OF valid_space, of "concat (spaced (v # vs))"]
    by (simp add: decoded_def)
qed (simp_all add: decoded_def)

lemma decoded_fields:
  assumes "decoded (acc @ cs)" and "\<forall>c \<in> set acc. \<not> is_space c"
  shows "\<forall>w \<in> set (fields_chunks cs acc). decoded w"
  using assms
proof (induction cs acc rule: fields_chunks.induct)
  case (2 c cs acc)
  show ?case
  proof (cases "is_space c")
    case True
    have "decoded acc" using "2.prems"(1) True rune_chunks_prefix [of "acc @ c # cs" acc "c # cs"]
      by (simp add: decoded_def)
    moreover have "decoded ([] @ cs)"
      using "2.prems"(1) rune_chunks_suffix [of "concat (acc @ c # cs)" "acc @ [c]" cs]
      by (simp add: decoded_def)
    ultimately show ?thesis using True "2.IH"(1) by auto
  next
    case False
    then show ?thesis using "2.IH"(2) "2.prems" by auto
  qed
qed auto

lemma rune_chunks_Join_Fields:
  "rune_chunks (Join (Fields s) space) = spaced (fields_chunks (rune_chunks s) [])"
proof -
  have "decoded ([] @ rune_chunks s)" by (simp add: decoded_def)
  from decoded_spaced [OF decoded_fields [OF this]] show ?thesis
    by (simp add: decoded_def Fields_def Join_concat)
qed

subsection \<open>Decimal integers, as \<open>%d\<close> prints them\<close>

fun show_nat :: "nat \<Rightarrow> string" where
  "show_nat n = (if n < 10 then [char_of (48 + n)] else show_nat (n div 10) @ [char_of (48 + n mod 10)])"

declare show_nat.simps [simp del]

definition show_int :: "int \<Rightarrow> string" where
  "show_int i = (if i < 0 then CHR ''-'' # show_nat (nat (- i)) else show_nat (nat i))"

end
