(* ===== verification/Go_Json.thy ===== *)
theory Go_Json
  imports Go_Strings
begin

text \<open>
  \<open>json.Valid\<close> of Go's \<^verbatim>\<open>encoding/json\<close>: the byte-at-a-time scanner of the standard
  library, with its stack of open objects and arrays, and the JSON values the stores keep
  as metadata.
\<close>

datatype jvalue = JNull | JBool bool | JInt int | JString string
  | JArray "jvalue list" | JObject "(string \<times> jvalue) list"

type_synonym metadata = "(string \<times> jvalue) list"

datatype frame = ObjectKey | ObjectValue | ArrayValue

datatype scan =
    BeginValue | BeginValueOrEmpty | BeginString | BeginStringOrEmpty | EndValue | EndTop
  | InString | InEsc | InEscU nat
  | Neg | Digits1 | Digits0 | Dot | Dot0 | Exp | ExpSign | Exp0
  | Literal string

definition json_space :: "char \<Rightarrow> bool" where
  "json_space c \<longleftrightarrow> c \<in> {CHR '' '', CHR 0x09, CHR 0x0D, CHR 0x0A}"

definition is_digit :: "char \<Rightarrow> bool" where
  "is_digit c \<longleftrightarrow> in_range 48 57 c"

definition is_hex :: "char \<Rightarrow> bool" where
  "is_hex c \<longleftrightarrow> is_digit c \<or> in_range 97 102 c \<or> in_range 65 70 c"

text \<open>A step returns the next state and stack, \<open>None\<close> for a syntax error. Nesting deeper
  than 10000 is refused.\<close>

definition push_frame :: "frame \<Rightarrow> scan \<Rightarrow> frame list \<Rightarrow> (scan \<times> frame list) option" where
  "push_frame f st stack = (if length stack < 10000 then Some (st, f # stack) else None)"

definition pop_frame :: "frame list \<Rightarrow> scan \<times> frame list" where
  "pop_frame stack = (let rest = tl stack in (if rest = [] then EndTop else EndValue, rest))"

fun end_value :: "frame list \<Rightarrow> char \<Rightarrow> (scan \<times> frame list) option" where
  "end_value [] c = (if json_space c then Some (EndTop, []) else None)"
| "end_value (f # fs) c =
     (if json_space c then Some (EndValue, f # fs)
      else case f of
        ObjectKey \<Rightarrow> if c = CHR '':'' then Some (BeginValue, ObjectValue # fs) else None
      | ObjectValue \<Rightarrow>
          if c = CHR '','' then Some (BeginString, ObjectKey # fs)
          else if c = CHR ''}'' then Some (pop_frame (f # fs)) else None
      | ArrayValue \<Rightarrow>
          if c = CHR '','' then Some (BeginValue, f # fs)
          else if c = CHR '']'' then Some (pop_frame (f # fs)) else None)"

definition begin_value :: "frame list \<Rightarrow> char \<Rightarrow> (scan \<times> frame list) option" where
  "begin_value fs c =
     (if json_space c then Some (BeginValue, fs)
      else if c = CHR ''{'' then push_frame ObjectKey BeginStringOrEmpty fs
      else if c = CHR ''['' then push_frame ArrayValue BeginValueOrEmpty fs
      else if c = CHR 0x22 then Some (InString, fs)
      else if c = CHR ''-'' then Some (Neg, fs)
      else if c = CHR ''0'' then Some (Digits0, fs)
      else if c = CHR ''t'' then Some (Literal ''rue'', fs)
      else if c = CHR ''f'' then Some (Literal ''alse'', fs)
      else if c = CHR ''n'' then Some (Literal ''ull'', fs)
      else if is_digit c then Some (Digits1, fs)
      else None)"

definition begin_string :: "frame list \<Rightarrow> char \<Rightarrow> (scan \<times> frame list) option" where
  "begin_string fs c =
     (if json_space c then Some (BeginString, fs)
      else if c = CHR 0x22 then Some (InString, fs) else None)"

definition state0 :: "frame list \<Rightarrow> char \<Rightarrow> (scan \<times> frame list) option" where
  "state0 fs c =
     (if c = CHR ''.'' then Some (Dot, fs)
      else if c = CHR ''e'' \<or> c = CHR ''E'' then Some (Exp, fs) else end_value fs c)"

definition exp_sign :: "frame list \<Rightarrow> char \<Rightarrow> (scan \<times> frame list) option" where
  "exp_sign fs c = (if is_digit c then Some (Exp0, fs) else None)"

fun scan_step :: "scan \<Rightarrow> frame list \<Rightarrow> char \<Rightarrow> (scan \<times> frame list) option" where
  "scan_step BeginValue fs c = begin_value fs c"
| "scan_step BeginValueOrEmpty fs c =
     (if json_space c then Some (BeginValueOrEmpty, fs)
      else if c = CHR '']'' then end_value fs c else begin_value fs c)"
| "scan_step BeginString fs c = begin_string fs c"
| "scan_step BeginStringOrEmpty fs c =
     (if json_space c then Some (BeginStringOrEmpty, fs)
      else if c = CHR ''}'' then end_value (ObjectValue # tl fs) c else begin_string fs c)"
| "scan_step EndValue fs c = end_value fs c"
| "scan_step EndTop fs c = (if json_space c then Some (EndTop, fs) else None)"
| "scan_step InString fs c =
     (if c = CHR 0x22 then Some (EndValue, fs)
      else if c = CHR 0x5C then Some (InEsc, fs)
      else if in_range 0 31 c then None else Some (InString, fs))"
| "scan_step InEsc fs c =
     (if c \<in> {CHR ''b'', CHR ''f'', CHR ''n'', CHR ''r'', CHR ''t'', CHR 0x5C, CHR ''/'', CHR 0x22}
      then Some (InString, fs) else if c = CHR ''u'' then Some (InEscU 3, fs) else None)"
| "scan_step (InEscU n) fs c =
     (if is_hex c then Some (if n = 0 then InString else InEscU (n - 1), fs) else None)"
| "scan_step Neg fs c =
     (if c = CHR ''0'' then Some (Digits0, fs)
      else if is_digit c then Some (Digits1, fs) else None)"
| "scan_step Digits1 fs c = (if is_digit c then Some (Digits1, fs) else state0 fs c)"
| "scan_step Digits0 fs c = state0 fs c"
| "scan_step Dot fs c = (if is_digit c then Some (Dot0, fs) else None)"
| "scan_step Dot0 fs c =
     (if is_digit c then Some (Dot0, fs)
      else if c = CHR ''e'' \<or> c = CHR ''E'' then Some (Exp, fs) else end_value fs c)"
| "scan_step Exp fs c =
     (if c = CHR ''+'' \<or> c = CHR ''-'' then Some (ExpSign, fs) else exp_sign fs c)"
| "scan_step ExpSign fs c = exp_sign fs c"
| "scan_step Exp0 fs c = (if is_digit c then Some (Exp0, fs) else end_value fs c)"
| "scan_step (Literal w) fs c =
     (case w of [] \<Rightarrow> None
      | x # xs \<Rightarrow> if c = x then Some (if xs = [] then EndValue else Literal xs, fs) else None)"

fun scan_all :: "scan \<Rightarrow> frame list \<Rightarrow> string \<Rightarrow> (scan \<times> frame list) option" where
  "scan_all st fs [] = Some (st, fs)"
| "scan_all st fs (c # cs) =
     (case scan_step st fs c of None \<Rightarrow> None | Some (st', fs') \<Rightarrow> scan_all st' fs' cs)"

text \<open>At the end of the input the scanner is fed one space; it must then be at the top.\<close>

definition json_Valid :: "string \<Rightarrow> bool" where
  "json_Valid s =
     (case scan_all BeginValue [] s of None \<Rightarrow> False
      | Some (st, fs) \<Rightarrow> st = EndTop \<or> (case scan_step st fs (CHR '' '') of
          Some (EndTop, _) \<Rightarrow> True | _ \<Rightarrow> False))"

lemma json_Valid_empty_object: "json_Valid ''{}''"
  by code_simp

lemma json_Valid_empty [simp]: "\<not> json_Valid ''''"
  by code_simp

end
