(* ===== verification/Domain.thy ===== *)
theory Domain
  imports Go_Json "HOL-Library.Multiset"
begin

text \<open>
  The package \<^verbatim>\<open>internal/domain\<close>: the Sources and their validation, the Trigger policy
  that turns consecutive Observations into a degradation or a recovery, the counters and
  the measures derived from them, and the latency profile.

  Go's \<open>int\<close>, \<open>int64\<close> and \<open>time.Duration\<close> are 64-bit: sums and products are taken modulo
  \<open>2 ^ 64\<close> by \<^const>\<open>wrap64\<close>. Ratios of two counters are \<open>float64\<close> in the code and exact
  rationals here.
\<close>

subsection \<open>Sources and Observations (\<^verbatim>\<open>monitoring.go\<close>)\<close>

definition MinimumInterval :: duration where "MinimumInterval = 20 * second"
definition MaximumInterval :: duration where "MaximumInterval = 24 * hour"

abbreviation SourceHTTP :: string where "SourceHTTP \<equiv> ''http''"
abbreviation SourceTCP :: string where "SourceTCP \<equiv> ''tcp''"
abbreviation SourceDNS :: string where "SourceDNS \<equiv> ''dns''"
abbreviation SourceICMP :: string where "SourceICMP \<equiv> ''icmp''"
abbreviation SourceHeartbeat :: string where "SourceHeartbeat \<equiv> ''heartbeat''"

definition SourceKind_Valid :: "string \<Rightarrow> bool" where
  "SourceKind_Valid kind \<longleftrightarrow>
     kind \<in> {SourceHTTP, SourceTCP, SourceDNS, SourceICMP, SourceHeartbeat}"

type_synonym outcome = string
abbreviation OutcomeHealthy :: outcome where "OutcomeHealthy \<equiv> ''healthy''"
abbreviation OutcomeUnhealthy :: outcome where "OutcomeUnhealthy \<equiv> ''unhealthy''"
abbreviation OutcomeUnknown :: outcome where "OutcomeUnknown \<equiv> ''unknown''"

record Source =
  src_ID :: string
  src_TargetID :: string
  src_Name :: string
  src_Kind :: string
  src_Interval :: duration
  src_Timeout :: duration
  src_Config :: string
  src_LastSignalAt :: "instant option"
  src_LastSignalOutcome :: "outcome option"
  src_LastObservedAt :: "instant option"

datatype source_error = SourceIDRequired | TargetIDRequired | UnsupportedKind string
  | IntervalOutOfRange | BadTimeout | BadConfig

definition Source_Validate :: "Source \<Rightarrow> source_error + unit" where
  "Source_Validate source =
     (if src_ID source = '''' then Inl SourceIDRequired
      else if src_TargetID source = '''' then Inl TargetIDRequired
      else if \<not> SourceKind_Valid (src_Kind source) then Inl (UnsupportedKind (src_Kind source))
      else if src_Interval source < MinimumInterval \<or> MaximumInterval < src_Interval source
        then Inl IntervalOutOfRange
      else if src_Timeout source \<le> 0 \<or> src_Interval source < src_Timeout source
        then Inl BadTimeout
      else if \<not> json_Valid (src_Config source) then Inl BadConfig
      else Inr ())"

record Observation =
  obs_SourceID :: string
  obs_TargetID :: string
  obs_ObservedAt :: instant
  obs_Outcome :: outcome
  obs_Latency :: duration
  obs_Reason :: string
  obs_Message :: string
  obs_Details :: metadata

text \<open>\<open>time.Now\<close> is the argument \<open>now\<close>; \<open>time.Since\<close> is a subtraction from it.\<close>

definition NewObservation :: "Source \<Rightarrow> outcome \<Rightarrow> instant \<Rightarrow> instant \<Rightarrow> Observation" where
  "NewObservation source oc startedAt now =
     \<lparr>obs_SourceID = src_ID source, obs_TargetID = src_TargetID source, obs_ObservedAt = now,
      obs_Outcome = oc, obs_Latency = time_Sub now startedAt, obs_Reason = '''',
      obs_Message = '''', obs_Details = []\<rparr>"

subsection \<open>The Trigger policy (\<^verbatim>\<open>trigger.go\<close>)\<close>

definition MinimumThreshold :: int where "MinimumThreshold = 1"
definition MaximumThreshold :: int where "MaximumThreshold = 10"

record TriggerPolicy =
  FailureThreshold :: int
  RecoveryThreshold :: int

datatype policy_error = BadFailureThreshold | BadRecoveryThreshold

definition TriggerPolicy_Validate :: "TriggerPolicy \<Rightarrow> policy_error + unit" where
  "TriggerPolicy_Validate policy =
     (if FailureThreshold policy < MinimumThreshold \<or> MaximumThreshold < FailureThreshold policy
        then Inl BadFailureThreshold
      else if RecoveryThreshold policy < MinimumThreshold \<or> MaximumThreshold < RecoveryThreshold policy
        then Inl BadRecoveryThreshold
      else Inr ())"

record TriggerStreaks =
  st_Unhealthy :: int
  st_Healthy :: int

definition no_streaks :: TriggerStreaks where
  "no_streaks = \<lparr>st_Unhealthy = 0, st_Healthy = 0\<rparr>"

record TriggerDecision =
  Streaks :: TriggerStreaks
  Triggered :: bool
  Recovered :: bool

definition Evaluate :: "TriggerPolicy \<Rightarrow> TriggerStreaks \<Rightarrow> outcome \<Rightarrow> TriggerDecision" where
  "Evaluate policy streaks oc =
     (if oc = OutcomeUnhealthy then
        let u = min (wrap64 (st_Unhealthy streaks + 1)) (FailureThreshold policy)
        in \<lparr>Streaks = \<lparr>st_Unhealthy = u, st_Healthy = 0\<rparr>,
            Triggered = (FailureThreshold policy \<le> u), Recovered = False\<rparr>
      else if oc = OutcomeHealthy then
        let h = min (wrap64 (st_Healthy streaks + 1)) (RecoveryThreshold policy)
        in \<lparr>Streaks = \<lparr>st_Unhealthy = 0, st_Healthy = h\<rparr>,
            Triggered = False, Recovered = (RecoveryThreshold policy \<le> h)\<rparr>
      else \<lparr>Streaks = streaks, Triggered = False, Recovered = False\<rparr>)"

text \<open>The counters the store persists after a history of Observations.\<close>

definition run_streaks :: "TriggerPolicy \<Rightarrow> TriggerStreaks \<Rightarrow> outcome list \<Rightarrow> TriggerStreaks" where
  "run_streaks policy = foldl (\<lambda>streaks oc. Streaks (Evaluate policy streaks oc))"

subsection \<open>Counters and measures (\<^verbatim>\<open>measure.go\<close>)\<close>

abbreviation WindowDay :: string where "WindowDay \<equiv> ''24h''"
abbreviation WindowWeek :: string where "WindowWeek \<equiv> ''7d''"
abbreviation WindowMonth :: string where "WindowMonth \<equiv> ''30d''"

definition MeasureWindows :: "string list" where
  "MeasureWindows = [WindowDay, WindowWeek, WindowMonth]"

definition Window_Valid :: "string \<Rightarrow> bool" where
  "Window_Valid window \<longleftrightarrow> window = WindowDay \<or> window = WindowWeek \<or> window = WindowMonth"

definition Window_Hours :: "string \<Rightarrow> int" where
  "Window_Hours window =
     (if window = WindowWeek then 7 * 24 else if window = WindowMonth then 30 * 24 else 24)"

record Counters =
  Healthy :: int
  Unhealthy :: int
  Unknown :: int
  Expected :: int
  LatencySumMilliseconds :: int
  LatencyCount :: int
  LatencyMaximum :: int

definition Counters_zero :: Counters where
  "Counters_zero = \<lparr>Healthy = 0, Unhealthy = 0, Unknown = 0, Expected = 0,
     LatencySumMilliseconds = 0, LatencyCount = 0, LatencyMaximum = 0\<rparr>"

definition Counters_Add :: "Counters \<Rightarrow> Counters \<Rightarrow> Counters" where
  "Counters_Add a b =
     \<lparr>Healthy = wrap64 (Healthy a + Healthy b),
      Unhealthy = wrap64 (Unhealthy a + Unhealthy b),
      Unknown = wrap64 (Unknown a + Unknown b),
      Expected = wrap64 (Expected a + Expected b),
      LatencySumMilliseconds = wrap64 (LatencySumMilliseconds a + LatencySumMilliseconds b),
      LatencyCount = wrap64 (LatencyCount a + LatencyCount b),
      LatencyMaximum = max (LatencyMaximum a) (LatencyMaximum b)\<rparr>"

definition Conclusive :: "Counters \<Rightarrow> int" where
  "Conclusive c = wrap64 (Healthy c + Unhealthy c)"

record Measure =
  m_Window :: string
  m_Availability :: "rat option"
  m_Coverage :: "rat option"
  m_AverageLatencyMilliseconds :: "int option"
  m_MaximumLatencyMilliseconds :: "int option"
  m_ConclusiveObservations :: int
  m_UnknownObservations :: int
  m_ExpectedObservations :: int

definition Counters_Measure :: "Counters \<Rightarrow> string \<Rightarrow> Measure" where
  "Counters_Measure c window =
     \<lparr>m_Window = window,
      m_Availability =
        (if 0 < Conclusive c then Some (of_int (Healthy c) / of_int (Conclusive c)) else None),
      m_Coverage =
        (if 0 < Expected c then Some (min 1 (of_int (Conclusive c) / of_int (Expected c))) else None),
      m_AverageLatencyMilliseconds =
        (if 0 < LatencyCount c
         then Some (go_div (wrap64 (LatencySumMilliseconds c + go_div (LatencyCount c) 2)) (LatencyCount c))
         else None),
      m_MaximumLatencyMilliseconds = (if 0 < LatencyCount c then Some (LatencyMaximum c) else None),
      m_ConclusiveObservations = Conclusive c,
      m_UnknownObservations = Unknown c,
      m_ExpectedObservations = Expected c\<rparr>"

subsection \<open>Latency profiles (\<^verbatim>\<open>latency.go\<close>)\<close>

definition LatencyProfileWindow :: duration where "LatencyProfileWindow = 28 * 24 * hour"
definition LatencyEvaluationWindow :: duration where "LatencyEvaluationWindow = 24 * hour"
definition MinimumLatencySamples :: int where "MinimumLatencySamples = 30"
definition LatencyDeviationFactor :: int where "LatencyDeviationFactor = 2"
definition MinimumLatencyMargin :: duration where "MinimumLatencyMargin = 50 * millisecond"
definition AllHours :: int where "AllHours = -1"

record LatencyObservation =
  lo_ID :: string
  lo_SourceID :: string
  lo_ObservedAt :: instant
  lo_Latency :: duration

record LatencyBucket =
  lb_Hour :: int
  lb_Samples :: int
  lb_Median :: duration
  lb_P95 :: duration
  lb_P99 :: duration

record LatencyProfile =
  lp_SourceID :: string
  lp_WindowStart :: instant
  lp_WindowEnd :: instant
  lp_Samples :: int
  lp_ComputedAt :: instant
  lp_Buckets :: "LatencyBucket list"

record LatencyAnomaly =
  la_Observation :: LatencyObservation
  la_Median :: duration
  la_Threshold :: duration
  la_Hour :: int
  la_Samples :: int

text \<open>\<open>None\<close> is the pair \<open>(0, false)\<close>: no threshold can be established.\<close>

definition Bucket_Threshold :: "LatencyBucket \<Rightarrow> duration option" where
  "Bucket_Threshold bucket =
     (if lb_Samples bucket < MinimumLatencySamples then None
      else Some (max (lb_P99 bucket)
                (max (wrap64 (lb_Median bucket * LatencyDeviationFactor))
                     (wrap64 (lb_Median bucket + MinimumLatencyMargin)))))"

definition Profile_Bucket :: "LatencyProfile \<Rightarrow> int \<Rightarrow> LatencyBucket option" where
  "Profile_Bucket profile h = find (\<lambda>bucket. lb_Hour bucket = h) (lp_Buckets profile)"

text \<open>\<open>at.UTC().Hour()\<close>: Go's zero time is a midnight.\<close>

definition utc_hour :: "instant \<Rightarrow> int" where
  "utc_hour t = (t div hour) mod 24"

definition BucketAt :: "LatencyProfile \<Rightarrow> instant \<Rightarrow> LatencyBucket option" where
  "BucketAt profile t =
     (let enough = (\<lambda>found. case found of
            Some bucket \<Rightarrow> if MinimumLatencySamples \<le> lb_Samples bucket then Some bucket else None
          | None \<Rightarrow> None)
      in case enough (Profile_Bucket profile (utc_hour t)) of
           Some bucket \<Rightarrow> Some bucket
         | None \<Rightarrow> enough (Profile_Bucket profile AllHours))"

definition ThresholdAt :: "LatencyProfile \<Rightarrow> instant \<Rightarrow> duration option" where
  "ThresholdAt profile t =
     (case BucketAt profile t of None \<Rightarrow> None | Some bucket \<Rightarrow> Bucket_Threshold bucket)"

text \<open>The loop body ignores the second result of \<open>Threshold\<close>, whose first is then \<open>0\<close>.\<close>

definition anomaly_of ::
  "(string \<rightharpoonup> LatencyProfile) \<Rightarrow> LatencyObservation \<Rightarrow> LatencyAnomaly option" where
  "anomaly_of profiles ob =
     (case profiles (lo_SourceID ob) of
        None \<Rightarrow> None
      | Some profile \<Rightarrow>
          if lo_ObservedAt ob < lp_WindowEnd profile then None
          else (case BucketAt profile (lo_ObservedAt ob) of
                  None \<Rightarrow> None
                | Some bucket \<Rightarrow>
                    let threshold = (case Bucket_Threshold bucket of None \<Rightarrow> 0 | Some d \<Rightarrow> d)
                    in if lo_Latency ob \<le> threshold then None
                       else Some \<lparr>la_Observation = ob, la_Median = lb_Median bucket,
                              la_Threshold = threshold, la_Hour = lb_Hour bucket,
                              la_Samples = lb_Samples bucket\<rparr>))"

fun DetectLatencyAnomalies ::
  "LatencyObservation list \<Rightarrow> (string \<rightharpoonup> LatencyProfile) \<Rightarrow> LatencyAnomaly list" where
  "DetectLatencyAnomalies [] profiles = []"
| "DetectLatencyAnomalies (ob # obs) profiles =
     (case anomaly_of profiles ob of
        None \<Rightarrow> DetectLatencyAnomalies obs profiles
      | Some a \<Rightarrow> a # DetectLatencyAnomalies obs profiles)"

subsection \<open>What the Trigger policy decides\<close>

text \<open>The conclusive part of a history, and the length of its final run of one outcome.\<close>

definition conclusive_history :: "outcome list \<Rightarrow> outcome list" where
  "conclusive_history h = filter (\<lambda>oc. oc = OutcomeHealthy \<or> oc = OutcomeUnhealthy) h"

definition trailing :: "outcome \<Rightarrow> outcome list \<Rightarrow> nat" where
  "trailing oc h = length (takeWhile (\<lambda>x. x = oc) (rev (conclusive_history h)))"

lemma trailing_Nil [simp]: "trailing oc [] = 0"
  by (simp add: trailing_def conclusive_history_def)

lemma trailing_snoc:
  "trailing oc (h @ [x]) =
     (if x = OutcomeHealthy \<or> x = OutcomeUnhealthy
      then if x = oc then Suc (trailing oc h) else 0 else trailing oc h)"
  by (simp add: trailing_def conclusive_history_def)

lemma policy_valid_bounds:
  assumes "TriggerPolicy_Validate policy = Inr ()"
  shows "1 \<le> FailureThreshold policy" "FailureThreshold policy \<le> 10"
    "1 \<le> RecoveryThreshold policy" "RecoveryThreshold policy \<le> 10"
  using assms by (auto simp: TriggerPolicy_Validate_def MinimumThreshold_def MaximumThreshold_def
      split: if_splits)

lemma small_int64: "- 100 \<le> x \<Longrightarrow> x \<le> 100 \<Longrightarrow> int64_range x"
  by (simp add: int64_range_def)

lemma wrap64_min_succ:
  fixes t :: int and n :: nat
  assumes "1 \<le> t" and "t \<le> 10"
  shows "min (wrap64 (min (int n) t + 1)) t = min (int (Suc n)) t"
proof -
  have "int64_range (min (int n) t + 1)" using assms by (intro small_int64) auto
  then show ?thesis by auto
qed

lemma run_streaks_snoc [simp]:
  "run_streaks policy s (h @ [oc]) = Streaks (Evaluate policy (run_streaks policy s h) oc)"
  by (simp add: run_streaks_def)

lemma run_streaks_trailing:
  assumes "TriggerPolicy_Validate policy = Inr ()"
  shows "run_streaks policy no_streaks h =
    \<lparr>st_Unhealthy = min (int (trailing OutcomeUnhealthy h)) (FailureThreshold policy),
     st_Healthy = min (int (trailing OutcomeHealthy h)) (RecoveryThreshold policy)\<rparr>"
proof (induction h rule: rev_induct)
  case Nil
  show ?case using policy_valid_bounds [OF assms] by (simp add: run_streaks_def no_streaks_def)
next
  case (snoc x h)
  note b = policy_valid_bounds [OF assms]
  show ?case
    using b snoc wrap64_min_succ [OF b(1,2)] wrap64_min_succ [OF b(3,4)]
    by (auto simp: Evaluate_def Let_def trailing_snoc simp del: of_nat_Suc)
qed


definition sample_policy :: TriggerPolicy where
  "sample_policy = \<lparr>FailureThreshold = 3, RecoveryThreshold = 2\<rparr>"

lemma sample_policy_valid: "TriggerPolicy_Validate sample_policy = Inr ()"
  by code_simp


subsection \<open>Sums of counters and their measures\<close>

lemma Counters_Add_commute: "Counters_Add a b = Counters_Add b a"
  by (simp add: Counters_Add_def add.commute max.commute)

lemma Counters_Add_assoc: "Counters_Add (Counters_Add a b) c = Counters_Add a (Counters_Add b c)"
  by (simp add: Counters_Add_def wrap64_add_left wrap64_add_right add.assoc max.assoc)

definition counters_total :: "Counters list \<Rightarrow> Counters" where
  "counters_total cs = fold (\<lambda>c total. Counters_Add total c) cs Counters_zero"

text \<open>The total of a window does not depend on the order in which the Sources are read,
  even when a sum wraps around.\<close>

theorem counters_total_order:
  assumes "mset cs = mset ds"
  shows "counters_total cs = counters_total ds"
proof -
  have "fold (\<lambda>c total. Counters_Add total c) cs = fold (\<lambda>c total. Counters_Add total c) ds"
  proof (rule fold_multiset_equiv [OF _ assms])
    fix x y
    show "(\<lambda>total. Counters_Add total x) \<circ> (\<lambda>total. Counters_Add total y) =
        (\<lambda>total. Counters_Add total y) \<circ> (\<lambda>total. Counters_Add total x)"
      by (simp add: fun_eq_iff) (metis Counters_Add_assoc Counters_Add_commute)
  qed
  then show ?thesis by (simp add: counters_total_def)
qed

definition sample_counters :: "int \<Rightarrow> int \<Rightarrow> Counters" where
  "sample_counters h u = \<lparr>Healthy = h, Unhealthy = u, Unknown = 1, Expected = 10,
     LatencySumMilliseconds = 70 * h, LatencyCount = h, LatencyMaximum = 90\<rparr>"

theorem counters_total_order_witness:
  "counters_total [sample_counters 3 1, sample_counters (2 ^ 62) 0, sample_counters (2 ^ 62) 5] =
   counters_total [sample_counters (2 ^ 62) 5, sample_counters 3 1, sample_counters (2 ^ 62) 0]"
  by (rule counters_total_order) simp

text \<open>Counters as the aggregates produce them: nothing negative, sums in range, and a latency
  sum that its maximum bounds.\<close>

definition counters_ok :: "Counters \<Rightarrow> bool" where
  "counters_ok c \<longleftrightarrow> 0 \<le> Healthy c \<and> 0 \<le> Unhealthy c \<and> Healthy c + Unhealthy c < 2 ^ 63 \<and>
     0 \<le> Expected c \<and> 0 \<le> LatencyCount c \<and> 0 \<le> LatencySumMilliseconds c \<and>
     LatencySumMilliseconds c \<le> LatencyCount c * LatencyMaximum c \<and>
     LatencySumMilliseconds c + LatencyCount c < 2 ^ 63"

lemma average_bounds:
  fixes total n m :: int
  assumes "0 < n" "0 \<le> total" "total \<le> n * m"
  shows "0 \<le> (total + n div 2) div n" "(total + n div 2) div n \<le> m"
proof -
  show "0 \<le> (total + n div 2) div n" using assms by (simp add: pos_imp_zdiv_nonneg_iff)
  have "total + n div 2 < n * m + n" using assms by linarith
  also have "\<dots> = (m + 1) * n" by (simp add: algebra_simps)
  finally have "total + n div 2 < (m + 1) * n" .
  moreover have "(total + n div 2) div n * n \<le> total + n div 2"
    using assms(1) pos_mod_sign [of n "total + n div 2"] div_mult_mod_eq [of "total + n div 2" n] by linarith
  ultimately have "(total + n div 2) div n * n < (m + 1) * n" by linarith
  then have "(total + n div 2) div n < m + 1"
    using assms(1) by (simp add: mult_less_cancel_right)
  then show "(total + n div 2) div n \<le> m" by simp
qed

text \<open>The measures of well-formed counters are what they claim to be: the availability
  and the coverage are ratios between 0 and 1, present exactly when a conclusive or an
  expected Observation exists, and the rounded average latency lies between 0 and the
  maximum latency, both present exactly when a latency was measured.\<close>

theorem Measure_bounds:
  assumes "counters_ok c"
  shows "(m_Availability (Counters_Measure c w) = None \<longleftrightarrow> Healthy c + Unhealthy c = 0) \<and>
    (\<forall>a. m_Availability (Counters_Measure c w) = Some a \<longrightarrow> 0 \<le> a \<and> a \<le> 1) \<and>
    (m_Coverage (Counters_Measure c w) = None \<longleftrightarrow> Expected c = 0) \<and>
    (\<forall>r. m_Coverage (Counters_Measure c w) = Some r \<longrightarrow> 0 \<le> r \<and> r \<le> 1) \<and>
    (m_AverageLatencyMilliseconds (Counters_Measure c w) = None \<longleftrightarrow> LatencyCount c = 0) \<and>
    (\<forall>avg. m_AverageLatencyMilliseconds (Counters_Measure c w) = Some avg \<longrightarrow>
       0 \<le> avg \<and> avg \<le> LatencyMaximum c \<and>
       m_MaximumLatencyMilliseconds (Counters_Measure c w) = Some (LatencyMaximum c))"
proof -
  from assms have conc: "Conclusive c = Healthy c + Unhealthy c"
    by (simp add: Conclusive_def counters_ok_def int64_range_def)
  have avail: "0 \<le> (of_int (Healthy c) / of_int (Healthy c + Unhealthy c) :: rat)"
    "(of_int (Healthy c) / of_int (Healthy c + Unhealthy c) :: rat) \<le> 1"
    if "0 < Healthy c + Unhealthy c"
    using that assms by (simp_all add: counters_ok_def divide_le_eq_1)
  have cover: "0 \<le> (of_int (Healthy c + Unhealthy c) / of_int (Expected c) :: rat)"
    using assms by (simp add: counters_ok_def)
  have avg: "0 \<le> go_div (wrap64 (LatencySumMilliseconds c + go_div (LatencyCount c) 2)) (LatencyCount c)"
    "go_div (wrap64 (LatencySumMilliseconds c + go_div (LatencyCount c) 2)) (LatencyCount c)
       \<le> LatencyMaximum c" if "0 < LatencyCount c"
  proof -
    have half: "go_div (LatencyCount c) 2 = LatencyCount c div 2"
      using that by (simp add: go_div_nonneg)
    have "int64_range (LatencySumMilliseconds c + LatencyCount c div 2)"
      using assms that by (simp add: counters_ok_def int64_range_def) linarith
    then have eq: "go_div (wrap64 (LatencySumMilliseconds c + go_div (LatencyCount c) 2)) (LatencyCount c)
        = (LatencySumMilliseconds c + LatencyCount c div 2) div LatencyCount c"
      using assms that by (simp add: half go_div_nonneg counters_ok_def)
    show "0 \<le> go_div (wrap64 (LatencySumMilliseconds c + go_div (LatencyCount c) 2)) (LatencyCount c)"
      "go_div (wrap64 (LatencySumMilliseconds c + go_div (LatencyCount c) 2)) (LatencyCount c)
       \<le> LatencyMaximum c"
      unfolding eq using assms average_bounds [OF that, of "LatencySumMilliseconds c" "LatencyMaximum c"]
      by (simp_all add: counters_ok_def)
  qed
  show ?thesis
    using assms conc avail cover avg by (auto simp: Counters_Measure_def counters_ok_def)
qed

theorem Measure_bounds_witness:
  "m_Availability (Counters_Measure (sample_counters 3 1) WindowDay) \<noteq> None \<and>
   counters_ok (sample_counters 3 1)"
  using Measure_bounds [of "sample_counters 3 1" WindowDay]
  by (simp add: counters_ok_def sample_counters_def)

subsection \<open>Latency anomalies\<close>

definition bucket_in_range :: "LatencyBucket \<Rightarrow> bool" where
  "bucket_in_range b \<longleftrightarrow> 0 \<le> lb_Median b \<and> lb_Median b < 2 ^ 61"

lemma Bucket_Threshold_eq:
  "bucket_in_range b \<Longrightarrow> MinimumLatencySamples \<le> lb_Samples b \<Longrightarrow>
   Bucket_Threshold b = Some (max (lb_P99 b) (max (2 * lb_Median b) (lb_Median b + 50 * millisecond)))"
  by (simp add: Bucket_Threshold_def bucket_in_range_def LatencyDeviationFactor_def
      MinimumLatencyMargin_def int64_range_def)

lemma BucketAt_SomeD:
  assumes "BucketAt profile t = Some b"
  shows "MinimumLatencySamples \<le> lb_Samples b \<and> b \<in> set (lp_Buckets profile) \<and>
    (lb_Hour b = utc_hour t \<or> lb_Hour b = AllHours)"
  using assms by (auto simp: BucketAt_def Profile_Bucket_def Let_def
      split: option.splits if_splits dest!: find_SomeD)

lemma DetectLatencyAnomalies_eq:
  "DetectLatencyAnomalies obs profiles = List.map_filter (anomaly_of profiles) obs"
  by (induction obs) (auto simp: List.map_filter_simps split: option.splits)

definition anomalous :: "(string \<rightharpoonup> LatencyProfile) \<Rightarrow> LatencyObservation \<Rightarrow> bool" where
  "anomalous profiles ob \<longleftrightarrow>
     (\<exists>p b. profiles (lo_SourceID ob) = Some p \<and> lp_WindowEnd p \<le> lo_ObservedAt ob \<and>
        BucketAt p (lo_ObservedAt ob) = Some b \<and> lb_P99 b < lo_Latency ob \<and>
        2 * lb_Median b < lo_Latency ob \<and> lb_Median b + 50 * millisecond < lo_Latency ob)"

lemma anomaly_of_Observation: "anomaly_of profiles ob = Some a \<Longrightarrow> la_Observation a = ob"
  by (auto simp: anomaly_of_def Let_def split: option.splits if_splits)

lemma anomaly_of_iff:
  assumes "\<forall>p \<in> ran profiles. \<forall>b \<in> set (lp_Buckets p). bucket_in_range b"
  shows "anomaly_of profiles ob \<noteq> None \<longleftrightarrow> anomalous profiles ob"
proof (cases "profiles (lo_SourceID ob)")
  case (Some p)
  note p = Some
  then have inr: "\<forall>b \<in> set (lp_Buckets p). bucket_in_range b"
    using assms by (blast intro: ranI)
  show ?thesis
  proof (cases "BucketAt p (lo_ObservedAt ob)")
    case None
    with p show ?thesis by (simp add: anomaly_of_def anomalous_def)
  next
    case (Some b)
    from BucketAt_SomeD [OF Some] inr have "Bucket_Threshold b =
        Some (max (lb_P99 b) (max (2 * lb_Median b) (lb_Median b + 50 * millisecond)))"
      by (intro Bucket_Threshold_eq) auto
    with p Some show ?thesis
      by (auto simp: anomaly_of_def anomalous_def Let_def)
  qed
qed (simp add: anomaly_of_def anomalous_def)

text \<open>Detection is exact: with medians in range, the anomalies are those Observations, in
  order, whose Source has a profile learnt before them, with a sufficiently fed bucket for
  their hour or for all hours, and whose latency exceeds the high quantile, twice the
  median, and the median by fifty milliseconds.\<close>

theorem DetectLatencyAnomalies_exact:
  assumes "\<forall>p \<in> ran profiles. \<forall>b \<in> set (lp_Buckets p). bucket_in_range b"
  shows "map la_Observation (DetectLatencyAnomalies obs profiles) =
    filter (anomalous profiles) obs"
proof (induction obs)
  case (Cons ob obs)
  show ?case
    using anomaly_of_iff [OF assms, of ob] Cons.IH
    by (cases "anomaly_of profiles ob") (auto dest: anomaly_of_Observation)
qed simp

definition sample_profile :: LatencyProfile where
  "sample_profile = \<lparr>lp_SourceID = ''s'', lp_WindowStart = 0, lp_WindowEnd = 10 * hour,
     lp_Samples = 40, lp_ComputedAt = 10 * hour,
     lp_Buckets = [\<lparr>lb_Hour = AllHours, lb_Samples = 40, lb_Median = 20 * millisecond,
                    lb_P95 = 30 * millisecond, lb_P99 = 35 * millisecond\<rparr>]\<rparr>"

definition sample_slow :: LatencyObservation where
  "sample_slow = \<lparr>lo_ID = ''o'', lo_SourceID = ''s'', lo_ObservedAt = 11 * hour,
     lo_Latency = 71 * millisecond\<rparr>"

theorem DetectLatencyAnomalies_exact_witness:
  "map la_Observation (DetectLatencyAnomalies [sample_slow] [''s'' \<mapsto> sample_profile]) = [sample_slow]"
proof -
  have "\<forall>p \<in> ran [''s'' \<mapsto> sample_profile]. \<forall>b \<in> set (lp_Buckets p). bucket_in_range b"
    by (simp add: sample_profile_def bucket_in_range_def)
  from DetectLatencyAnomalies_exact [OF this, of "[sample_slow]"] show ?thesis
    by (simp add: sample_slow_def sample_profile_def BucketAt_def Profile_Bucket_def Let_def
        utc_hour_def AllHours_def MinimumLatencySamples_def anomalous_def)
qed

end
