(* ===== verification/Alert_Text.thy ===== *)
theory Alert_Text
  imports Go_Json
begin

text \<open>
  The package \<^verbatim>\<open>internal/alerttext\<close>: the closed catalogue of recognised alert kinds,
  the normalisation of the facts a connector supplies, their rendering in French and in
  English, and the meaning shared by the facts of an Incident. Texts are UTF-8 byte
  sequences, as in Go.
\<close>

subsection \<open>The catalogue (\<^verbatim>\<open>catalog.go\<close>)\<close>

type_synonym kind = string

abbreviation BackupFailure :: kind where "BackupFailure \<equiv> ''backup.failure''"
abbreviation BackupFreshness :: kind where "BackupFreshness \<equiv> ''backup.freshness''"
abbreviation Unavailable :: kind where "Unavailable \<equiv> ''availability.unavailable''"
abbreviation DiskLatency :: kind where "DiskLatency \<equiv> ''disk.latency.high''"
abbreviation DiskSpace :: kind where "DiskSpace \<equiv> ''disk.space.low''"
abbreviation DiskInodes :: kind where "DiskInodes \<equiv> ''disk.inodes.low''"
abbreviation CPUUsage :: kind where "CPUUsage \<equiv> ''cpu.usage.high''"
abbreviation SystemLoad :: kind where "SystemLoad \<equiv> ''system.load.high''"
abbreviation MemoryUsage :: kind where "MemoryUsage \<equiv> ''memory.usage.high''"
abbreviation MemoryAvailable :: kind where "MemoryAvailable \<equiv> ''memory.available.low''"
abbreviation SwapSpace :: kind where "SwapSpace \<equiv> ''swap.space.low''"
abbreviation PackageCountChanged :: kind where "PackageCountChanged \<equiv> ''packages.count.changed''"
abbreviation CertificateExpiry :: kind where "CertificateExpiry \<equiv> ''certificate.expiring''"
abbreviation CertificateInvalid :: kind where "CertificateInvalid \<equiv> ''certificate.invalid''"
abbreviation SecurityUpdates :: kind where "SecurityUpdates \<equiv> ''software.security_updates''"
abbreviation RebootRequired :: kind where "RebootRequired \<equiv> ''system.reboot_required''"
abbreviation SoftwareUpdate :: kind where "SoftwareUpdate \<equiv> ''software.update_available''"
abbreviation SoftwareSecurityUpdate :: kind where
  "SoftwareSecurityUpdate \<equiv> ''software.security_update_available''"
abbreviation SoftwareMajorUpdate :: kind where
  "SoftwareMajorUpdate \<equiv> ''software.major_update_available''"

definition titles :: "(kind \<times> string \<times> string) list" where
  "titles =
    [(BackupFailure, ([CHR 0xC3, CHR 0x89] @ ''chec de sauvegarde''), ''Backup failure''),
     (BackupFreshness, ''Sauvegarde trop ancienne'', ''Outdated backup''),
     (Unavailable, (''Indisponibilit'' @ [CHR 0xC3, CHR 0xA9]), ''Unavailability''),
     (DiskLatency, (''Latence disque '' @ [CHR 0xC3, CHR 0xA9] @ ''lev'' @ [CHR 0xC3, CHR 0xA9] @ ''e''), ''High disk latency''),
     (DiskSpace, ''Espace disque insuffisant'', ''Low disk space''),
     (DiskInodes, (''Peu d'' @ [CHR 0xE2, CHR 0x80, CHR 0x99] @ ''inodes disponibles''), ''Low free inodes''),
     (CPUUsage, (''Utilisation CPU '' @ [CHR 0xC3, CHR 0xA9] @ ''lev'' @ [CHR 0xC3, CHR 0xA9] @ ''e''), ''High CPU utilization''),
     (SystemLoad, (''Charge syst'' @ [CHR 0xC3, CHR 0xA8] @ ''me moyenne '' @ [CHR 0xC3, CHR 0xA9] @ ''lev'' @ [CHR 0xC3, CHR 0xA9] @ ''e''), ''High average system load''),
     (MemoryUsage, (''Utilisation m'' @ [CHR 0xC3, CHR 0xA9] @ ''moire '' @ [CHR 0xC3, CHR 0xA9] @ ''lev'' @ [CHR 0xC3, CHR 0xA9] @ ''e''), ''High memory utilization''),
     (MemoryAvailable, (''M'' @ [CHR 0xC3, CHR 0xA9] @ ''moire disponible insuffisante''), ''Low available memory''),
     (SwapSpace, ''Espace swap insuffisant'', ''Low swap space''),
     (PackageCountChanged, (''Nombre de paquets install'' @ [CHR 0xC3, CHR 0xA9] @ ''s modifi'' @ [CHR 0xC3, CHR 0xA9]), ''Installed package count changed''),
     (CertificateExpiry, ''Expiration de certificat proche'', ''Certificate nearing expiry''),
     (CertificateInvalid, ''Certificat invalide'', ''Invalid certificate''),
     (SecurityUpdates, (''Correctifs de s'' @ [CHR 0xC3, CHR 0xA9] @ ''curit'' @ [CHR 0xC3, CHR 0xA9] @ '' requis''), ''Security updates required''),
     (RebootRequired, (''Red'' @ [CHR 0xC3, CHR 0xA9] @ ''marrage requis''), ''Restart required''),
     (SoftwareUpdate, (''Mise '' @ [CHR 0xC3, CHR 0xA0] @ '' jour logicielle disponible''), ''Software update available''),
     (SoftwareSecurityUpdate, (''Mise '' @ [CHR 0xC3, CHR 0xA0] @ '' jour de s'' @ [CHR 0xC3, CHR 0xA9] @ ''curit'' @ [CHR 0xC3, CHR 0xA9] @ '' disponible''), ''Security update available''),
     (SoftwareMajorUpdate, (''Mise '' @ [CHR 0xC3, CHR 0xA0] @ '' jour majeure disponible''), ''Major update available'')]"

definition known_kind :: "kind \<Rightarrow> bool" where
  "known_kind k \<longleftrightarrow> map_of titles k \<noteq> None"

definition Title :: "kind \<Rightarrow> string \<Rightarrow> string \<times> bool" where
  "Title kind locale =
     (case map_of titles kind of
        None \<Rightarrow> ('''', False)
      | Some (fr, en) \<Rightarrow> (if locale = ''en'' then en else fr, True))"

record Fact =
  f_Kind :: kind
  f_Resource :: string
  f_Count :: "int option"
  f_CurrentVersion :: string
  f_AvailableVersion :: string

definition no_fact :: Fact where
  "no_fact = \<lparr>f_Kind = '''', f_Resource = '''', f_Count = None, f_CurrentVersion = '''',
     f_AvailableVersion = ''''\<rparr>"

definition bounded :: "string \<Rightarrow> string" where
  "bounded v =
     (let rs = runes (Join (Fields v) space)
      in if 160 < length rs then concat (take 159 rs) @ ellipsis else concat rs)"

definition versioned :: "kind \<Rightarrow> bool" where
  "versioned kind \<longleftrightarrow>
     kind = SoftwareUpdate \<or> kind = SoftwareSecurityUpdate \<or> kind = SoftwareMajorUpdate"

definition Normalize :: "Fact \<Rightarrow> Fact" where
  "Normalize f =
     (if \<not> known_kind (f_Kind f) then no_fact
      else
        let f1 = f\<lparr>f_Resource := bounded (f_Resource f)\<rparr>;
            f2 = (if f_Kind f1 \<noteq> SecurityUpdates \<or>
                     (case f_Count f1 of None \<Rightarrow> True | Some n \<Rightarrow> n < 0)
                  then f1\<lparr>f_Count := None\<rparr> else f1)
        in if \<not> versioned (f_Kind f2)
           then f2\<lparr>f_CurrentVersion := '''', f_AvailableVersion := ''''\<rparr>
           else f2\<lparr>f_CurrentVersion := bounded (f_CurrentVersion f2),
                   f_AvailableVersion := bounded (f_AvailableVersion f2)\<rparr>)"

record Text =
  t_Title :: string
  t_Description :: string

definition no_text :: Text where
  "no_text = \<lparr>t_Title = '''', t_Description = ''''\<rparr>"

definition Render :: "Fact \<Rightarrow> string \<Rightarrow> Text" where
  "Render raw locale =
     (let f = Normalize raw; (title, ok) = Title (f_Kind f) locale; en = (locale = ''en'')
      in if \<not> ok then no_text
         else
           let d1 = (if f_Resource f \<noteq> '''' then
                       (if en then ''Resource: '' else ''Ressource : '') @ f_Resource f
                     else '''');
               d2 = (case f_Count f of
                       Some n \<Rightarrow>
                         if f_Kind f = SecurityUpdates then
                           (if en then (if n = 1 then ''1 security update available''
                                        else show_int n @ '' security updates available'')
                            else (if n = 1 then (''1 correctif de s'' @ [CHR 0xC3, CHR 0xA9] @ ''curit'' @ [CHR 0xC3, CHR 0xA9] @ '' disponible'')
                                  else show_int n @ ('' correctifs de s'' @ [CHR 0xC3, CHR 0xA9] @ ''curit'' @ [CHR 0xC3, CHR 0xA9] @ '' disponibles'')))
                         else d1
                     | None \<Rightarrow> d1);
               d3 = (if versioned (f_Kind f) \<and> f_CurrentVersion f \<noteq> '''' \<and> f_AvailableVersion f \<noteq> '''' then
                       ''Version '' @ f_AvailableVersion f @
                       (if en then ('' available '' @ [CHR 0xC2, CHR 0xB7] @ '' '') @ f_CurrentVersion f @ '' deployed''
                        else ('' disponible '' @ [CHR 0xC2, CHR 0xB7] @ '' '') @ f_CurrentVersion f @ ('' d'' @ [CHR 0xC3, CHR 0xA9] @ ''ploy'' @ [CHR 0xC3, CHR 0xA9] @ ''e''))
                     else d2)
           in \<lparr>t_Title = title, t_Description = d3\<rparr>)"

record Localized =
  l_FR :: Text
  l_EN :: Text

definition Localize :: "Fact \<Rightarrow> Localized" where
  "Localize f = \<lparr>l_FR = Render f ''fr'', l_EN = Render f ''en''\<rparr>"

definition impairing :: "kind list" where
  "impairing = [BackupFailure, BackupFreshness, DiskLatency, DiskSpace, DiskInodes, CPUUsage,
     SystemLoad, MemoryUsage, MemoryAvailable, SwapSpace, CertificateInvalid]"

definition ImpairsFunctioning :: "kind \<Rightarrow> bool" where
  "ImpairsFunctioning kind \<longleftrightarrow> kind \<in> set impairing"

definition Common :: "Fact list \<Rightarrow> Fact" where
  "Common facts =
     (case facts of
        [] \<Rightarrow> no_fact
      | f # fs \<Rightarrow>
          let kind = f_Kind (Normalize f)
          in if kind = '''' then no_fact
             else if \<exists>g \<in> set fs. f_Kind (Normalize g) \<noteq> kind then no_fact
             else no_fact\<lparr>f_Kind := kind\<rparr>)"

subsection \<open>Bounded text\<close>

lemma bounded_cases:
  obtains ws where "words ws" and "list_all valid_rune (spaced ws)" and "bounded v = concat (spaced ws)"
    and "length (spaced ws) \<le> 160"
proof -
  let ?us = "map (map rune_of_chunk) (fields_chunks (rune_chunks v) [])"
  have keep: "rune_of_chunk space = space"
    by (simp add: rune_of_chunk_def space_def rune_width.simps lead_width_def Let_def in_range_def)
  have "\<not> is_space (rune_of_chunk c)" if "\<not> is_space c" for c
    using that by (auto simp: rune_of_chunk_def is_space_def in_range_def)
  then have w: "words ?us"
    using words_fields [of "[]" "rune_chunks v"] by (auto simp: words_def)
  have r: "runes (Join (Fields v) space) = spaced ?us"
    by (simp add: runes_def rune_chunks_Join_Fields map_spaced [where f = rune_of_chunk, OF keep])
  have v: "list_all valid_rune (spaced ?us)" using valid_runes r by metis
  show ?thesis
  proof (cases "160 < length (spaced ?us)")
    case True
    have ne: "\<not> is_space ellipsis" by (simp add: ellipsis_def is_space_def in_range_def)
    from take_spaced [OF w ne, of 159] obtain vs where
      vs: "words vs" "take 159 (spaced ?us) @ [ellipsis] = spaced vs" by blast
    have "list_all valid_rune (spaced vs)"
      using v vs(2) [symmetric] by (auto simp: list_all_iff dest: in_set_takeD)
    moreover have "bounded v = concat (spaced vs)"
      using True r vs(2) [symmetric] by (simp add: bounded_def Let_def)
    moreover have "length (spaced vs) \<le> 160" using True vs(2) [symmetric] by simp
    ultimately show ?thesis using that vs(1) by blast
  next
    case False
    then show ?thesis using that w v r by (simp add: bounded_def Let_def)
  qed
qed

lemma bounded_spaced:
  assumes "words ws" and "list_all valid_rune (spaced ws)" and "length (spaced ws) \<le> 160"
  shows "bounded (concat (spaced ws)) = concat (spaced ws)"
proof -
  have c: "rune_chunks (concat (spaced ws)) = spaced ws"
    using assms(2) by (rule rune_chunks_concat_valid)
  then have "Join (Fields (concat (spaced ws))) space = concat (spaced ws)"
    by (simp add: Fields_def fields_chunks_spaced [OF assms(1)] Join_concat)
  then show ?thesis
    using assms(2,3) runes_concat_valid [OF assms(2)] by (simp add: bounded_def Let_def)
qed

lemma bounded_idem: "bounded (bounded v) = bounded v"
  by (rule bounded_cases [of v]) (simp add: bounded_spaced)

lemma bounded_Nil [simp]: "bounded [] = []"
  by (simp add: bounded_def Fields_def runes_def)

lemma bounded_rune_count: "rune_count (bounded v) \<le> 160"
  by (rule bounded_cases [of v]) (simp add: rune_count_def rune_chunks_concat_valid)

lemma unknown_empty_kind [simp]: "\<not> known_kind ''''"
  by (simp add: known_kind_def titles_def)

lemma Normalize_no_fact [simp]: "Normalize no_fact = no_fact"
  by (simp add: Normalize_def no_fact_def)

lemma Kind_Normalize: "f_Kind (Normalize f) = (if known_kind (f_Kind f) then f_Kind f else '''')"
  by (simp add: Normalize_def no_fact_def Let_def)

text \<open>Normalising a fact twice changes nothing, and every text a normalised fact carries
  has at most 160 runes: the value stored with a Proof is the one rendered from it.\<close>

theorem Normalize_stable:
  "Normalize (Normalize f) = Normalize f \<and> rune_count (f_Resource (Normalize f)) \<le> 160 \<and>
   rune_count (f_CurrentVersion (Normalize f)) \<le> 160 \<and>
   rune_count (f_AvailableVersion (Normalize f)) \<le> 160"
proof (cases "known_kind (f_Kind f)")
  case True
  have z: "rune_count [] = 0" by (simp add: rune_count_def)
  have "Normalize (Normalize f) = Normalize f"
    using True by (auto simp: Normalize_def Let_def bounded_idem split: option.split)
  then show ?thesis
    using True z by (simp add: Normalize_def Let_def bounded_rune_count)
next
  case False
  then show ?thesis by (simp add: Normalize_def no_fact_def rune_count_def)
qed

text \<open>The facts of an Incident have a common presentation exactly when there is one and all
  of them have the same catalogued kind; it then carries that kind and no parameter.\<close>

theorem Common_iff:
  "f_Kind (Common facts) = k \<and> k \<noteq> '''' \<longleftrightarrow>
     facts \<noteq> [] \<and> known_kind k \<and> (\<forall>f \<in> set facts. f_Kind f = k) \<and>
     Common facts = no_fact\<lparr>f_Kind := k\<rparr>"
  by (cases facts) (auto simp: Common_def Let_def Kind_Normalize no_fact_def split: if_splits)

definition sample_disk :: "string \<Rightarrow> Fact" where
  "sample_disk r = no_fact\<lparr>f_Kind := DiskSpace, f_Resource := r\<rparr>"

theorem Common_iff_witness:
  "Common [sample_disk ''/'', sample_disk ''/var''] = no_fact\<lparr>f_Kind := DiskSpace\<rparr>"
  using Common_iff [of "[sample_disk ''/'', sample_disk ''/var'']" DiskSpace]
  by (simp add: Common_def Kind_Normalize sample_disk_def known_kind_def titles_def)

end
