(* ===== verification/Synthesis.thy ===== *)
theory Synthesis
  imports Alert_Text
begin

text \<open>
  The package \<^verbatim>\<open>internal/synthesis\<close>: the closed catalogue of canonical Natures, the
  Synthesis of an Incident (\<^verbatim>\<open>synthesis.go\<close>) and the compact notification template shared
  by every Channel (\<^verbatim>\<open>notification.go\<close>).
\<close>

definition nature_kinds :: "(string \<times> kind) list" where
  "nature_kinds =
    [(''availability'', Unavailable), (''storage.latency'', DiskLatency),
     (''storage.capacity'', DiskSpace), (''backup.failure'', BackupFailure),
     (''backup.freshness'', BackupFreshness), (''tls.expiry'', CertificateExpiry)]"

definition NatureLabel :: "string \<Rightarrow> string \<Rightarrow> string \<times> bool" where
  "NatureLabel key locale =
     (case map_of nature_kinds key of None \<Rightarrow> ('''', False) | Some kind \<Rightarrow> Title kind locale)"

record Context =
  cx_Fact :: "Fact option"
  cx_TargetNames :: "string list"
  cx_PreviousSeverity :: string
  cx_DurationSeconds :: int
  cx_Resumptions :: int

record Situation =
  s_AlertKind :: kind
  s_NatureKey :: string
  s_NatureScope :: string
  s_NatureLabel :: string
  s_Severity :: string
  s_TargetName :: string
  s_AffectedTargets :: int
  s_MaxAffected :: int
  s_TotalTargets :: int
  s_Resolved :: bool
  s_Extended :: bool
  s_Context :: Context

record SynthesisText =
  st_Title :: string
  st_Body :: string

definition presentationTitle :: "Situation \<Rightarrow> string \<Rightarrow> string" where
  "presentationTitle s locale =
     (let (title, ok) = NatureLabel (s_NatureKey s) locale
      in if s_NatureScope s = ''canonical'' \<and> ok then title
         else fst (Title (s_AlertKind s) locale))"

definition Presentation :: "Situation \<Rightarrow> Localized" where
  "Presentation s =
     \<lparr>l_FR = \<lparr>t_Title = presentationTitle s ''fr'', t_Description = ''''\<rparr>,
      l_EN = \<lparr>t_Title = presentationTitle s ''en'', t_Description = ''''\<rparr>\<rparr>"

definition oneLine :: "string \<Rightarrow> nat \<Rightarrow> string" where
  "oneLine v limit =
     (let one = Join (Fields v) space; rs = runes one
      in if limit < length rs then concat (take (limit - 1) rs) @ ellipsis else one)"

definition severityLabel :: "string \<Rightarrow> bool \<Rightarrow> string \<times> bool" where
  "severityLabel severity english =
     (case map_of
        [(''information'', ''information'', ''information''),
         (''warning'', ''avertissement'', ''warning''),
         (''major'', (''gravit'' @ [CHR 0xC3, CHR 0xA9] @ '' majeure''), ''major severity''),
         (''critical'', (''gravit'' @ [CHR 0xC3, CHR 0xA9] @ '' critique''), ''critical severity'')] severity of
        None \<Rightarrow> ('''', False)
      | Some (fr, en) \<Rightarrow> (if english then en else fr, True))"

definition pick :: "bool \<Rightarrow> string \<Rightarrow> string \<Rightarrow> string" where
  "pick english french englishText = (if english then englishText else french)"

definition Synthesis_Render :: "Situation \<Rightarrow> string \<Rightarrow> SynthesisText" where
  "Synthesis_Render s locale =
     (let english = (locale = ''en'');
          (natureTitle, ok) = NatureLabel (s_NatureKey s) locale;
          known = (ok \<and> s_NatureScope s = ''canonical'');
          label = oneLine (s_NatureLabel s) 150;
          title0 =
            (if known then natureTitle
             else if label = '''' then (if english then ''Monitoring signal'' else ''Signal de supervision'')
             else (if english then ''Reported: '' else ''Signalement : '') @ label);
          translated = presentationTitle s locale;
          title1 = (if translated \<noteq> '''' then translated else title0);
          count = (if s_Resolved s then s_MaxAffected s else s_AffectedTargets s);
          name = oneLine (s_TargetName s) 120;
          body0 =
            (if count = 1 then
               (if name \<noteq> '''' \<and> (\<not> s_Resolved s \<or> s_TotalTargets s \<le> 1) then name
                else if english then ''1 affected target'' else (''1 Cible concern'' @ [CHR 0xC3, CHR 0xA9] @ ''e''))
             else if 1 < count then
               show_int count @ (if english then '' affected targets'' else ('' Cibles concern'' @ [CHR 0xC3, CHR 0xA9] @ ''es''))
             else if english then (''No targets still affected '' @ [CHR 0xC2, CHR 0xB7] @ '' recovery awaiting confirmation'')
             else (''Aucune Cible encore affect'' @ [CHR 0xC3, CHR 0xA9] @ ''e '' @ [CHR 0xC2, CHR 0xB7] @ '' r'' @ [CHR 0xC3, CHR 0xA9] @ ''tablissement en cours de confirmation''))
      in if s_Resolved s then
           \<lparr>st_Title = (if english then (''Resolved '' @ [CHR 0xC2, CHR 0xB7] @ '' '') else (''R'' @ [CHR 0xC3, CHR 0xA9] @ ''solu '' @ [CHR 0xC2, CHR 0xB7] @ '' '')) @ title1,
            st_Body =
              (if count = 1 \<and> 1 < s_TotalTargets s then
                 (if english then ''Up to 1 affected target at a time''
                  else (''Jusqu'' @ [CHR 0xE2, CHR 0x80, CHR 0x99, CHR 0xC3, CHR 0xA0] @ '' 1 Cible concern'' @ [CHR 0xC3, CHR 0xA9] @ ''e '' @ [CHR 0xC3, CHR 0xA0] @ '' la fois''))
               else if 1 < count then
                 (if english then ''Up to '' @ show_int count @ '' affected targets''
                  else (''Jusqu'' @ [CHR 0xE2, CHR 0x80, CHR 0x99, CHR 0xC3, CHR 0xA0] @ '' '') @ show_int count @ ('' Cibles concern'' @ [CHR 0xC3, CHR 0xA9] @ ''es''))
               else if count = 0 then
                 (if english then ''Recovery confirmed'' else (''R'' @ [CHR 0xC3, CHR 0xA9] @ ''tablissement confirm'' @ [CHR 0xC3, CHR 0xA9]))
               else body0)\<rparr>
         else
           let (severity, hasSeverity) = severityLabel (s_Severity s) english
           in \<lparr>st_Title = title1,
               st_Body = (if hasSeverity then body0 @ ('' '' @ [CHR 0xC2, CHR 0xB7] @ '' '') @ severity else body0)\<rparr>)"

record SynthesisLocalized =
  sl_FR :: SynthesisText
  sl_EN :: SynthesisText

definition Synthesis_Localize :: "Situation \<Rightarrow> SynthesisLocalized" where
  "Synthesis_Localize s = \<lparr>sl_FR = Synthesis_Render s ''fr'', sl_EN = Synthesis_Render s ''en''\<rparr>"

subsection \<open>The notification template\<close>

definition shortSeverity :: "string \<Rightarrow> bool \<Rightarrow> string \<times> bool" where
  "shortSeverity severity english =
     (case map_of
        [(''information'', ''information'', ''information''), (''warning'', ''avertissement'', ''warning''),
         (''major'', ''majeur'', ''major''), (''critical'', ''critique'', ''critical'')] severity of
        None \<Rightarrow> ('''', False)
      | Some (fr, en) \<Rightarrow> (if english then en else fr, True))"

definition severityRank :: "string \<Rightarrow> int" where
  "severityRank severity =
     (case map_of [(''information'', 1), (''warning'', 2), (''major'', 3), (''critical'', 4)] severity of
        None \<Rightarrow> 0 | Some r \<Rightarrow> r)"

definition resumptionCount :: "int \<Rightarrow> bool \<Rightarrow> string" where
  "resumptionCount count english =
     (if count = 1 then pick english ''1 reprise'' ''1 relapse''
      else show_int count @ pick english '' reprises'' '' relapses'')"

definition notificationSubject :: "Situation \<Rightarrow> int \<Rightarrow> bool \<Rightarrow> string" where
  "notificationSubject s count english =
     (if count = 1 then
        let name = oneLine (s_TargetName s) 60
        in if name \<noteq> '''' \<and> (\<not> s_Resolved s \<or> s_TotalTargets s \<le> 1) then name
           else pick english ''1 Ressource'' ''1 resource''
      else show_int count @ pick english '' Ressources'' '' resources'')"

definition notificationProblem :: "Situation \<Rightarrow> string \<Rightarrow> string" where
  "notificationProblem s locale =
     (let title = presentationTitle s locale; (nature, ok) = NatureLabel (s_NatureKey s) locale;
          label = oneLine (s_NatureLabel s) 80
      in if title \<noteq> '''' then title
         else if s_NatureScope s = ''canonical'' \<and> ok then nature
         else if label \<noteq> '''' then label
         else pick (locale = ''en'') ''Signal de supervision'' ''Monitoring signal'')"

fun shown_names :: "string list \<Rightarrow> string list \<Rightarrow> string list" where
  "shown_names [] shown = shown"
| "shown_names (name # names) shown =
     (let one = oneLine name 40
      in shown_names names (if one \<noteq> '''' \<and> length shown < 3 then shown @ [one] else shown))"

definition targetNames :: "string list \<Rightarrow> int \<Rightarrow> string" where
  "targetNames names count =
     (let shown = shown_names names []
      in if shown = [] then ''''
         else Join shown '', '' @
           (if int (length shown) < count then '' +'' @ show_int (count - int (length shown)) else ''''))"

definition factDetail :: "Fact option \<Rightarrow> string \<Rightarrow> string" where
  "factDetail fopt locale =
     (case fopt of None \<Rightarrow> ''''
      | Some f \<Rightarrow>
          let normalized = Normalize f; description = t_Description (Render normalized locale)
          in if f_Kind normalized = '''' then ''''
             else if f_Resource normalized \<noteq> '''' \<and>
               (description = '''' \<or> take 9 description = ''Ressource'' \<or> take 8 description = ''Resource'')
               then f_Resource normalized
             else description)"

definition two_digits :: "int \<Rightarrow> string" where
  "two_digits n = (if n < 10 then ''0'' @ show_int n else show_int n)"

definition formatDuration :: "duration \<Rightarrow> bool \<Rightarrow> string" where
  "formatDuration d english =
     (let minutes = go_div d minute
      in if minutes < 1 then pick english (''moins d'' @ [CHR 0xE2, CHR 0x80, CHR 0x99] @ ''1 min'') ''under 1 min''
         else if minutes < 60 then show_int minutes @ '' min''
         else if minutes < 24 * 60 then
           (if minutes mod 60 = 0 then show_int (minutes div 60) @ '' h''
            else show_int (minutes div 60) @ '' h '' @ two_digits (minutes mod 60))
         else
           let days = minutes div (24 * 60); hours = minutes mod (24 * 60) div 60
           in if hours = 0 then show_int days @ pick english '' j'' '' d''
              else show_int days @ pick english '' j '' '' d '' @ show_int hours @ '' h'')"

definition notification_details :: "Situation \<Rightarrow> string \<Rightarrow> int \<Rightarrow> string list" where
  "notification_details s locale count =
     (let english = (locale = ''en''); cx = s_Context s; resolved = s_Resolved s;
          (previous, ok) = shortSeverity (cx_PreviousSeverity cx) english;
          names = targetNames (cx_TargetNames cx) count;
          detail = factDetail (cx_Fact cx) locale
      in (if \<not> resolved \<and> count = 0
            then [pick english (''Aucune Ressource encore affect'' @ [CHR 0xC3, CHR 0xA9] @ ''e'') ''No resources still affected''] else []) @
         (if \<not> resolved \<and> s_Extended s
            then [pick english (''Propagation '' @ [CHR 0xC3, CHR 0xA9] @ ''tendue'') ''Extended propagation''] else []) @
         (if ok \<and> \<not> resolved \<and> severityRank (cx_PreviousSeverity cx) < severityRank (s_Severity s)
            then [pick english ''Auparavant : '' ''Previously: '' @ previous] else []) @
         (if \<not> resolved \<and> 0 < cx_Resumptions cx
            then [pick english ''De nouveau en cours'' ''Back again'' @
                  (if 1 < cx_Resumptions cx
                   then ('' '' @ [CHR 0xC2, CHR 0xB7] @ '' '') @ resumptionCount (cx_Resumptions cx) english else '''')] else []) @
         (if resolved \<and> 0 < cx_DurationSeconds cx
            then [pick english (''R'' @ [CHR 0xC3, CHR 0xA9] @ ''tabli apr'' @ [CHR 0xC3, CHR 0xA8] @ ''s '') ''Recovered after '' @
                  formatDuration (wrap64 (cx_DurationSeconds cx * second)) english] else []) @
         (if resolved \<and> 0 < cx_Resumptions cx
            then [resumptionCount (cx_Resumptions cx) english] else []) @
         (if 1 < count \<and> names \<noteq> '''' then [names] else []) @
         (if detail \<noteq> '''' then [detail] else []))"

definition RenderNotification :: "Situation \<Rightarrow> string \<Rightarrow> SynthesisText" where
  "RenderNotification s locale =
     (let english = (locale = ''en'');
          count = (if s_Resolved s then max (s_MaxAffected s) (s_TotalTargets s) else s_AffectedTargets s);
          pending = (\<not> s_Resolved s \<and> count = 0);
          (severity, hasSeverity) = shortSeverity (s_Severity s) english;
          title =
            (if pending then pick english (''R'' @ [CHR 0xC3, CHR 0xA9] @ ''tablissement '' @ [CHR 0xC3, CHR 0xA0] @ '' confirmer'') ''Recovery awaiting confirmation''
             else if s_Resolved s \<and> count = 0 then pick english (''R'' @ [CHR 0xC3, CHR 0xA9] @ ''solu'') ''Resolved''
             else if s_Resolved s then
               notificationSubject s count english @ ('' '' @ [CHR 0xC2, CHR 0xB7] @ '' '') @ pick english (''r'' @ [CHR 0xC3, CHR 0xA9] @ ''solu'') ''resolved''
             else notificationSubject s count english @ (if hasSeverity then ('' '' @ [CHR 0xC2, CHR 0xB7] @ '' '') @ severity else ''''));
          details = notification_details s locale count;
          body = notificationProblem s locale
      in \<lparr>st_Title = oneLine title 80,
          st_Body = (if details \<noteq> [] then body @ [CHR 0x0A] @ Join details ('' '' @ [CHR 0xC2, CHR 0xB7] @ '' '') else body)\<rparr>)"

definition LocalizeNotification :: "Situation \<Rightarrow> SynthesisLocalized" where
  "LocalizeNotification s = \<lparr>sl_FR = RenderNotification s ''fr'', sl_EN = RenderNotification s ''en''\<rparr>"

definition NotificationMarker :: "string \<Rightarrow> bool \<Rightarrow> string" where
  "NotificationMarker severity resolved =
     (if resolved then [CHR 0xF0, CHR 0x9F, CHR 0x9F, CHR 0xA2]
      else case map_of [(''information'', [CHR 0xF0, CHR 0x9F, CHR 0x94, CHR 0xB5]), (''warning'', [CHR 0xF0, CHR 0x9F, CHR 0x9F, CHR 0xA1]), (''major'', [CHR 0xF0, CHR 0x9F, CHR 0x9F, CHR 0xA0]), (''critical'', [CHR 0xF0, CHR 0x9F, CHR 0x94, CHR 0xB4])] severity of
             None \<Rightarrow> '''' | Some m \<Rightarrow> m)"

subsection \<open>Bounds\<close>

lemma oneLine_rune_count: "0 < limit \<Longrightarrow> rune_count (oneLine v limit) \<le> limit"
proof (cases "limit < length (runes (Join (Fields v) space))")
  case True
  assume "0 < limit"
  let ?rs = "take (limit - 1) (runes (Join (Fields v) space)) @ [ellipsis]"
  have "list_all valid_rune ?rs"
    using valid_runes [of "Join (Fields v) space"] by (auto simp: list_all_iff dest: in_set_takeD)
  then have "rune_chunks (concat ?rs) = ?rs" by (rule rune_chunks_concat_valid)
  then have "rune_chunks (oneLine v limit) = ?rs"
    using True by (simp add: oneLine_def Let_def)
  with True \<open>0 < limit\<close> show ?thesis by (simp add: rune_count_def)
next
  case False
  then show ?thesis by (simp add: oneLine_def Let_def)
qed

lemma shown_names_length: "length shown \<le> 3 \<Longrightarrow> length (shown_names names shown) \<le> 3"
  by (induction names arbitrary: shown) (auto simp: Let_def)

text \<open>A notification title never exceeds eighty runes, whatever the name of the resource
  and in both languages, and the list of names it may show holds at most three.\<close>

theorem RenderNotification_title_bound:
  "rune_count (st_Title (RenderNotification s locale)) \<le> 80 \<and>
   length (shown_names (cx_TargetNames (s_Context s)) []) \<le> 3"
  by (auto simp: RenderNotification_def Let_def split_def oneLine_rune_count shown_names_length)

end
