(* ===== verification/Go_Time.thy ===== *)
theory Go_Time
  imports Go_Json
begin

text \<open>
  What the stores use of Go's \<^verbatim>\<open>time\<close> package beyond instants and durations: the civil date
  of an instant, in UTC, and the text \<^verbatim>\<open>encoding/json\<close> writes for a \<open>time.Time\<close> (RFC 3339
  with the trailing zeros of the fraction dropped).
\<close>

record civil =
  cv_year :: int
  cv_month :: int
  cv_day :: int

text \<open>Days are counted from 1 January of year 1; years start in March inside the
  computation, so that the leap day ends them. Day 306 before that origin starts the era.\<close>

definition civil_of_days :: "int \<Rightarrow> civil" where
  "civil_of_days n =
     (let z = n + 306; era = z div 146097; doe = z mod 146097;
          yoe = (doe - doe div 1460 + doe div 36524 - doe div 146096) div 365;
          doy = doe - (365 * yoe + yoe div 4 - yoe div 100);
          mp = (5 * doy + 2) div 153;
          m = (if mp < 10 then mp + 3 else mp - 9)
      in \<lparr>cv_year = yoe + era * 400 + (if m \<le> 2 then 1 else 0), cv_month = m,
          cv_day = doy - (153 * mp + 2) div 5 + 1\<rparr>)"

definition days_of_civil :: "civil \<Rightarrow> int" where
  "days_of_civil c =
     (let y = (if cv_month c \<le> 2 then cv_year c - 1 else cv_year c); era = y div 400; yoe = y mod 400;
          mp = (cv_month c + 9) mod 12;
          doy = (153 * mp + 2) div 5 + cv_day c - 1;
          doe = yoe * 365 + yoe div 4 - yoe div 100 + doy
      in era * 146097 + doe - 306)"

definition pad :: "nat \<Rightarrow> int \<Rightarrow> string" where
  "pad w n = (let t = show_int n in replicate (w - length t) (CHR ''0'') @ t)"

definition fraction :: "int \<Rightarrow> string" where
  "fraction ns =
     (if ns = 0 then ''''
      else ''.'' @ rev (dropWhile (\<lambda>c. c = CHR ''0'') (rev (pad 9 ns))))"

definition rfc3339 :: "instant \<Rightarrow> string" where
  "rfc3339 t =
     (let c = civil_of_days (t div day); r = t mod day
      in pad 4 (cv_year c) @ ''-'' @ pad 2 (cv_month c) @ ''-'' @ pad 2 (cv_day c) @ ''T'' @
         pad 2 (r div hour) @ '':'' @ pad 2 (r mod hour div minute) @ '':'' @
         pad 2 (r mod minute div second) @ fraction (r mod second) @ ''Z'')"

definition json_time :: "instant \<Rightarrow> jvalue" where
  "json_time t = JString (rfc3339 t)"

end
