(* ===== verification/Incident_Model.thy ===== *)
theory Incident_Model
  imports Domain Synthesis Go_Time
begin

text \<open>
  The state of the Incident--Proof cycle (\<^verbatim>\<open>internal/incidents\<close>): the tables the cycle
  reads and writes as lists of rows, transactions over them, and the inputs of the
  adapters (\<^verbatim>\<open>incidents.go\<close>).

  A transaction is a function from the database to a result and a database: an error
  carries the state reached when it was raised, because \<open>ApplyEvidenceSnapshot\<close> goes on in
  the same transaction after \<open>ErrTargetArchived\<close>; the operations that own the transaction
  roll back with \<open>commit_or_rollback\<close>. Transactions run one after the other: the row and
  advisory locks of the code are what makes that order exist. Identifiers are canonical
  uuid texts; \<open>gen_random_uuid\<close> and Go's unspecified map iteration order are fields of the
  state, constrained only by \<open>env_ok\<close>.
\<close>

type_synonym uuid = string
type_synonym severity = string

abbreviation SeverityInformation :: severity where "SeverityInformation \<equiv> ''information''"
abbreviation SeverityWarning :: severity where "SeverityWarning \<equiv> ''warning''"
abbreviation SeverityMajor :: severity where "SeverityMajor \<equiv> ''major''"
abbreviation SeverityCritical :: severity where "SeverityCritical \<equiv> ''critical''"

definition validSeverity :: "severity \<Rightarrow> bool" where
  "validSeverity v \<longleftrightarrow>
     v = SeverityInformation \<or> v = SeverityWarning \<or> v = SeverityMajor \<or> v = SeverityCritical"

text \<open>The SQL function \<open>cairnops_severity_rank\<close>.\<close>

definition severity_rank :: "severity \<Rightarrow> int" where
  "severity_rank v =
     (if v = SeverityInformation then 1 else if v = SeverityWarning then 2
      else if v = SeverityMajor then 3 else if v = SeverityCritical then 4 else 0)"

lemma severity_rank_inj:
  "validSeverity a \<Longrightarrow> validSeverity b \<Longrightarrow> severity_rank a = severity_rank b \<Longrightarrow> a = b"
  by (auto simp: validSeverity_def severity_rank_def split: if_splits)

datatype row_status = Active | Resolved
datatype propagation = Open | Closed
datatype ack_sync = NotApplicable | Pending | Synchronized | Failed
datatype ack_origin = AckUser | AckConnector

subsection \<open>Natures and facts\<close>

record NatureIdentity =
  n_Key :: string
  n_Label :: string
  n_Scope :: string
  n_Namespace :: string
  n_Fingerprint :: string
  n_Eligible :: bool

definition CanonicalNature :: "string \<Rightarrow> string \<Rightarrow> NatureIdentity" where
  "CanonicalNature key label =
     \<lparr>n_Key = key, n_Label = label, n_Scope = ''canonical'', n_Namespace = ''cairnops'',
      n_Fingerprint = key, n_Eligible = True\<rparr>"

definition ConnectorNature :: "string \<Rightarrow> string \<Rightarrow> string \<Rightarrow> string \<Rightarrow> NatureIdentity" where
  "ConnectorNature connectorID key label fingerprint =
     \<lparr>n_Key = key, n_Label = label, n_Scope = ''connector'', n_Namespace = connectorID,
      n_Fingerprint = fingerprint, n_Eligible = (TrimSpace fingerprint \<noteq> '''')\<rparr>"

record EvidenceFact =
  fa_Alert :: Fact
  fa_Origin :: string
  fa_ConnectorID :: uuid
  fa_BindingID :: uuid
  fa_SourceID :: uuid
  fa_IdentityScope :: string
  fa_IdentityKey :: string
  fa_TargetID :: uuid
  fa_ExternalEventID :: string
  fa_ExternalObjectID :: string
  fa_Nature :: NatureIdentity
  fa_Name :: string
  fa_Severity :: severity
  fa_OpenedAt :: instant
  fa_UpstreamAcknowledged :: bool
  fa_Metadata :: metadata
  fa_EvaluationWindow :: duration

record EvidenceSnapshot =
  sn_Origin :: string
  sn_ConnectorID :: uuid
  sn_LeaseOwner :: string
  sn_ObservedAt :: instant
  sn_CompleteConnector :: bool
  sn_ObservedScopes :: "string list"
  sn_Facts :: "EvidenceFact list"

subsection \<open>Tables\<close>

record target_row =
  tg_id :: uuid
  tg_name :: string
  tg_archived_at :: "instant option"

record connector_row =
  co_id :: uuid
  co_sync_interval_seconds :: int
  co_disabled :: bool
  co_lease_owner :: "string option"
  co_lease_until :: "instant option"

record source_row =
  so_id :: uuid
  so_target_id :: uuid
  so_name :: string
  so_kind :: string
  so_origin :: string
  so_enabled :: bool
  so_measures_availability :: bool
  so_interval_seconds :: int
  so_timeout_milliseconds :: int
  so_config :: string
  so_failure_threshold :: int
  so_recovery_threshold :: int
  so_severity :: severity
  so_consecutive_unhealthy :: int
  so_consecutive_healthy :: int
  so_next_run_at :: instant
  so_lease_owner :: "string option"
  so_lease_until :: "instant option"
  so_last_signal_at :: "instant option"
  so_last_signal_outcome :: "outcome option"
  so_last_observed_at :: "instant option"
  so_created_at :: instant

record observation_row =
  ob_source_id :: uuid
  ob_target_id :: uuid
  ob_observed_at :: instant
  ob_outcome :: outcome
  ob_latency_milliseconds :: int
  ob_reason :: string
  ob_message :: string
  ob_details :: metadata

record incident_row =
  in_id :: uuid
  in_nature_key :: string
  in_nature_label :: string
  in_nature_scope :: string
  in_nature_namespace :: string
  in_nature_fingerprint :: string
  in_propagation_eligible :: bool
  in_status :: row_status
  in_propagation_status :: propagation
  in_severity :: severity
  in_opened_at :: instant
  in_last_impact_at :: instant
  in_propagation_window_seconds :: int
  in_propagation_ends_at :: instant
  in_propagation_closed_at :: "instant option"
  in_resolved_at :: "instant option"
  in_acknowledged_at :: "instant option"
  in_acknowledged_by :: "uuid option"
  in_acknowledgement_origin :: "ack_origin option"
  in_ack_sync_status :: ack_sync
  in_ack_sync_error :: string
  in_extended :: bool
  in_active_impact_count :: int
  in_impact_count :: int
  in_affected_target_count :: int
  in_max_affected_targets :: int
  in_revision :: int
  in_created_at :: instant
  in_updated_at :: instant
  in_alert_kind :: kind
  in_resumption_count :: int
  in_resumed_at :: "instant option"

record impact_row =
  im_id :: uuid
  im_incident_id :: uuid
  im_target_id :: uuid
  im_status :: row_status
  im_source_severity :: severity
  im_effective_severity :: severity
  im_opened_at :: instant
  im_resolved_at :: "instant option"

record evidence_row =
  ev_id :: uuid
  ev_incident_id :: uuid
  ev_impact_id :: uuid
  ev_target_id :: uuid
  ev_origin :: string
  ev_connector_id :: "uuid option"
  ev_connector_binding_id :: "uuid option"
  ev_source_id :: "uuid option"
  ev_identity_scope :: string
  ev_identity_key :: string
  ev_external_event_id :: string
  ev_external_object_id :: string
  ev_name :: string
  ev_active :: bool
  ev_severity :: severity
  ev_opened_at :: instant
  ev_resolved_at :: "instant option"
  ev_upstream_acknowledged :: bool
  ev_ack_sync_status :: ack_sync
  ev_ack_sync_error :: string
  ev_ack_synced_at :: "instant option"
  ev_last_seen_at :: instant
  ev_invalidated_at :: "instant option"
  ev_invalidated_by :: "uuid option"
  ev_invalidation_reason :: string
  ev_rearmed_at :: "instant option"
  ev_metadata :: metadata
  ev_alert_facts :: Fact
  ev_updated_at :: instant

record activity_row =
  ac_incident_id :: uuid
  ac_impact_id :: "uuid option"
  ac_evidence_id :: "uuid option"
  ac_kind :: string
  ac_origin :: string
  ac_actor_id :: "uuid option"
  ac_message :: string
  ac_data :: metadata
  ac_occurred_at :: instant

record db =
  gen_random_uuid :: "nat \<Rightarrow> uuid"
  uuids_drawn :: nat
  map_order :: "uuid list \<Rightarrow> uuid list"
  clock :: instant
  targets :: "target_row list"
  connectors :: "connector_row list"
  sources :: "source_row list"
  observations :: "observation_row list"
  incidents :: "incident_row list"
  impacts :: "impact_row list"
  evidence :: "evidence_row list"
  activity :: "activity_row list"

text \<open>What the code relies on outside itself: PostgreSQL never generates the same uuid twice
  nor a blank one, and ranging over a Go map visits each key once.\<close>

definition env_ok :: "db \<Rightarrow> bool" where
  "env_ok s \<longleftrightarrow> inj (gen_random_uuid s) \<and> (\<forall>n. TrimSpace (gen_random_uuid s n) \<noteq> '''') \<and>
     (\<forall>xs. mset (map_order s xs) = mset xs)"

subsection \<open>Transactions\<close>

datatype cycle_error = ErrInvalidInput | ErrNotFound | ErrConflict | ErrTargetArchived
  | ErrLeaseLost | ErrNoRows

type_synonym 'a tx = "db \<Rightarrow> (cycle_error + 'a) \<times> db"

definition bindT :: "'a tx \<Rightarrow> ('a \<Rightarrow> 'b tx) \<Rightarrow> 'b tx" where
  "bindT m f s = (case m s of (Inl e, s') \<Rightarrow> (Inl e, s') | (Inr a, s') \<Rightarrow> f a s')"

definition thenT :: "'a tx \<Rightarrow> 'b tx \<Rightarrow> 'b tx" where
  "thenT m n = bindT m (\<lambda>_. n)"

definition returnT :: "'a \<Rightarrow> 'a tx" where "returnT a s = (Inr a, s)"
definition failT :: "cycle_error \<Rightarrow> 'a tx" where "failT e s = (Inl e, s)"

text \<open>A statement that cannot fail, a query, and a loop.\<close>

definition execT :: "(db \<Rightarrow> db) \<Rightarrow> unit tx" where "execT f s = (Inr (), f s)"
definition getT :: "(db \<Rightarrow> 'a) \<Rightarrow> 'a tx" where "getT f s = (Inr (f s), s)"

fun forT :: "'a list \<Rightarrow> ('a \<Rightarrow> unit tx) \<Rightarrow> unit tx" where
  "forT [] f = returnT ()"
| "forT (x # xs) f = thenT (f x) (forT xs f)"

text \<open>\<open>defer tx.Rollback\<close> and \<open>tx.Commit\<close>.\<close>

definition commit_or_rollback :: "'a tx \<Rightarrow> 'a tx" where
  "commit_or_rollback m s = (case m s of (Inl e, _) \<Rightarrow> (Inl e, s) | (Inr a, s') \<Rightarrow> (Inr a, s'))"

subsection \<open>Time and identifiers\<close>

text \<open>\<open>time.Now()\<close> is the argument \<open>now\<close>.\<close>

definition normalizedTime :: "instant \<Rightarrow> instant \<Rightarrow> instant" where
  "normalizedTime now t = (if t = 0 then now else t)"

definition nullableUUID :: "uuid \<Rightarrow> uuid option" where
  "nullableUUID v = (if TrimSpace v = '''' then None else Some v)"

definition draw_uuid :: "db \<Rightarrow> uuid" where
  "draw_uuid s = gen_random_uuid s (uuids_drawn s)"

definition cloneMetadata :: "metadata \<Rightarrow> metadata" where
  "cloneMetadata src = map (\<lambda>(k, v). (k, v)) src"

end
