(* ===== verification/Incident_Cycle.thy ===== *)
theory Incident_Cycle
  imports Incident_Model
begin

text \<open>
  The Incident--Proof cycle (\<^verbatim>\<open>internal/incidents/cycle.go\<close>, \<^verbatim>\<open>native.go\<close>,
  \<^verbatim>\<open>presentation.go\<close> and the writing half of \<^verbatim>\<open>store.go\<close>): one definition per Go
  function, each SQL statement an update of the rows it selects. This theory holds the
  operations; their invariants are in the theories that import it.
\<close>

subsection \<open>Lookups\<close>

definition incident_by_id :: "db \<Rightarrow> uuid \<Rightarrow> incident_row option" where
  "incident_by_id s i = find (\<lambda>r. in_id r = i) (incidents s)"

definition impact_by_id :: "db \<Rightarrow> uuid \<Rightarrow> impact_row option" where
  "impact_by_id s i = find (\<lambda>r. im_id r = i) (impacts s)"

definition acknowledged :: "db \<Rightarrow> uuid \<Rightarrow> bool" where
  "acknowledged s i \<longleftrightarrow>
     (\<exists>r \<in> set (incidents s). in_id r = i \<and> in_acknowledged_at r \<noteq> None)"

text \<open>A Proof that counts: active and not invalidated.\<close>

definition standing :: "evidence_row \<Rightarrow> bool" where
  "standing r \<longleftrightarrow> ev_active r \<and> ev_invalidated_at r = None"

definition is_zabbix_active :: "uuid \<Rightarrow> evidence_row \<Rightarrow> bool" where
  "is_zabbix_active i r \<longleftrightarrow> ev_incident_id r = i \<and> ev_active r \<and> ev_origin r = ''zabbix''"

subsection \<open>The journal (\<open>appendActivity\<close>)\<close>

definition appendActivity ::
  "uuid \<Rightarrow> uuid \<Rightarrow> uuid \<Rightarrow> string \<Rightarrow> string \<Rightarrow> uuid \<Rightarrow> string \<Rightarrow> metadata \<Rightarrow> db \<Rightarrow> db" where
  "appendActivity incidentID impactID evidenceID kind origin actorID message data s =
     s\<lparr>activity := activity s @
        [\<lparr>ac_incident_id = incidentID, ac_impact_id = nullableUUID impactID,
          ac_evidence_id = nullableUUID evidenceID, ac_kind = kind, ac_origin = origin,
          ac_actor_id = nullableUUID actorID, ac_message = message, ac_data = data,
          ac_occurred_at = clock s\<rparr>]\<rparr>"

subsection \<open>Acknowledgements\<close>

definition sync_errors :: "db \<Rightarrow> uuid \<Rightarrow> string" where
  "sync_errors s incidentID =
     Join (filter (\<lambda>e. e \<noteq> '''') (map ev_ack_sync_error
       (sort_key ev_id (filter (\<lambda>r. is_zabbix_active incidentID r \<and> ev_ack_sync_status r = Failed)
         (evidence s))))) ''; ''"

definition desired_sync :: "db \<Rightarrow> uuid \<Rightarrow> ack_sync \<times> string" where
  "desired_sync s incidentID =
     (let rows = filter (is_zabbix_active incidentID) (evidence s)
      in (if rows = [] then NotApplicable
          else if \<exists>r \<in> set rows. ev_ack_sync_status r = Failed then Failed
          else if \<exists>r \<in> set rows. ev_ack_sync_status r = Pending then Pending
          else Synchronized,
          concat (take 500 (rune_chunks (sync_errors s incidentID)))))"

definition recomputeAcknowledgement :: "uuid \<Rightarrow> db \<Rightarrow> db" where
  "recomputeAcknowledgement incidentID s =
     (let (status, err) = desired_sync s incidentID
      in s\<lparr>incidents := update_where
            (\<lambda>r. in_id r = incidentID \<and> in_acknowledged_at r \<noteq> None \<and>
                 (in_ack_sync_status r, in_ack_sync_error r) \<noteq> (status, err))
            (\<lambda>r. r\<lparr>in_ack_sync_status := status, in_ack_sync_error := err,
                    in_revision := in_revision r + 1, in_updated_at := clock s\<rparr>)
            (incidents s)\<rparr>)"

definition acknowledge_upstream :: "uuid \<Rightarrow> uuid \<Rightarrow> instant \<Rightarrow> db \<Rightarrow> db" where
  "acknowledge_upstream incidentID evidenceID observedAt s =
     (let others = (\<exists>e \<in> set (evidence s). is_zabbix_active incidentID e \<and> ev_id e \<noteq> evidenceID \<and>
                      \<not> ev_upstream_acknowledged e)
      in s\<lparr>incidents := update_where (\<lambda>r. in_id r = incidentID \<and> in_acknowledged_at r = None)
            (\<lambda>r. r\<lparr>in_acknowledged_at := Some observedAt,
                    in_acknowledgement_origin :=
                      (case in_acknowledgement_origin r of None \<Rightarrow> Some AckConnector | Some x \<Rightarrow> Some x),
                    in_ack_sync_status := (if others then Pending else Synchronized),
                    in_ack_sync_error := '''', in_revision := in_revision r + 1,
                    in_updated_at := clock s\<rparr>) (incidents s)\<rparr>)"

definition inherit_upstream :: "uuid \<Rightarrow> uuid \<Rightarrow> instant \<Rightarrow> db \<Rightarrow> db" where
  "inherit_upstream incidentID evidenceID observedAt s =
     s\<lparr>evidence := update_where (is_zabbix_active incidentID)
        (\<lambda>e. let ok = (ev_id e = evidenceID \<or> ev_upstream_acknowledged e)
             in e\<lparr>ev_ack_sync_status := (if ok then Synchronized else Pending),
                  ev_ack_sync_error := '''',
                  ev_ack_synced_at :=
                    (if ok then (case ev_ack_synced_at e of None \<Rightarrow> Some observedAt | Some x \<Rightarrow> Some x)
                     else None),
                  ev_updated_at := clock s\<rparr>) (evidence s)\<rparr>"

definition acknowledgeFromEvidence :: "uuid \<Rightarrow> uuid \<Rightarrow> instant \<Rightarrow> db \<Rightarrow> db" where
  "acknowledgeFromEvidence incidentID evidenceID observedAt s =
     recomputeAcknowledgement incidentID
       (if \<exists>r \<in> set (incidents s). in_id r = incidentID \<and> in_acknowledged_at r = None
        then appendActivity incidentID '''' evidenceID ''upstream_acknowledged'' ''zabbix'' ''''
               (''Acquittement re'' @ [CHR 0xC3, CHR 0xA7] @ ''u du Connecteur'') []
               (inherit_upstream incidentID evidenceID observedAt
                 (acknowledge_upstream incidentID evidenceID observedAt s))
        else s)"

definition acknowledgementStatus :: "bool \<Rightarrow> ack_sync" where
  "acknowledgementStatus upstream = (if upstream then Synchronized else NotApplicable)"

definition acknowledgementTime :: "bool \<Rightarrow> instant \<Rightarrow> instant option" where
  "acknowledgementTime upstream observedAt = (if upstream then Some observedAt else None)"

subsection \<open>Recomputing\<close>

definition resolveEvidenceRow ::
  "uuid \<Rightarrow> uuid \<Rightarrow> uuid \<Rightarrow> string \<Rightarrow> string \<Rightarrow> instant \<Rightarrow> db \<Rightarrow> db" where
  "resolveEvidenceRow evidenceID incidentID impactID name origin observedAt s =
     appendActivity incidentID impactID evidenceID ''evidence_resolved'' origin '''' name []
       (s\<lparr>evidence := update_where (\<lambda>r. ev_id r = evidenceID \<and> ev_active r)
            (\<lambda>r. r\<lparr>ev_active := False, ev_resolved_at := Some observedAt,
                    ev_last_seen_at := observedAt, ev_updated_at := clock s\<rparr>) (evidence s)\<rparr>)"

definition impact_evidence :: "db \<Rightarrow> uuid \<Rightarrow> evidence_row list" where
  "impact_evidence s i = filter (\<lambda>r. ev_impact_id r = i \<and> standing r) (evidence s)"

definition write_impact :: "uuid \<Rightarrow> row_status \<Rightarrow> severity \<Rightarrow> instant option \<Rightarrow> db \<Rightarrow> db" where
  "write_impact impactID status severity resolvedAt s =
     s\<lparr>impacts := update_where (\<lambda>r. im_id r = impactID)
        (\<lambda>r. r\<lparr>im_status := status, im_source_severity := severity,
                im_effective_severity := severity, im_resolved_at := resolvedAt\<rparr>) (impacts s)\<rparr>"

definition worst_evidence :: "db \<Rightarrow> uuid \<Rightarrow> evidence_row option" where
  "worst_evidence s impactID =
     first_max (\<lambda>r. severity_rank (ev_severity r)) (impact_evidence s impactID)"

definition recomputeImpact :: "uuid \<Rightarrow> instant \<Rightarrow> unit tx" where
  "recomputeImpact impactID observedAt s =
     (case impact_by_id s impactID of
        None \<Rightarrow> (Inl ErrNoRows, s)
      | Some prev \<Rightarrow>
          (case worst_evidence s impactID of
             None \<Rightarrow>
               (Inr (),
                if im_status prev = Resolved then s
                else appendActivity (im_incident_id prev) impactID '''' ''impact_resolved''
                       ''cairnops'' '''' (''Atteinte r'' @ [CHR 0xC3, CHR 0xA9] @ ''tablie'') []
                       (write_impact impactID Resolved (im_effective_severity prev) (Some observedAt) s))
           | Some r \<Rightarrow>
               (Inr (),
                if im_status prev = Active \<and> ev_severity r = im_effective_severity prev then s
                else write_impact impactID Active (ev_severity r) None s)))"

definition refreshIncidentPresentation :: "uuid \<Rightarrow> bool \<Rightarrow> db \<Rightarrow> db" where
  "refreshIncidentPresentation incidentID noActiveImpacts s =
     (let facts = map ev_alert_facts (filter (\<lambda>r. ev_incident_id r = incidentID \<and>
             ev_invalidated_at r = None \<and> (ev_active r \<or> noActiveImpacts)) (evidence s));
          kind = f_Kind (Common facts)
      in s\<lparr>incidents := update_where (\<lambda>r. in_id r = incidentID \<and> in_alert_kind r \<noteq> kind)
            (\<lambda>r. r\<lparr>in_alert_kind := kind\<rparr>) (incidents s)\<rparr>)"

definition incident_impacts :: "db \<Rightarrow> uuid \<Rightarrow> impact_row list" where
  "incident_impacts s i = filter (\<lambda>r. im_incident_id r = i) (impacts s)"

definition active_impacts :: "db \<Rightarrow> uuid \<Rightarrow> impact_row list" where
  "active_impacts s i = filter (\<lambda>r. im_status r = Active) (incident_impacts s i)"

definition extends :: "int \<Rightarrow> int \<Rightarrow> bool" where
  "extends active targetCount \<longleftrightarrow>
     20 \<le> active \<or> (5 \<le> active \<and> 0 < targetCount \<and> targetCount \<le> active * 5)"

text \<open>What \<open>recomputeIncident\<close> derives from the Impacts before it writes.\<close>

record derived =
  dv_status :: row_status
  dv_propagation :: propagation
  dv_severity :: severity
  dv_active :: int
  dv_total :: int
  dv_max_affected :: int
  dv_extended :: bool

definition derive_incident :: "incident_row \<Rightarrow> instant \<Rightarrow> db \<Rightarrow> derived" where
  "derive_incident prev observedAt s =
     (let active = int (length (active_impacts s (in_id prev)));
          total = int (length (incident_impacts s (in_id prev)));
          severity = (case first_max (\<lambda>r. severity_rank (im_effective_severity r))
                             (active_impacts s (in_id prev)) of
                        None \<Rightarrow> in_severity prev | Some r \<Rightarrow> im_effective_severity r);
          propagation = (if in_propagation_status prev = Open \<and> \<not> observedAt < in_propagation_ends_at prev
                         then Closed else in_propagation_status prev);
          status = (if propagation = Closed \<and> active = 0 then Resolved else Active);
          maxAffected = (if in_max_affected_targets prev < active then active
                         else in_max_affected_targets prev);
          targetCount = int (length (filter (\<lambda>t. tg_archived_at t = None) (targets s)))
      in \<lparr>dv_status = status, dv_propagation = propagation, dv_severity = severity,
          dv_active = active, dv_total = total, dv_max_affected = maxAffected,
          dv_extended = (in_extended prev \<or> extends active targetCount)\<rparr>)"

definition incident_changed :: "incident_row \<Rightarrow> derived \<Rightarrow> bool" where
  "incident_changed prev d \<longleftrightarrow>
     dv_status d \<noteq> in_status prev \<or> dv_propagation d \<noteq> in_propagation_status prev \<or>
     dv_severity d \<noteq> in_severity prev \<or> dv_active d \<noteq> in_active_impact_count prev \<or>
     dv_total d \<noteq> in_impact_count prev \<or> dv_max_affected d \<noteq> in_max_affected_targets prev \<or>
     dv_extended d \<noteq> in_extended prev"

definition written_row :: "incident_row \<Rightarrow> derived \<Rightarrow> instant \<Rightarrow> instant \<Rightarrow> incident_row \<Rightarrow> incident_row" where
  "written_row prev d observedAt now r =
     r\<lparr>in_status := dv_status d, in_propagation_status := dv_propagation d,
       in_severity := dv_severity d,
       in_propagation_closed_at :=
         (if dv_propagation d = in_propagation_status prev
          then (if dv_propagation d = Closed then in_propagation_closed_at prev else None)
          else Some observedAt),
       in_resolved_at :=
         (if dv_status d = in_status prev
          then (if dv_status d = Resolved then in_resolved_at prev else None)
          else if dv_status d = Resolved then Some observedAt else None),
       in_active_impact_count := dv_active d,
       in_impact_count := dv_total d, in_affected_target_count := dv_active d,
       in_max_affected_targets := dv_max_affected d, in_extended := dv_extended d,
       in_revision := in_revision r + 1, in_updated_at := now\<rparr>"

definition write_incident :: "incident_row \<Rightarrow> derived \<Rightarrow> instant \<Rightarrow> db \<Rightarrow> db" where
  "write_incident prev d observedAt s =
     s\<lparr>incidents := update_where (\<lambda>r. in_id r = in_id prev)
        (written_row prev d observedAt (clock s)) (incidents s)\<rparr>"

definition journal_incident :: "incident_row \<Rightarrow> derived \<Rightarrow> db \<Rightarrow> db" where
  "journal_incident prev d s =
     (let i = in_id prev;
          s1 = (if dv_propagation d = Closed \<and> in_propagation_status prev = Open
                then appendActivity i '''' '''' ''propagation_closed'' ''cairnops'' ''''
                       (''Regroupement termin'' @ [CHR 0xC3, CHR 0xA9]) [] s else s);
          s2 = (if dv_severity d \<noteq> in_severity prev
                then appendActivity i '''' '''' ''severity_changed'' ''cairnops'' ''''
                       (''Gravit'' @ [CHR 0xC3, CHR 0xA9] @ '' actualis'' @ [CHR 0xC3, CHR 0xA9] @ ''e'')
                       [(''before'', JString (in_severity prev)), (''after'', JString (dv_severity d))] s1
                else s1);
          s3 = (if dv_extended d \<and> \<not> in_extended prev
                then appendActivity i '''' '''' ''extended'' ''cairnops'' ''''
                       (''Propagation '' @ [CHR 0xC3, CHR 0xA9] @ ''tendue'') [] s2 else s2)
      in if dv_status d = Resolved \<and> in_status prev \<noteq> Resolved
         then appendActivity i '''' '''' ''resolved'' ''cairnops'' '''' (''Incident r'' @ [CHR 0xC3, CHR 0xA9] @ ''solu'') [] s3 else s3)"

definition recomputeIncident :: "uuid \<Rightarrow> instant \<Rightarrow> unit tx" where
  "recomputeIncident incidentID observedAt s =
     (case incident_by_id s incidentID of
        None \<Rightarrow> (Inl ErrNoRows, s)
      | Some prev \<Rightarrow>
          let d = derive_incident prev observedAt s;
              s0 = refreshIncidentPresentation incidentID (dv_active d = 0) s
          in (Inr (), recomputeAcknowledgement incidentID
                        (if incident_changed prev d
                         then journal_incident prev d (write_incident prev d observedAt s0) else s0)))"

definition due_incidents :: "instant \<Rightarrow> db \<Rightarrow> uuid list" where
  "due_incidents observedAt s =
     map in_id (sort_key in_propagation_ends_at (filter (\<lambda>r. in_status r = Active \<and>
       in_propagation_status r = Open \<and> in_propagation_ends_at r \<le> observedAt) (incidents s)))"

definition advanceDueIncidents :: "instant \<Rightarrow> unit tx" where
  "advanceDueIncidents observedAt =
     bindT (getT (due_incidents observedAt))
       (\<lambda>ids. forT ids (\<lambda>i. recomputeIncident i observedAt))"

definition Advance :: "instant \<Rightarrow> instant \<Rightarrow> unit tx" where
  "Advance now observedAt = commit_or_rollback (advanceDueIncidents (normalizedTime now observedAt))"

subsection \<open>Choosing the Incident of a fact\<close>

definition ResumptionWindow :: duration where "ResumptionWindow = 6 * hour"

definition evidenceWindow :: "EvidenceFact \<Rightarrow> db \<Rightarrow> int" where
  "evidenceWindow f s =
     (let interval =
            (if fa_SourceID f \<noteq> '''' then
               (case find (\<lambda>r. so_id r = fa_SourceID f) (sources s) of
                  Some r \<Rightarrow> so_interval_seconds r | None \<Rightarrow> 30)
             else if fa_ConnectorID f \<noteq> '''' then
               (case find (\<lambda>r. co_id r = fa_ConnectorID f) (connectors s) of
                  Some r \<Rightarrow> co_sync_interval_seconds r | None \<Rightarrow> 30)
             else 30);
          window = max (wrap64 (interval * 2)) (go_div (min (fa_EvaluationWindow f) (5 * minute)) second)
      in if window < 60 then 60 else if 300 < window then 300 else window)"

definition extendPropagation :: "uuid \<Rightarrow> instant \<Rightarrow> int \<Rightarrow> db \<Rightarrow> db" where
  "extendPropagation incidentID observedAt window s =
     s\<lparr>incidents := update_where (\<lambda>r. in_id r = incidentID \<and> in_propagation_status r = Open)
        (\<lambda>r. let impactAt = max (in_last_impact_at r) observedAt;
                 w = max (in_propagation_window_seconds r) window
             in r\<lparr>in_last_impact_at := impactAt, in_propagation_window_seconds := w,
                  in_propagation_ends_at := max (in_propagation_ends_at r) (impactAt + w * second),
                  in_revision := in_revision r + 1, in_updated_at := clock s\<rparr>)
        (incidents s)\<rparr>"

definition reopen_impact :: "uuid \<Rightarrow> severity \<Rightarrow> db \<Rightarrow> db" where
  "reopen_impact impactID severity s =
     s\<lparr>impacts := update_where (\<lambda>r. im_id r = impactID)
        (\<lambda>r. r\<lparr>im_status := Active, im_resolved_at := None, im_source_severity := severity,
                im_effective_severity := severity\<rparr>) (impacts s)\<rparr>"

definition insert_impact :: "uuid \<Rightarrow> EvidenceFact \<Rightarrow> db \<Rightarrow> db" where
  "insert_impact incidentID f s =
     s\<lparr>uuids_drawn := Suc (uuids_drawn s),
       impacts := impacts s @
         [\<lparr>im_id = draw_uuid s, im_incident_id = incidentID, im_target_id = fa_TargetID f,
           im_status = Active, im_source_severity = fa_Severity f,
           im_effective_severity = fa_Severity f, im_opened_at = fa_OpenedAt f,
           im_resolved_at = None\<rparr>]\<rparr>"

definition insert_incident :: "EvidenceFact \<Rightarrow> int \<Rightarrow> instant \<Rightarrow> db \<Rightarrow> db" where
  "insert_incident f window observedAt s =
     (let nature = fa_Nature f
      in s\<lparr>uuids_drawn := Suc (uuids_drawn s),
           incidents := incidents s @
             [\<lparr>in_id = draw_uuid s, in_nature_key = n_Key nature, in_nature_label = n_Label nature,
               in_nature_scope = n_Scope nature, in_nature_namespace = n_Namespace nature,
               in_nature_fingerprint = n_Fingerprint nature,
               in_propagation_eligible = n_Eligible nature, in_status = Active,
               in_propagation_status = (if n_Eligible nature then Open else Closed),
               in_severity = fa_Severity f, in_opened_at = fa_OpenedAt f,
               in_last_impact_at = fa_OpenedAt f, in_propagation_window_seconds = window,
               in_propagation_ends_at = fa_OpenedAt f + window * second,
               in_propagation_closed_at = (if n_Eligible nature then None else Some observedAt),
               in_resolved_at = None, in_acknowledged_at = None, in_acknowledged_by = None,
               in_acknowledgement_origin = None, in_ack_sync_status = NotApplicable,
               in_ack_sync_error = '''', in_extended = False, in_active_impact_count = 1,
               in_impact_count = 1, in_affected_target_count = 1, in_max_affected_targets = 1,
               in_revision = 1, in_created_at = clock s, in_updated_at = clock s,
               in_alert_kind = '''', in_resumption_count = 0, in_resumed_at = None\<rparr>]\<rparr>)"

definition same_cycle_impacts :: "uuid \<Rightarrow> string \<Rightarrow> db \<Rightarrow> impact_row list" where
  "same_cycle_impacts targetID natureKey s =
     filter (\<lambda>im. im_target_id im = targetID \<and> im_status im = Active \<and>
       (case incident_by_id s (im_incident_id im) of
          None \<Rightarrow> False
        | Some inc \<Rightarrow> in_status inc = Active \<and> in_nature_key inc = natureKey)) (impacts s)"

definition propagating_incidents :: "EvidenceFact \<Rightarrow> db \<Rightarrow> incident_row list" where
  "propagating_incidents f s =
     filter (\<lambda>r. in_status r = Active \<and> in_propagation_status r = Open \<and> in_propagation_eligible r \<and>
       in_nature_scope r = n_Scope (fa_Nature f) \<and> in_nature_namespace r = n_Namespace (fa_Nature f) \<and>
       in_nature_fingerprint r = n_Fingerprint (fa_Nature f) \<and>
       in_opened_at r \<le> fa_OpenedAt f \<and> fa_OpenedAt f \<le> in_propagation_ends_at r) (incidents s)"

text \<open>A later Incident on the same resource and Nature hides the earlier ones.\<close>

definition later_incident :: "uuid \<Rightarrow> string \<Rightarrow> instant \<Rightarrow> db \<Rightarrow> bool" where
  "later_incident targetID natureKey openedAt s \<longleftrightarrow>
     (\<exists>im \<in> set (impacts s). im_target_id im = targetID \<and>
       (\<exists>r \<in> set (incidents s). in_id r = im_incident_id im \<and> in_nature_key r = natureKey \<and>
          openedAt < in_opened_at r))"

definition resumable :: "EvidenceFact \<Rightarrow> instant \<Rightarrow> db \<Rightarrow> (incident_row \<times> impact_row) list" where
  "resumable f observedAt s =
     filter (\<lambda>(inc, im). im_incident_id im = in_id inc \<and> im_target_id im = fa_TargetID f \<and>
       in_nature_key inc = n_Key (fa_Nature f) \<and> in_status inc = Resolved \<and> in_impact_count inc = 1 \<and>
       (case in_resolved_at inc of None \<Rightarrow> False
        | Some t \<Rightarrow> fa_OpenedAt f - ResumptionWindow \<le> t \<and> t \<le> observedAt) \<and>
       \<not> later_incident (fa_TargetID f) (n_Key (fa_Nature f)) (in_opened_at inc) s)
       (List.product (incidents s) (impacts s))"

text \<open>The pair \<open>("", "")\<close> of the code is \<open>None\<close>.\<close>

definition resumeRecentIncident :: "EvidenceFact \<Rightarrow> instant \<Rightarrow> db \<Rightarrow> (uuid \<times> uuid) option \<times> db" where
  "resumeRecentIncident f observedAt s =
     (case first_max (\<lambda>(inc, im). case in_resolved_at inc of None \<Rightarrow> 0 | Some t \<Rightarrow> t) (resumable f observedAt s) of
        None \<Rightarrow> (None, s)
      | Some (inc, im) \<Rightarrow>
          let s1 = reopen_impact (im_id im) (fa_Severity f) s;
              count = in_resumption_count inc + 1;
              s2 = s1\<lparr>incidents := update_where (\<lambda>r. in_id r = in_id inc)
                    (\<lambda>r. r\<lparr>in_resumption_count := in_resumption_count r + 1,
                           in_resumed_at := Some observedAt, in_revision := in_revision r + 1,
                           in_updated_at := clock s\<rparr>) (incidents s1)\<rparr>;
              s3 = appendActivity (in_id inc) (im_id im) '''' ''resumed'' (fa_Origin f) ''''
                    ''Incident repris''
                    [(''resumption_count'', JInt count),
                     (''previous_resolved_at'', json_time (case in_resolved_at inc of None \<Rightarrow> 0 | Some t \<Rightarrow> t))] s2
          in (Some (in_id inc, im_id im), s3))"

record ensured =
  en_incidentID :: uuid
  en_impactID :: uuid
  en_createdIncident :: bool
  en_createdImpact :: bool

definition join_propagation :: "EvidenceFact \<Rightarrow> int \<Rightarrow> incident_row \<Rightarrow> db \<Rightarrow> ensured \<times> db" where
  "join_propagation f window inc s =
     (case find (\<lambda>r. im_incident_id r = in_id inc \<and> im_target_id r = fa_TargetID f) (impacts s) of
        Some im \<Rightarrow>
          (\<lparr>en_incidentID = in_id inc, en_impactID = im_id im, en_createdIncident = False,
            en_createdImpact = False\<rparr>,
           extendPropagation (in_id inc) (fa_OpenedAt f) window
             (appendActivity (in_id inc) (im_id im) '''' ''impact_reopened'' (fa_Origin f) '''' (fa_Name f) []
               (reopen_impact (im_id im) (fa_Severity f) s)))
      | None \<Rightarrow>
          (\<lparr>en_incidentID = in_id inc, en_impactID = draw_uuid s, en_createdIncident = False,
            en_createdImpact = True\<rparr>,
           extendPropagation (in_id inc) (fa_OpenedAt f) window (insert_impact (in_id inc) f s)))"

definition open_incident :: "EvidenceFact \<Rightarrow> int \<Rightarrow> instant \<Rightarrow> db \<Rightarrow> ensured \<times> db" where
  "open_incident f window observedAt s =
     (let incidentID = draw_uuid s; s1 = insert_incident f window observedAt s;
          impactID = draw_uuid s1; s2 = insert_impact incidentID f s1
      in (\<lparr>en_incidentID = incidentID, en_impactID = impactID, en_createdIncident = True,
           en_createdImpact = True\<rparr>, s2))"

definition ensureImpact :: "EvidenceFact \<Rightarrow> instant \<Rightarrow> ensured tx" where
  "ensureImpact f observedAt s =
     (case find (\<lambda>t. tg_id t = fa_TargetID f) (targets s) of
        None \<Rightarrow> (Inl ErrNotFound, s)
      | Some t \<Rightarrow>
          if tg_archived_at t \<noteq> None then (Inl ErrTargetArchived, s)
          else
            (case first_max im_opened_at (same_cycle_impacts (fa_TargetID f) (n_Key (fa_Nature f)) s) of
               Some im \<Rightarrow>
                 (Inr \<lparr>en_incidentID = im_incident_id im, en_impactID = im_id im,
                       en_createdIncident = False, en_createdImpact = False\<rparr>, s)
             | None \<Rightarrow>
                 let window = evidenceWindow f s
                 in case (if n_Eligible (fa_Nature f)
                          then first_min in_opened_at (propagating_incidents f s) else None) of
                      Some inc \<Rightarrow> (let (e, s') = join_propagation f window inc s in (Inr e, s'))
                    | None \<Rightarrow>
                        (case resumeRecentIncident f observedAt s of
                           (Some (incidentID, impactID), s') \<Rightarrow>
                             (Inr \<lparr>en_incidentID = incidentID, en_impactID = impactID,
                                   en_createdIncident = False, en_createdImpact = False\<rparr>, s')
                         | (None, s') \<Rightarrow>
                             (let (e, s'') = open_incident f window observedAt s' in (Inr e, s'')))))"

subsection \<open>One fact (\<open>applyEvidenceFact\<close>)\<close>

definition same_identity :: "string \<Rightarrow> string \<Rightarrow> string \<Rightarrow> evidence_row \<Rightarrow> bool" where
  "same_identity origin scope key r \<longleftrightarrow>
     ev_origin r = origin \<and> ev_identity_scope r = scope \<and> ev_identity_key r = key"

abbreviation fact_identity :: "EvidenceFact \<Rightarrow> evidence_row \<Rightarrow> bool" where
  "fact_identity f \<equiv> same_identity (fa_Origin f) (fa_IdentityScope f) (fa_IdentityKey f)"

definition active_identity :: "string \<Rightarrow> string \<Rightarrow> string \<Rightarrow> db \<Rightarrow> evidence_row option" where
  "active_identity origin scope key s =
     find (\<lambda>r. same_identity origin scope key r \<and> ev_active r) (evidence s)"

text \<open>The same query joined with the Incident, of which the code reads the Nature.\<close>

definition existing_evidence :: "EvidenceFact \<Rightarrow> db \<Rightarrow> (evidence_row \<times> string) option" where
  "existing_evidence f s =
     (case find (\<lambda>r. fact_identity f r \<and> ev_active r \<and> incident_by_id s (ev_incident_id r) \<noteq> None)
             (evidence s) of
        None \<Rightarrow> None
      | Some r \<Rightarrow> (case incident_by_id s (ev_incident_id r) of
          None \<Rightarrow> None | Some inc \<Rightarrow> Some (r, in_nature_key inc)))"

definition fact_complete :: "EvidenceFact \<Rightarrow> bool" where
  "fact_complete f \<longleftrightarrow> TrimSpace (fa_IdentityScope f) \<noteq> '''' \<and> TrimSpace (fa_IdentityKey f) \<noteq> '''' \<and>
     TrimSpace (fa_TargetID f) \<noteq> '''' \<and> TrimSpace (n_Key (fa_Nature f)) \<noteq> '''' \<and>
     TrimSpace (fa_Name f) \<noteq> ''''"

definition touch_evidence :: "uuid \<Rightarrow> instant \<Rightarrow> db \<Rightarrow> db" where
  "touch_evidence evidenceID observedAt s =
     s\<lparr>evidence := update_where (\<lambda>r. ev_id r = evidenceID)
        (\<lambda>r. r\<lparr>ev_last_seen_at := observedAt, ev_updated_at := clock s\<rparr>) (evidence s)\<rparr>"

definition refresh_row :: "EvidenceFact \<Rightarrow> instant \<Rightarrow> db \<Rightarrow> evidence_row \<Rightarrow> evidence_row" where
  "refresh_row f observedAt s r =
     (let up = fa_UpstreamAcknowledged f; acked = acknowledged s (ev_incident_id r)
      in r\<lparr>ev_name := fa_Name f, ev_severity := fa_Severity f,
           ev_external_event_id := fa_ExternalEventID f, ev_external_object_id := fa_ExternalObjectID f,
           ev_upstream_acknowledged := up,
           ev_ack_sync_status := (if up then Synchronized else if acked then Pending else ev_ack_sync_status r),
           ev_ack_sync_error := (if up \<or> acked then '''' else ev_ack_sync_error r),
           ev_ack_synced_at := (if up then Some observedAt else if acked then None else ev_ack_synced_at r),
           ev_last_seen_at := observedAt, ev_metadata := fa_Metadata f,
           ev_alert_facts := Normalize (fa_Alert f), ev_updated_at := clock s\<rparr>)"

definition refresh_evidence :: "uuid \<Rightarrow> EvidenceFact \<Rightarrow> instant \<Rightarrow> db \<Rightarrow> db" where
  "refresh_evidence evidenceID f observedAt s =
     s\<lparr>evidence := update_where (\<lambda>r. ev_id r = evidenceID) (refresh_row f observedAt s) (evidence s)\<rparr>"

definition insert_evidence :: "uuid \<Rightarrow> uuid \<Rightarrow> EvidenceFact \<Rightarrow> instant \<Rightarrow> db \<Rightarrow> db" where
  "insert_evidence incidentID impactID f observedAt s =
     s\<lparr>uuids_drawn := Suc (uuids_drawn s),
       evidence := evidence s @
         [\<lparr>ev_id = draw_uuid s, ev_incident_id = incidentID, ev_impact_id = impactID,
           ev_target_id = fa_TargetID f, ev_origin = fa_Origin f,
           ev_connector_id = nullableUUID (fa_ConnectorID f),
           ev_connector_binding_id = nullableUUID (fa_BindingID f),
           ev_source_id = nullableUUID (fa_SourceID f), ev_identity_scope = fa_IdentityScope f,
           ev_identity_key = fa_IdentityKey f, ev_external_event_id = fa_ExternalEventID f,
           ev_external_object_id = fa_ExternalObjectID f, ev_name = fa_Name f, ev_active = True,
           ev_severity = fa_Severity f, ev_opened_at = fa_OpenedAt f, ev_resolved_at = None,
           ev_upstream_acknowledged = fa_UpstreamAcknowledged f,
           ev_ack_sync_status = acknowledgementStatus (fa_UpstreamAcknowledged f),
           ev_ack_sync_error = '''',
           ev_ack_synced_at = acknowledgementTime (fa_UpstreamAcknowledged f) observedAt,
           ev_last_seen_at = observedAt, ev_invalidated_at = None, ev_invalidated_by = None,
           ev_invalidation_reason = '''', ev_rearmed_at = None, ev_metadata = fa_Metadata f,
           ev_alert_facts = Normalize (fa_Alert f), ev_updated_at = clock s\<rparr>]\<rparr>"

text \<open>A Proof that joins an acknowledged Incident inherits its acknowledgement.\<close>

definition queue_inherited :: "uuid \<Rightarrow> db \<Rightarrow> db" where
  "queue_inherited evidenceID s =
     s\<lparr>evidence := update_where (\<lambda>r. ev_id r = evidenceID \<and> acknowledged s (ev_incident_id r))
        (\<lambda>r. r\<lparr>ev_ack_sync_status := Pending, ev_ack_sync_error := '''', ev_ack_synced_at := None,
                ev_updated_at := clock s\<rparr>) (evidence s)\<rparr>"

definition queue_incident :: "uuid \<Rightarrow> db \<Rightarrow> db" where
  "queue_incident incidentID s =
     s\<lparr>incidents := update_where (\<lambda>r. in_id r = incidentID \<and> in_acknowledged_at r \<noteq> None)
        (\<lambda>r. r\<lparr>in_ack_sync_status := Pending, in_ack_sync_error := '''',
                in_revision := in_revision r + 1, in_updated_at := clock s\<rparr>) (incidents s)\<rparr>"

definition inherit_acknowledgement :: "uuid \<Rightarrow> uuid \<Rightarrow> db \<Rightarrow> db" where
  "inherit_acknowledgement incidentID evidenceID s =
     (if \<exists>r \<in> set (evidence s). ev_id r = evidenceID \<and> acknowledged s (ev_incident_id r)
      then queue_incident incidentID (queue_inherited evidenceID s) else queue_inherited evidenceID s)"

text \<open>The part of \<open>applyEvidenceFact\<close> after \<open>ensureImpact\<close>.\<close>

definition add_evidence :: "EvidenceFact \<Rightarrow> instant \<Rightarrow> ensured \<Rightarrow> db \<Rightarrow> db" where
  "add_evidence f observedAt e s =
     (let i = en_incidentID e; m = en_impactID e; v = draw_uuid s;
          s1 = insert_evidence i m f observedAt s;
          s2 = (if en_createdIncident e
                then appendActivity i m v ''opened'' (fa_Origin f) '''' ''Incident ouvert'' (fa_Metadata f) s1
                else if en_createdImpact e
                then appendActivity i m v ''impact_joined'' (fa_Origin f) '''' (fa_Name f)
                       [(''target_id'', JString (fa_TargetID f))] s1
                else s1);
          s3 = appendActivity i m v ''evidence_added'' (fa_Origin f) '''' (fa_Name f) (fa_Metadata f) s2
      in if fa_UpstreamAcknowledged f then acknowledgeFromEvidence i v observedAt s3
         else if fa_Origin f = ''zabbix'' then inherit_acknowledgement i v s3
         else s3)"

definition unrearmed :: "EvidenceFact \<Rightarrow> db \<Rightarrow> evidence_row list" where
  "unrearmed f s = filter (\<lambda>r. fact_identity f r \<and> ev_invalidated_at r \<noteq> None \<and> ev_rearmed_at r = None)
     (evidence s)"

text \<open>The rest of \<open>applyEvidenceFact\<close> once no active Proof carries the identity. The result
  \<open>None\<close> is the pair of empty strings of the code.\<close>

definition open_evidence :: "EvidenceFact \<Rightarrow> instant \<Rightarrow> (uuid \<times> uuid) option tx" where
  "open_evidence f observedAt s =
     (case first_max (\<lambda>r. case ev_invalidated_at r of None \<Rightarrow> 0 | Some t \<Rightarrow> t) (unrearmed f s) of
        Some r \<Rightarrow> (Inr None, touch_evidence (ev_id r) observedAt s)
      | None \<Rightarrow>
          bindT (ensureImpact f observedAt)
            (\<lambda>e. thenT (execT (add_evidence f observedAt e))
                   (returnT (Some (en_incidentID e, en_impactID e)))) s)"

definition applyEvidenceFact :: "EvidenceFact \<Rightarrow> instant \<Rightarrow> (uuid \<times> uuid) option tx" where
  "applyEvidenceFact f observedAt s =
     (if \<not> fact_complete f then (Inl ErrInvalidInput, s)
      else if \<not> validSeverity (fa_Severity f) then (Inl ErrInvalidInput, s)
      else case existing_evidence f s of
        Some (r, natureKey) \<Rightarrow>
          (if ev_invalidated_at r \<noteq> None then
             (Inr (Some (ev_incident_id r, ev_impact_id r)), touch_evidence (ev_id r) observedAt s)
           else if ev_target_id r = fa_TargetID f \<and> natureKey = n_Key (fa_Nature f) then
             (let s1 = refresh_evidence (ev_id r) f observedAt s
              in (Inr (Some (ev_incident_id r, ev_impact_id r)),
                  if fa_UpstreamAcknowledged f
                  then acknowledgeFromEvidence (ev_incident_id r) (ev_id r) observedAt s1 else s1))
           else
             thenT (execT (resolveEvidenceRow (ev_id r) (ev_incident_id r) (ev_impact_id r)
                             (fa_Name f) (fa_Origin f) observedAt))
               (thenT (recomputeImpact (ev_impact_id r) observedAt)
                 (thenT (recomputeIncident (ev_incident_id r) observedAt)
                   (open_evidence f observedAt))) s)
      | None \<Rightarrow> open_evidence f observedAt s)"

subsection \<open>A snapshot (\<open>ApplyEvidenceSnapshot\<close>)\<close>

text \<open>The maps \<open>seen\<close>, \<open>impacts\<close> and \<open>incidents\<close> of the code; only the keys of \<open>impacts\<close>
  are ever read.\<close>

record progress =
  pr_seen :: "string list"
  pr_impacts :: "uuid list"
  pr_incidents :: "uuid list"

definition no_progress :: progress where
  "no_progress = \<lparr>pr_seen = [], pr_impacts = [], pr_incidents = []\<rparr>"

definition mark :: "uuid \<Rightarrow> uuid \<Rightarrow> progress \<Rightarrow> progress" where
  "mark incidentID impactID p =
     p\<lparr>pr_impacts := List.insert impactID (pr_impacts p),
       pr_incidents := List.insert incidentID (pr_incidents p)\<rparr>"

definition identity :: "string \<Rightarrow> string \<Rightarrow> string" where
  "identity scope key = scope @ [CHR 0x00] @ key"

definition prepare_fact :: "EvidenceSnapshot \<Rightarrow> instant \<Rightarrow> EvidenceFact \<Rightarrow> EvidenceFact" where
  "prepare_fact snapshot observedAt f =
     f\<lparr>fa_Origin := sn_Origin snapshot, fa_ConnectorID := sn_ConnectorID snapshot,
       fa_OpenedAt := (if fa_OpenedAt f = 0 then observedAt else fa_OpenedAt f)\<rparr>"

definition prepared_facts :: "EvidenceSnapshot \<Rightarrow> instant \<Rightarrow> EvidenceFact list" where
  "prepared_facts snapshot observedAt =
     sort_key (\<lambda>f. (fa_OpenedAt f, identity (fa_IdentityScope f) (fa_IdentityKey f)))
       (map (prepare_fact snapshot observedAt) (sn_Facts snapshot))"

definition lease_valid :: "uuid \<Rightarrow> string \<Rightarrow> db \<Rightarrow> bool" where
  "lease_valid connectorID owner s \<longleftrightarrow>
     (\<exists>c \<in> set (connectors s). co_id c = connectorID \<and> co_lease_owner c = Some owner \<and>
        (case co_lease_until c of None \<Rightarrow> False | Some t \<Rightarrow> clock s < t) \<and> \<not> co_disabled c)"

text \<open>One turn of the loop over the facts: a duplicate identity is skipped, an archived
  resource ignored, any other error ends the transaction.\<close>

definition apply_fact :: "instant \<Rightarrow> EvidenceFact \<Rightarrow> progress \<Rightarrow> progress tx" where
  "apply_fact observedAt f p s =
     (let key = identity (fa_IdentityScope f) (fa_IdentityKey f); p' = p\<lparr>pr_seen := key # pr_seen p\<rparr>
      in if key \<in> set (pr_seen p) then (Inr p, s)
         else case applyEvidenceFact f observedAt s of
           (Inl e, s') \<Rightarrow> (if e = ErrTargetArchived then Inr p' else Inl e, s')
         | (Inr None, s') \<Rightarrow> (Inr p', s')
         | (Inr (Some (incidentID, impactID)), s') \<Rightarrow> (Inr (mark incidentID impactID p'), s'))"

fun apply_facts :: "instant \<Rightarrow> EvidenceFact list \<Rightarrow> progress \<Rightarrow> progress tx" where
  "apply_facts observedAt [] p = returnT p"
| "apply_facts observedAt (f # fs) p = bindT (apply_fact observedAt f p) (apply_facts observedAt fs)"

definition observed :: "EvidenceSnapshot \<Rightarrow> evidence_row \<Rightarrow> bool" where
  "observed snapshot r \<longleftrightarrow> ev_origin r = sn_Origin snapshot \<and>
     ev_connector_id r = Some (sn_ConnectorID snapshot) \<and>
     (sn_CompleteConnector snapshot \<or> ev_identity_scope r \<in> set (sn_ObservedScopes snapshot))"

definition activeEvidenceForSnapshot :: "EvidenceSnapshot \<Rightarrow> db \<Rightarrow> evidence_row list" where
  "activeEvidenceForSnapshot snapshot s =
     (if \<not> sn_CompleteConnector snapshot \<and> sn_ObservedScopes snapshot = [] then []
      else filter (\<lambda>r. observed snapshot r \<and> ev_active r) (evidence s))"

definition row_identity :: "evidence_row \<Rightarrow> string" where
  "row_identity r = identity (ev_identity_scope r) (ev_identity_key r)"

fun resolve_absent ::
  "string \<Rightarrow> instant \<Rightarrow> evidence_row list \<Rightarrow> progress \<Rightarrow> db \<Rightarrow> progress \<times> db" where
  "resolve_absent origin observedAt [] p s = (p, s)"
| "resolve_absent origin observedAt (r # rs) p s =
     (if row_identity r \<in> set (pr_seen p) then resolve_absent origin observedAt rs p s
      else resolve_absent origin observedAt rs (mark (ev_incident_id r) (ev_impact_id r) p)
             (resolveEvidenceRow (ev_id r) (ev_incident_id r) (ev_impact_id r) (ev_name r)
                origin observedAt s))"

definition rearm_time :: "instant \<Rightarrow> evidence_row \<Rightarrow> instant" where
  "rearm_time observedAt r =
     (case ev_invalidated_at r of None \<Rightarrow> observedAt | Some t \<Rightarrow> max observedAt t)"

definition rearm_row :: "uuid \<Rightarrow> instant \<Rightarrow> db \<Rightarrow> db" where
  "rearm_row evidenceID observedAt s =
     s\<lparr>evidence := update_where (\<lambda>r. ev_id r = evidenceID)
        (\<lambda>r. r\<lparr>ev_rearmed_at := Some (rearm_time observedAt r), ev_last_seen_at := observedAt,
                ev_updated_at := clock s\<rparr>) (evidence s)\<rparr>"

definition rearm_candidates :: "EvidenceSnapshot \<Rightarrow> string list \<Rightarrow> db \<Rightarrow> evidence_row list" where
  "rearm_candidates snapshot seen s =
     (if \<not> sn_CompleteConnector snapshot \<and> sn_ObservedScopes snapshot = [] then []
      else filter (\<lambda>r. row_identity r \<notin> set seen)
             (filter (\<lambda>r. observed snapshot r \<and> ev_invalidated_at r \<noteq> None \<and> ev_rearmed_at r = None)
               (evidence s)))"

definition rearmRecoveredEvidence :: "EvidenceSnapshot \<Rightarrow> string list \<Rightarrow> instant \<Rightarrow> db \<Rightarrow> db" where
  "rearmRecoveredEvidence snapshot seen observedAt s =
     fold (\<lambda>r. rearm_row (ev_id r) observedAt) (rearm_candidates snapshot seen s) s"

definition recompute_all :: "uuid list \<Rightarrow> uuid list \<Rightarrow> instant \<Rightarrow> unit tx" where
  "recompute_all impactIDs incidentIDs observedAt =
     thenT (forT impactIDs (\<lambda>i. recomputeImpact i observedAt))
       (forT incidentIDs (\<lambda>i. recomputeIncident i observedAt))"

definition snapshot_tail :: "EvidenceSnapshot \<Rightarrow> instant \<Rightarrow> progress \<Rightarrow> unit tx" where
  "snapshot_tail snapshot observedAt p s =
     (let (p1, s1) = resolve_absent (sn_Origin snapshot) observedAt
                       (activeEvidenceForSnapshot snapshot s) p s;
          s2 = rearmRecoveredEvidence snapshot (pr_seen p1) observedAt s1
      in thenT (recompute_all (map_order s2 (pr_impacts p1)) (map_order s2 (pr_incidents p1)) observedAt)
           (advanceDueIncidents observedAt) s2)"

definition ApplyEvidenceSnapshot :: "instant \<Rightarrow> EvidenceSnapshot \<Rightarrow> unit tx" where
  "ApplyEvidenceSnapshot now snapshot =
     (let observedAt = normalizedTime now (sn_ObservedAt snapshot)
      in commit_or_rollback
           (\<lambda>s. if sn_LeaseOwner snapshot \<noteq> '''' \<and>
                   \<not> lease_valid (sn_ConnectorID snapshot) (sn_LeaseOwner snapshot) s
                then (Inl ErrLeaseLost, s)
                else bindT (apply_facts observedAt (prepared_facts snapshot observedAt) no_progress)
                       (snapshot_tail snapshot observedAt) s))"

subsection \<open>Resolutions\<close>

definition resolve_and_recompute :: "evidence_row \<Rightarrow> string \<Rightarrow> instant \<Rightarrow> unit tx" where
  "resolve_and_recompute r origin observedAt =
     thenT (execT (resolveEvidenceRow (ev_id r) (ev_incident_id r) (ev_impact_id r) (ev_name r)
                     origin observedAt))
       (thenT (recomputeImpact (ev_impact_id r) observedAt)
         (recomputeIncident (ev_incident_id r) observedAt))"

definition ResolveEvidence :: "instant \<Rightarrow> string \<Rightarrow> string \<Rightarrow> string \<Rightarrow> instant \<Rightarrow> unit tx" where
  "ResolveEvidence now origin scope key observedAt =
     commit_or_rollback
       (\<lambda>s. case active_identity origin scope key s of
              None \<Rightarrow> (Inr (), s)
            | Some r \<Rightarrow> resolve_and_recompute r origin (normalizedTime now observedAt) s)"

definition sortedKeys :: "uuid list \<Rightarrow> uuid list" where
  "sortedKeys keys = sort (remdups keys)"

definition close_owned :: "string \<Rightarrow> instant \<Rightarrow> evidence_row list \<Rightarrow> db \<Rightarrow> db" where
  "close_owned message now rows =
     fold (\<lambda>r s. appendActivity (ev_incident_id r) (ev_impact_id r) (ev_id r) ''evidence_updated''
                   ''cairnops'' '''' message []
                   (resolveEvidenceRow (ev_id r) (ev_incident_id r) (ev_impact_id r) (ev_name r)
                     (ev_origin r) now s)) rows"

text \<open>Both run inside the transaction of their caller, which rolls back on an error.\<close>

definition ResolveForArchivedTarget :: "instant \<Rightarrow> uuid \<Rightarrow> unit tx" where
  "ResolveForArchivedTarget now targetID s =
     (let rows = filter (\<lambda>r. ev_target_id r = targetID \<and> ev_active r) (evidence s)
      in thenT (execT (close_owned (''Cible archiv'' @ [CHR 0xC3, CHR 0xA9] @ ''e'') now rows))
           (recompute_all (sortedKeys (map ev_impact_id rows)) (sortedKeys (map ev_incident_id rows)) now) s)"

definition incident_status :: "uuid \<Rightarrow> row_status tx" where
  "incident_status i s =
     (case incident_by_id s i of None \<Rightarrow> (Inl ErrNoRows, s) | Some r \<Rightarrow> (Inr (in_status r), s))"

fun recompute_counting :: "uuid list \<Rightarrow> instant \<Rightarrow> int \<Rightarrow> int tx" where
  "recompute_counting [] now n = returnT n"
| "recompute_counting (i # is) now n =
     bindT (incident_status i) (\<lambda>before.
       thenT (recomputeIncident i now)
         (bindT (incident_status i) (\<lambda>after.
            recompute_counting is now (if before \<noteq> Resolved \<and> after = Resolved then n + 1 else n))))"

definition resolveOwnedEvidenceCount ::
  "instant \<Rightarrow> (evidence_row \<Rightarrow> bool) \<Rightarrow> string \<Rightarrow> int tx" where
  "resolveOwnedEvidenceCount now owned message s =
     (let rows = sort_key (\<lambda>r. (ev_incident_id r, ev_impact_id r, ev_id r))
                   (filter (\<lambda>r. ev_active r \<and> owned r) (evidence s))
      in thenT (execT (close_owned message now rows))
           (thenT (forT (sortedKeys (map ev_impact_id rows)) (\<lambda>i. recomputeImpact i now))
             (recompute_counting (sortedKeys (map ev_incident_id rows)) now 0)) s)"

definition ResolveForSourceRemoval :: "instant \<Rightarrow> uuid \<Rightarrow> unit tx" where
  "ResolveForSourceRemoval now sourceID =
     thenT (resolveOwnedEvidenceCount now (\<lambda>r. ev_source_id r = Some sourceID)
              (''Contr'' @ [CHR 0xC3, CHR 0xB4] @ ''le supprim'' @ [CHR 0xC3, CHR 0xA9])) (returnT ())"

definition ResolveForConnectorRemoval :: "instant \<Rightarrow> uuid \<Rightarrow> int tx" where
  "ResolveForConnectorRemoval now connectorID =
     resolveOwnedEvidenceCount now (\<lambda>r. ev_connector_id r = Some connectorID)
       (''Connecteur supprim'' @ [CHR 0xC3, CHR 0xA9])"

end
