(* ===== verification/Incident_Service.thy ===== *)
theory Incident_Service
  imports Incident_Cycle "HOL-Library.AList"
begin

text \<open>
  What drives the Incident--Proof cycle: the native Checks (\<^verbatim>\<open>native.go\<close>), the adapters that
  turn the signals of the Connectors into snapshots (the head of \<^verbatim>\<open>cycle.go\<close>), the gestures
  of a user (\<^verbatim>\<open>store.go\<close> and the service of \<^verbatim>\<open>incidents.go\<close>) and the clock
  (\<^verbatim>\<open>runtime.go\<close>). The upstream system that receives an acknowledgement is a parameter: a
  function from the Proof and the message to the text of its error, \<open>None\<close> for success. The
  Incident these functions read back for their caller is the row of the resulting state.
\<close>

subsection \<open>Native Checks\<close>

abbreviation NatureAvailability :: string where "NatureAvailability \<equiv> ''availability''"

definition NatureAvailabilityLabel :: string where
  "NatureAvailabilityLabel = (''Indisponibilit'' @ [CHR 0xC3, CHR 0xA9])"

record NativeObservation =
  no_SourceID :: uuid
  no_TargetID :: uuid
  no_SourceName :: string
  no_Outcome :: outcome
  no_ObservedAt :: instant
  no_Reason :: string
  no_Message :: string

definition nativeMetadata :: "NativeObservation \<Rightarrow> metadata" where
  "nativeMetadata ob =
     [(''source_id'', JString (no_SourceID ob))] @
     (if no_Reason ob \<noteq> '''' then [(''reason'', JString (no_Reason ob))] else []) @
     (if no_Message ob \<noteq> '''' then [(''message'', JString (no_Message ob))] else [])"

definition native_fact :: "NativeObservation \<Rightarrow> severity \<Rightarrow> instant \<Rightarrow> EvidenceFact" where
  "native_fact ob severity observedAt =
     \<lparr>fa_Alert = no_fact\<lparr>f_Kind := Unavailable\<rparr>, fa_Origin = ''native'', fa_ConnectorID = '''',
      fa_BindingID = '''', fa_SourceID = no_SourceID ob, fa_IdentityScope = no_SourceID ob,
      fa_IdentityKey = NatureAvailability, fa_TargetID = no_TargetID ob, fa_ExternalEventID = '''',
      fa_ExternalObjectID = '''', fa_Nature = CanonicalNature NatureAvailability NatureAvailabilityLabel,
      fa_Name = no_SourceName ob, fa_Severity = severity, fa_OpenedAt = observedAt,
      fa_UpstreamAcknowledged = False, fa_Metadata = nativeMetadata ob, fa_EvaluationWindow = 0\<rparr>"

definition rearm_native :: "uuid \<Rightarrow> instant \<Rightarrow> db \<Rightarrow> db" where
  "rearm_native sourceID observedAt s =
     s\<lparr>evidence := update_where
        (\<lambda>r. same_identity ''native'' sourceID NatureAvailability r \<and> ev_invalidated_at r \<noteq> None \<and>
             ev_rearmed_at r = None)
        (\<lambda>r. r\<lparr>ev_rearmed_at := Some (rearm_time observedAt r), ev_last_seen_at := observedAt,
                ev_updated_at := clock s\<rparr>) (evidence s)\<rparr>"

definition recoverNativeEvidence :: "NativeObservation \<Rightarrow> instant \<Rightarrow> unit tx" where
  "recoverNativeEvidence ob observedAt s =
     (case active_identity ''native'' (no_SourceID ob) NatureAvailability s of
        None \<Rightarrow> thenT (execT (rearm_native (no_SourceID ob) observedAt)) (advanceDueIncidents observedAt) s
      | Some r \<Rightarrow> resolve_and_recompute r ''native'' observedAt s)"

definition persist_streaks :: "uuid \<Rightarrow> TriggerStreaks \<Rightarrow> db \<Rightarrow> db" where
  "persist_streaks sourceID streaks s =
     s\<lparr>sources := update_where (\<lambda>r. so_id r = sourceID)
        (\<lambda>r. r\<lparr>so_consecutive_unhealthy := st_Unhealthy streaks,
                so_consecutive_healthy := st_Healthy streaks\<rparr>) (sources s)\<rparr>"

definition trigger_native :: "NativeObservation \<Rightarrow> severity \<Rightarrow> instant \<Rightarrow> unit tx" where
  "trigger_native ob severity observedAt =
     bindT (applyEvidenceFact (native_fact ob severity observedAt) observedAt)
       (\<lambda>r. case r of
          None \<Rightarrow> returnT ()
        | Some (incidentID, impactID) \<Rightarrow>
            thenT (recomputeImpact impactID observedAt) (recomputeIncident incidentID observedAt))"

text \<open>It runs inside the transaction of its caller, which rolls back on an error.\<close>

definition ApplyNativeObservation :: "instant \<Rightarrow> NativeObservation \<Rightarrow> unit tx" where
  "ApplyNativeObservation now ob s =
     (let observedAt = normalizedTime now (no_ObservedAt ob)
      in case find (\<lambda>r. so_id r = no_SourceID ob) (sources s) of
           None \<Rightarrow> (Inl ErrNotFound, s)
         | Some src \<Rightarrow>
             let policy = \<lparr>FailureThreshold = so_failure_threshold src,
                           RecoveryThreshold = so_recovery_threshold src\<rparr>;
                 decision = Evaluate policy \<lparr>st_Unhealthy = so_consecutive_unhealthy src,
                              st_Healthy = so_consecutive_healthy src\<rparr> (no_Outcome ob)
             in thenT (execT (persist_streaks (no_SourceID ob) (Streaks decision)))
                  (if Triggered decision then trigger_native ob (so_severity src) observedAt
                   else if Recovered decision then recoverNativeEvidence ob observedAt
                   else advanceDueIncidents observedAt) s)"

subsection \<open>Adapters\<close>

record ZabbixSignal =
  zs_Alert :: Fact
  zs_TargetID :: uuid
  zs_BindingID :: uuid
  zs_ExternalEventID :: string
  zs_ExternalObjectID :: string
  zs_NatureFingerprint :: string
  zs_CanonicalNature :: string
  zs_EvaluationWindow :: duration
  zs_Name :: string
  zs_Severity :: severity
  zs_OpenedAt :: instant
  zs_UpstreamAcknowledged :: bool
  zs_Suppressed :: bool

definition zabbix_nature :: "uuid \<Rightarrow> ZabbixSignal \<Rightarrow> NatureIdentity" where
  "zabbix_nature connectorID signal =
     (let trimmed = TrimSpace (zs_NatureFingerprint signal);
          fingerprint = (if trimmed = '''' then TrimSpace (zs_ExternalObjectID signal) else trimmed);
          (label, known) = NatureLabel (zs_CanonicalNature signal) ''fr''
      in if known then CanonicalNature (zs_CanonicalNature signal) label
         else ConnectorNature connectorID (''zabbix:'' @ connectorID @ '':'' @ fingerprint)
                (zs_Name signal) fingerprint)"

definition zabbix_fact :: "uuid \<Rightarrow> ZabbixSignal \<Rightarrow> EvidenceFact" where
  "zabbix_fact connectorID signal =
     \<lparr>fa_Alert = Normalize (zs_Alert signal), fa_Origin = ''zabbix'', fa_ConnectorID = connectorID,
      fa_BindingID = zs_BindingID signal, fa_SourceID = '''', fa_IdentityScope = zs_BindingID signal,
      fa_IdentityKey = zs_ExternalEventID signal, fa_TargetID = zs_TargetID signal,
      fa_ExternalEventID = zs_ExternalEventID signal, fa_ExternalObjectID = zs_ExternalObjectID signal,
      fa_Nature = zabbix_nature connectorID signal, fa_Name = zs_Name signal,
      fa_Severity = zs_Severity signal, fa_OpenedAt = zs_OpenedAt signal,
      fa_UpstreamAcknowledged = zs_UpstreamAcknowledged signal,
      fa_Metadata = [(''suppressed'', JBool (zs_Suppressed signal))],
      fa_EvaluationWindow = zs_EvaluationWindow signal\<rparr>"

definition ReconcileZabbix :: "instant \<Rightarrow> uuid \<Rightarrow> instant \<Rightarrow> ZabbixSignal list \<Rightarrow> unit tx" where
  "ReconcileZabbix now connectorID observedAt signals =
     ApplyEvidenceSnapshot now
       \<lparr>sn_Origin = ''zabbix'', sn_ConnectorID = connectorID, sn_LeaseOwner = '''',
        sn_ObservedAt = observedAt, sn_CompleteConnector = True, sn_ObservedScopes = [],
        sn_Facts = map (zabbix_fact connectorID) signals\<rparr>"

text \<open>The snapshot of the adapters that read only the bindings they could reach.\<close>

definition partial_snapshot ::
  "string \<Rightarrow> uuid \<Rightarrow> instant \<Rightarrow> uuid list \<Rightarrow> EvidenceFact list \<Rightarrow> EvidenceSnapshot" where
  "partial_snapshot origin connectorID observedAt bindings facts =
     \<lparr>sn_Origin = origin, sn_ConnectorID = connectorID, sn_LeaseOwner = '''',
      sn_ObservedAt = observedAt, sn_CompleteConnector = False, sn_ObservedScopes = bindings,
      sn_Facts = facts\<rparr>"

record UptimeKumaSignal =
  uk_TargetID :: uuid
  uk_BindingID :: uuid
  uk_ExternalMonitor :: string
  uk_Name :: string
  uk_Severity :: severity

definition kuma_fact :: "uuid \<Rightarrow> instant \<Rightarrow> UptimeKumaSignal \<Rightarrow> EvidenceFact" where
  "kuma_fact connectorID observedAt signal =
     \<lparr>fa_Alert = no_fact\<lparr>f_Kind := Unavailable\<rparr>, fa_Origin = ''uptime_kuma'',
      fa_ConnectorID = connectorID, fa_BindingID = uk_BindingID signal, fa_SourceID = '''',
      fa_IdentityScope = uk_BindingID signal, fa_IdentityKey = ''availability'',
      fa_TargetID = uk_TargetID signal, fa_ExternalEventID = uk_ExternalMonitor signal,
      fa_ExternalObjectID = uk_ExternalMonitor signal,
      fa_Nature = CanonicalNature NatureAvailability NatureAvailabilityLabel,
      fa_Name = uk_Name signal, fa_Severity = uk_Severity signal, fa_OpenedAt = observedAt,
      fa_UpstreamAcknowledged = False, fa_Metadata = [], fa_EvaluationWindow = 0\<rparr>"

definition ReconcileUptimeKuma ::
  "instant \<Rightarrow> uuid \<Rightarrow> instant \<Rightarrow> uuid list \<Rightarrow> UptimeKumaSignal list \<Rightarrow> unit tx" where
  "ReconcileUptimeKuma now connectorID observedAt bindings signals =
     ApplyEvidenceSnapshot now (partial_snapshot ''uptime_kuma'' connectorID observedAt bindings
       (map (kuma_fact connectorID observedAt) signals))"

record PatchMonSignal =
  pm_TargetID :: uuid
  pm_BindingID :: uuid
  pm_ExternalHost :: string
  pm_ConditionKey :: string
  pm_NatureKey :: string
  pm_NatureLabel :: string
  pm_Name :: string
  pm_Severity :: severity
  pm_Details :: metadata

definition patchMonPresentation :: "PatchMonSignal \<Rightarrow> Fact" where
  "patchMonPresentation signal =
     (if pm_ConditionKey signal = ''security_updates'' then
        no_fact\<lparr>f_Kind := SecurityUpdates,
          f_Count := (case map_of (pm_Details signal) ''security_updates_count'' of
                        Some (JInt n) \<Rightarrow> if 0 < n then Some n else None
                      | _ \<Rightarrow> None)\<rparr>
      else if pm_ConditionKey signal = ''reboot_required'' then no_fact\<lparr>f_Kind := RebootRequired\<rparr>
      else no_fact)"

definition patchmon_fact :: "uuid \<Rightarrow> instant \<Rightarrow> PatchMonSignal \<Rightarrow> EvidenceFact" where
  "patchmon_fact connectorID observedAt signal =
     \<lparr>fa_Alert = patchMonPresentation signal, fa_Origin = ''patchmon'', fa_ConnectorID = connectorID,
      fa_BindingID = pm_BindingID signal, fa_SourceID = '''', fa_IdentityScope = pm_BindingID signal,
      fa_IdentityKey = pm_ConditionKey signal, fa_TargetID = pm_TargetID signal,
      fa_ExternalEventID = pm_ConditionKey signal, fa_ExternalObjectID = pm_ConditionKey signal,
      fa_Nature = ConnectorNature connectorID (pm_NatureKey signal) (pm_NatureLabel signal) (pm_NatureKey signal),
      fa_Name = pm_Name signal, fa_Severity = pm_Severity signal, fa_OpenedAt = observedAt,
      fa_UpstreamAcknowledged = False, fa_Metadata = cloneMetadata (pm_Details signal),
      fa_EvaluationWindow = 0\<rparr>"

definition ReconcilePatchMon ::
  "instant \<Rightarrow> uuid \<Rightarrow> instant \<Rightarrow> uuid list \<Rightarrow> PatchMonSignal list \<Rightarrow> unit tx" where
  "ReconcilePatchMon now connectorID observedAt bindings signals =
     ApplyEvidenceSnapshot now (partial_snapshot ''patchmon'' connectorID observedAt bindings
       (map (patchmon_fact connectorID observedAt) signals))"

record ArgusSignal =
  as_TargetID :: uuid
  as_BindingID :: uuid
  as_ExternalService :: string
  as_NatureKey :: string
  as_NatureLabel :: string
  as_Alert :: kind
  as_Name :: string
  as_Severity :: severity
  as_DeployedVersion :: string
  as_LatestVersion :: string
  as_Details :: metadata

definition argus_fact :: "uuid \<Rightarrow> instant \<Rightarrow> ArgusSignal \<Rightarrow> EvidenceFact" where
  "argus_fact connectorID observedAt signal =
     \<lparr>fa_Alert = no_fact\<lparr>f_Kind := as_Alert signal, f_CurrentVersion := as_DeployedVersion signal,
                          f_AvailableVersion := as_LatestVersion signal\<rparr>,
      fa_Origin = ''argus'', fa_ConnectorID = connectorID, fa_BindingID = as_BindingID signal,
      fa_SourceID = '''', fa_IdentityScope = as_BindingID signal, fa_IdentityKey = ''software_update'',
      fa_TargetID = as_TargetID signal, fa_ExternalEventID = as_LatestVersion signal,
      fa_ExternalObjectID = ''software_update'',
      fa_Nature = ConnectorNature connectorID (as_NatureKey signal) (as_NatureLabel signal) (as_NatureKey signal),
      fa_Name = as_Name signal, fa_Severity = as_Severity signal, fa_OpenedAt = observedAt,
      fa_UpstreamAcknowledged = False,
      fa_Metadata = AList.update ''latest_version'' (JString (as_LatestVersion signal))
        (AList.update ''deployed_version'' (JString (as_DeployedVersion signal))
          (cloneMetadata (as_Details signal))),
      fa_EvaluationWindow = 0\<rparr>"

definition ReconcileArgus ::
  "instant \<Rightarrow> uuid \<Rightarrow> instant \<Rightarrow> uuid list \<Rightarrow> ArgusSignal list \<Rightarrow> unit tx" where
  "ReconcileArgus now connectorID observedAt bindings signals =
     ApplyEvidenceSnapshot now (partial_snapshot ''argus'' connectorID observedAt bindings
       (map (argus_fact connectorID observedAt) signals))"

record WebhookSignal =
  wh_ConnectorID :: uuid
  wh_BindingID :: uuid
  wh_TargetID :: uuid
  wh_ExternalEventKey :: string
  wh_NatureKey :: string
  wh_NatureLabel :: string
  wh_Summary :: string
  wh_Status :: string
  wh_Severity :: severity
  wh_ObservedAt :: instant
  wh_Details :: metadata

definition webhook_fact :: "instant \<Rightarrow> WebhookSignal \<Rightarrow> EvidenceFact" where
  "webhook_fact observedAt signal =
     \<lparr>fa_Alert = no_fact, fa_Origin = ''webhook'', fa_ConnectorID = wh_ConnectorID signal,
      fa_BindingID = wh_BindingID signal, fa_SourceID = '''', fa_IdentityScope = wh_BindingID signal,
      fa_IdentityKey = wh_ExternalEventKey signal, fa_TargetID = wh_TargetID signal,
      fa_ExternalEventID = wh_ExternalEventKey signal, fa_ExternalObjectID = wh_ExternalEventKey signal,
      fa_Nature = ConnectorNature (wh_ConnectorID signal) (wh_NatureKey signal) (wh_NatureLabel signal)
        (wh_NatureKey signal),
      fa_Name = wh_Summary signal, fa_Severity = wh_Severity signal, fa_OpenedAt = observedAt,
      fa_UpstreamAcknowledged = False, fa_Metadata = cloneMetadata (wh_Details signal),
      fa_EvaluationWindow = 0\<rparr>"

definition ApplyWebhook :: "instant \<Rightarrow> WebhookSignal \<Rightarrow> unit tx" where
  "ApplyWebhook now signal =
     (let observedAt = normalizedTime now (wh_ObservedAt signal)
      in if wh_Status signal = ''firing'' then
           ApplyEvidenceSnapshot now (partial_snapshot ''webhook'' (wh_ConnectorID signal) observedAt []
             [webhook_fact observedAt signal])
         else if wh_Status signal \<noteq> ''resolved'' then failT ErrInvalidInput
         else ResolveEvidence now ''webhook'' (wh_BindingID signal) (wh_ExternalEventKey signal) observedAt)"

subsection \<open>Gestures of a user\<close>

definition invalidate_row :: "uuid \<Rightarrow> uuid \<Rightarrow> string \<Rightarrow> db \<Rightarrow> db" where
  "invalidate_row evidenceID actorID reason s =
     s\<lparr>evidence := update_where (\<lambda>r. ev_id r = evidenceID)
        (\<lambda>r. r\<lparr>ev_active := False, ev_resolved_at := Some (clock s), ev_invalidated_at := Some (clock s),
                ev_invalidated_by := Some actorID, ev_invalidation_reason := reason,
                ev_updated_at := clock s\<rparr>) (evidence s)\<rparr>"

text \<open>\<open>time.Now()\<close> is read twice.\<close>

definition store_InvalidateEvidence ::
  "instant \<Rightarrow> instant \<Rightarrow> uuid \<Rightarrow> uuid \<Rightarrow> uuid \<Rightarrow> string \<Rightarrow> string \<Rightarrow> unit tx" where
  "store_InvalidateEvidence now1 now2 incidentID evidenceID actorID actorName reason =
     commit_or_rollback
       (\<lambda>s. case find (\<lambda>r. ev_id r = evidenceID \<and> ev_incident_id r = incidentID \<and> ev_active r) (evidence s) of
              None \<Rightarrow> (Inl ErrNotFound, s)
            | Some r \<Rightarrow>
                thenT (execT (invalidate_row evidenceID actorID reason))
                  (thenT (execT (appendActivity incidentID (ev_impact_id r) evidenceID ''invalidated'' ''user''
                                   actorID (ev_name r)
                                   [(''reason'', JString reason), (''actor_name'', JString actorName),
                                    (''origin'', JString (ev_origin r))]))
                    (thenT (recomputeImpact (ev_impact_id r) now1)
                      (recomputeIncident incidentID now2))) s)"

definition InvalidateEvidence ::
  "instant \<Rightarrow> instant \<Rightarrow> uuid \<Rightarrow> uuid \<Rightarrow> uuid \<Rightarrow> string \<Rightarrow> string \<Rightarrow> unit tx" where
  "InvalidateEvidence now1 now2 incidentID evidenceID actorID actorName reason =
     (let trimmed = TrimSpace reason
      in if rune_count trimmed < 8 \<or> 500 < rune_count trimmed then failT ErrInvalidInput
         else store_InvalidateEvidence now1 now2 incidentID evidenceID actorID actorName trimmed)"

record AcknowledgementTarget =
  at_EvidenceID :: uuid
  at_Origin :: string
  at_ConnectorID :: uuid
  at_ExternalEventID :: string

record AcknowledgementResult =
  ar_EvidenceID :: uuid
  ar_Error :: string

definition acknowledge_incident :: "uuid \<Rightarrow> uuid \<Rightarrow> ack_sync \<Rightarrow> db \<Rightarrow> db" where
  "acknowledge_incident incidentID actorID status s =
     s\<lparr>incidents := update_where (\<lambda>r. in_id r = incidentID)
        (\<lambda>r. r\<lparr>in_acknowledged_at := Some (clock s), in_acknowledged_by := Some actorID,
                in_acknowledgement_origin := Some AckUser, in_ack_sync_status := status,
                in_ack_sync_error := '''', in_revision := in_revision r + 1,
                in_updated_at := clock s\<rparr>) (incidents s)\<rparr>"

definition queue_acknowledgements :: "uuid \<Rightarrow> db \<Rightarrow> db" where
  "queue_acknowledgements incidentID s =
     s\<lparr>evidence := update_where (is_zabbix_active incidentID)
        (\<lambda>r. let up = ev_upstream_acknowledged r
             in r\<lparr>ev_ack_sync_status := (if up then Synchronized else Pending), ev_ack_sync_error := '''',
                  ev_ack_synced_at := (if up then (case ev_ack_synced_at r of None \<Rightarrow> Some (clock s) | Some t \<Rightarrow> Some t)
                                       else None),
                  ev_updated_at := clock s\<rparr>) (evidence s)\<rparr>"

definition acknowledgement_targets :: "uuid \<Rightarrow> db \<Rightarrow> AcknowledgementTarget list" where
  "acknowledgement_targets incidentID s =
     map (\<lambda>r. \<lparr>at_EvidenceID = ev_id r, at_Origin = ev_origin r,
               at_ConnectorID = (case ev_connector_id r of None \<Rightarrow> '''' | Some c \<Rightarrow> c),
               at_ExternalEventID = ev_external_event_id r\<rparr>)
       (sort_key (\<lambda>r. (ev_connector_id r = None, case ev_connector_id r of None \<Rightarrow> '''' | Some c \<Rightarrow> c,
                       ev_external_event_id r))
         (filter (\<lambda>r. is_zabbix_active incidentID r \<and>
                      (ev_ack_sync_status r = Pending \<or> ev_ack_sync_status r = Failed)) (evidence s)))"

definition AcknowledgeLocal :: "uuid \<Rightarrow> uuid \<Rightarrow> string \<Rightarrow> AcknowledgementTarget list tx" where
  "AcknowledgeLocal incidentID actorID actorName =
     commit_or_rollback
       (\<lambda>s. case incident_by_id s incidentID of
              None \<Rightarrow> (Inl ErrNotFound, s)
            | Some inc \<Rightarrow>
                if in_status inc = Resolved then (Inl ErrConflict, s)
                else
                  let hasExternal = (\<exists>r \<in> set (evidence s). is_zabbix_active incidentID r);
                      s' = (if in_acknowledged_at inc \<noteq> None then s
                            else queue_acknowledgements incidentID
                                   (appendActivity incidentID '''' '''' ''acknowledged'' ''user'' actorID
                                      (''Incident acquitt'' @ [CHR 0xC3, CHR 0xA9]) [(''actor_name'', JString actorName)]
                                      (acknowledge_incident incidentID actorID
                                         (if hasExternal then Pending else NotApplicable) s)))
                  in (Inr (acknowledgement_targets incidentID s'), s'))"

definition sync_error :: "AcknowledgementResult \<Rightarrow> string" where
  "sync_error result = take 500 (TrimSpace (ar_Error result))"

definition result_of :: "uuid \<Rightarrow> AcknowledgementResult \<Rightarrow> evidence_row \<Rightarrow> bool" where
  "result_of incidentID result r \<longleftrightarrow> ev_id r = ar_EvidenceID result \<and> is_zabbix_active incidentID r"

definition record_result :: "uuid \<Rightarrow> AcknowledgementResult \<Rightarrow> db \<Rightarrow> db" where
  "record_result incidentID result s =
     (let ok = (sync_error result = '''')
      in s\<lparr>evidence := update_where (result_of incidentID result)
            (\<lambda>r. r\<lparr>ev_ack_sync_status := (if ok then Synchronized else Failed),
                    ev_ack_sync_error := sync_error result,
                    ev_ack_synced_at := (if ok then Some (clock s) else None),
                    ev_upstream_acknowledged := (ev_upstream_acknowledged r \<or> ok),
                    ev_updated_at := clock s\<rparr>) (evidence s)\<rparr>)"

definition complete_row :: "uuid \<Rightarrow> AcknowledgementResult \<Rightarrow> db \<Rightarrow> db" where
  "complete_row incidentID result s =
     (if \<exists>r \<in> set (evidence s). result_of incidentID result r
      then appendActivity incidentID '''' (ar_EvidenceID result)
             (if sync_error result = '''' then ''ack_sync_succeeded'' else ''ack_sync_failed'')
             ''cairnops'' '''' (sync_error result) [] (record_result incidentID result s)
      else record_result incidentID result s)"

definition CompleteAcknowledgement :: "uuid \<Rightarrow> AcknowledgementResult list \<Rightarrow> unit tx" where
  "CompleteAcknowledgement incidentID results =
     commit_or_rollback
       (execT (\<lambda>s. recomputeAcknowledgement incidentID (fold (complete_row incidentID) results s)))"

text \<open>The upstream system: \<open>None\<close> when no adapter is configured.\<close>

type_synonym acknowledger = "(AcknowledgementTarget \<Rightarrow> string \<Rightarrow> string option) option"

definition acknowledgement_message :: "string \<Rightarrow> string" where
  "acknowledgement_message actorName =
     (''Acquitt'' @ [CHR 0xC3, CHR 0xA9] @ '' depuis CairnOps'') @
     (if TrimSpace actorName \<noteq> '''' then '' par '' @ TrimSpace actorName else '''')"

definition synchronize :: "acknowledger \<Rightarrow> string \<Rightarrow> AcknowledgementTarget \<Rightarrow> AcknowledgementResult" where
  "synchronize upstream actorName target =
     \<lparr>ar_EvidenceID = at_EvidenceID target,
      ar_Error = (case upstream of
          None \<Rightarrow> (''aucun adaptateur de synchronisation n'' @ [CHR 0xE2, CHR 0x80, CHR 0x99] @ ''est disponible'')
        | Some call \<Rightarrow> (case call target (acknowledgement_message actorName) of
            None \<Rightarrow> '''' | Some err \<Rightarrow> err))\<rparr>"

definition Acknowledge :: "acknowledger \<Rightarrow> uuid \<Rightarrow> uuid \<Rightarrow> string \<Rightarrow> unit tx" where
  "Acknowledge upstream incidentID actorID actorName =
     bindT (AcknowledgeLocal incidentID actorID actorName)
       (\<lambda>plan. if plan = [] then returnT ()
               else CompleteAcknowledgement incidentID (map (synchronize upstream actorName) plan))"

subsection \<open>Reading bounds\<close>

definition validateListInput :: "string \<Rightarrow> int \<Rightarrow> cycle_error + string" where
  "validateListInput status limit =
     (let trimmed = TrimSpace status; chosen = (if trimmed = '''' then ''active'' else trimmed)
      in if chosen \<noteq> ''active'' \<and> chosen \<noteq> ''resolved'' \<and> chosen \<noteq> ''all'' then Inl ErrInvalidInput
         else if limit < 1 \<or> 500 < limit then Inl ErrInvalidInput
         else Inr chosen)"

definition recognizedFact :: "Fact \<Rightarrow> Fact option" where
  "recognizedFact f = (let n = Normalize f in if f_Kind n = '''' then None else Some n)"

subsection \<open>The clock (\<open>Runtime.Process\<close>)\<close>

text \<open>The display names of the users are a parameter: the directory is another component.\<close>

definition pending_acknowledgements :: "(uuid \<Rightarrow> string) \<Rightarrow> db \<Rightarrow> (uuid \<times> uuid \<times> string) list" where
  "pending_acknowledgements display_name s =
     map (\<lambda>r. case in_acknowledged_by r of
                None \<Rightarrow> (in_id r, '''', '''') | Some actor \<Rightarrow> (in_id r, actor, display_name actor))
       (take 20 (sort_key (\<lambda>r. (in_updated_at r, in_id r))
         (filter (\<lambda>r. in_status r = Active \<and> in_acknowledged_at r \<noteq> None \<and>
                      (\<exists>e \<in> set (evidence s). is_zabbix_active (in_id r) e \<and>
                         (ev_ack_sync_status e = Pending \<or>
                          ev_ack_sync_status e = Failed \<and> ev_updated_at e \<le> clock s - 30 * second)))
           (incidents s))))"

text \<open>A failed synchronisation is logged and the loop goes on.\<close>

fun synchronize_pending :: "acknowledger \<Rightarrow> (uuid \<times> uuid \<times> string) list \<Rightarrow> db \<Rightarrow> db" where
  "synchronize_pending upstream [] s = s"
| "synchronize_pending upstream ((incidentID, actorID, actorName) # items) s =
     synchronize_pending upstream items (snd (Acknowledge upstream incidentID actorID actorName s))"

definition Process :: "instant \<Rightarrow> (uuid \<Rightarrow> string) \<Rightarrow> acknowledger option \<Rightarrow> unit tx" where
  "Process now display_name service =
     thenT (Advance now now)
       (case service of
          None \<Rightarrow> returnT ()
        | Some upstream \<Rightarrow>
            bindT (getT (pending_acknowledgements display_name))
              (\<lambda>items. execT (synchronize_pending upstream items)))"

end
