(* ===== verification/Incident_Invariant.thy ===== *)
theory Incident_Invariant
  imports Incident_Service
begin

text \<open>
  The constraints of the schema and the references between the tables of the cycle, as an
  invariant of the operations of \<open>Incident_Cycle\<close> and \<open>Incident_Service\<close>. The interface
  \<open>cycle_kept\<close> states what it takes for a relation between databases to hold across every
  operation: it is reflexive, transitive, and holds across the statements the operations are
  made of; it is interpreted here on the invariant and in \<open>Incident_Growth\<close> on the growth of
  the tables.
\<close>

subsection \<open>Rows\<close>

definition incident_ok :: "incident_row \<Rightarrow> bool" where
  "incident_ok r \<longleftrightarrow>
     (in_status r = Active \<longleftrightarrow> in_resolved_at r = None) \<and>
     (in_propagation_status r = Open \<longleftrightarrow> in_propagation_closed_at r = None) \<and>
     (in_status r = Resolved \<longrightarrow> in_propagation_status r = Closed) \<and>
     (in_acknowledged_at r = None \<longrightarrow> in_acknowledged_by r = None \<and> in_acknowledgement_origin r = None) \<and>
     validSeverity (in_severity r) \<and> 60 \<le> in_propagation_window_seconds r \<and>
     in_propagation_window_seconds r \<le> 300 \<and> 0 \<le> in_active_impact_count r \<and> 0 < in_impact_count r \<and>
     in_affected_target_count r = in_active_impact_count r \<and>
     in_active_impact_count r \<le> in_max_affected_targets r \<and> 0 < in_revision r"

definition impact_ok :: "impact_row \<Rightarrow> bool" where
  "impact_ok r \<longleftrightarrow> (im_status r = Active \<longleftrightarrow> im_resolved_at r = None) \<and>
     validSeverity (im_source_severity r) \<and> validSeverity (im_effective_severity r)"

definition evidence_ok :: "evidence_row \<Rightarrow> bool" where
  "evidence_ok r \<longleftrightarrow> (ev_active r \<longleftrightarrow> ev_resolved_at r = None) \<and> validSeverity (ev_severity r) \<and>
     (ev_invalidated_at r = None \<longrightarrow> ev_invalidation_reason r = '''') \<and>
     (ev_invalidated_at r \<noteq> None \<longrightarrow> \<not> ev_active r \<and> 8 \<le> rune_count (ev_invalidation_reason r) \<and>
        rune_count (ev_invalidation_reason r) \<le> 500) \<and>
     (ev_rearmed_at r \<noteq> None \<longrightarrow> ev_invalidated_at r \<noteq> None) \<and>
     TrimSpace (ev_identity_scope r) \<noteq> '''' \<and> TrimSpace (ev_identity_key r) \<noteq> '''' \<and>
     TrimSpace (ev_name r) \<noteq> ''''"

definition rows_ok :: "db \<Rightarrow> bool" where
  "rows_ok s \<longleftrightarrow> (\<forall>r \<in> set (incidents s). incident_ok r) \<and> (\<forall>r \<in> set (impacts s). impact_ok r) \<and>
     (\<forall>r \<in> set (evidence s). evidence_ok r)"

subsection \<open>Identifiers and references\<close>

definition im_ref :: "impact_row \<Rightarrow> uuid \<times> uuid \<times> uuid" where
  "im_ref r = (im_id r, im_incident_id r, im_target_id r)"

definition ev_ref :: "evidence_row \<Rightarrow> uuid \<times> uuid \<times> uuid \<times> uuid" where
  "ev_ref r = (ev_id r, ev_impact_id r, ev_incident_id r, ev_target_id r)"

record shape =
  sh_gen :: "nat \<Rightarrow> uuid"
  sh_drawn :: nat
  sh_order :: "uuid list \<Rightarrow> uuid list"
  sh_incidents :: "uuid list"
  sh_impacts :: "(uuid \<times> uuid \<times> uuid) list"
  sh_evidence :: "(uuid \<times> uuid \<times> uuid \<times> uuid) list"

definition shape_of :: "db \<Rightarrow> shape" where
  "shape_of s = \<lparr>sh_gen = gen_random_uuid s, sh_drawn = uuids_drawn s, sh_order = map_order s,
     sh_incidents = map in_id (incidents s), sh_impacts = map im_ref (impacts s),
     sh_evidence = map ev_ref (evidence s)\<rparr>"

definition shape_ok :: "shape \<Rightarrow> bool" where
  "shape_ok h \<longleftrightarrow>
     inj (sh_gen h) \<and> (\<forall>n. TrimSpace (sh_gen h n) \<noteq> '''') \<and> (\<forall>xs. mset (sh_order h xs) = mset xs) \<and>
     distinct (sh_incidents h) \<and> distinct (map fst (sh_impacts h)) \<and> distinct (map fst (sh_evidence h)) \<and>
     set (sh_incidents h) \<union> fst ` set (sh_impacts h) \<union> fst ` set (sh_evidence h)
       \<subseteq> sh_gen h ` {..<sh_drawn h} \<and>
     distinct (map snd (sh_impacts h)) \<and>
     (fst \<circ> snd) ` set (sh_impacts h) = set (sh_incidents h) \<and>
     snd ` set (sh_evidence h) \<subseteq> set (sh_impacts h)"

definition ev_identity :: "evidence_row \<Rightarrow> string \<times> string \<times> string" where
  "ev_identity r = (ev_origin r, ev_identity_scope r, ev_identity_key r)"

definition active_identities :: "db \<Rightarrow> (string \<times> string \<times> string) list" where
  "active_identities s = map ev_identity (filter ev_active (evidence s))"

text \<open>The invariant of the tables: generated identifiers are fresh and unique, an Incident has
  at least one Impact and at most one per resource, a Proof names an Impact with its Incident
  and its resource, an identity has at most one active Proof, and every row satisfies the
  checks of the schema.\<close>

definition cycle_inv :: "db \<Rightarrow> bool" where
  "cycle_inv s \<longleftrightarrow> shape_ok (shape_of s) \<and> distinct (active_identities s) \<and> rows_ok s"

lemma cycle_invD:
  assumes "cycle_inv s"
  shows "distinct (map in_id (incidents s))" and "distinct (map im_id (impacts s))"
    and "distinct (map ev_id (evidence s))" and "rows_ok s"
    and "\<And>m. m \<in> set (impacts s) \<Longrightarrow> \<exists>i \<in> set (incidents s). in_id i = im_incident_id m"
    and "\<And>i. i \<in> set (incidents s) \<Longrightarrow> \<exists>m \<in> set (impacts s). im_incident_id m = in_id i"
    and "\<And>e. e \<in> set (evidence s) \<Longrightarrow> \<exists>m \<in> set (impacts s). im_id m = ev_impact_id e \<and>
           im_incident_id m = ev_incident_id e \<and> im_target_id m = ev_target_id e"
    and "\<And>xs. mset (map_order s xs) = mset xs"
    and "distinct (map (\<lambda>m. (im_incident_id m, im_target_id m)) (impacts s))"
proof -
  have fsts: "map (fst \<circ> im_ref) xs = map im_id xs" "map (snd \<circ> im_ref) xs = map (\<lambda>m. (im_incident_id m, im_target_id m)) xs" for xs
    by (simp_all add: im_ref_def comp_def)
  have evs: "map (fst \<circ> ev_ref) xs = map ev_id xs" for xs by (simp add: ev_ref_def comp_def)
  note h = assms [unfolded cycle_inv_def shape_ok_def shape_of_def shape.simps map_map fsts evs]
  from h show "distinct (map in_id (incidents s))" and "distinct (map im_id (impacts s))"
    and "distinct (map ev_id (evidence s))" and "rows_ok s" and "\<And>xs. mset (map_order s xs) = mset xs"
    and "distinct (map (\<lambda>m. (im_incident_id m, im_target_id m)) (impacts s))" by simp_all
  from h have inc: "im_incident_id ` set (impacts s) = in_id ` set (incidents s)"
    by (simp add: image_comp [symmetric] im_ref_def image_image comp_def)
  then show "\<exists>i \<in> set (incidents s). in_id i = im_incident_id m" if "m \<in> set (impacts s)" for m
    using that by (metis image_eqI imageE)
  from inc show "\<exists>m \<in> set (impacts s). im_incident_id m = in_id i" if "i \<in> set (incidents s)" for i
    using that by (metis image_eqI imageE)
  show "\<exists>m \<in> set (impacts s). im_id m = ev_impact_id e \<and> im_incident_id m = ev_incident_id e \<and>
      im_target_id m = ev_target_id e" if "e \<in> set (evidence s)" for e
  proof -
    from h have "snd ` ev_ref ` set (evidence s) \<subseteq> im_ref ` set (impacts s)" by simp
    with that have "snd (ev_ref e) \<in> im_ref ` set (impacts s)" by blast
    then show ?thesis by (auto simp: ev_ref_def im_ref_def)
  qed
qed

subsection \<open>Single statements\<close>

lemma cycle_inv_cong:
  assumes "cycle_inv s" and "shape_of s' = shape_of s" and "evidence s' = evidence s"
    and "\<And>r. r \<in> set (incidents s') \<Longrightarrow> incident_ok r" and "\<And>r. r \<in> set (impacts s') \<Longrightarrow> impact_ok r"
  shows "cycle_inv s'"
  using assms by (auto simp: cycle_inv_def active_identities_def rows_ok_def)

lemma inv_update_incidents:
  assumes "cycle_inv s"
    and "\<And>r. r \<in> set (incidents s) \<Longrightarrow> P r \<Longrightarrow> incident_ok r \<Longrightarrow> in_id (f r) = in_id r \<and> incident_ok (f r)"
  shows "cycle_inv (s\<lparr>incidents := update_where P f (incidents s)\<rparr>)"
  using assms(1)
proof (rule cycle_inv_cong)
  show "shape_of (s\<lparr>incidents := update_where P f (incidents s)\<rparr>) = shape_of s"
    using assms by (simp add: shape_of_def map_update_where cycle_inv_def rows_ok_def)
qed (use assms in \<open>auto simp: set_update_where cycle_inv_def rows_ok_def\<close>)

lemma inv_update_impacts:
  assumes "cycle_inv s"
    and "\<And>r. r \<in> set (impacts s) \<Longrightarrow> P r \<Longrightarrow> impact_ok r \<Longrightarrow> im_ref (f r) = im_ref r \<and> impact_ok (f r)"
  shows "cycle_inv (s\<lparr>impacts := update_where P f (impacts s)\<rparr>)"
  using assms(1)
proof (rule cycle_inv_cong)
  show "shape_of (s\<lparr>impacts := update_where P f (impacts s)\<rparr>) = shape_of s"
    using assms by (simp add: shape_of_def map_update_where cycle_inv_def rows_ok_def)
qed (use assms in \<open>auto simp: set_update_where cycle_inv_def rows_ok_def\<close>)

lemma active_identities_update:
  assumes "\<And>r. r \<in> set rows \<Longrightarrow> P r \<Longrightarrow> ev_identity (f r) = ev_identity r \<and> (ev_active (f r) \<longrightarrow> ev_active r)"
    and "distinct (map ev_identity (filter ev_active rows))"
  shows "distinct (map ev_identity (filter ev_active (update_where P f rows))) \<and>
    set (map ev_identity (filter ev_active (update_where P f rows))) \<subseteq> set (map ev_identity (filter ev_active rows))"
  using assms
proof (induction rows)
  case (Cons r rows)
  then have "distinct (map ev_identity (filter ev_active (update_where P f rows))) \<and>
    set (map ev_identity (filter ev_active (update_where P f rows))) \<subseteq> set (map ev_identity (filter ev_active rows))"
    by (cases "ev_active r") auto
  moreover have "P r \<Longrightarrow> ev_identity (f r) = ev_identity r \<and> (ev_active (f r) \<longrightarrow> ev_active r)"
    using Cons.prems(1) by simp
  ultimately show ?case using Cons.prems(2) by (cases "ev_active r"; cases "P r"; cases "ev_active (f r)") auto
qed simp

lemma inv_update_evidence:
  assumes "cycle_inv s"
    and "\<And>r. r \<in> set (evidence s) \<Longrightarrow> P r \<Longrightarrow> evidence_ok r \<Longrightarrow> ev_ref (f r) = ev_ref r \<and>
      ev_identity (f r) = ev_identity r \<and> (ev_active (f r) \<longrightarrow> ev_active r) \<and> evidence_ok (f r)"
  shows "cycle_inv (s\<lparr>evidence := update_where P f (evidence s)\<rparr>)"
proof -
  have ok: "r \<in> set (evidence s) \<Longrightarrow> evidence_ok r" for r
    using assms(1) by (simp add: cycle_inv_def rows_ok_def)
  then have "shape_of (s\<lparr>evidence := update_where P f (evidence s)\<rparr>) = shape_of s"
    using assms(2) by (simp add: shape_of_def map_update_where)
  moreover have "distinct (active_identities (s\<lparr>evidence := update_where P f (evidence s)\<rparr>))"
    using active_identities_update [of "evidence s" P f] assms ok
    by (simp add: active_identities_def cycle_inv_def)
  ultimately show ?thesis
    using assms ok by (auto simp: cycle_inv_def rows_ok_def set_update_where)
qed

lemma inv_activity [simp]: "cycle_inv (s\<lparr>activity := rows\<rparr>) \<longleftrightarrow> cycle_inv s"
  by (simp add: cycle_inv_def shape_of_def active_identities_def rows_ok_def)

lemma inv_sources [simp]: "cycle_inv (s\<lparr>sources := rows\<rparr>) \<longleftrightarrow> cycle_inv s"
  by (simp add: cycle_inv_def shape_of_def active_identities_def rows_ok_def)

lemma inv_appendActivity [simp]: "cycle_inv (appendActivity i m v k og a msg dt s) \<longleftrightarrow> cycle_inv s"
  by (simp add: appendActivity_def)

lemma rows_okD:
  assumes "cycle_inv s"
  shows "r \<in> set (incidents s) \<Longrightarrow> incident_ok r" and "m \<in> set (impacts s) \<Longrightarrow> impact_ok m"
    and "e \<in> set (evidence s) \<Longrightarrow> evidence_ok e"
  using assms by (auto simp: cycle_inv_def rows_ok_def)

lemmas row_defs = ev_ref_def ev_identity_def evidence_ok_def impact_ok_def incident_ok_def im_ref_def

lemma inv_recomputeAcknowledgement: "cycle_inv s \<Longrightarrow> cycle_inv (recomputeAcknowledgement i s)"
  unfolding recomputeAcknowledgement_def Let_def split_beta
  by (rule inv_update_incidents) (auto simp: incident_ok_def)

lemma inv_resolveEvidenceRow: "cycle_inv s \<Longrightarrow> cycle_inv (resolveEvidenceRow v i m n og t s)"
  unfolding resolveEvidenceRow_def
  by (simp, rule inv_update_evidence) (auto simp: row_defs)

lemma inv_touch_evidence: "cycle_inv s \<Longrightarrow> cycle_inv (touch_evidence v t s)"
  unfolding touch_evidence_def by (rule inv_update_evidence) (auto simp: row_defs)

lemma inv_acknowledgeFromEvidence:
  assumes "cycle_inv s"
  shows "cycle_inv (acknowledgeFromEvidence i v t s)"
proof -
  have "cycle_inv (acknowledge_upstream i v t s)"
    unfolding acknowledge_upstream_def Let_def
    using assms by (rule inv_update_incidents) (auto simp: incident_ok_def)
  then have "cycle_inv (inherit_upstream i v t (acknowledge_upstream i v t s))"
    unfolding inherit_upstream_def by (rule inv_update_evidence) (auto simp: row_defs Let_def)
  then show ?thesis
    using assms unfolding acknowledgeFromEvidence_def by (simp add: inv_recomputeAcknowledgement)
qed

lemma inv_refresh_evidence:
  "cycle_inv s \<Longrightarrow> fact_complete f \<Longrightarrow> validSeverity (fa_Severity f) \<Longrightarrow> cycle_inv (refresh_evidence v f t s)"
  unfolding refresh_evidence_def
  by (rule inv_update_evidence) (auto simp: row_defs refresh_row_def Let_def fact_complete_def)

lemma inv_inherit_acknowledgement:
  assumes "cycle_inv s"
  shows "cycle_inv (inherit_acknowledgement i v s)"
proof -
  have "cycle_inv (queue_inherited v s)"
    unfolding queue_inherited_def using assms by (rule inv_update_evidence) (auto simp: row_defs)
  moreover from this have "cycle_inv (queue_incident i (queue_inherited v s))"
    unfolding queue_incident_def by (rule inv_update_incidents) (auto simp: incident_ok_def)
  ultimately show ?thesis by (simp add: inherit_acknowledgement_def)
qed

lemma inv_rearm_native: "cycle_inv s \<Longrightarrow> cycle_inv (rearm_native v t s)"
  unfolding rearm_native_def by (rule inv_update_evidence) (auto simp: row_defs)

lemma inv_persist_streaks: "cycle_inv s \<Longrightarrow> cycle_inv (persist_streaks v k s)"
  by (simp add: persist_streaks_def)

lemma inv_invalidate_row:
  "cycle_inv s \<Longrightarrow> 8 \<le> rune_count reason \<Longrightarrow> rune_count reason \<le> 500 \<Longrightarrow> cycle_inv (invalidate_row v a reason s)"
  unfolding invalidate_row_def by (rule inv_update_evidence) (auto simp: row_defs)

lemma inv_acknowledge_incident: "cycle_inv s \<Longrightarrow> cycle_inv (acknowledge_incident i a k s)"
  unfolding acknowledge_incident_def
  by (rule inv_update_incidents) (auto simp: incident_ok_def)

lemma inv_queue_acknowledgements: "cycle_inv s \<Longrightarrow> cycle_inv (queue_acknowledgements i s)"
  unfolding queue_acknowledgements_def
  by (rule inv_update_evidence) (auto simp: row_defs Let_def)

lemma inv_complete_row: "cycle_inv s \<Longrightarrow> cycle_inv (complete_row i res s)"
proof -
  assume "cycle_inv s"
  then have "cycle_inv (record_result i res s)"
    unfolding record_result_def Let_def by (rule inv_update_evidence) (auto simp: row_defs)
  then show ?thesis unfolding complete_row_def by simp
qed

subsection \<open>Recomputing\<close>

lemma impact_by_id_Some: "impact_by_id s m = Some r \<Longrightarrow> r \<in> set (impacts s) \<and> im_id r = m"
  unfolding impact_by_id_def by (rule find_SomeD)

lemma incident_by_id_Some: "incident_by_id s i = Some r \<Longrightarrow> r \<in> set (incidents s) \<and> in_id r = i"
  unfolding incident_by_id_def by (rule find_SomeD)

lemma incident_by_id_the:
  "cycle_inv s \<Longrightarrow> r \<in> set (incidents s) \<Longrightarrow> incident_by_id s (in_id r) = Some r"
  unfolding incident_by_id_def by (rule find_distinct_key) (auto dest: cycle_invD)

lemma impact_by_id_the:
  "cycle_inv s \<Longrightarrow> r \<in> set (impacts s) \<Longrightarrow> impact_by_id s (im_id r) = Some r"
  unfolding impact_by_id_def by (rule find_distinct_key) (auto dest: cycle_invD)

lemma incident_by_id_iff:
  "cycle_inv s \<Longrightarrow> incident_by_id s i = Some r \<longleftrightarrow> r \<in> set (incidents s) \<and> in_id r = i"
  by (auto dest: incident_by_id_Some incident_by_id_the)

lemma impact_by_id_iff:
  "cycle_inv s \<Longrightarrow> impact_by_id s m = Some r \<longleftrightarrow> r \<in> set (impacts s) \<and> im_id r = m"
  by (auto dest: impact_by_id_Some impact_by_id_the)

lemma worst_evidence_in:
  "worst_evidence s m = Some r \<Longrightarrow> r \<in> set (evidence s) \<and> ev_impact_id r = m \<and> standing r"
  unfolding worst_evidence_def impact_evidence_def by (auto dest: first_max_in)

lemma inv_write_impact:
  "cycle_inv s \<Longrightarrow> validSeverity sev \<Longrightarrow> (st = Active \<longleftrightarrow> t = None) \<Longrightarrow> cycle_inv (write_impact m st sev t s)"
  unfolding write_impact_def by (rule inv_update_impacts) (auto simp: row_defs)

lemma inv_recomputeImpact:
  assumes "cycle_inv s"
  shows "cycle_inv (snd (recomputeImpact m t s))"
proof (cases "impact_by_id s m")
  case (Some prev)
  then have "validSeverity (im_effective_severity prev)"
    using rows_okD(2) [OF assms] impact_by_id_Some by (auto simp: impact_ok_def)
  moreover have "validSeverity (ev_severity r)" if "worst_evidence s m = Some r" for r
    using worst_evidence_in [OF that] rows_okD(3) [OF assms] by (auto simp: evidence_ok_def)
  ultimately show ?thesis
    using assms Some by (auto simp: recomputeImpact_def inv_write_impact split: option.splits)
qed (simp add: recomputeImpact_def assms)

lemma inv_refreshIncidentPresentation: "cycle_inv s \<Longrightarrow> cycle_inv (refreshIncidentPresentation i b s)"
  unfolding refreshIncidentPresentation_def Let_def
  by (rule inv_update_incidents) (auto simp: incident_ok_def)

lemma derive_incident_ok:
  assumes "cycle_inv s" and "prev \<in> set (incidents s)" and d_def: "d = derive_incident prev t s"
  shows "validSeverity (dv_severity d)" and "0 \<le> dv_active d" and "0 < dv_total d"
    and "dv_active d \<le> dv_max_affected d" and "dv_status d = Resolved \<longrightarrow> dv_propagation d = Closed"
    and "in_propagation_status prev = Closed \<longrightarrow> dv_propagation d = Closed"
proof -
  obtain m where "m \<in> set (incident_impacts s (in_id prev))"
    using cycle_invD(6) [OF assms(1,2)] by (auto simp: incident_impacts_def)
  then show "0 < dv_total d" by (auto simp: d_def derive_incident_def Let_def intro: length_pos_if_in_set)
  have "validSeverity (im_effective_severity r)" if "r \<in> set (active_impacts s (in_id prev))" for r
    using that rows_okD(2) [OF assms(1)] by (auto simp: active_impacts_def incident_impacts_def impact_ok_def)
  then show "validSeverity (dv_severity d)"
    using rows_okD(1) [OF assms(1,2)] first_max_in
    by (fastforce simp: d_def derive_incident_def Let_def incident_ok_def split: option.splits)
  show "0 \<le> dv_active d" and "dv_active d \<le> dv_max_affected d"
    and "dv_status d = Resolved \<longrightarrow> dv_propagation d = Closed"
    and "in_propagation_status prev = Closed \<longrightarrow> dv_propagation d = Closed"
    by (auto simp: d_def derive_incident_def Let_def split: if_splits)
qed

lemma inv_journal_incident [simp]: "cycle_inv (journal_incident prev d s) \<longleftrightarrow> cycle_inv s"
  by (simp add: journal_incident_def Let_def)

text \<open>The presentation is refreshed between the reading of the row and its writing, and
  touches none of the columns that are written.\<close>

lemma refreshed_row:
  assumes "cycle_inv s" and "prev \<in> set (incidents s)"
    and "r \<in> set (incidents (refreshIncidentPresentation i b s))" and "in_id r = in_id prev"
  shows "\<exists>k. r = prev\<lparr>in_alert_kind := k\<rparr>"
proof -
  obtain r0 k where r0: "r0 \<in> set (incidents s)" "r = r0 \<or> r = r0\<lparr>in_alert_kind := k\<rparr>"
    using assms(3) by (auto simp: refreshIncidentPresentation_def Let_def set_update_where split: if_splits)
  then have "in_id r0 = in_id prev" using assms(4) by auto
  then have "r0 = prev"
    using assms(1,2) r0(1) cycle_invD(1) [OF assms(1)] by (auto simp: distinct_map dest: inj_onD)
  moreover have "r = r\<lparr>in_alert_kind := in_alert_kind r\<rparr>" by simp
  ultimately show ?thesis using r0(2) by metis
qed

lemma written_row_ok:
  assumes "cycle_inv s" and "prev \<in> set (incidents s)" and "r = prev\<lparr>in_alert_kind := k\<rparr>"
  shows "incident_ok (written_row prev (derive_incident prev t s) t now r)"
proof -
  have "incident_ok prev" using assms(1,2) by (rule rows_okD)
  with derive_incident_ok [OF assms(1,2) refl, of t]
  show ?thesis
    unfolding incident_ok_def written_row_def assms(3)
    by (cases "dv_status (derive_incident prev t s)"; cases "dv_propagation (derive_incident prev t s)";
        cases "in_status prev"; cases "in_propagation_status prev") simp_all
qed

lemma inv_write_incident:
  assumes "cycle_inv s" and "prev \<in> set (incidents s)"
  shows "cycle_inv (write_incident prev (derive_incident prev t s) t (refreshIncidentPresentation i b s))"
  unfolding write_incident_def
proof (rule inv_update_incidents)
  fix r assume "r \<in> set (incidents (refreshIncidentPresentation i b s))" and "in_id r = in_id prev"
  then obtain k where "r = prev\<lparr>in_alert_kind := k\<rparr>" using refreshed_row [OF assms] by blast
  then show "in_id (written_row prev (derive_incident prev t s) t (clock (refreshIncidentPresentation i b s)) r) = in_id r \<and>
      incident_ok (written_row prev (derive_incident prev t s) t (clock (refreshIncidentPresentation i b s)) r)"
    using written_row_ok [OF assms] by (simp add: written_row_def)
qed (simp add: assms(1) inv_refreshIncidentPresentation)

lemma inv_recomputeIncident:
  assumes "cycle_inv s"
  shows "cycle_inv (snd (recomputeIncident i t s))"
proof (cases "incident_by_id s i")
  case (Some prev)
  then have "prev \<in> set (incidents s)" by (simp add: incident_by_id_Some)
  from inv_write_incident [OF assms this] show ?thesis
    using Some assms by (simp add: recomputeIncident_def Let_def inv_recomputeAcknowledgement
        inv_refreshIncidentPresentation)
qed (simp add: recomputeIncident_def assms)

subsection \<open>Rearming\<close>

lemma rearm_row_frame: "map (\<lambda>r. (ev_id r, ev_invalidated_at r)) (evidence (rearm_row v t s)) =
    map (\<lambda>r. (ev_id r, ev_invalidated_at r)) (evidence s)"
  unfolding rearm_row_def by (simp add: map_update_where)

lemma inv_rearm_rows:
  assumes "cycle_inv s"
    and "\<And>c v. c \<in> set cs \<Longrightarrow> (ev_id c, v) \<in> set (map (\<lambda>r. (ev_id r, ev_invalidated_at r)) (evidence s)) \<Longrightarrow> v \<noteq> None"
  shows "cycle_inv (fold (\<lambda>r. rearm_row (ev_id r) t) cs s)"
  using assms
proof (induction cs arbitrary: s)
  case (Cons c cs)
  have "cycle_inv (rearm_row (ev_id c) t s)"
    unfolding rearm_row_def using Cons.prems(1)
  proof (rule inv_update_evidence)
    fix r assume "r \<in> set (evidence s)" and "ev_id r = ev_id c" and "evidence_ok r"
    moreover from this have "ev_invalidated_at r \<noteq> None"
      using Cons.prems(2) [of c "ev_invalidated_at r"] by force
    ultimately show "ev_ref (r\<lparr>ev_rearmed_at := Some (rearm_time t r), ev_last_seen_at := t, ev_updated_at := clock s\<rparr>) = ev_ref r \<and>
      ev_identity (r\<lparr>ev_rearmed_at := Some (rearm_time t r), ev_last_seen_at := t, ev_updated_at := clock s\<rparr>) = ev_identity r \<and>
      (ev_active (r\<lparr>ev_rearmed_at := Some (rearm_time t r), ev_last_seen_at := t, ev_updated_at := clock s\<rparr>) \<longrightarrow> ev_active r) \<and>
      evidence_ok (r\<lparr>ev_rearmed_at := Some (rearm_time t r), ev_last_seen_at := t, ev_updated_at := clock s\<rparr>)"
      by (auto simp: row_defs)
  qed
  moreover have "v \<noteq> None" if "ca \<in> set cs"
    and "(ev_id ca, v) \<in> set (map (\<lambda>r. (ev_id r, ev_invalidated_at r)) (evidence (rearm_row (ev_id c) t s)))" for ca v
    using that unfolding rearm_row_frame by (intro Cons.prems(2) [of ca v]) (auto simp del: set_map)
  ultimately show ?case using Cons.IH [of "rearm_row (ev_id c) t s"] by simp
qed simp

lemma inv_rearmRecoveredEvidence:
  assumes "cycle_inv s"
  shows "cycle_inv (rearmRecoveredEvidence sn seen t s)"
  unfolding rearmRecoveredEvidence_def using assms
proof (rule inv_rearm_rows)
  fix c v assume "c \<in> set (rearm_candidates sn seen s)"
    and v: "(ev_id c, v) \<in> set (map (\<lambda>r. (ev_id r, ev_invalidated_at r)) (evidence s))"
  then have c: "c \<in> set (evidence s)" "ev_invalidated_at c \<noteq> None"
    by (auto simp: rearm_candidates_def split: if_splits)
  from v obtain r where "r \<in> set (evidence s)" "ev_id r = ev_id c" "v = ev_invalidated_at r" by auto
  with c show "v \<noteq> None" using cycle_invD(3) [OF assms] by (auto simp: distinct_map dest: inj_onD)
qed

subsection \<open>Inserting\<close>

lemma fresh_uuid:
  assumes "cycle_inv s"
  shows "draw_uuid s \<notin> in_id ` set (incidents s)" and "draw_uuid s \<notin> im_id ` set (impacts s)"
    and "draw_uuid s \<notin> ev_id ` set (evidence s)"
proof -
  have "inj (gen_random_uuid s)"
    and sub: "set (map in_id (incidents s)) \<union> fst ` set (map im_ref (impacts s)) \<union>
      fst ` set (map ev_ref (evidence s)) \<subseteq> gen_random_uuid s ` {..<uuids_drawn s}"
    using assms unfolding cycle_inv_def shape_ok_def shape_of_def by simp_all
  then have "draw_uuid s \<notin> gen_random_uuid s ` {..<uuids_drawn s}"
    by (auto simp: draw_uuid_def dest: injD)
  with sub show "draw_uuid s \<notin> in_id ` set (incidents s)" and "draw_uuid s \<notin> im_id ` set (impacts s)"
    and "draw_uuid s \<notin> ev_id ` set (evidence s)"
    by (auto simp: im_ref_def ev_ref_def image_subset_iff)
qed

lemma shape_ok_insert_impact:
  assumes "shape_ok h" and "i \<in> set (sh_incidents h)" and "(i, t) \<notin> snd ` set (sh_impacts h)"
  shows "shape_ok (h\<lparr>sh_drawn := Suc (sh_drawn h),
    sh_impacts := sh_impacts h @ [(sh_gen h (sh_drawn h), i, t)]\<rparr>)"
proof -
  have sub: "set (sh_incidents h) \<union> fst ` set (sh_impacts h) \<union> fst ` set (sh_evidence h)
      \<subseteq> sh_gen h ` {..<sh_drawn h}" and "inj (sh_gen h)"
    using assms(1) by (simp_all add: shape_ok_def)
  from this(2) have "sh_gen h (sh_drawn h) \<notin> sh_gen h ` {..<sh_drawn h}" by (auto dest: injD)
  with sub have "sh_gen h (sh_drawn h) \<notin> fst ` set (sh_impacts h)" by auto
  moreover have "set (sh_incidents h) \<union> fst ` set (sh_impacts h @ [(sh_gen h (sh_drawn h), i, t)]) \<union>
      fst ` set (sh_evidence h) \<subseteq> sh_gen h ` {..<Suc (sh_drawn h)}"
    using sub by (auto simp: lessThan_Suc)
  moreover have "(fst \<circ> snd) ` set (sh_impacts h @ [(sh_gen h (sh_drawn h), i, t)]) = set (sh_incidents h)"
    using assms(1,2) by (auto simp: shape_ok_def)
  moreover have "snd ` set (sh_evidence h) \<subseteq> set (sh_impacts h @ [(sh_gen h (sh_drawn h), i, t)])"
    using assms(1) by (auto simp: shape_ok_def)
  ultimately show ?thesis
    using assms unfolding shape_ok_def by (elim conjE, intro conjI) simp_all
qed

lemma shape_ok_insert_incident:
  assumes "shape_ok h"
  shows "shape_ok (h\<lparr>sh_drawn := Suc (Suc (sh_drawn h)),
    sh_incidents := sh_incidents h @ [sh_gen h (sh_drawn h)],
    sh_impacts := sh_impacts h @ [(sh_gen h (Suc (sh_drawn h)), sh_gen h (sh_drawn h), t)]\<rparr>)"
proof -
  have fresh: "sh_gen h n \<notin> sh_gen h ` {..<sh_drawn h}" if "sh_drawn h \<le> n" for n
    using assms that by (auto simp: shape_ok_def dest: injD)
  have sub: "set (sh_incidents h) \<union> fst ` set (sh_impacts h) \<union> fst ` set (sh_evidence h)
      \<subseteq> sh_gen h ` {..<sh_drawn h}" and same: "(fst \<circ> snd) ` set (sh_impacts h) = set (sh_incidents h)"
    using assms by (simp_all add: shape_ok_def)
  have inc: "sh_gen h (sh_drawn h) \<notin> set (sh_incidents h)" and "sh_gen h (Suc (sh_drawn h)) \<notin> fst ` set (sh_impacts h)"
    using fresh [of "sh_drawn h"] fresh [of "Suc (sh_drawn h)"] sub by auto
  moreover have "(sh_gen h (sh_drawn h), t) \<notin> snd ` set (sh_impacts h)"
    using inc unfolding same [symmetric] by force
  moreover have "set (sh_incidents h @ [sh_gen h (sh_drawn h)]) \<union>
      fst ` set (sh_impacts h @ [(sh_gen h (Suc (sh_drawn h)), sh_gen h (sh_drawn h), t)]) \<union>
      fst ` set (sh_evidence h) \<subseteq> sh_gen h ` {..<Suc (Suc (sh_drawn h))}"
    using sub by (auto simp: lessThan_Suc)
  moreover have "(fst \<circ> snd) ` set (sh_impacts h @ [(sh_gen h (Suc (sh_drawn h)), sh_gen h (sh_drawn h), t)]) =
      set (sh_incidents h @ [sh_gen h (sh_drawn h)])"
    using same by auto
  moreover have "snd ` set (sh_evidence h) \<subseteq> set (sh_impacts h @ [(sh_gen h (Suc (sh_drawn h)), sh_gen h (sh_drawn h), t)])"
    using assms by (auto simp: shape_ok_def)
  ultimately show ?thesis
    using assms unfolding shape_ok_def by (elim conjE, intro conjI) simp_all
qed

lemma shape_ok_insert_evidence:
  assumes "shape_ok h" and "ref \<in> set (sh_impacts h)"
  shows "shape_ok (h\<lparr>sh_drawn := Suc (sh_drawn h),
    sh_evidence := sh_evidence h @ [(sh_gen h (sh_drawn h), ref)]\<rparr>)"
proof -
  have "sh_gen h (sh_drawn h) \<notin> sh_gen h ` {..<sh_drawn h}"
    using assms(1) by (auto simp: shape_ok_def dest: injD)
  then have "sh_gen h (sh_drawn h) \<notin> fst ` set (sh_evidence h)"
    using assms(1) by (auto simp: shape_ok_def)
  then show ?thesis using assms by (auto simp: shape_ok_def lessThan_Suc)
qed

lemma clamped:
  "60 \<le> (if w < 60 then 60 else if 300 < w then 300 else w :: int) \<and>
    (if w < 60 then 60 else if 300 < w then 300 else w) \<le> 300"
  by simp

lemma evidenceWindow_range: "60 \<le> evidenceWindow f s \<and> evidenceWindow f s \<le> 300"
  unfolding evidenceWindow_def Let_def by (rule clamped)

lemma inv_reopen_impact:
  "cycle_inv s \<Longrightarrow> validSeverity sev \<Longrightarrow> cycle_inv (reopen_impact m sev s)"
  unfolding reopen_impact_def by (rule inv_update_impacts) (auto simp: row_defs)

lemma inv_extendPropagation:
  "cycle_inv s \<Longrightarrow> w \<le> 300 \<Longrightarrow> cycle_inv (extendPropagation i t w s)"
  unfolding extendPropagation_def by (rule inv_update_incidents) (auto simp: incident_ok_def Let_def)

lemma inv_insert_impact:
  assumes "cycle_inv s" and "validSeverity (fa_Severity f)" and "i \<in> in_id ` set (incidents s)"
    and "\<And>m. m \<in> set (impacts s) \<Longrightarrow> im_incident_id m = i \<Longrightarrow> im_target_id m \<noteq> fa_TargetID f"
  shows "cycle_inv (insert_impact i f s)"
proof -
  have fresh: "(i, fa_TargetID f) \<notin> snd ` set (map im_ref (impacts s))"
    by (auto simp: im_ref_def dest: assms(4))
  have "shape_of (insert_impact i f s) = (shape_of s)\<lparr>sh_drawn := Suc (uuids_drawn s),
      sh_impacts := map im_ref (impacts s) @ [(draw_uuid s, i, fa_TargetID f)]\<rparr>"
    by (simp add: shape_of_def insert_impact_def im_ref_def)
  moreover have "shape_ok ((shape_of s)\<lparr>sh_drawn := Suc (uuids_drawn s),
      sh_impacts := map im_ref (impacts s) @ [(draw_uuid s, i, fa_TargetID f)]\<rparr>)"
    using shape_ok_insert_impact [of "shape_of s" i "fa_TargetID f"] assms(1,3) fresh
    by (simp add: cycle_inv_def shape_of_def draw_uuid_def)
  ultimately show ?thesis
    using assms(1,2) by (auto simp: cycle_inv_def active_identities_def rows_ok_def insert_impact_def impact_ok_def)
qed

lemma inv_open_incident:
  assumes "cycle_inv s" and "validSeverity (fa_Severity f)"
  shows "cycle_inv (snd (open_incident f (evidenceWindow f s) t s))"
proof -
  let ?w = "evidenceWindow f s"
  have ids: "draw_uuid (insert_incident f ?w t s) = gen_random_uuid s (Suc (uuids_drawn s))"
    by (simp add: draw_uuid_def insert_incident_def Let_def)
  have "shape_of (snd (open_incident f ?w t s)) = (shape_of s)\<lparr>sh_drawn := Suc (Suc (uuids_drawn s)),
      sh_incidents := map in_id (incidents s) @ [draw_uuid s],
      sh_impacts := map im_ref (impacts s) @ [(gen_random_uuid s (Suc (uuids_drawn s)), draw_uuid s, fa_TargetID f)]\<rparr>"
    unfolding open_incident_def Let_def snd_conv insert_impact_def ids
    by (simp add: shape_of_def insert_incident_def im_ref_def Let_def)
  moreover have "shape_ok ((shape_of s)\<lparr>sh_drawn := Suc (Suc (uuids_drawn s)),
      sh_incidents := map in_id (incidents s) @ [draw_uuid s],
      sh_impacts := map im_ref (impacts s) @ [(gen_random_uuid s (Suc (uuids_drawn s)), draw_uuid s, fa_TargetID f)]\<rparr>)"
    using shape_ok_insert_incident [of "shape_of s" "fa_TargetID f"] assms(1)
    by (simp add: cycle_inv_def shape_of_def draw_uuid_def)
  ultimately show ?thesis
    using assms evidenceWindow_range [of f s]
    by (auto simp: cycle_inv_def active_identities_def rows_ok_def open_incident_def insert_impact_def
        insert_incident_def impact_ok_def incident_ok_def Let_def)
qed

subsection \<open>The Impact of a fact\<close>

text \<open>What \<open>ensureImpact\<close> promises: on success it names an Impact of the resource, under its
  Incident, and no Proof has changed; on failure nothing has changed.\<close>

definition ensures :: "EvidenceFact \<Rightarrow> ensured \<Rightarrow> db \<Rightarrow> db \<Rightarrow> bool" where
  "ensures f e s s' \<longleftrightarrow> cycle_inv s' \<and> evidence s' = evidence s \<and>
     (en_impactID e, en_incidentID e, fa_TargetID f) \<in> im_ref ` set (impacts s')"

lemma im_refI: "m \<in> set (impacts s) \<Longrightarrow> (im_id m, im_incident_id m, im_target_id m) \<in> im_ref ` set (impacts s)"
  unfolding im_ref_def by (rule image_eqI) simp_all

lemma im_ref_kept:
  assumes "\<And>r. r \<in> set rows \<Longrightarrow> P r \<Longrightarrow> im_ref (g r) = im_ref r"
  shows "im_ref ` set (update_where P g rows) = im_ref ` set rows"
  using map_update_where [of rows P im_ref g] assms by (metis list.set_map)

lemma impacts_frame [simp]:
  "impacts (appendActivity i m v k og a msg dt s) = impacts s"
  "impacts (extendPropagation i t w s) = impacts s"
  by (simp_all add: appendActivity_def extendPropagation_def)

lemma im_ref_reopen [simp]: "im_ref ` set (impacts (reopen_impact m sev s)) = im_ref ` set (impacts s)"
  unfolding reopen_impact_def by (simp, rule im_ref_kept) (simp add: im_ref_def)

lemma evidence_frame [simp]:
  "evidence (appendActivity i m v k og a msg dt s) = evidence s"
  "evidence (extendPropagation i t w s) = evidence s"
  "evidence (reopen_impact m sev s) = evidence s"
  "evidence (insert_impact i f s) = evidence s"
  "evidence (insert_incident f w t s) = evidence s"
  by (simp_all add: appendActivity_def extendPropagation_def reopen_impact_def insert_impact_def
      insert_incident_def Let_def)

lemma join_propagation_ensures:
  assumes "cycle_inv s" and "validSeverity (fa_Severity f)" and "inc \<in> set (incidents s)"
    and "join_propagation f (evidenceWindow f s) inc s = (e, s')"
  shows "ensures f e s s'"
proof (cases "find (\<lambda>r. im_incident_id r = in_id inc \<and> im_target_id r = fa_TargetID f) (impacts s)")
  case None
  then have "cycle_inv (insert_impact (in_id inc) f s)"
    using assms(1-3) by (intro inv_insert_impact) (auto simp: find_eq_None)
  moreover have "(draw_uuid s, in_id inc, fa_TargetID f) \<in> im_ref ` set (impacts (insert_impact (in_id inc) f s))"
    by (simp add: insert_impact_def im_ref_def)
  ultimately show ?thesis using None assms(4) evidenceWindow_range [of f s]
    by (auto simp: join_propagation_def ensures_def inv_extendPropagation)
next
  case (Some im)
  then have "im \<in> set (impacts s)" "im_incident_id im = in_id inc" "im_target_id im = fa_TargetID f"
    by (auto dest: find_SomeD)
  then have "(im_id im, in_id inc, fa_TargetID f) \<in> im_ref ` set (impacts s)"
    using im_refI [of im s] by simp
  then show ?thesis using Some assms(1,2,4) evidenceWindow_range [of f s]
    by (auto simp: join_propagation_def ensures_def inv_extendPropagation inv_reopen_impact)
qed

lemma resume_ensures:
  assumes "cycle_inv s" and "validSeverity (fa_Severity f)"
    and "resumeRecentIncident f t s = (Some (i, m), s')"
  shows "ensures f \<lparr>en_incidentID = i, en_impactID = m, en_createdIncident = False, en_createdImpact = False\<rparr> s s'"
proof -
  obtain inc im where pick: "first_max (\<lambda>(inc, im). case in_resolved_at inc of None \<Rightarrow> 0 | Some t \<Rightarrow> t) (resumable f t s) = Some (inc, im)"
    using assms(3) by (auto simp: resumeRecentIncident_def split: option.splits)
  then have im: "im \<in> set (impacts s)" "im_incident_id im = in_id inc" "im_target_id im = fa_TargetID f"
    by (auto dest!: first_max_in simp: resumable_def)
  define s1 where "s1 = reopen_impact (im_id im) (fa_Severity f) s"
  define s2 where "s2 = s1\<lparr>incidents := update_where (\<lambda>r. in_id r = in_id inc)
      (\<lambda>r. r\<lparr>in_resumption_count := in_resumption_count r + 1, in_resumed_at := Some t,
             in_revision := in_revision r + 1, in_updated_at := clock s\<rparr>) (incidents s1)\<rparr>"
  have "cycle_inv s1" using assms(1,2) by (simp add: s1_def inv_reopen_impact)
  then have "cycle_inv s2"
    unfolding s2_def by (rule inv_update_incidents) (auto simp: incident_ok_def)
  moreover have "i = in_id inc \<and> m = im_id im \<and> (\<exists>k dt. s' = appendActivity (in_id inc) (im_id im) '''' ''resumed'' (fa_Origin f) '''' k dt s2)"
    using assms(3) pick unfolding resumeRecentIncident_def Let_def s1_def s2_def by auto
  moreover have "(im_id im, in_id inc, fa_TargetID f) \<in> im_ref ` set (impacts s2)"
    using im_refI [OF im(1)] im(2,3) by (simp add: s2_def s1_def)
  moreover have "evidence s2 = evidence s" by (simp add: s2_def s1_def)
  ultimately show ?thesis by (auto simp: ensures_def)
qed

lemma resume_None: "resumeRecentIncident f t s = (None, s') \<Longrightarrow> s' = s"
  by (auto simp: resumeRecentIncident_def Let_def split: option.splits)

lemma open_incident_ensures:
  assumes "cycle_inv s" and "validSeverity (fa_Severity f)" and "open_incident f (evidenceWindow f s) t s = (e, s')"
  shows "ensures f e s s'"
  using inv_open_incident [OF assms(1,2), of t] assms(3)
  by (auto simp: ensures_def open_incident_def Let_def insert_impact_def insert_incident_def im_ref_def)

lemma ensureImpact_ensures:
  assumes "cycle_inv s" and "validSeverity (fa_Severity f)"
  shows "case ensureImpact f t s of (Inl err, s') \<Rightarrow> s' = s | (Inr e, s') \<Rightarrow> ensures f e s s'"
proof -
  have active: "ensures f \<lparr>en_incidentID = im_incident_id im, en_impactID = im_id im,
      en_createdIncident = False, en_createdImpact = False\<rparr> s s"
    if "first_max im_opened_at (same_cycle_impacts (fa_TargetID f) k s) = Some im" for im k
    using first_max_in [OF that] im_refI [of im s] assms(1) by (auto simp: same_cycle_impacts_def ensures_def)
  have propagating: "inc \<in> set (incidents s)" if "first_min in_opened_at (propagating_incidents f s) = Some inc" for inc
    using first_min_in [OF that] by (simp add: propagating_incidents_def)
  show ?thesis
    unfolding ensureImpact_def Let_def
    by (auto split: option.splits prod.splits if_splits intro: active resume_ensures [OF assms]
        join_propagation_ensures [OF assms propagating] open_incident_ensures [OF assms] dest!: resume_None)
qed

subsection \<open>One fact\<close>

lemma evidence_write_frame [simp]:
  "evidence (write_impact m st sev rt s) = evidence s"
  "evidence (write_incident prev d t s) = evidence s"
  "evidence (journal_incident prev d s) = evidence s"
  "evidence (refreshIncidentPresentation i b s) = evidence s"
  "evidence (recomputeAcknowledgement i s) = evidence s"
  by (simp_all add: write_impact_def write_incident_def journal_incident_def Let_def
      refreshIncidentPresentation_def recomputeAcknowledgement_def split_beta)

lemma recompute_frame [simp]:
  "evidence (snd (recomputeImpact m t s)) = evidence s"
  "evidence (snd (recomputeIncident i t s)) = evidence s"
  by (simp_all add: recomputeImpact_def recomputeIncident_def Let_def split: option.split)

definition identity_free :: "EvidenceFact \<Rightarrow> db \<Rightarrow> bool" where
  "identity_free f s \<longleftrightarrow> (\<forall>r \<in> set (evidence s). fact_identity f r \<longrightarrow> \<not> ev_active r)"

lemma inv_insert_evidence:
  assumes "cycle_inv s" and "identity_free f s" and "fact_complete f" and "validSeverity (fa_Severity f)"
    and "(m, i, fa_TargetID f) \<in> im_ref ` set (impacts s)"
  shows "cycle_inv (insert_evidence i m f t s)"
proof -
  have "shape_of (insert_evidence i m f t s) = (shape_of s)\<lparr>sh_drawn := Suc (uuids_drawn s),
      sh_evidence := map ev_ref (evidence s) @ [(draw_uuid s, m, i, fa_TargetID f)]\<rparr>"
    by (simp add: shape_of_def insert_evidence_def ev_ref_def)
  moreover have "shape_ok ((shape_of s)\<lparr>sh_drawn := Suc (uuids_drawn s),
      sh_evidence := map ev_ref (evidence s) @ [(draw_uuid s, m, i, fa_TargetID f)]\<rparr>)"
    using shape_ok_insert_evidence [of "shape_of s" "(m, i, fa_TargetID f)"] assms(1,5)
    by (simp add: cycle_inv_def shape_of_def draw_uuid_def)
  moreover have "active_identities (insert_evidence i m f t s) =
      active_identities s @ [(fa_Origin f, fa_IdentityScope f, fa_IdentityKey f)]"
    by (simp add: active_identities_def insert_evidence_def ev_identity_def)
  moreover have "(fa_Origin f, fa_IdentityScope f, fa_IdentityKey f) \<notin> set (active_identities s)"
    using assms(2) by (auto simp: identity_free_def active_identities_def ev_identity_def same_identity_def)
  ultimately show ?thesis
    using assms(1,3,4)
    by (auto simp: cycle_inv_def rows_ok_def insert_evidence_def evidence_ok_def fact_complete_def)
qed

lemma inv_add_evidence:
  assumes "ensures f e s0 s" and "identity_free f s" and "fact_complete f" and "validSeverity (fa_Severity f)"
  shows "cycle_inv (add_evidence f t e s)"
proof -
  have "cycle_inv (insert_evidence (en_incidentID e) (en_impactID e) f t s)"
    using assms by (intro inv_insert_evidence) (auto simp: ensures_def)
  then show ?thesis
    by (simp add: add_evidence_def Let_def inv_acknowledgeFromEvidence inv_inherit_acknowledgement)
qed

lemma open_evidence_unfold:
  "open_evidence f t s =
     (case first_max (\<lambda>r. case ev_invalidated_at r of None \<Rightarrow> 0 | Some t \<Rightarrow> t) (unrearmed f s) of
        Some r \<Rightarrow> (Inr None, touch_evidence (ev_id r) t s)
      | None \<Rightarrow> (case ensureImpact f t s of
          (Inl err, s') \<Rightarrow> (Inl err, s')
        | (Inr e, s') \<Rightarrow> (Inr (Some (en_incidentID e, en_impactID e)), add_evidence f t e s')))"
  by (auto simp: open_evidence_def bindT_def thenT_def execT_def returnT_def split: option.splits prod.splits sum.splits)

lemma inv_open_evidence:
  assumes "cycle_inv s" and "identity_free f s" and "fact_complete f" and "validSeverity (fa_Severity f)"
  shows "cycle_inv (snd (open_evidence f t s))"
  using ensureImpact_ensures [OF assms(1,4), of t] assms
  by (auto simp: open_evidence_unfold inv_touch_evidence ensures_def identity_free_def
      intro!: inv_add_evidence split: option.splits prod.splits sum.splits)

lemma existing_evidence_Some:
  assumes "existing_evidence f s = Some (r, k)"
  shows "r \<in> set (evidence s)" and "fact_identity f r" and "ev_active r"
  using assms by (auto simp: existing_evidence_def split: option.splits dest!: find_SomeD)

lemma incident_by_id_None: "incident_by_id s i = None \<longleftrightarrow> i \<notin> in_id ` set (incidents s)"
  by (auto simp: incident_by_id_def find_eq_None)

lemma evidence_incident:
  assumes "cycle_inv s" and "r \<in> set (evidence s)"
  shows "ev_incident_id r \<in> in_id ` set (incidents s)" and "ev_impact_id r \<in> im_id ` set (impacts s)"
proof -
  obtain m where m: "m \<in> set (impacts s)" "im_id m = ev_impact_id r" "im_incident_id m = ev_incident_id r"
    using cycle_invD(7) [OF assms] by blast
  then show "ev_impact_id r \<in> im_id ` set (impacts s)" by force
  show "ev_incident_id r \<in> in_id ` set (incidents s)" using cycle_invD(5) [OF assms(1) m(1)] m(3) by force
qed

lemma existing_evidence_None:
  assumes "cycle_inv s" and "existing_evidence f s = None"
  shows "identity_free f s"
  unfolding identity_free_def
proof (intro ballI impI notI)
  fix r assume r: "r \<in> set (evidence s)" "fact_identity f r" "ev_active r"
  then have "incident_by_id s (ev_incident_id r) \<noteq> None"
    using evidence_incident(1) [OF assms(1) r(1)] by (simp add: incident_by_id_None)
  with r assms(2) show False
    by (auto simp: existing_evidence_def find_eq_None split: option.splits dest!: find_SomeD)
qed

lemma active_identity_unique:
  assumes "cycle_inv s" and "r \<in> set (evidence s)" and "r' \<in> set (evidence s)"
    and "ev_active r" and "ev_active r'" and "ev_identity r = ev_identity r'"
  shows "r = r'"
  using assms by (auto simp: cycle_inv_def active_identities_def distinct_map inj_on_def)

lemma resolve_identity_free:
  assumes "cycle_inv s" and "r \<in> set (evidence s)" and "fact_identity f r" and "ev_active r"
  shows "identity_free f (resolveEvidenceRow (ev_id r) i m n og t s)"
proof -
  have "r' = r" if "r' \<in> set (evidence s)" "fact_identity f r'" "ev_active r'" for r'
    using active_identity_unique [OF assms(1,2) that(1) assms(4) that(3)] assms(3) that(2)
    by (auto simp: ev_identity_def same_identity_def)
  then show ?thesis
    by (auto simp: identity_free_def resolveEvidenceRow_def set_update_where same_identity_def)
qed

lemma identity_free_cong: "evidence s' = evidence s \<Longrightarrow> identity_free f s' = identity_free f s"
  by (simp add: identity_free_def)

lemma snd_thenT: "snd (thenT m n s) = (case m s of (Inl e, s') \<Rightarrow> s' | (Inr a, s') \<Rightarrow> snd (n s'))"
  by (auto simp: thenT_def bindT_def split: prod.splits sum.splits)

lemma inv_thenT:
  assumes "P (snd (m s))" and "\<And>a s'. m s = (Inr a, s') \<Longrightarrow> P (snd (n s'))"
  shows "P (snd (thenT m n s))"
  using assms by (auto simp: snd_thenT split: prod.splits sum.splits)

lemma inv_applyEvidenceFact:
  assumes inv: "cycle_inv s"
  shows "cycle_inv (snd (applyEvidenceFact f t s))"
proof (cases "fact_complete f \<and> validSeverity (fa_Severity f)")
  case ok: True
  show ?thesis
  proof (cases "existing_evidence f s")
    case None
    with ok inv show ?thesis
      by (simp add: applyEvidenceFact_def inv_open_evidence existing_evidence_None)
  next
    case (Some p)
    obtain r k where p: "p = (r, k)" by (cases p)
    note r = existing_evidence_Some [OF Some [unfolded p]]
    define s1 where "s1 = resolveEvidenceRow (ev_id r) (ev_incident_id r) (ev_impact_id r) (fa_Name f) (fa_Origin f) t s"
    have s1: "cycle_inv s1" "identity_free f s1"
      using inv resolve_identity_free [OF inv r] by (simp_all add: s1_def inv_resolveEvidenceRow)
    have "cycle_inv (snd (thenT (recomputeImpact m t) (thenT (recomputeIncident i t) (open_evidence f t)) s1))" for m i
    proof (intro inv_thenT [where P = cycle_inv] inv_recomputeImpact s1)
      fix a s2 assume "recomputeImpact m t s1 = (Inr a, s2)"
      with s1 inv_recomputeImpact [OF s1(1), of m t] recompute_frame(1) [of m t s1]
      have "cycle_inv s2" "evidence s2 = evidence s1" by simp_all
      moreover from this(1) show "cycle_inv (snd (recomputeIncident i t s2))" by (rule inv_recomputeIncident)
      fix a' s3 assume "recomputeIncident i t s2 = (Inr a', s3)"
      ultimately have "cycle_inv s3" "evidence s3 = evidence s1"
        using inv_recomputeIncident [of s2 i t] recompute_frame(2) [of i t s2] by simp_all
      then show "cycle_inv (snd (open_evidence f t s3))"
        using ok s1(2) by (simp add: inv_open_evidence identity_free_cong [of s3 s1])
    qed
    then show ?thesis using ok inv Some p
      by (auto simp: applyEvidenceFact_def inv_touch_evidence inv_refresh_evidence Let_def
          inv_acknowledgeFromEvidence snd_thenT execT_def s1_def)
  qed
qed (auto simp: applyEvidenceFact_def inv)

subsection \<open>The interface\<close>

text \<open>A relation between databases kept by every statement of the cycle, under what the code
  has just read: an invalidation is of an active Proof, with the reason the service lets
  through, and an acknowledgement is of an active Incident nobody has acknowledged.\<close>

locale cycle_kept =
  fixes R :: "db \<Rightarrow> db \<Rightarrow> bool"
  assumes kept_refl: "R s s"
    and kept_trans: "R s s' \<Longrightarrow> R s' s'' \<Longrightarrow> R s s''"
    and kept_fact: "R s (snd (applyEvidenceFact f t s))"
    and kept_resolve: "R s (resolveEvidenceRow v i m n og t s)"
    and kept_rearm: "R s (rearmRecoveredEvidence sn seen t s)"
    and kept_impact: "R s (snd (recomputeImpact m t s))"
    and kept_incident: "R s (snd (recomputeIncident i t s))"
    and kept_activity: "R s (appendActivity i m v k og a msg dt s)"
    and kept_rearm_native: "R s (rearm_native src t s)"
    and kept_streaks: "R s (persist_streaks src streaks s)"
    and kept_invalidate: "find (\<lambda>r. ev_id r = v \<and> ev_incident_id r = i \<and> ev_active r) (evidence s) = Some r \<Longrightarrow>
      8 \<le> rune_count reason \<Longrightarrow> rune_count reason \<le> 500 \<Longrightarrow> R s (invalidate_row v a reason s)"
    and kept_acknowledge: "incident_by_id s i = Some inc \<Longrightarrow> in_acknowledged_at inc = None \<Longrightarrow>
      in_status inc \<noteq> Resolved \<Longrightarrow> R s (acknowledge_incident i a st s)"
    and kept_queue: "R s (queue_acknowledgements i s)"
    and kept_complete: "R s (complete_row i res s)"
    and kept_recompute_ack: "R s (recomputeAcknowledgement i s)"
begin

lemma kept_return: "R s (snd (returnT a s))"
  by (simp add: returnT_def kept_refl)

lemma kept_exec: "R s (f s) \<Longrightarrow> R s (snd (execT f s))"
  by (simp add: execT_def)

lemma kept_bind:
  assumes "\<And>s. R s (snd (m s))" and "\<And>a s. R s (snd (n a s))"
  shows "R s (snd (bindT m n s))"
  using assms(1) [of s] assms(2)
  by (auto simp: bindT_def split: prod.splits sum.splits intro: kept_trans)

lemma kept_then: "(\<And>s. R s (snd (m s))) \<Longrightarrow> (\<And>s. R s (snd (n s))) \<Longrightarrow> R s (snd (thenT m n s))"
  unfolding thenT_def by (rule kept_bind)

lemma kept_for: "(\<And>x s. R s (snd (f x s))) \<Longrightarrow> R s (snd (forT xs f s))"
proof (induction xs arbitrary: s)
  case (Cons x xs)
  then show ?case by (auto intro: kept_then)
qed (simp add: kept_return)

lemma kept_commit: "R s (snd (m s)) \<Longrightarrow> R s (snd (commit_or_rollback m s))"
  by (auto simp: commit_or_rollback_def kept_refl split: prod.splits sum.splits)

lemma kept_fold: "(\<And>x s. R s (f x s)) \<Longrightarrow> R s (fold f xs s)"
proof (induction xs arbitrary: s)
  case (Cons x xs)
  then show ?case by (auto intro: kept_trans)
qed (simp add: kept_refl)

lemma kept_recompute_all: "R s (snd (recompute_all ms is t s))"
  unfolding recompute_all_def by (intro kept_then kept_for kept_impact kept_incident)

lemma kept_advanceDue: "R s (snd (advanceDueIncidents t s))"
  unfolding advanceDueIncidents_def
  by (intro kept_bind kept_for kept_incident) (simp add: getT_def kept_refl)

lemma kept_apply_fact: "R s (snd (apply_fact t f p s))"
  using kept_fact [of s f t] kept_refl [of s]
  by (auto simp: apply_fact_def Let_def split: prod.splits sum.splits option.splits)

lemma kept_apply_facts: "R s (snd (apply_facts t fs p s))"
proof (induction fs arbitrary: p s)
  case (Cons f fs)
  then show ?case by (auto intro: kept_bind kept_apply_fact)
qed (simp add: kept_return)

lemma kept_resolve_absent: "R s (snd (resolve_absent og t rs p s))"
proof (induction rs arbitrary: p s)
  case (Cons r rs)
  then show ?case by (simp, meson kept_trans kept_resolve)
qed (simp add: kept_refl)

lemma kept_snapshot_tail: "R s (snd (snapshot_tail sn t p s))"
proof -
  obtain p1 s1 where absent: "resolve_absent (sn_Origin sn) t (activeEvidenceForSnapshot sn s) p s = (p1, s1)"
    by (cases "resolve_absent (sn_Origin sn) t (activeEvidenceForSnapshot sn s) p s")
  then have "R s s1" using kept_resolve_absent [of s "sn_Origin sn" t] by (metis snd_conv)
  then have "R s (rearmRecoveredEvidence sn (pr_seen p1) t s1)" by (rule kept_trans) (rule kept_rearm)
  then show ?thesis unfolding snapshot_tail_def Let_def absent split_conv
    by (rule kept_trans) (intro kept_then kept_recompute_all kept_advanceDue)
qed

lemma kept_ApplyEvidenceSnapshot: "R s (snd (ApplyEvidenceSnapshot now sn s))"
  unfolding ApplyEvidenceSnapshot_def Let_def
  by (rule kept_commit) (auto intro: kept_refl kept_bind kept_apply_facts kept_snapshot_tail)

lemma kept_resolve_and_recompute: "R s (snd (resolve_and_recompute r og t s))"
  unfolding resolve_and_recompute_def
  by (intro kept_then kept_exec kept_resolve kept_impact kept_incident)

lemma kept_ResolveEvidence: "R s (snd (ResolveEvidence now og scope key t s))"
  unfolding ResolveEvidence_def
  by (rule kept_commit) (auto simp: kept_refl kept_resolve_and_recompute split: option.split)

lemma kept_close_owned: "R s (close_owned msg now rs s)"
  unfolding close_owned_def by (rule kept_fold) (meson kept_trans kept_resolve kept_activity)

lemma kept_ResolveForArchivedTarget: "R s (snd (ResolveForArchivedTarget now target s))"
  unfolding ResolveForArchivedTarget_def Let_def
  by (intro kept_then kept_exec kept_close_owned kept_recompute_all)

lemma kept_incident_status: "R s (snd (incident_status i s))"
  by (simp add: incident_status_def kept_refl split: option.split)

lemma kept_recompute_counting: "R s (snd (recompute_counting is now n s))"
proof (induction "is" arbitrary: n s)
  case (Cons i "is")
  show ?case unfolding recompute_counting.simps
    by (intro kept_bind kept_then kept_incident_status kept_incident Cons.IH)
qed (simp add: kept_return)

lemma kept_resolveOwned: "R s (snd (resolveOwnedEvidenceCount now owned msg s))"
  unfolding resolveOwnedEvidenceCount_def Let_def
  by (intro kept_then kept_exec kept_close_owned kept_for kept_impact kept_recompute_counting)

lemma kept_ResolveForSourceRemoval: "R s (snd (ResolveForSourceRemoval now src s))"
  unfolding ResolveForSourceRemoval_def by (intro kept_then kept_resolveOwned kept_return)

lemma kept_ResolveForConnectorRemoval: "R s (snd (ResolveForConnectorRemoval now c s))"
  unfolding ResolveForConnectorRemoval_def by (rule kept_resolveOwned)

lemma kept_Advance: "R s (snd (Advance now t s))"
  unfolding Advance_def by (intro kept_commit kept_advanceDue)

lemma kept_trigger_native: "R s (snd (trigger_native ob sev t s))"
  unfolding trigger_native_def
  by (rule kept_bind) (auto intro: kept_fact kept_return kept_then kept_impact kept_incident split: option.split)

lemma kept_recoverNative: "R s (snd (recoverNativeEvidence ob t s))"
  by (auto simp: recoverNativeEvidence_def kept_resolve_and_recompute split: option.split
      intro!: kept_then kept_exec kept_rearm_native kept_advanceDue)

lemma kept_ApplyNativeObservation: "R s (snd (ApplyNativeObservation now ob s))"
  by (auto simp: ApplyNativeObservation_def Let_def kept_refl split: option.split
      intro!: kept_then kept_exec kept_streaks kept_trigger_native kept_recoverNative kept_advanceDue)

lemma kept_store_InvalidateEvidence:
  assumes "8 \<le> rune_count reason" and "rune_count reason \<le> 500"
  shows "R s (snd (store_InvalidateEvidence now1 now2 i v a an reason s))"
  unfolding store_InvalidateEvidence_def
proof (rule kept_commit, split option.split, intro conjI impI allI)
  fix r assume "find (\<lambda>r. ev_id r = v \<and> ev_incident_id r = i \<and> ev_active r) (evidence s) = Some r"
  then have "R s (invalidate_row v a reason s)" using assms by (rule kept_invalidate)
  moreover have "R s' (snd (thenT (execT (appendActivity i (ev_impact_id r) v ''invalidated'' ''user'' a (ev_name r) dt))
      (thenT (recomputeImpact (ev_impact_id r) now1) (recomputeIncident i now2)) s'))" for s' dt
    by (intro kept_then kept_exec kept_activity kept_impact kept_incident)
  ultimately show "R s (snd (thenT (execT (invalidate_row v a reason))
      (thenT (execT (appendActivity i (ev_impact_id r) v ''invalidated'' ''user'' a (ev_name r)
        [(''reason'', JString reason), (''actor_name'', JString an), (''origin'', JString (ev_origin r))]))
      (thenT (recomputeImpact (ev_impact_id r) now1) (recomputeIncident i now2))) s))"
    unfolding snd_thenT [of "execT (invalidate_row v a reason)"] by (simp add: execT_def kept_trans)
qed (simp add: kept_refl)

lemma kept_InvalidateEvidence: "R s (snd (InvalidateEvidence now1 now2 i v a an reason s))"
  by (simp add: InvalidateEvidence_def Let_def failT_def kept_refl kept_store_InvalidateEvidence)

lemma kept_AcknowledgeLocal: "R s (snd (AcknowledgeLocal i a an s))"
proof -
  have "R s (queue_acknowledgements i (appendActivity i '''' '''' ''acknowledged'' ''user'' a msg dt
      (acknowledge_incident i a st s)))"
    if "incident_by_id s i = Some inc" "in_acknowledged_at inc = None" "in_status inc \<noteq> Resolved" for inc msg dt st
    by (meson that kept_trans kept_acknowledge kept_activity kept_queue)
  then show ?thesis unfolding AcknowledgeLocal_def Let_def
    by (intro kept_commit) (auto simp: kept_refl split: option.split)
qed

lemma kept_CompleteAcknowledgement: "R s (snd (CompleteAcknowledgement i results s))"
  unfolding CompleteAcknowledgement_def
  by (intro kept_commit kept_exec) (rule kept_trans [OF kept_fold kept_recompute_ack], rule kept_complete)

lemma kept_Acknowledge: "R s (snd (Acknowledge up i a an s))"
  unfolding Acknowledge_def
  by (rule kept_bind) (auto intro: kept_AcknowledgeLocal kept_return kept_CompleteAcknowledgement)

lemma kept_synchronize_pending: "R s (synchronize_pending up items s)"
proof (induction items arbitrary: s)
  case (Cons item items)
  then show ?case by (cases item) (auto intro: kept_trans kept_Acknowledge)
qed (simp add: kept_refl)

lemma kept_Process: "R s (snd (Process now names service s))"
  unfolding Process_def
  by (rule kept_then)
    (auto intro!: kept_Advance kept_return kept_bind kept_exec kept_synchronize_pending
      simp: getT_def kept_refl split: option.split)

lemma kept_ApplyWebhook: "R s (snd (ApplyWebhook now signal s))"
  by (auto simp: ApplyWebhook_def Let_def failT_def kept_refl kept_ApplyEvidenceSnapshot kept_ResolveEvidence)

end

interpretation inv: cycle_kept "\<lambda>s s'. cycle_inv s \<longrightarrow> cycle_inv s'"
  by unfold_locales
    (auto intro: inv_applyEvidenceFact inv_resolveEvidenceRow inv_rearmRecoveredEvidence
      inv_recomputeImpact inv_recomputeIncident inv_rearm_native inv_persist_streaks
      inv_invalidate_row inv_acknowledge_incident inv_queue_acknowledgements inv_complete_row
      inv_recomputeAcknowledgement)

end
