(* ===== verification/Incident_Sync.thy ===== *)
theory Incident_Sync
  imports Incident_Invariant
begin

text \<open>
  The rows agree with what they are derived from: an Impact is active exactly when a standing
  Proof supports it, with the worst severity among them, and an Incident carries the counts,
  the severity and the status its Impacts give it. The operations break that agreement while
  they work, on Impacts and Incidents they remember; the lemmas below follow those two sets
  until the recomputations have emptied them.
\<close>

subsection \<open>Agreement\<close>

definition standing_severities :: "db \<Rightarrow> uuid \<Rightarrow> severity list" where
  "standing_severities s m = map ev_severity (impact_evidence s m)"

definition active_severities :: "db \<Rightarrow> uuid \<Rightarrow> severity list" where
  "active_severities s i = map im_effective_severity (active_impacts s i)"

definition impact_synced :: "db \<Rightarrow> impact_row \<Rightarrow> bool" where
  "impact_synced s m \<longleftrightarrow>
     (case first_max severity_rank (standing_severities s (im_id m)) of
        None \<Rightarrow> im_status m = Resolved
      | Some sev \<Rightarrow> im_status m = Active \<and> im_effective_severity m = sev)"

definition incident_synced :: "db \<Rightarrow> incident_row \<Rightarrow> bool" where
  "incident_synced s r \<longleftrightarrow>
     in_active_impact_count r = int (length (active_severities s (in_id r))) \<and>
     in_impact_count r = int (length (incident_impacts s (in_id r))) \<and>
     (in_status r = Resolved \<longleftrightarrow> in_propagation_status r = Closed \<and> active_severities s (in_id r) = []) \<and>
     (case first_max severity_rank (active_severities s (in_id r)) of
        None \<Rightarrow> True | Some sev \<Rightarrow> in_severity r = sev)"

text \<open>Agreement outside the Impacts \<open>A\<close> and the Incidents \<open>B\<close>; and every Impact of \<open>A\<close> is of an
  Incident of \<open>B\<close>.\<close>

definition clean :: "db \<Rightarrow> uuid set \<Rightarrow> uuid set \<Rightarrow> bool" where
  "clean s A B \<longleftrightarrow> (\<forall>m \<in> set (impacts s). im_id m \<notin> A \<longrightarrow> impact_synced s m) \<and>
     (\<forall>r \<in> set (incidents s). in_id r \<notin> B \<longrightarrow> incident_synced s r)"

definition covers :: "db \<Rightarrow> uuid set \<Rightarrow> uuid set \<Rightarrow> bool" where
  "covers s A B \<longleftrightarrow> (\<forall>m \<in> set (impacts s). im_id m \<in> A \<longrightarrow> im_incident_id m \<in> B)"

abbreviation synced :: "db \<Rightarrow> bool" where "synced s \<equiv> clean s {} {}"

lemma clean_mono: "clean s A B \<Longrightarrow> A \<subseteq> A' \<Longrightarrow> B \<subseteq> B' \<Longrightarrow> clean s A' B'"
  by (auto simp: clean_def)

subsection \<open>What agreement depends on\<close>

definition im_sync :: "impact_row \<Rightarrow> uuid \<times> uuid \<times> row_status \<times> severity" where
  "im_sync m = (im_id m, im_incident_id m, im_status m, im_effective_severity m)"

definition in_sync :: "incident_row \<Rightarrow> uuid \<times> row_status \<times> propagation \<times> severity \<times> int \<times> int" where
  "in_sync r = (in_id r, in_status r, in_propagation_status r, in_severity r,
     in_active_impact_count r, in_impact_count r)"

text \<open>A change to the Impact \<open>m\<close> of the Incident \<open>i\<close>, to their Proofs and rows.\<close>

definition local_change :: "uuid \<Rightarrow> uuid \<Rightarrow> db \<Rightarrow> db \<Rightarrow> bool" where
  "local_change m i s s' \<longleftrightarrow>
     map im_sync (filter (\<lambda>r. im_id r \<noteq> m) (impacts s')) = map im_sync (filter (\<lambda>r. im_id r \<noteq> m) (impacts s)) \<and>
     (\<forall>r \<in> set (impacts s) \<union> set (impacts s'). im_id r = m \<longrightarrow> im_incident_id r = i) \<and>
     map in_sync (filter (\<lambda>r. in_id r \<noteq> i) (incidents s')) = map in_sync (filter (\<lambda>r. in_id r \<noteq> i) (incidents s)) \<and>
     (\<forall>m'. m' \<noteq> m \<longrightarrow> standing_severities s' m' = standing_severities s m')"

lemma local_change_trans: "local_change m i s s' \<Longrightarrow> local_change m i s' s'' \<Longrightarrow> local_change m i s s''"
  by (auto simp: local_change_def)

lemma map_filter_cong:
  assumes "map k xs = map k ys" and "\<And>x y. k x = k y \<Longrightarrow> P x = P y"
  shows "map k (filter P xs) = map k (filter P ys)"
  using assms(1)
proof (induction xs arbitrary: ys)
  case (Cons x xs)
  then obtain y ys' where y: "ys = y # ys'" "k x = k y" "map k xs = map k ys'" by (cases ys) auto
  then show ?case using Cons.IH [OF y(3)] assms(2) [OF y(2)] by simp
qed simp

lemma map_via:
  assumes "map k xs = map k ys" and "\<And>x y. k x = k y \<Longrightarrow> g x = g y"
  shows "map g xs = map g ys"
  using assms(1)
proof (induction xs arbitrary: ys)
  case (Cons x xs)
  then obtain y ys' where y: "ys = y # ys'" "k x = k y" "map k xs = map k ys'" by (cases ys) auto
  then show ?case using Cons.IH [OF y(3)] assms(2) [OF y(2)] by simp
qed simp

lemma impact_synced_cong:
  assumes "im_sync r0 = im_sync r" and "standing_severities s' (im_id r) = standing_severities s (im_id r)"
    and "impact_synced s r0"
  shows "impact_synced s' r"
  using assms unfolding impact_synced_def im_sync_def
  by (cases "first_max severity_rank (standing_severities s (im_id r))") auto

lemma incident_synced_cong:
  assumes "in_sync r0 = in_sync r" and "active_severities s' (in_id r) = active_severities s (in_id r)"
    and "length (incident_impacts s' (in_id r)) = length (incident_impacts s (in_id r))" and "incident_synced s r0"
  shows "incident_synced s' r"
  using assms unfolding incident_synced_def in_sync_def
  by (cases "first_max severity_rank (active_severities s (in_id r))") auto

lemma incident_impacts_local:
  assumes "local_change m i s s'" and "i' \<noteq> i"
  shows "map im_sync (incident_impacts s' i') = map im_sync (incident_impacts s i')"
proof -
  have "incident_impacts x i' = filter (\<lambda>r. im_incident_id r = i') (filter (\<lambda>r. im_id r \<noteq> m) (impacts x))"
    if "x = s \<or> x = s'" for x
    unfolding incident_impacts_def filter_filter using assms that
    by (intro filter_cong refl) (auto simp: local_change_def)
  moreover have "map im_sync (filter (\<lambda>r. im_incident_id r = i') (filter (\<lambda>r. im_id r \<noteq> m) (impacts s'))) =
      map im_sync (filter (\<lambda>r. im_incident_id r = i') (filter (\<lambda>r. im_id r \<noteq> m) (impacts s)))"
    by (rule map_filter_cong) (use assms(1) in \<open>auto simp: local_change_def im_sync_def\<close>)
  ultimately show ?thesis by simp
qed

lemma active_severities_local:
  assumes "local_change m i s s'" and "i' \<noteq> i"
  shows "active_severities s' i' = active_severities s i'"
proof -
  have "map im_sync (active_impacts s' i') = map im_sync (active_impacts s i')"
    unfolding active_impacts_def
    using incident_impacts_local [OF assms] by (rule map_filter_cong) (simp add: im_sync_def)
  then show ?thesis unfolding active_severities_def by (rule map_via) (simp add: im_sync_def)
qed

lemma same_image:
  assumes "map k xs = map k ys" and "x \<in> set xs"
  obtains y where "y \<in> set ys" and "k y = k x"
proof -
  have "k x \<in> set (map k xs)" using assms(2) by simp
  then have "k x \<in> k ` set ys" unfolding assms(1) by simp
  then show ?thesis using that by auto
qed

lemma local_impact_row:
  assumes "local_change m i s s'" and "r \<in> set (impacts s')" and "im_id r \<noteq> m"
  obtains r0 where "r0 \<in> set (impacts s)" and "im_sync r0 = im_sync r"
proof -
  have eq: "map im_sync (filter (\<lambda>r. im_id r \<noteq> m) (impacts s')) = map im_sync (filter (\<lambda>r. im_id r \<noteq> m) (impacts s))"
    and r: "r \<in> set (filter (\<lambda>r. im_id r \<noteq> m) (impacts s'))" using assms by (simp_all add: local_change_def)
  show ?thesis using same_image [OF eq r] that by auto
qed

lemma local_incident_row:
  assumes "local_change m i s s'" and "r \<in> set (incidents s')" and "in_id r \<noteq> i"
  obtains r0 where "r0 \<in> set (incidents s)" and "in_sync r0 = in_sync r"
proof -
  have eq: "map in_sync (filter (\<lambda>r. in_id r \<noteq> i) (incidents s')) = map in_sync (filter (\<lambda>r. in_id r \<noteq> i) (incidents s))"
    and r: "r \<in> set (filter (\<lambda>r. in_id r \<noteq> i) (incidents s'))" using assms by (simp_all add: local_change_def)
  show ?thesis using same_image [OF eq r] that by auto
qed

lemma clean_local:
  assumes "clean s A B" and change: "local_change m i s s'"
  shows "clean s' (insert m A) (insert i B)"
  unfolding clean_def
proof (intro conjI ballI impI)
  fix r assume r: "r \<in> set (impacts s')" "im_id r \<notin> insert m A"
  from r obtain r0 where r0: "r0 \<in> set (impacts s)" "im_sync r0 = im_sync r"
    using local_impact_row [OF change r(1)] by blast
  show "impact_synced s' r"
  proof (rule impact_synced_cong [OF r0(2)])
    show "impact_synced s r0" using assms(1) r0 r(2) by (simp add: clean_def im_sync_def)
    show "standing_severities s' (im_id r) = standing_severities s (im_id r)"
      using change r(2) by (simp add: local_change_def)
  qed
next
  fix r assume r: "r \<in> set (incidents s')" "in_id r \<notin> insert i B"
  from r obtain r0 where r0: "r0 \<in> set (incidents s)" "in_sync r0 = in_sync r"
    using local_incident_row [OF change r(1)] by blast
  have ne: "in_id r \<noteq> i" using r(2) by simp
  show "incident_synced s' r"
  proof (rule incident_synced_cong [OF r0(2) active_severities_local [OF change ne]])
    show "length (incident_impacts s' (in_id r)) = length (incident_impacts s (in_id r))"
      using incident_impacts_local [OF change ne] by (metis length_map)
    show "incident_synced s r0" using assms(1) r0 r(2) by (simp add: clean_def in_sync_def)
  qed
qed

lemma covers_local:
  assumes "covers s A B" and "local_change m i s s'"
  shows "covers s' (insert m A) (insert i B)"
  unfolding covers_def
proof (intro ballI impI)
  fix r assume r: "r \<in> set (impacts s')" "im_id r \<in> insert m A"
  show "im_incident_id r \<in> insert i B"
  proof (cases "im_id r = m")
    case True
    with r(1) assms(2) show ?thesis by (simp add: local_change_def)
  next
    case False
    then obtain r0 where "r0 \<in> set (impacts s)" "im_sync r0 = im_sync r"
      using local_impact_row [OF assms(2) r(1)] by blast
    with False r(2) assms(1) show ?thesis by (auto simp: covers_def im_sync_def)
  qed
qed

text \<open>A change that agreement does not see.\<close>

definition invisible :: "db \<Rightarrow> db \<Rightarrow> bool" where
  "invisible s s' \<longleftrightarrow> map im_sync (impacts s') = map im_sync (impacts s) \<and>
     map in_sync (incidents s') = map in_sync (incidents s) \<and> standing_severities s' = standing_severities s"

lemma invisible_refl [simp]: "invisible s s" by (simp add: invisible_def)

lemma invisible_trans: "invisible s s' \<Longrightarrow> invisible s' s'' \<Longrightarrow> invisible s s''"
  by (simp add: invisible_def)

lemma invisible_rows:
  assumes "invisible s s'"
  shows "r \<in> set (impacts s') \<Longrightarrow> \<exists>r0 \<in> set (impacts s). im_sync r0 = im_sync r"
    and "q \<in> set (incidents s') \<Longrightarrow> \<exists>q0 \<in> set (incidents s). in_sync q0 = in_sync q"
  using assms unfolding invisible_def by (metis same_image)+

lemma invisible_local:
  assumes "invisible s s'" and "\<And>r. r \<in> set (impacts s) \<Longrightarrow> im_id r = m \<Longrightarrow> im_incident_id r = i"
  shows "local_change m i s s'"
proof -
  have "im_incident_id r = i" if "r \<in> set (impacts s')" "im_id r = m" for r
    using invisible_rows(1) [OF assms(1) that(1)] assms(2) that(2) by (auto simp: im_sync_def)
  moreover have "map im_sync (filter (\<lambda>r. im_id r \<noteq> m) (impacts s')) = map im_sync (filter (\<lambda>r. im_id r \<noteq> m) (impacts s))"
    by (rule map_filter_cong) (use assms(1) in \<open>simp_all add: invisible_def im_sync_def\<close>)
  moreover have "map in_sync (filter (\<lambda>r. in_id r \<noteq> i) (incidents s')) = map in_sync (filter (\<lambda>r. in_id r \<noteq> i) (incidents s))"
    by (rule map_filter_cong) (use assms(1) in \<open>simp_all add: invisible_def in_sync_def\<close>)
  moreover have "standing_severities s' = standing_severities s" using assms(1) by (simp add: invisible_def)
  ultimately show ?thesis
    using assms(2) unfolding local_change_def by auto
qed

lemma clean_invisible:
  assumes inv: "invisible s s'" and "clean s A B"
  shows "clean s' A B"
proof -
  have imp: "map im_sync (incident_impacts s' i) = map im_sync (incident_impacts s i)" for i
    unfolding incident_impacts_def
    by (rule map_filter_cong) (use inv in \<open>simp_all add: invisible_def im_sync_def\<close>)
  then have "map im_sync (active_impacts s' i) = map im_sync (active_impacts s i)" for i
    unfolding active_impacts_def by (rule map_filter_cong) (simp add: im_sync_def)
  then have act: "active_severities s' i = active_severities s i" for i
    unfolding active_severities_def by (rule map_via) (simp add: im_sync_def)
  from imp have len: "length (incident_impacts s' i) = length (incident_impacts s i)" for i by (metis length_map)
  show ?thesis unfolding clean_def
  proof (intro conjI ballI impI)
    fix r assume r: "r \<in> set (impacts s')" "im_id r \<notin> A"
    obtain r0 where r0: "r0 \<in> set (impacts s)" "im_sync r0 = im_sync r"
      using invisible_rows(1) [OF inv r(1)] by blast
    then have "impact_synced s r0" using assms(2) r(2) by (simp add: clean_def im_sync_def)
    moreover have "standing_severities s' (im_id r) = standing_severities s (im_id r)" using inv by (simp add: invisible_def)
    ultimately show "impact_synced s' r" by (rule impact_synced_cong [OF r0(2), rotated])
  next
    fix r assume r: "r \<in> set (incidents s')" "in_id r \<notin> B"
    obtain r0 where r0: "r0 \<in> set (incidents s)" "in_sync r0 = in_sync r"
      using invisible_rows(2) [OF inv r(1)] by blast
    then have "incident_synced s r0" using assms(2) r(2) by (simp add: clean_def in_sync_def)
    then show "incident_synced s' r" by (rule incident_synced_cong [OF r0(2) act len])
  qed
qed

lemma covers_ref:
  assumes "map im_ref (impacts s') = map im_ref (impacts s)" and "covers s A B"
  shows "covers s' A B"
  unfolding covers_def
proof (intro ballI impI)
  fix r assume "r \<in> set (impacts s')" and A: "im_id r \<in> A"
  then obtain r0 where "r0 \<in> set (impacts s)" "im_ref r0 = im_ref r" using same_image [OF assms(1)] by blast
  then show "im_incident_id r \<in> B" using assms(2) A by (auto simp: covers_def im_ref_def)
qed

lemma covers_invisible: "invisible s s' \<Longrightarrow> covers s A B \<Longrightarrow> covers s' A B"
  unfolding covers_def using invisible_rows(1) by (metis im_sync_def prod.inject)

subsection \<open>Statements agreement does not see\<close>

lemma invisible_cong:
  "impacts s' = impacts s \<Longrightarrow> incidents s' = incidents s \<Longrightarrow> evidence s' = evidence s \<Longrightarrow> invisible s s'"
  by (simp add: invisible_def standing_severities_def impact_evidence_def fun_eq_iff)

lemma invisible_incidents:
  "(\<And>r. P r \<Longrightarrow> in_sync (g r) = in_sync r) \<Longrightarrow> invisible s (s\<lparr>incidents := update_where P g (incidents s)\<rparr>)"
  by (simp add: invisible_def map_update_where standing_severities_def impact_evidence_def fun_eq_iff)

definition ev_sync :: "evidence_row \<Rightarrow> uuid \<times> bool \<times> severity" where
  "ev_sync r = (ev_impact_id r, standing r, ev_severity r)"

lemma standing_severities_via:
  assumes "map ev_sync (evidence s') = map ev_sync (evidence s)"
  shows "standing_severities s' = standing_severities s"
proof
  fix m
  have "map ev_sync (impact_evidence s' m) = map ev_sync (impact_evidence s m)"
    unfolding impact_evidence_def using assms by (rule map_filter_cong) (auto simp: ev_sync_def)
  then show "standing_severities s' m = standing_severities s m"
    unfolding standing_severities_def by (rule map_via) (simp add: ev_sync_def)
qed

lemma invisible_evidence:
  assumes "\<And>r. r \<in> set (evidence s) \<Longrightarrow> P r \<Longrightarrow> ev_sync (g r) = ev_sync r"
  shows "invisible s (s\<lparr>evidence := update_where P g (evidence s)\<rparr>)"
  using standing_severities_via [of "s\<lparr>evidence := update_where P g (evidence s)\<rparr>" s] assms
  by (simp add: invisible_def map_update_where)

lemma invisible_activity [simp]: "invisible s (appendActivity i m v k og a msg dt s)"
  by (rule invisible_cong) (simp_all add: appendActivity_def)

lemma invisible_recomputeAcknowledgement [simp]: "invisible s (recomputeAcknowledgement i s)"
  unfolding recomputeAcknowledgement_def Let_def split_beta
  by (rule invisible_incidents) (simp add: in_sync_def)

lemma invisible_refreshIncidentPresentation [simp]: "invisible s (refreshIncidentPresentation i b s)"
  unfolding refreshIncidentPresentation_def Let_def by (rule invisible_incidents) (simp add: in_sync_def)

lemma invisible_acknowledgeFromEvidence: "invisible s (acknowledgeFromEvidence i v t s)"
proof -
  let ?s1 = "acknowledge_upstream i v t s"
  have "invisible s ?s1"
    unfolding acknowledge_upstream_def Let_def by (rule invisible_incidents) (simp add: in_sync_def)
  moreover have "invisible ?s1 (inherit_upstream i v t ?s1)"
    unfolding inherit_upstream_def by (rule invisible_evidence) (simp add: ev_sync_def standing_def Let_def)
  ultimately have "invisible s (inherit_upstream i v t ?s1)" by (rule invisible_trans)
  then show ?thesis
    unfolding acknowledgeFromEvidence_def
    by (auto intro: invisible_trans [OF _ invisible_recomputeAcknowledgement] invisible_trans [OF _ invisible_activity])
qed

lemma invisible_inherit_acknowledgement: "invisible s (inherit_acknowledgement i v s)"
proof -
  have "invisible s (queue_inherited v s)"
    unfolding queue_inherited_def by (rule invisible_evidence) (simp add: ev_sync_def standing_def)
  moreover have "invisible (queue_inherited v s) (queue_incident i (queue_inherited v s))"
    unfolding queue_incident_def by (rule invisible_incidents) (simp add: in_sync_def)
  ultimately show ?thesis by (auto simp: inherit_acknowledgement_def intro: invisible_trans)
qed

lemma invisible_touch_evidence: "invisible s (touch_evidence v t s)"
  unfolding touch_evidence_def by (rule invisible_evidence) (simp add: ev_sync_def standing_def)

lemma invisible_rearmRecoveredEvidence: "invisible s (rearmRecoveredEvidence sn seen t s)"
proof -
  have "invisible s (fold (\<lambda>r. rearm_row (ev_id r) t) cs s)" for cs
  proof (induction cs arbitrary: s)
    case (Cons c cs)
    have "invisible s (rearm_row (ev_id c) t s)"
      unfolding rearm_row_def by (rule invisible_evidence) (simp add: ev_sync_def standing_def)
    then show ?case using Cons.IH by (auto intro: invisible_trans)
  qed simp
  then show ?thesis by (simp add: rearmRecoveredEvidence_def)
qed

lemma invisible_rearm_native: "invisible s (rearm_native src t s)"
  unfolding rearm_native_def by (rule invisible_evidence) (simp add: ev_sync_def standing_def)

lemma invisible_persist_streaks: "invisible s (persist_streaks src k s)"
  by (rule invisible_cong) (simp_all add: persist_streaks_def)

lemma invisible_extendPropagation: "invisible s (extendPropagation i t w s)"
  unfolding extendPropagation_def by (rule invisible_incidents) (simp add: in_sync_def Let_def)

lemma invisible_acknowledge_incident: "invisible s (acknowledge_incident i a st s)"
  unfolding acknowledge_incident_def by (rule invisible_incidents) (simp add: in_sync_def)

lemma invisible_queue_acknowledgements: "invisible s (queue_acknowledgements i s)"
  unfolding queue_acknowledgements_def by (rule invisible_evidence) (simp add: ev_sync_def standing_def Let_def)

lemma invisible_complete_row: "invisible s (complete_row i res s)"
proof -
  have "invisible s (record_result i res s)"
    unfolding record_result_def Let_def by (rule invisible_evidence) (simp add: ev_sync_def standing_def)
  then show ?thesis unfolding complete_row_def by (auto intro: invisible_trans [OF _ invisible_activity])
qed

subsection \<open>Statements on one Impact\<close>

lemma local_activity:
  assumes "local_change m i s s'"
  shows "local_change m i s (appendActivity i' m' v k og a msg dt s')"
  using assms by (rule local_change_trans) (rule invisible_local, use assms in \<open>auto simp: local_change_def\<close>)

lemma local_evidence:
  assumes "\<And>r. r \<in> set (evidence s) \<Longrightarrow> P r \<Longrightarrow> ev_impact_id r = m \<and> ev_impact_id (g r) = m"
    and "\<And>r. r \<in> set (impacts s) \<Longrightarrow> im_id r = m \<Longrightarrow> im_incident_id r = i"
  shows "local_change m i s (s\<lparr>evidence := update_where P g (evidence s)\<rparr>)"
proof -
  have "filter (\<lambda>r. ev_impact_id r = m' \<and> standing r) (update_where P g rows) =
      filter (\<lambda>r. ev_impact_id r = m' \<and> standing r) rows"
    if "m' \<noteq> m" "\<And>r. r \<in> set rows \<Longrightarrow> P r \<Longrightarrow> ev_impact_id r = m \<and> ev_impact_id (g r) = m" for m' rows
    using that by (induction rows) auto
  then show ?thesis
    using assms by (auto simp: local_change_def standing_severities_def impact_evidence_def)
qed

lemma filter_other: "filter (\<lambda>r. k r \<noteq> x) (update_where (\<lambda>r. k r = x) g rows) = filter (\<lambda>r. k r \<noteq> x) rows"
  if "\<And>r. k (g r) = k r"
  using that by (induction rows) auto

lemma local_impacts:
  assumes "\<And>r. im_id (g r) = im_id r \<and> im_incident_id (g r) = im_incident_id r"
    and "\<And>r. r \<in> set (impacts s) \<Longrightarrow> im_id r = m \<Longrightarrow> im_incident_id r = i"
  shows "local_change m i s (s\<lparr>impacts := update_where (\<lambda>r. im_id r = m) g (impacts s)\<rparr>)"
  using assms
  by (auto simp: local_change_def standing_severities_def impact_evidence_def filter_other set_update_where)

lemma local_incidents:
  assumes "\<And>r. in_id (g r) = in_id r"
    and "\<And>r. r \<in> set (impacts s) \<Longrightarrow> im_id r = m \<Longrightarrow> im_incident_id r = i"
  shows "local_change m i s (s\<lparr>incidents := update_where (\<lambda>r. in_id r = i) g (incidents s)\<rparr>)"
  using assms
  by (auto simp: local_change_def standing_severities_def impact_evidence_def filter_other set_update_where)

lemma impact_incident_unique:
  assumes "cycle_inv s" and "(m, i, t) \<in> im_ref ` set (impacts s)" and "r \<in> set (impacts s)" and "im_id r = m"
  shows "im_incident_id r = i"
  using assms cycle_invD(2) [OF assms(1)] by (auto simp: im_ref_def distinct_map inj_on_def)

lemma evidence_impact_incident:
  assumes "cycle_inv s" and "e \<in> set (evidence s)" and "r \<in> set (impacts s)" and "im_id r = ev_impact_id e"
  shows "im_incident_id r = ev_incident_id e"
proof -
  obtain m where "m \<in> set (impacts s)" "im_id m = ev_impact_id e" "im_incident_id m = ev_incident_id e"
    using cycle_invD(7) [OF assms(1,2)] by blast
  with assms show ?thesis using cycle_invD(2) [OF assms(1)] by (auto simp: distinct_map inj_on_def)
qed

lemma evidence_id_unique:
  "cycle_inv s \<Longrightarrow> e \<in> set (evidence s) \<Longrightarrow> r \<in> set (evidence s) \<Longrightarrow> ev_id r = ev_id e \<Longrightarrow> r = e"
  using cycle_invD(3) [of s] by (auto simp: distinct_map inj_on_def)

lemma local_resolveEvidenceRow:
  assumes "cycle_inv s" and "e \<in> set (evidence s)"
  shows "local_change (ev_impact_id e) (ev_incident_id e) s (resolveEvidenceRow (ev_id e) i' m' n og t s)"
proof -
  let ?s1 = "s\<lparr>evidence := update_where (\<lambda>r. ev_id r = ev_id e \<and> ev_active r)
      (\<lambda>r. r\<lparr>ev_active := False, ev_resolved_at := Some t, ev_last_seen_at := t, ev_updated_at := clock s\<rparr>) (evidence s)\<rparr>"
  have "local_change (ev_impact_id e) (ev_incident_id e) s ?s1"
    by (rule local_evidence) (auto dest: evidence_id_unique [OF assms] evidence_impact_incident [OF assms])
  moreover have "local_change (ev_impact_id e) (ev_incident_id e) ?s1
      (appendActivity i' m' (ev_id e) ''evidence_resolved'' og '''' n [] ?s1)"
    by (rule invisible_local) (auto dest: evidence_impact_incident [OF assms])
  ultimately show ?thesis unfolding resolveEvidenceRow_def by (rule local_change_trans)
qed

lemma local_refresh_evidence:
  assumes "cycle_inv s" and "e \<in> set (evidence s)"
  shows "local_change (ev_impact_id e) (ev_incident_id e) s (refresh_evidence (ev_id e) f t s)"
  unfolding refresh_evidence_def
  by (rule local_evidence)
    (auto dest: evidence_id_unique [OF assms] evidence_impact_incident [OF assms] simp: refresh_row_def Let_def)

lemma local_invalidate_row:
  assumes "cycle_inv s" and "e \<in> set (evidence s)"
  shows "local_change (ev_impact_id e) (ev_incident_id e) s (invalidate_row (ev_id e) a reason s)"
  unfolding invalidate_row_def
  by (rule local_evidence) (auto dest: evidence_id_unique [OF assms] evidence_impact_incident [OF assms])

subsection \<open>Recomputing restores agreement\<close>

lemma first_max_map: "first_max k (map g xs) = map_option g (first_max (\<lambda>x. k (g x)) xs)"
  by (induction xs) (auto split: option.splits)

lemma worst_severity: "first_max severity_rank (standing_severities s m) = map_option ev_severity (worst_evidence s m)"
  by (simp add: standing_severities_def worst_evidence_def first_max_map)

lemma local_write_impact:
  "(\<And>r. r \<in> set (impacts s) \<Longrightarrow> im_id r = m \<Longrightarrow> im_incident_id r = i) \<Longrightarrow>
    local_change m i s (write_impact m st sev rt s)"
  unfolding write_impact_def by (rule local_impacts) auto

lemma write_impact_rows:
  "r \<in> set (impacts (write_impact m st sev rt s)) \<Longrightarrow> im_id r = m \<Longrightarrow> im_status r = st \<and> im_effective_severity r = sev"
  unfolding write_impact_def by simp (erule update_whereE, simp_all)

lemma standing_severities_frame [simp]:
  "standing_severities (write_impact m st sev rt s) = standing_severities s"
  "standing_severities (appendActivity i m v k og a msg dt s) = standing_severities s"
  by (simp_all add: fun_eq_iff standing_severities_def impact_evidence_def write_impact_def appendActivity_def)

lemma recomputeImpact_local:
  assumes "cycle_inv s" and prev: "impact_by_id s m = Some prev"
  shows "local_change m (im_incident_id prev) s (snd (recomputeImpact m t s))"
proof -
  have one: "im_incident_id r = im_incident_id prev" if "r \<in> set (impacts s)" "im_id r = m" for r
    using that(2) prev impact_by_id_the [OF assms(1) that(1)] by simp
  have refl: "local_change m (im_incident_id prev) s s" by (rule invisible_local) (use one in auto)
  have w: "local_change m (im_incident_id prev) s (write_impact m st sev rt s)" for st sev rt
    by (rule local_write_impact) (rule one)
  note local_activity [OF w]
  with w refl show ?thesis using prev by (auto simp: recomputeImpact_def split: option.split)
qed

lemma recomputeImpact_synced:
  assumes "cycle_inv s" and prev: "impact_by_id s m = Some prev"
    and r: "r \<in> set (impacts (snd (recomputeImpact m t s)))" "im_id r = m"
  shows "impact_synced (snd (recomputeImpact m t s)) r"
proof -
  have same: "r' = prev" if "r' \<in> set (impacts s)" "im_id r' = m" for r'
    using prev impact_by_id_the [OF assms(1) that(1)] that(2) by simp
  show ?thesis
  proof (cases "worst_evidence s m")
    case None
    then have w: "first_max severity_rank (standing_severities s m) = None" by (simp add: worst_severity)
    show ?thesis
    proof (cases "im_status prev = Resolved")
      case True
      then have eq: "snd (recomputeImpact m t s) = s" using None prev by (simp add: recomputeImpact_def)
      then have "r = prev" using same r by simp
      then show ?thesis unfolding eq impact_synced_def r(2) w using True by simp
    next
      case False
      define s1 where "s1 = write_impact m Resolved (im_effective_severity prev) (Some t) s"
      obtain msg where eq: "snd (recomputeImpact m t s) = appendActivity (im_incident_id prev) m '''' ''impact_resolved'' ''cairnops'' '''' msg [] s1"
        using False None prev by (auto simp: recomputeImpact_def s1_def)
      then have "im_status r = Resolved" using r write_impact_rows [of r m] by (simp add: s1_def)
      moreover have "standing_severities (snd (recomputeImpact m t s)) = standing_severities s"
        unfolding eq s1_def by simp
      ultimately show ?thesis unfolding impact_synced_def r(2) by (simp add: w)
    qed
  next
    case (Some e)
    then have w: "first_max severity_rank (standing_severities s m) = Some (ev_severity e)" by (simp add: worst_severity)
    show ?thesis
    proof (cases "im_status prev = Active \<and> ev_severity e = im_effective_severity prev")
      case True
      then have eq: "snd (recomputeImpact m t s) = s" using Some prev by (simp add: recomputeImpact_def)
      then have "r = prev" using same r by simp
      then show ?thesis unfolding eq impact_synced_def r(2) w using True by simp
    next
      case False
      then have eq: "snd (recomputeImpact m t s) = write_impact m Active (ev_severity e) None s"
        using Some prev by (auto simp: recomputeImpact_def)
      then have "im_status r = Active \<and> im_effective_severity r = ev_severity e"
        using r write_impact_rows [of r m] by simp
      then show ?thesis unfolding eq impact_synced_def r(2) by (simp add: w)
    qed
  qed
qed

lemma clean_recomputeImpact:
  assumes "cycle_inv s" and "clean s A B" and "covers s A B" and "m \<in> A"
    and ok: "recomputeImpact m t s = (Inr u, s')"
  shows "clean s' (A - {m}) B"
proof -
  obtain prev where prev: "impact_by_id s m = Some prev"
    using ok by (auto simp: recomputeImpact_def split: option.splits)
  then have "im_incident_id prev \<in> B"
    using assms(3,4) impact_by_id_Some [OF prev] by (auto simp: covers_def)
  then have "clean s' (insert m A) B"
    using clean_local [OF assms(2) recomputeImpact_local [OF assms(1) prev, of t]] ok by (simp add: insert_absorb)
  moreover have "\<And>r. r \<in> set (impacts s') \<Longrightarrow> im_id r = m \<Longrightarrow> impact_synced s' r"
    using recomputeImpact_synced [OF assms(1) prev, of _ t] ok by simp
  ultimately show ?thesis by (auto simp: clean_def)
qed

lemma derived_severity:
  "dv_severity (derive_incident prev t s) =
     (case first_max severity_rank (active_severities s (in_id prev)) of None \<Rightarrow> in_severity prev | Some sev \<Rightarrow> sev)"
  by (simp add: derive_incident_def Let_def active_severities_def first_max_map split: option.split)

lemma derived_counts:
  "dv_active (derive_incident prev t s) = int (length (active_severities s (in_id prev)))"
  "dv_total (derive_incident prev t s) = int (length (incident_impacts s (in_id prev)))"
  "dv_status (derive_incident prev t s) = Resolved \<longleftrightarrow>
     dv_propagation (derive_incident prev t s) = Closed \<and> active_severities s (in_id prev) = []"
  by (simp_all add: derive_incident_def Let_def active_severities_def)

lemma derived_synced:
  assumes "impacts s' = impacts s" and "in_id r = in_id prev"
    and "in_status r = dv_status d" and "in_propagation_status r = dv_propagation d"
    and "in_severity r = dv_severity d" and "in_active_impact_count r = dv_active d"
    and "in_impact_count r = dv_total d" and "d = derive_incident prev t s"
  shows "incident_synced s' r"
proof -
  have "active_severities s' = active_severities s" "incident_impacts s' = incident_impacts s"
    using assms(1) by (simp_all add: active_severities_def active_impacts_def incident_impacts_def fun_eq_iff)
  then show ?thesis
    using assms derived_severity [of prev t s] derived_counts [of prev t s]
    by (simp add: incident_synced_def split: option.split)
qed

lemma clean_one_incident:
  assumes "clean s A B" and "impacts s' = impacts s" and "evidence s' = evidence s"
    and "map in_sync (filter (\<lambda>r. in_id r \<noteq> i) (incidents s')) = map in_sync (filter (\<lambda>r. in_id r \<noteq> i) (incidents s))"
    and "\<And>r. r \<in> set (incidents s') \<Longrightarrow> in_id r = i \<Longrightarrow> incident_synced s' r"
  shows "clean s' A (B - {i})"
proof -
  have eqs: "standing_severities s' = standing_severities s" "active_severities s' = active_severities s"
      "incident_impacts s' = incident_impacts s"
    using assms(2,3) by (simp_all add: standing_severities_def impact_evidence_def active_severities_def
        active_impacts_def incident_impacts_def fun_eq_iff)
  have "incident_synced s' r" if r: "r \<in> set (incidents s')" "in_id r \<notin> B" "in_id r \<noteq> i" for r
  proof -
    have "r \<in> set (filter (\<lambda>r. in_id r \<noteq> i) (incidents s'))" using r by simp
    from same_image [OF assms(4) this] obtain r0
      where r0: "r0 \<in> set (filter (\<lambda>r. in_id r \<noteq> i) (incidents s))" "in_sync r0 = in_sync r" by blast
    then have "incident_synced s r0" using assms(1) r(2) by (auto simp: clean_def in_sync_def)
    then show ?thesis by (rule incident_synced_cong [OF r0(2), rotated 2]) (simp_all add: eqs)
  qed
  moreover have "impact_synced s' r" if "r \<in> set (impacts s')" "im_id r \<notin> A" for r
    using assms(1,2) that eqs(1) by (simp add: clean_def impact_synced_def)
  ultimately show ?thesis using assms(5) by (auto simp: clean_def)
qed

lemma impacts_write_frame [simp]:
  "impacts (write_incident prev d t s) = impacts s"
  "impacts (journal_incident prev d s) = impacts s"
  "impacts (refreshIncidentPresentation i b s) = impacts s"
  "impacts (recomputeAcknowledgement i s) = impacts s"
  by (simp_all add: write_incident_def journal_incident_def Let_def
      refreshIncidentPresentation_def recomputeAcknowledgement_def split_beta)

lemma invisible_journal_incident [simp]: "invisible s (journal_incident prev d s)"
  by (rule invisible_cong) (simp_all add: journal_incident_def Let_def appendActivity_def)

lemma clean_recomputeIncident:
  assumes inv: "cycle_inv s" and cl: "clean s A B" and ok: "recomputeIncident i t s = (Inr u, s')"
  shows "clean s' A (B - {i})"
proof -
  obtain prev where prev: "incident_by_id s i = Some prev"
    using ok by (auto simp: recomputeIncident_def split: option.splits)
  note p = incident_by_id_Some [OF prev]
  define d where "d = derive_incident prev t s"
  define s0 where "s0 = refreshIncidentPresentation i (dv_active d = 0) s"
  define s1 where "s1 = (if incident_changed prev d then journal_incident prev d (write_incident prev d t s0) else s0)"
  have s': "s' = recomputeAcknowledgement i s1"
    using ok prev unfolding s1_def s0_def d_def by (auto simp: recomputeIncident_def Let_def)
  have rows0: "\<exists>k. r = prev\<lparr>in_alert_kind := k\<rparr>" if "r \<in> set (incidents s0)" "in_id r = i" for r
    using refreshed_row [OF inv conjunct1 [OF p], of r i "dv_active d = 0"] that p by (simp add: s0_def)
  have cl0: "clean s0 A B" using cl by (rule clean_invisible [rotated]) (simp add: s0_def)
  have "clean s1 A (B - {i})"
  proof (cases "incident_changed prev d")
    case False
    have "incident_synced s0 r" if r: "r \<in> set (incidents s0)" "in_id r = i" for r
      using rows0 [OF r] False p
      by (intro derived_synced [of s0 s r prev d t]) (auto simp: s0_def d_def incident_changed_def)
    then have "clean s0 A (B - {i})" by (intro clean_one_incident [OF cl0]) simp_all
    with False show ?thesis by (simp add: s1_def)
  next
    case True
    let ?w = "write_incident prev d t s0"
    have "incident_synced ?w r" if w: "r \<in> set (incidents ?w)" "in_id r = i" for r
    proof -
      have "r \<in> set (update_where (\<lambda>r. in_id r = in_id prev) (written_row prev d t (clock s0)) (incidents s0))"
        using w(1) by (simp add: write_incident_def)
      then obtain r0 where "r = written_row prev d t (clock s0) r0"
        using w(2) p by (cases rule: update_whereE) auto
      then show ?thesis using w(2) p
        by (intro derived_synced [of ?w s r prev d t]) (simp_all add: s0_def d_def written_row_def)
    qed
    moreover have "map in_sync (filter (\<lambda>r. in_id r \<noteq> i) (incidents ?w)) = map in_sync (filter (\<lambda>r. in_id r \<noteq> i) (incidents s0))"
      using p filter_other [of in_id "written_row prev d t (clock s0)" i "incidents s0"]
      by (simp add: write_incident_def written_row_def)
    ultimately have "clean ?w A (B - {i})"
      by (intro clean_one_incident [OF cl0]) (simp_all add: write_incident_def)
    then show ?thesis using True by (simp add: s1_def clean_invisible [OF invisible_journal_incident])
  qed
  then show ?thesis unfolding s' by (rule clean_invisible [rotated]) simp
qed

end
