(* ===== verification/Incident_Agreement.thy ===== *)
theory Incident_Agreement
  imports Incident_Sync
begin

text \<open>
  Every operation of the cycle leaves the rows in agreement with what they are derived from:
  the sets of Impacts and Incidents left to recompute are followed through a fact, a snapshot
  and the other operations.
\<close>

definition tracked :: "db \<Rightarrow> uuid set \<Rightarrow> uuid set \<Rightarrow> bool" where
  "tracked s A B \<longleftrightarrow> cycle_inv s \<and> clean s A B \<and> covers s A B"

lemma tracked_empty: "tracked s {} {} \<longleftrightarrow> cycle_inv s \<and> synced s"
  by (simp add: tracked_def covers_def)

lemma tracked_local:
  "tracked s A B \<Longrightarrow> local_change m i s s' \<Longrightarrow> cycle_inv s' \<Longrightarrow> tracked s' (insert m A) (insert i B)"
  unfolding tracked_def using clean_local covers_local by blast

lemma tracked_invisible: "tracked s A B \<Longrightarrow> invisible s s' \<Longrightarrow> cycle_inv s' \<Longrightarrow> tracked s' A B"
  unfolding tracked_def using clean_invisible covers_invisible by blast

subsection \<open>One fact\<close>

lemma ensured_incident:
  "ensures f e s0 s \<Longrightarrow> r \<in> set (impacts s) \<Longrightarrow> im_id r = en_impactID e \<Longrightarrow> im_incident_id r = en_incidentID e"
  unfolding ensures_def using impact_incident_unique by blast

lemma local_insert_impact:
  assumes "cycle_inv s"
  shows "local_change (draw_uuid s) i s (insert_impact i f s)"
proof -
  have "im_id r \<noteq> draw_uuid s" if "r \<in> set (impacts s)" for r
    using fresh_uuid(2) [OF assms] that by (metis imageI)
  then show ?thesis
    by (auto simp: local_change_def insert_impact_def standing_severities_def impact_evidence_def)
qed

lemma local_open_incident:
  assumes "cycle_inv s" and "open_incident f w t s = (e, s')"
  shows "local_change (en_impactID e) (en_incidentID e) s s'"
proof -
  have "inj (gen_random_uuid s)" and sub: "im_id ` set (impacts s) \<subseteq> gen_random_uuid s ` {..<uuids_drawn s}"
    using assms(1) by (auto simp: cycle_inv_def shape_ok_def shape_of_def im_ref_def image_subset_iff)
  then have "gen_random_uuid s (Suc (uuids_drawn s)) \<notin> gen_random_uuid s ` {..<uuids_drawn s}"
    by (auto dest: injD)
  then have "im_id r \<noteq> gen_random_uuid s (Suc (uuids_drawn s))" if "r \<in> set (impacts s)" for r
    using that sub by (metis imageI subsetD)
  moreover have "in_id r \<noteq> draw_uuid s" if "r \<in> set (incidents s)" for r
    using fresh_uuid(1) [OF assms(1)] that by (metis imageI)
  ultimately show ?thesis
    using assms(2)
    by (auto simp: local_change_def open_incident_def insert_impact_def insert_incident_def Let_def
        draw_uuid_def standing_severities_def impact_evidence_def)
qed

lemma local_reopen_impact:
  "(\<And>r. r \<in> set (impacts s) \<Longrightarrow> im_id r = m \<Longrightarrow> im_incident_id r = i) \<Longrightarrow>
    local_change m i s (reopen_impact m sev s)"
  unfolding reopen_impact_def by (rule local_impacts) auto

lemma local_then_invisible:
  assumes "local_change m i s s'" and "invisible s' s''"
  shows "local_change m i s s''"
  using assms(1) by (rule local_change_trans)
    (rule invisible_local [OF assms(2)], use assms(1) in \<open>auto simp: local_change_def\<close>)

lemma local_join_propagation:
  assumes "cycle_inv s" and "join_propagation f w inc s = (e, s')"
  shows "local_change (en_impactID e) (en_incidentID e) s s'"
proof (cases "find (\<lambda>r. im_incident_id r = in_id inc \<and> im_target_id r = fa_TargetID f) (impacts s)")
  case None
  have "local_change (draw_uuid s) (in_id inc) s (extendPropagation (in_id inc) (fa_OpenedAt f) w (insert_impact (in_id inc) f s))"
    by (rule local_then_invisible [OF local_insert_impact [OF assms(1)] invisible_extendPropagation])
  with None assms(2) show ?thesis by (auto simp: join_propagation_def)
next
  case (Some im)
  then have im: "im \<in> set (impacts s)" "im_incident_id im = in_id inc" by (auto dest: find_SomeD)
  then have "im_incident_id r = in_id inc" if "r \<in> set (impacts s)" "im_id r = im_id im" for r
    using that impact_by_id_the [OF assms(1)] by (metis option.inject)
  then have "local_change (im_id im) (in_id inc) s (reopen_impact (im_id im) (fa_Severity f) s)"
    by (rule local_reopen_impact)
  from local_then_invisible [OF local_activity [OF this] invisible_extendPropagation]
  show ?thesis using Some assms(2) by (auto simp: join_propagation_def)
qed

lemma local_resume:
  assumes "cycle_inv s" and "resumeRecentIncident f t s = (Some (i, m), s')"
  shows "local_change m i s s'"
proof -
  obtain inc im where pick: "first_max (\<lambda>(inc, im). case in_resolved_at inc of None \<Rightarrow> 0 | Some t \<Rightarrow> t) (resumable f t s) = Some (inc, im)"
    using assms(2) by (auto simp: resumeRecentIncident_def split: option.splits)
  then have im: "im \<in> set (impacts s)" "im_incident_id im = in_id inc"
    by (auto dest!: first_max_in simp: resumable_def)
  then have one: "im_incident_id r = in_id inc" if "r \<in> set (impacts s)" "im_id r = im_id im" for r
    using that impact_by_id_the [OF assms(1)] by (metis option.inject)
  define s1 where "s1 = reopen_impact (im_id im) (fa_Severity f) s"
  define s2 where "s2 = s1\<lparr>incidents := update_where (\<lambda>r. in_id r = in_id inc)
      (\<lambda>r. r\<lparr>in_resumption_count := in_resumption_count r + 1, in_resumed_at := Some t,
             in_revision := in_revision r + 1, in_updated_at := clock s\<rparr>) (incidents s1)\<rparr>"
  have "invisible s1 s2" unfolding s2_def by (rule invisible_incidents) (simp add: in_sync_def)
  with local_reopen_impact [OF one] have "local_change (im_id im) (in_id inc) s s2"
    unfolding s1_def by (rule local_then_invisible)
  moreover have "i = in_id inc \<and> m = im_id im \<and> (\<exists>k dt. s' = appendActivity (in_id inc) (im_id im) '''' ''resumed'' (fa_Origin f) '''' k dt s2)"
    using assms(2) pick unfolding resumeRecentIncident_def Let_def s1_def s2_def by auto
  ultimately show ?thesis by (auto intro: local_activity)
qed

lemma ensureImpact_local:
  assumes "cycle_inv s" and sev: "validSeverity (fa_Severity f)" and "ensureImpact f t s = (Inr e, s')"
  shows "local_change (en_impactID e) (en_incidentID e) s s'"
proof -
  have active: "local_change (im_id im) (im_incident_id im) s s"
    if "first_max im_opened_at (same_cycle_impacts (fa_TargetID f) k s) = Some im" for im k
  proof (rule invisible_local [OF invisible_refl])
    fix r assume "r \<in> set (impacts s)" and "im_id r = im_id im"
    moreover have "im \<in> set (impacts s)" using first_max_in [OF that] by (simp add: same_cycle_impacts_def)
    ultimately show "im_incident_id r = im_incident_id im"
      using impact_by_id_the [OF assms(1)] by (metis option.inject)
  qed
  show ?thesis
    using assms(3) active unfolding ensureImpact_def Let_def
    by (auto split: option.splits prod.splits if_splits intro: local_resume [OF assms(1)]
        local_join_propagation [OF assms(1)] local_open_incident [OF assms(1)] dest!: resume_None)
qed

lemma local_add_evidence:
  assumes "\<And>r. r \<in> set (impacts s) \<Longrightarrow> im_id r = en_impactID e \<Longrightarrow> im_incident_id r = en_incidentID e"
  shows "local_change (en_impactID e) (en_incidentID e) s (add_evidence f t e s)"
proof -
  have "local_change (en_impactID e) (en_incidentID e) s
      (insert_evidence (en_incidentID e) (en_impactID e) f t s)"
    using assms by (auto simp: local_change_def insert_evidence_def standing_severities_def impact_evidence_def)
  then show ?thesis unfolding add_evidence_def Let_def
    by (auto intro!: local_activity intro: local_then_invisible invisible_acknowledgeFromEvidence
        invisible_inherit_acknowledgement)
qed

text \<open>What is left to recompute after \<open>open_evidence\<close> and \<open>applyEvidenceFact\<close>.\<close>

definition left_to :: "(cycle_error + (uuid \<times> uuid) option) \<Rightarrow> uuid set \<Rightarrow> uuid set \<Rightarrow> uuid set \<times> uuid set" where
  "left_to res A B = (case res of Inr (Some (i, m)) \<Rightarrow> (insert m A, insert i B) | _ \<Rightarrow> (A, B))"

lemma open_evidence_tracked:
  assumes "tracked s A B" and "identity_free f s" and "fact_complete f" and "validSeverity (fa_Severity f)"
    and "open_evidence f t s = (res, s')"
  shows "case left_to res A B of (A', B') \<Rightarrow> tracked s' A' B'"
proof -
  have inv: "cycle_inv s" "cycle_inv s'"
    using assms inv_open_evidence [of s f t] by (auto simp: tracked_def)
  show ?thesis
  proof (cases "first_max (\<lambda>r. case ev_invalidated_at r of None \<Rightarrow> 0 | Some t \<Rightarrow> t) (unrearmed f s)")
    case (Some r)
    then have "res = Inr None" "s' = touch_evidence (ev_id r) t s" using assms(5) by (auto simp: open_evidence_unfold)
    then show ?thesis using tracked_invisible [OF assms(1) invisible_touch_evidence] inv by (simp add: left_to_def)
  next
    case None
    obtain x s1 where e: "ensureImpact f t s = (x, s1)" by (cases "ensureImpact f t s")
    show ?thesis
    proof (cases x)
      case (Inl err)
      then show ?thesis using None e assms(1,5) ensureImpact_ensures [OF inv(1) assms(4), of t]
        by (auto simp: open_evidence_unfold left_to_def)
    next
      case (Inr e')
      have "ensures f e' s s1" using ensureImpact_ensures [OF inv(1) assms(4), of t] e Inr by simp
      moreover have "local_change (en_impactID e') (en_incidentID e') s s1"
        using ensureImpact_local [OF inv(1) assms(4)] e Inr by simp
      ultimately have "local_change (en_impactID e') (en_incidentID e') s (add_evidence f t e' s1)"
        using local_add_evidence ensured_incident local_change_trans by metis
      moreover have "res = Inr (Some (en_incidentID e', en_impactID e'))" "s' = add_evidence f t e' s1"
        using None e Inr assms(5) by (auto simp: open_evidence_unfold)
      ultimately show ?thesis using tracked_local [OF assms(1)] inv(2) by (simp add: left_to_def)
    qed
  qed
qed

lemma covers_antimono: "covers s A B \<Longrightarrow> A' \<subseteq> A \<Longrightarrow> covers s A' B"
  by (auto simp: covers_def)

lemma impact_refs_kept:
  "map im_ref (impacts (snd (recomputeImpact m t s))) = map im_ref (impacts s)"
  "impacts (snd (recomputeIncident i t s)) = impacts s"
  "map im_ref (impacts (resolveEvidenceRow v i m n og t s)) = map im_ref (impacts s)"
proof -
  have "map im_ref (impacts (write_impact m st sev rt s)) = map im_ref (impacts s)" for st sev rt
    unfolding write_impact_def by (simp, rule map_update_where) (simp add: im_ref_def)
  then show "map im_ref (impacts (snd (recomputeImpact m t s))) = map im_ref (impacts s)"
    by (simp add: recomputeImpact_def split: option.split)
qed (simp_all add: recomputeIncident_def resolveEvidenceRow_def Let_def split: option.split)

lemma tracked_recomputeImpact:
  assumes "tracked s A B" and "m \<in> A" and "recomputeImpact m t s = (Inr u, s')"
  shows "tracked s' (A - {m}) B"
  unfolding tracked_def
proof (intro conjI)
  show "cycle_inv s'" using inv_recomputeImpact [of s m t] assms by (simp add: tracked_def)
  show "clean s' (A - {m}) B" using clean_recomputeImpact assms by (auto simp: tracked_def)
  have "covers s' A B"
    using covers_ref [of s' s A B] impact_refs_kept(1) [of m t s] assms by (simp add: tracked_def)
  then show "covers s' (A - {m}) B" by (rule covers_antimono) simp
qed

lemma tracked_recomputeIncident:
  assumes "tracked s A B" and "recomputeIncident i t s = (Inr u, s')"
  shows "cycle_inv s'" and "clean s' A (B - {i})" and "impacts s' = impacts s"
  using inv_recomputeIncident [of s i t] clean_recomputeIncident [OF _ _ assms(2)] impact_refs_kept(2) [of i t s] assms
  by (auto simp: tracked_def)

text \<open>A Proof is resolved and what depends on it recomputed at once.\<close>

lemma resolve_recompute_tracked:
  assumes "tracked s A B" and e: "e \<in> set (evidence s)"
    and s1: "s1 = resolveEvidenceRow (ev_id e) i' m' n og t s"
    and s2: "recomputeImpact (ev_impact_id e) t s1 = (Inr u, s2)"
    and s3: "recomputeIncident (ev_incident_id e) t s2 = (Inr u', s3)"
  shows "tracked s3 A B"
proof -
  let ?A = "insert (ev_impact_id e) A" and ?B = "insert (ev_incident_id e) B"
  have "cycle_inv s" using assms(1) by (simp add: tracked_def)
  then have "tracked s1 ?A ?B"
    using tracked_local [OF assms(1) local_resolveEvidenceRow [OF _ e]] by (simp add: s1 inv_resolveEvidenceRow)
  then have two: "tracked s2 (?A - {ev_impact_id e}) ?B" using s2 by (rule tracked_recomputeImpact [OF _ insertI1])
  note three = tracked_recomputeIncident [OF two s3]
  have "clean s3 A B" using three(2) by (rule clean_mono) auto
  moreover have "covers s3 A B"
  proof (rule covers_ref)
    show "covers s A B" using assms(1) by (simp add: tracked_def)
    show "map im_ref (impacts s3) = map im_ref (impacts s)"
      using three(3) impact_refs_kept(1) [of "ev_impact_id e" t s1]
        impact_refs_kept(3) [of "ev_id e" i' m' n og t s] s2 by (simp add: s1)
  qed
  ultimately show ?thesis using three(1) by (simp add: tracked_def)
qed

lemma left_to_simps [simp]:
  "left_to (Inl err) A B = (A, B)" "left_to (Inr None) A B = (A, B)"
  "left_to (Inr (Some (i, m))) A B = (insert m A, insert i B)"
  by (simp_all add: left_to_def)

lemma impact_row_exists: "m \<in> im_id ` set (impacts s) \<Longrightarrow> \<exists>s'. recomputeImpact m t s = (Inr (), s')"
  by (auto simp: recomputeImpact_def impact_by_id_def find_eq_None split: option.split)

lemma incident_row_exists: "i \<in> in_id ` set (incidents s) \<Longrightarrow> \<exists>s'. recomputeIncident i t s = (Inr (), s')"
  by (auto simp: recomputeIncident_def incident_by_id_def find_eq_None Let_def split: option.split)

lemma incidents_kept:
  "incidents (resolveEvidenceRow v i m n og t s) = incidents s"
  "incidents (snd (recomputeImpact m t s)) = incidents s"
  "impacts (resolveEvidenceRow v i m n og t s) = impacts s"
  by (simp_all add: resolveEvidenceRow_def appendActivity_def recomputeImpact_def write_impact_def split: option.split)

lemma resolve_recompute_total:
  assumes "cycle_inv s" and "e \<in> set (evidence s)"
  obtains s2 s3 where
    "recomputeImpact (ev_impact_id e) t (resolveEvidenceRow (ev_id e) i' m' n og t s) = (Inr (), s2)"
    and "recomputeIncident (ev_incident_id e) t s2 = (Inr (), s3)"
proof -
  let ?s1 = "resolveEvidenceRow (ev_id e) i' m' n og t s"
  obtain s2 where s2: "recomputeImpact (ev_impact_id e) t ?s1 = (Inr (), s2)"
    using impact_row_exists [of "ev_impact_id e" ?s1 t] evidence_incident(2) [OF assms] by (auto simp: incidents_kept)
  then have "incidents s2 = incidents s"
    using incidents_kept(2) [of "ev_impact_id e" t ?s1] by (simp add: incidents_kept(1))
  then obtain s3 where "recomputeIncident (ev_incident_id e) t s2 = (Inr (), s3)"
    using incident_row_exists [of "ev_incident_id e" s2 t] evidence_incident(1) [OF assms] by auto
  with s2 show ?thesis by (rule that)
qed

lemma thenT_Inr [simp]: "m s = (Inr a, s') \<Longrightarrow> thenT m n s = n s'"
  by (simp add: thenT_def bindT_def)

lemma applyEvidenceFact_tracked:
  assumes tr: "tracked s A B" and res: "applyEvidenceFact f t s = (res, s')"
  shows "case left_to res A B of (A', B') \<Rightarrow> tracked s' A' B'"
proof (cases "fact_complete f \<and> validSeverity (fa_Severity f)")
  case False
  then have "res = Inl ErrInvalidInput \<and> s' = s" using res by (auto simp: applyEvidenceFact_def split: if_splits)
  then show ?thesis using tr by simp
next
  case ok: True
  have inv: "cycle_inv s" and inv': "cycle_inv s'"
    using tr inv_applyEvidenceFact [of s f t] res by (auto simp: tracked_def)
  show ?thesis
  proof (cases "existing_evidence f s")
    case None
    then show ?thesis
      using open_evidence_tracked [OF tr existing_evidence_None [OF inv None]] ok res by (simp add: applyEvidenceFact_def)
  next
    case (Some p)
    obtain r k where p: "p = (r, k)" by (cases p)
    note r = existing_evidence_Some [OF Some [unfolded p]]
    have "ev_invalidated_at r = None" using rows_okD(3) [OF inv r(1)] r(3) by (auto simp: evidence_ok_def)
    then consider (refresh) "ev_target_id r = fa_TargetID f \<and> k = n_Key (fa_Nature f)"
        "res = Inr (Some (ev_incident_id r, ev_impact_id r))"
        "s' = (if fa_UpstreamAcknowledged f
               then acknowledgeFromEvidence (ev_incident_id r) (ev_id r) t (refresh_evidence (ev_id r) f t s)
               else refresh_evidence (ev_id r) f t s)"
      | (moved) "thenT (execT (resolveEvidenceRow (ev_id r) (ev_incident_id r) (ev_impact_id r) (fa_Name f) (fa_Origin f) t))
               (thenT (recomputeImpact (ev_impact_id r) t)
                 (thenT (recomputeIncident (ev_incident_id r) t) (open_evidence f t))) s = (res, s')"
      using res ok Some p by (auto simp: applyEvidenceFact_def Let_def split: if_splits)
    then show ?thesis
    proof cases
      case refresh
      have "local_change (ev_impact_id r) (ev_incident_id r) s s'"
        using local_refresh_evidence [OF inv r(1), of f t] refresh(3)
        by (auto intro: local_then_invisible invisible_acknowledgeFromEvidence)
      then show ?thesis using tracked_local [OF tr] inv' refresh(2) by simp
    next
      case moved
      define s1 where "s1 = resolveEvidenceRow (ev_id r) (ev_incident_id r) (ev_impact_id r) (fa_Name f) (fa_Origin f) t s"
      obtain s2 s3 where s2: "recomputeImpact (ev_impact_id r) t s1 = (Inr (), s2)"
        and s3: "recomputeIncident (ev_incident_id r) t s2 = (Inr (), s3)"
        using resolve_recompute_total [OF inv r(1)] unfolding s1_def by metis
      have "tracked s3 A B" using resolve_recompute_tracked [OF tr r(1) s1_def s2 s3] .
      moreover have "identity_free f s3"
      proof -
        have same: "evidence s3 = evidence s1"
          using recompute_frame(1) [of "ev_impact_id r" t s1] recompute_frame(2) [of "ev_incident_id r" t s2] s2 s3 by simp
        show ?thesis unfolding identity_free_cong [OF same] s1_def by (rule resolve_identity_free [OF inv r])
      qed
      moreover have "open_evidence f t s3 = (res, s')"
        using moved s2 s3 by (simp add: execT_def s1_def)
      ultimately show ?thesis using open_evidence_tracked [of s3 A B f t res s'] ok by simp
    qed
  qed
qed

subsection \<open>Sequences of recomputations\<close>

lemma thenT_InrE:
  assumes "thenT m n s = (Inr b, s'')"
  obtains a s' where "m s = (Inr a, s')" and "n s' = (Inr b, s'')"
  using assms by (auto simp: thenT_def bindT_def split: prod.splits sum.splits)

lemma bindT_InrE:
  assumes "bindT m n s = (Inr b, s'')"
  obtains a s' where "m s = (Inr a, s')" and "n a s' = (Inr b, s'')"
  using assms by (auto simp: bindT_def split: prod.splits sum.splits)

lemma tracked_for_impacts:
  assumes "tracked s A B" and "distinct ms" and "set ms \<subseteq> A"
    and "forT ms (\<lambda>m. recomputeImpact m t) s = (Inr u, s')"
  shows "tracked s' (A - set ms) B"
  using assms
proof (induction ms arbitrary: s A)
  case (Cons m ms)
  from Cons.prems(4) obtain u1 s1 where "recomputeImpact m t s = (Inr u1, s1)"
    and rest: "forT ms (\<lambda>m. recomputeImpact m t) s1 = (Inr u, s')"
    by (auto elim: thenT_InrE)
  then have "tracked s1 (A - {m}) B" using Cons.prems by (intro tracked_recomputeImpact) auto
  moreover have "A - {m} - set ms = A - set (m # ms)" by auto
  ultimately show ?case using Cons.IH [OF _ _ _ rest, of "A - {m}"] Cons.prems(2,3) by (simp, blast)
qed (simp add: returnT_def)

lemma tracked_for_incidents:
  assumes "tracked s {} B" and "forT is (\<lambda>i. recomputeIncident i t) s = (Inr u, s')"
  shows "tracked s' {} (B - set is)"
  using assms
proof (induction "is" arbitrary: s B)
  case (Cons i "is")
  from Cons.prems(2) obtain u1 s1 where "recomputeIncident i t s = (Inr u1, s1)"
    and rest: "forT is (\<lambda>i. recomputeIncident i t) s1 = (Inr u, s')"
    by (auto elim: thenT_InrE)
  then have "tracked s1 {} (B - {i})"
    using tracked_recomputeIncident [OF Cons.prems(1)] by (auto simp: tracked_def covers_def)
  moreover have "B - {i} - set is = B - set (i # is)" by auto
  ultimately show ?case using Cons.IH [OF _ rest, of "B - {i}"] by simp
qed (simp add: returnT_def)

lemma recompute_all_synced:
  assumes "tracked s A B" and "distinct ms" and "set ms = A" and "B \<subseteq> set is"
    and "recompute_all ms is t s = (Inr u, s')"
  shows "tracked s' {} {}"
proof -
  from assms(5) obtain u1 s1 where one: "forT ms (\<lambda>i. recomputeImpact i t) s = (Inr u1, s1)"
    and two: "forT is (\<lambda>i. recomputeIncident i t) s1 = (Inr u, s')"
    unfolding recompute_all_def by (rule thenT_InrE)
  have "tracked s1 (A - set ms) B" using assms(1-3) one by (intro tracked_for_impacts) auto
  then have "tracked s1 {} B" using assms(3) by simp
  from tracked_for_incidents [OF this two] show ?thesis using assms(4) by (simp add: Diff_eq_empty_iff [THEN iffD2])
qed

lemma advanceDue_synced:
  assumes "tracked s {} {}" and "advanceDueIncidents t s = (Inr u, s')"
  shows "tracked s' {} {}"
proof -
  from assms(2) have "forT (due_incidents t s) (\<lambda>i. recomputeIncident i t) s = (Inr u, s')"
    by (simp add: advanceDueIncidents_def bindT_def getT_def)
  from tracked_for_incidents [OF assms(1) this] show ?thesis by simp
qed

subsection \<open>A snapshot\<close>

abbreviation left_of :: "progress \<Rightarrow> db \<Rightarrow> bool" where
  "left_of p s \<equiv> tracked s (set (pr_impacts p)) (set (pr_incidents p))"

lemma apply_fact_tracked:
  assumes "left_of p s" and "apply_fact t f p s = (Inr p', s')"
  shows "left_of p' s'"
proof (cases "identity (fa_IdentityScope f) (fa_IdentityKey f) \<in> set (pr_seen p)")
  case True
  then show ?thesis using assms by (simp add: apply_fact_def Let_def)
next
  case False
  obtain res s1 where res: "applyEvidenceFact f t s = (res, s1)" by (cases "applyEvidenceFact f t s")
  from applyEvidenceFact_tracked [OF assms(1) res] show ?thesis
    using assms(2) False res
    by (auto simp: apply_fact_def Let_def mark_def split: sum.splits option.splits if_splits)
qed

lemma apply_facts_tracked:
  assumes "left_of p s" and "apply_facts t fs p s = (Inr p', s')"
  shows "left_of p' s'"
  using assms
proof (induction fs arbitrary: p s)
  case (Cons f fs)
  then show ?case by (auto elim!: bindT_InrE dest: apply_fact_tracked)
qed (simp add: returnT_def)

lemma resolve_absent_tracked:
  assumes "left_of p s" and "set rs \<subseteq> R" and "ev_ref ` R \<subseteq> ev_ref ` set (evidence s)"
    and "resolve_absent og t rs p s = (p', s')"
  shows "left_of p' s'"
  using assms
proof (induction rs arbitrary: p s)
  case (Cons r rs)
  show ?case
  proof (cases "row_identity r \<in> set (pr_seen p)")
    case True
    with Cons show ?thesis by simp
  next
    case False
    have "ev_ref r \<in> ev_ref ` set (evidence s)" using Cons.prems(2,3) by auto
    then obtain e where e: "e \<in> set (evidence s)" "ev_id e = ev_id r" "ev_impact_id e = ev_impact_id r"
      "ev_incident_id e = ev_incident_id r" by (auto simp: ev_ref_def)
    define s1 where "s1 = resolveEvidenceRow (ev_id r) (ev_incident_id r) (ev_impact_id r) (ev_name r) og t s"
    have inv: "cycle_inv s" using Cons.prems(1) by (simp add: tracked_def)
    have "local_change (ev_impact_id r) (ev_incident_id r) s s1"
      using local_resolveEvidenceRow [OF inv e(1)] e by (simp add: s1_def)
    then have "left_of (mark (ev_incident_id r) (ev_impact_id r) p) s1"
      using tracked_local [OF Cons.prems(1)] inv by (simp add: mark_def s1_def inv_resolveEvidenceRow)
    moreover have "ev_ref ` set (evidence s1) = ev_ref ` set (evidence s)"
    proof -
      have "map ev_ref (evidence s1) = map ev_ref (evidence s)"
        unfolding s1_def resolveEvidenceRow_def by (simp, rule map_update_where) (simp add: ev_ref_def)
      then show ?thesis by (metis list.set_map)
    qed
    ultimately show ?thesis using Cons.IH Cons.prems(2-4) False by (simp add: s1_def)
  qed
qed simp

lemma snapshot_tail_synced:
  assumes "left_of p s" and "snapshot_tail sn t p s = (Inr u, s')" and "distinct (pr_impacts p)"
  shows "tracked s' {} {}"
proof -
  let ?rows = "activeEvidenceForSnapshot sn s"
  obtain p1 s1 where absent: "resolve_absent (sn_Origin sn) t ?rows p s = (p1, s1)"
    by (cases "resolve_absent (sn_Origin sn) t ?rows p s")
  define s2 where "s2 = rearmRecoveredEvidence sn (pr_seen p1) t s1"
  have "set ?rows \<subseteq> set (evidence s)" by (auto simp: activeEvidenceForSnapshot_def)
  then have "left_of p1 s1" using resolve_absent_tracked [OF assms(1) _ _ absent] by blast
  then have two: "left_of p1 s2"
    using tracked_invisible [OF _ invisible_rearmRecoveredEvidence] inv_rearmRecoveredEvidence
    unfolding s2_def tracked_def by blast
  have "distinct (pr_impacts p1)"
  proof -
    have "distinct (pr_impacts p) \<Longrightarrow> distinct (pr_impacts (fst (resolve_absent og t rs p s)))" for og rs p s
      by (induction rs arbitrary: p s) (auto simp: mark_def)
    from this [OF assms(3), of "sn_Origin sn" ?rows s] show ?thesis by (simp add: absent)
  qed
  moreover have order: "mset (map_order s2 xs) = mset xs" for xs using two cycle_invD(8) by (auto simp: tracked_def)
  ultimately have ms: "distinct (map_order s2 (pr_impacts p1))" "set (map_order s2 (pr_impacts p1)) = set (pr_impacts p1)"
      "set (pr_incidents p1) \<subseteq> set (map_order s2 (pr_incidents p1))"
    by (metis mset_eq_imp_distinct_iff, metis mset_eq_setD order, metis mset_eq_setD order order_refl)
  from assms(2) obtain u1 s3 where "recompute_all (map_order s2 (pr_impacts p1)) (map_order s2 (pr_incidents p1)) t s2 = (Inr u1, s3)"
    and last: "advanceDueIncidents t s3 = (Inr u, s')"
    unfolding snapshot_tail_def Let_def absent split_conv s2_def [symmetric] by (rule thenT_InrE)
  then have "tracked s3 {} {}" using recompute_all_synced [OF two ms] by blast
  then show ?thesis using last by (rule advanceDue_synced)
qed

subsection \<open>The operations\<close>

text \<open>A transaction that succeeds leaves the rows in agreement; one that fails leaves no trace
  once it is rolled back.\<close>

definition agrees :: "db \<Rightarrow> bool" where
  "agrees s \<longleftrightarrow> cycle_inv s \<and> synced s"

definition keeps_agreement :: "'a tx \<Rightarrow> bool" where
  "keeps_agreement m \<longleftrightarrow> (\<forall>s a s'. agrees s \<longrightarrow> m s = (Inr a, s') \<longrightarrow> agrees s')"

lemma agrees_tracked: "agrees s \<longleftrightarrow> tracked s {} {}"
  by (simp add: agrees_def tracked_empty)

lemma keeps_agreementI: "(\<And>s a s'. tracked s {} {} \<Longrightarrow> m s = (Inr a, s') \<Longrightarrow> tracked s' {} {}) \<Longrightarrow> keeps_agreement m"
  by (auto simp: keeps_agreement_def agrees_tracked)

lemma keeps_agreementD: "keeps_agreement m \<Longrightarrow> tracked s {} {} \<Longrightarrow> m s = (Inr a, s') \<Longrightarrow> tracked s' {} {}"
  by (auto simp: keeps_agreement_def agrees_tracked)

lemma agrees_commit: "keeps_agreement m \<Longrightarrow> agrees s \<Longrightarrow> agrees (snd (commit_or_rollback m s))"
  by (auto simp: keeps_agreement_def commit_or_rollback_def split: prod.splits sum.splits)

lemma keeps_commit: "keeps_agreement m \<Longrightarrow> keeps_agreement (commit_or_rollback m)"
  by (auto simp: keeps_agreement_def commit_or_rollback_def split: prod.splits sum.splits)

lemma keeps_bind:
  assumes "keeps_agreement m" and "\<And>a. keeps_agreement (n a)"
  shows "keeps_agreement (bindT m n)"
proof (rule keeps_agreementI)
  fix s b s'' assume tr: "tracked s {} {}" and "bindT m n s = (Inr b, s'')"
  then obtain a s' where one: "m s = (Inr a, s')" and two: "n a s' = (Inr b, s'')" by (blast elim: bindT_InrE)
  from assms(2) keeps_agreementD [OF assms(1) tr one] two show "tracked s'' {} {}" by (rule keeps_agreementD)
qed

lemma keeps_then: "keeps_agreement m \<Longrightarrow> keeps_agreement n \<Longrightarrow> keeps_agreement (thenT m n)"
  unfolding thenT_def by (rule keeps_bind)

lemma keeps_return: "keeps_agreement (returnT a)"
  by (simp add: keeps_agreement_def returnT_def)

lemma keeps_fail: "keeps_agreement (failT e)"
  by (simp add: keeps_agreement_def failT_def)

lemma keeps_exec:
  "(\<And>s. invisible s (f s)) \<Longrightarrow> (\<And>s. cycle_inv s \<Longrightarrow> cycle_inv (f s)) \<Longrightarrow> keeps_agreement (execT f)"
  by (auto simp: keeps_agreement_def agrees_def execT_def intro: clean_invisible)

lemma keeps_advanceDue: "keeps_agreement (advanceDueIncidents t)"
  by (rule keeps_agreementI) (rule advanceDue_synced)

lemma apply_facts_distinct:
  "distinct (pr_impacts p) \<Longrightarrow> apply_facts t fs p s = (Inr p', s') \<Longrightarrow> distinct (pr_impacts p')"
proof (induction fs arbitrary: p s)
  case (Cons f fs)
  have "distinct (pr_impacts p1)" if "apply_fact t f p s = (Inr p1, s1)" for p1 s1
    using that Cons.prems(1)
    by (auto simp: apply_fact_def Let_def mark_def split: if_splits prod.splits sum.splits option.splits)
  with Cons show ?case by (auto elim!: bindT_InrE)
qed (simp add: returnT_def)

lemma keeps_ApplyEvidenceSnapshot: "keeps_agreement (ApplyEvidenceSnapshot now sn)"
  unfolding ApplyEvidenceSnapshot_def Let_def
proof (intro keeps_commit keeps_agreementI)
  fix s u s' let ?t = "normalizedTime now (sn_ObservedAt sn)"
  assume tr: "tracked s {} {}" and run: "(if sn_LeaseOwner sn \<noteq> '''' \<and> \<not> lease_valid (sn_ConnectorID sn) (sn_LeaseOwner sn) s
      then (Inl ErrLeaseLost, s)
      else bindT (apply_facts ?t (prepared_facts sn ?t) no_progress) (snapshot_tail sn ?t) s) = (Inr u, s')"
  then obtain p s1 where facts: "apply_facts ?t (prepared_facts sn ?t) no_progress s = (Inr p, s1)"
    and tail: "snapshot_tail sn ?t p s1 = (Inr u, s')"
    by (auto split: if_splits elim!: bindT_InrE)
  have "left_of p s1" using apply_facts_tracked [OF _ facts] tr by (simp add: no_progress_def)
  moreover have "distinct (pr_impacts p)" using apply_facts_distinct [OF _ facts] by (simp add: no_progress_def)
  ultimately show "tracked s' {} {}" using snapshot_tail_synced [OF _ tail] by blast
qed

lemma keeps_resolve_and_recompute:
  assumes "tracked s {} {}" and "r \<in> set (evidence s)" and "resolve_and_recompute r og t s = (Inr u, s')"
  shows "tracked s' {} {}"
  using assms(3) resolve_recompute_tracked [OF assms(1,2) refl]
  by (auto simp: resolve_and_recompute_def execT_def elim!: thenT_InrE)

lemma active_identity_in: "active_identity og scope key s = Some r \<Longrightarrow> r \<in> set (evidence s)"
  by (auto simp: active_identity_def dest: find_SomeD)

lemma keeps_ResolveEvidence: "keeps_agreement (ResolveEvidence now og scope key t)"
  unfolding ResolveEvidence_def
  by (intro keeps_commit keeps_agreementI)
    (auto split: option.splits dest: active_identity_in intro: keeps_resolve_and_recompute)

lemma close_owned_tracked:
  assumes "tracked s A B" and "ev_ref ` set rs \<subseteq> ev_ref ` set (evidence s)"
  shows "tracked (close_owned msg now rs s) (ev_impact_id ` set rs \<union> A) (ev_incident_id ` set rs \<union> B)"
  using assms
proof (induction rs arbitrary: s A B)
  case (Cons r rs)
  define s1 where "s1 = resolveEvidenceRow (ev_id r) (ev_incident_id r) (ev_impact_id r) (ev_name r) (ev_origin r) now s"
  define s2 where "s2 = appendActivity (ev_incident_id r) (ev_impact_id r) (ev_id r) ''evidence_updated'' ''cairnops'' '''' msg [] s1"
  have "ev_ref r \<in> ev_ref ` set (evidence s)" using Cons.prems(2) by simp
  then obtain e where e: "e \<in> set (evidence s)" "ev_id e = ev_id r" "ev_impact_id e = ev_impact_id r"
    "ev_incident_id e = ev_incident_id r" by (auto simp: ev_ref_def)
  have inv: "cycle_inv s" using Cons.prems(1) by (simp add: tracked_def)
  have "local_change (ev_impact_id r) (ev_incident_id r) s s1"
    using local_resolveEvidenceRow [OF inv e(1)] e by (simp add: s1_def)
  then have "tracked s2 (insert (ev_impact_id r) A) (insert (ev_incident_id r) B)"
    using tracked_local [OF Cons.prems(1) local_activity] inv by (simp add: s2_def s1_def inv_resolveEvidenceRow)
  moreover have "map ev_ref (evidence s2) = map ev_ref (evidence s)"
    unfolding s2_def s1_def resolveEvidenceRow_def by (simp, rule map_update_where) (simp add: ev_ref_def)
  then have "ev_ref ` set rs \<subseteq> ev_ref ` set (evidence s2)"
    using Cons.prems(2) by (metis insert_subset list.set_map list.simps(15) list.simps(9))
  moreover have "close_owned msg now (r # rs) s = close_owned msg now rs s2"
    by (simp add: close_owned_def s2_def s1_def)
  ultimately show ?case using Cons.IH [of s2 "insert (ev_impact_id r) A" "insert (ev_incident_id r) B"] by simp
qed (simp add: close_owned_def)

lemma sortedKeys_simps [simp]: "distinct (sortedKeys ks)" "set (sortedKeys ks) = set ks"
  by (simp_all add: sortedKeys_def)

lemma keeps_ResolveForArchivedTarget: "keeps_agreement (ResolveForArchivedTarget now target)"
proof (rule keeps_agreementI)
  fix s :: db and u and s' :: db let ?rows = "filter (\<lambda>r. ev_target_id r = target \<and> ev_active r) (evidence s)"
  assume tr: "tracked s {} {}" and run: "ResolveForArchivedTarget now target s = (Inr u, s')"
  define msg where "msg = ''Cible archiv'' @ [CHR 0xC3, CHR 0xA9] @ ''e''"
  from run obtain u1 s1 where s1: "s1 = close_owned msg now ?rows s"
    and all: "recompute_all (sortedKeys (map ev_impact_id ?rows)) (sortedKeys (map ev_incident_id ?rows)) now s1 = (Inr u, s')"
    unfolding ResolveForArchivedTarget_def Let_def msg_def by (auto elim!: thenT_InrE simp: execT_def)
  have "tracked s1 (ev_impact_id ` set ?rows) (ev_incident_id ` set ?rows)"
    using close_owned_tracked [OF tr, of ?rows msg now] by (auto simp: s1)
  from recompute_all_synced [OF this _ _ _ all] show "tracked s' {} {}" by simp
qed

lemma recompute_counting_tracked:
  assumes "tracked s {} B" and "recompute_counting is now n s = (Inr k, s')"
  shows "tracked s' {} (B - set is)"
  using assms
proof (induction "is" arbitrary: s B n)
  case (Cons i "is")
  have query: "incident_status j x = (Inr a, y) \<Longrightarrow> y = x" for j x a y
    by (auto simp: incident_status_def split: option.splits)
  from Cons.prems(2) obtain u1 s1 n' where "recomputeIncident i now s = (Inr u1, s1)"
    and rest: "recompute_counting is now n' s1 = (Inr k, s')"
    by (auto elim!: bindT_InrE thenT_InrE dest!: query)
  then have "tracked s1 {} (B - {i})"
    using tracked_recomputeIncident [OF Cons.prems(1)] by (auto simp: tracked_def covers_def)
  moreover have "B - {i} - set is = B - set (i # is)" by auto
  ultimately show ?case using Cons.IH [OF _ rest, of "B - {i}"] by simp
qed (simp add: returnT_def)

lemma keeps_resolveOwned: "keeps_agreement (resolveOwnedEvidenceCount now owned msg)"
proof (rule keeps_agreementI)
  fix s :: db and u and s' :: db
  define rows where "rows = sort_key (\<lambda>r. (ev_incident_id r, ev_impact_id r, ev_id r))
      (filter (\<lambda>r. ev_active r \<and> owned r) (evidence s))"
  assume tr: "tracked s {} {}" and run: "resolveOwnedEvidenceCount now owned msg s = (Inr u, s')"
  from run obtain u2 s1 s2 where s1: "s1 = close_owned msg now rows s"
    and s2: "forT (sortedKeys (map ev_impact_id rows)) (\<lambda>i. recomputeImpact i now) s1 = (Inr u2, s2)"
    and last: "recompute_counting (sortedKeys (map ev_incident_id rows)) now 0 s2 = (Inr u, s')"
    unfolding resolveOwnedEvidenceCount_def Let_def rows_def [symmetric] by (auto elim!: thenT_InrE simp: execT_def)
  have "set rows \<subseteq> set (evidence s)" by (auto simp: rows_def)
  then have "tracked s1 (ev_impact_id ` set rows) (ev_incident_id ` set rows)"
    using close_owned_tracked [OF tr, of rows msg now] by (auto simp: s1)
  from tracked_for_impacts [OF this _ _ s2]
  have "tracked s2 {} (ev_incident_id ` set rows)" by simp
  from recompute_counting_tracked [OF this last] show "tracked s' {} {}" by simp
qed

lemma keeps_ResolveForSourceRemoval: "keeps_agreement (ResolveForSourceRemoval now src)"
  unfolding ResolveForSourceRemoval_def by (intro keeps_then keeps_resolveOwned keeps_return)

lemma keeps_ResolveForConnectorRemoval: "keeps_agreement (ResolveForConnectorRemoval now c)"
  unfolding ResolveForConnectorRemoval_def by (rule keeps_resolveOwned)

lemma keeps_Advance: "keeps_agreement (Advance now t)"
  unfolding Advance_def by (intro keeps_commit keeps_advanceDue)

lemma keeps_trigger_native: "keeps_agreement (trigger_native ob sev t)"
proof (rule keeps_agreementI)
  fix s u s' assume tr: "tracked s {} {}" and run: "trigger_native ob sev t s = (Inr u, s')"
  then obtain res s1 where fct: "applyEvidenceFact (native_fact ob sev t) t s = (Inr res, s1)"
    and rest: "(case res of None \<Rightarrow> returnT () | Some (i, m) \<Rightarrow> thenT (recomputeImpact m t) (recomputeIncident i t)) s1 = (Inr u, s')"
    unfolding trigger_native_def by (auto elim!: bindT_InrE)
  note left = applyEvidenceFact_tracked [OF tr fct]
  show "tracked s' {} {}"
  proof (cases res)
    case None
    then show ?thesis using left rest by (simp add: returnT_def)
  next
    case (Some im)
    obtain i m where im: "im = (i, m)" by (cases im)
    then have "tracked s1 {m} {i}" using left Some by simp
    moreover from rest Some im obtain u1 s2 where "recomputeImpact m t s1 = (Inr u1, s2)"
      and three: "recomputeIncident i t s2 = (Inr u, s')" by (auto elim!: thenT_InrE)
    ultimately have "tracked s2 ({m} - {m}) {i}" by (intro tracked_recomputeImpact) auto
    from tracked_recomputeIncident [OF this three] show ?thesis by (simp add: tracked_def covers_def)
  qed
qed

lemma keeps_recoverNative: "keeps_agreement (recoverNativeEvidence ob t)"
proof (rule keeps_agreementI)
  fix s u s' assume tr: "tracked s {} {}" and run: "recoverNativeEvidence ob t s = (Inr u, s')"
  have "keeps_agreement (thenT (execT (rearm_native (no_SourceID ob) t)) (advanceDueIncidents t))"
    by (intro keeps_then keeps_exec keeps_advanceDue invisible_rearm_native inv_rearm_native)
  from keeps_agreementD [OF this tr] show "tracked s' {} {}"
    using run tr by (auto simp: recoverNativeEvidence_def split: option.splits
        dest: active_identity_in intro: keeps_resolve_and_recompute)
qed

lemma keeps_ApplyNativeObservation: "keeps_agreement (ApplyNativeObservation now ob)"
proof -
  have streaks: "keeps_agreement (execT (persist_streaks src k))" for src k
    by (intro keeps_exec invisible_persist_streaks inv_persist_streaks)
  show ?thesis
  proof (rule keeps_agreementI)
    fix s u s' assume tr: "tracked s {} {}" and run: "ApplyNativeObservation now ob s = (Inr u, s')"
    then obtain st m where op: "thenT (execT (persist_streaks (no_SourceID ob) st)) m s = (Inr u, s')"
      and m: "keeps_agreement m"
      by (auto simp: ApplyNativeObservation_def Let_def split: option.splits if_splits
          intro: keeps_trigger_native keeps_recoverNative keeps_advanceDue)
    from keeps_then [OF streaks m] tr op show "tracked s' {} {}" by (rule keeps_agreementD)
  qed
qed

lemma keeps_store_InvalidateEvidence:
  assumes "8 \<le> rune_count reason" and "rune_count reason \<le> 500"
  shows "keeps_agreement (store_InvalidateEvidence now1 now2 i v a an reason)"
  unfolding store_InvalidateEvidence_def
proof (intro keeps_commit keeps_agreementI)
  fix s u s' assume tr: "tracked s {} {}"
    and "(case find (\<lambda>r. ev_id r = v \<and> ev_incident_id r = i \<and> ev_active r) (evidence s) of
        None \<Rightarrow> (Inl ErrNotFound, s)
      | Some r \<Rightarrow> thenT (execT (invalidate_row v a reason))
          (thenT (execT (appendActivity i (ev_impact_id r) v ''invalidated'' ''user'' a (ev_name r)
            [(''reason'', JString reason), (''actor_name'', JString an), (''origin'', JString (ev_origin r))]))
          (thenT (recomputeImpact (ev_impact_id r) now1) (recomputeIncident i now2))) s) = (Inr u, s')"
  then obtain r dt u2 s1 s2 s3 where r: "r \<in> set (evidence s)" "ev_id r = v" "ev_incident_id r = i"
    and s1: "s1 = invalidate_row v a reason s"
    and s2: "s2 = appendActivity i (ev_impact_id r) v ''invalidated'' ''user'' a (ev_name r) dt s1"
    and s3: "recomputeImpact (ev_impact_id r) now1 s2 = (Inr u2, s3)"
    and s4: "recomputeIncident i now2 s3 = (Inr u, s')"
    by (auto split: option.splits dest!: find_SomeD elim!: thenT_InrE simp: execT_def)
  have inv: "cycle_inv s" using tr by (simp add: tracked_def)
  have "local_change (ev_impact_id r) i s s2"
    using local_activity [OF local_invalidate_row [OF inv r(1)]] r(2,3) by (simp add: s1 s2)
  then have "tracked s2 {ev_impact_id r} {i}"
    using tracked_local [OF tr] inv assms by (simp add: s1 s2 inv_invalidate_row)
  from tracked_recomputeImpact [OF this _ s3] have "tracked s3 {} {i}" by simp
  from tracked_recomputeIncident [OF this s4] show "tracked s' {} {}" by (simp add: tracked_def covers_def)
qed

lemma keeps_InvalidateEvidence: "keeps_agreement (InvalidateEvidence now1 now2 i v a an reason)"
  by (auto simp: InvalidateEvidence_def Let_def intro: keeps_fail keeps_store_InvalidateEvidence)

lemma keeps_AcknowledgeLocal: "keeps_agreement (AcknowledgeLocal i a an)"
proof -
  have "invisible s (queue_acknowledgements i (appendActivity i '''' '''' ''acknowledged'' ''user'' a msg dt (acknowledge_incident i a st s)))"
    for s msg dt st
    by (meson invisible_trans invisible_queue_acknowledgements invisible_activity invisible_acknowledge_incident)
  then have "tracked (queue_acknowledgements i (appendActivity i '''' '''' ''acknowledged'' ''user'' a msg dt (acknowledge_incident i a st s))) {} {}"
    if "tracked s {} {}" for s msg dt st
    using that tracked_invisible by (auto simp: tracked_def inv_queue_acknowledgements inv_acknowledge_incident covers_def intro: clean_invisible)
  then show ?thesis unfolding AcknowledgeLocal_def Let_def
    by (intro keeps_commit keeps_agreementI) (auto split: option.splits if_splits)
qed

lemma keeps_CompleteAcknowledgement: "keeps_agreement (CompleteAcknowledgement i results)"
proof -
  have "invisible s (fold (complete_row i) results s) \<and> (cycle_inv s \<longrightarrow> cycle_inv (fold (complete_row i) results s))" for s
    by (induction results arbitrary: s)
      (auto intro: invisible_trans [OF invisible_complete_row] inv_complete_row)
  then show ?thesis unfolding CompleteAcknowledgement_def
    by (intro keeps_commit keeps_exec)
      (auto intro: invisible_trans [OF _ invisible_recomputeAcknowledgement] inv_recomputeAcknowledgement)
qed

lemma keeps_Acknowledge: "keeps_agreement (Acknowledge up i a an)"
  unfolding Acknowledge_def
  by (intro keeps_bind keeps_AcknowledgeLocal) (simp add: keeps_return keeps_CompleteAcknowledgement)

lemma keeps_ApplyWebhook: "keeps_agreement (ApplyWebhook now signal)"
  by (simp add: ApplyWebhook_def Let_def keeps_ApplyEvidenceSnapshot keeps_fail keeps_ResolveEvidence)

end
