(* ===== verification/Machines.thy ===== *)
theory Machines
  imports Cairn_Prelude
begin

text \<open>
  A store driven by a sequence of operations: the contract a component proves once per
  operation, and what it gives for every sequence.
\<close>

locale machine =
  fixes step :: "'op \<Rightarrow> 's \<Rightarrow> 's" and admissible :: "'op \<Rightarrow> bool" and inv :: "'s \<Rightarrow> bool"
  assumes step_inv: "admissible op \<Longrightarrow> inv s \<Longrightarrow> inv (step op s)"
begin

lemma run_inv: "list_all admissible ops \<Longrightarrow> inv s \<Longrightarrow> inv (fold step ops s)"
  by (induction ops arbitrary: s) (simp_all add: step_inv)

lemma prefix_inv: "list_all admissible (ops @ rest) \<Longrightarrow> inv s \<Longrightarrow> inv (fold step ops s)"
  by (rule run_inv) simp_all

end

subsection \<open>Tables that keep their rows\<close>

text \<open>Rows keep their places and are only added; \<open>Q\<close> is what a row keeps of itself.\<close>

definition grows :: "('r \<Rightarrow> 'r \<Rightarrow> bool) \<Rightarrow> 'r list \<Rightarrow> 'r list \<Rightarrow> bool" where
  "grows Q xs ys \<longleftrightarrow> length xs \<le> length ys \<and> (\<forall>k < length xs. Q (xs ! k) (ys ! k))"

lemma grows_refl: "(\<And>r. Q r r) \<Longrightarrow> grows Q xs xs"
  by (simp add: grows_def)

lemma grows_trans:
  "(\<And>a b c. Q a b \<Longrightarrow> Q b c \<Longrightarrow> Q a c) \<Longrightarrow> grows Q xs ys \<Longrightarrow> grows Q ys zs \<Longrightarrow> grows Q xs zs"
  unfolding grows_def by (meson order_less_le_trans order_trans)

lemma grows_update:
  assumes "\<And>r. Q r r" and "\<And>r. r \<in> set xs \<Longrightarrow> P r \<Longrightarrow> Q r (g r)"
  shows "grows Q xs (update_where P g xs)"
  using assms by (simp add: grows_def update_where_def)

lemma grows_append: "(\<And>r. Q r r) \<Longrightarrow> grows Q xs (xs @ ys)"
  by (simp add: grows_def nth_append)

lemma grows_mem: "grows Q xs ys \<Longrightarrow> r \<in> set xs \<Longrightarrow> \<exists>r' \<in> set ys. Q r r'"
  unfolding grows_def by (metis in_set_conv_nth order_less_le_trans)

lemma sorted_wrt_update_where:
  assumes "sorted_wrt R rows"
    and "\<And>r q. r \<in> set rows \<Longrightarrow> q \<in> set rows \<Longrightarrow> R r q \<Longrightarrow> R (if P r then f r else r) (if P q then f q else q)"
  shows "sorted_wrt R (update_where P f rows)"
  unfolding update_where_def sorted_wrt_map
  by (rule sorted_wrt_mono_rel [OF _ assms(1)]) (rule assms(2))

lemma image_update_where:
  "(\<And>r. k (f r) = k r) \<Longrightarrow> k ` set (update_where P f rows) = k ` set rows"
  using map_update_where [of rows P k f] by (metis set_map)

lemma filter_the_row: "distinct rows \<Longrightarrow> r \<in> set rows \<Longrightarrow> filter (\<lambda>q. q = r) rows = [r]"
  by (induction rows) (auto simp: filter_empty_conv)

end
