(* ===== verification/Incident_Growth.thy ===== *)
theory Incident_Growth
  imports Incident_Agreement Machines
begin

text \<open>
  The history of the cycle only grows: rows are added and never removed, the journal is only
  appended to, what identifies a row never changes, and what is settled (a resolution of a
  Proof, an invalidation, an acknowledgement, a closed Propagation, the counters of an
  Incident) is never taken back. The growth relation is an instance of \<open>cycle_kept\<close>, so every
  operation is covered by the lemmas of that interface.
\<close>

definition incident_le :: "incident_row \<Rightarrow> incident_row \<Rightarrow> bool" where
  "incident_le a b \<longleftrightarrow>
     in_id b = in_id a \<and> in_nature_key b = in_nature_key a \<and> in_nature_scope b = in_nature_scope a \<and>
     in_nature_namespace b = in_nature_namespace a \<and> in_nature_fingerprint b = in_nature_fingerprint a \<and>
     in_opened_at b = in_opened_at a \<and> in_created_at b = in_created_at a \<and>
     in_revision a \<le> in_revision b \<and> in_max_affected_targets a \<le> in_max_affected_targets b \<and>
     in_resumption_count a \<le> in_resumption_count b \<and> (in_extended a \<longrightarrow> in_extended b) \<and>
     in_propagation_ends_at a \<le> in_propagation_ends_at b \<and>
     (in_propagation_status a = Closed \<longrightarrow> in_propagation_status b = Closed) \<and>
     (in_acknowledged_at a \<noteq> None \<longrightarrow> in_acknowledged_at b = in_acknowledged_at a \<and>
        in_acknowledged_by b = in_acknowledged_by a \<and> in_acknowledgement_origin b = in_acknowledgement_origin a)"

definition impact_le :: "impact_row \<Rightarrow> impact_row \<Rightarrow> bool" where
  "impact_le a b \<longleftrightarrow> im_ref b = im_ref a \<and> im_opened_at b = im_opened_at a"

definition evidence_le :: "evidence_row \<Rightarrow> evidence_row \<Rightarrow> bool" where
  "evidence_le a b \<longleftrightarrow> ev_ref b = ev_ref a \<and> ev_identity b = ev_identity a \<and>
     ev_connector_id b = ev_connector_id a \<and> ev_source_id b = ev_source_id a \<and>
     ev_opened_at b = ev_opened_at a \<and>
     (\<not> ev_active a \<longrightarrow> \<not> ev_active b \<and> ev_resolved_at b = ev_resolved_at a) \<and>
     (ev_invalidated_at a \<noteq> None \<longrightarrow> ev_invalidated_at b = ev_invalidated_at a \<and>
        ev_invalidated_by b = ev_invalidated_by a \<and> ev_invalidation_reason b = ev_invalidation_reason a)"

definition evolves :: "db \<Rightarrow> db \<Rightarrow> bool" where
  "evolves s s' \<longleftrightarrow> grows incident_le (incidents s) (incidents s') \<and> grows impact_le (impacts s) (impacts s') \<and>
     grows evidence_le (evidence s) (evidence s') \<and> (\<exists>rows. activity s' = activity s @ rows)"

lemma le_refl [simp]: "incident_le r r" "impact_le m m" "evidence_le e e"
  by (simp_all add: incident_le_def impact_le_def evidence_le_def)

lemma incident_le_trans: "incident_le a b \<Longrightarrow> incident_le b c \<Longrightarrow> incident_le a c"
  unfolding incident_le_def by auto

lemma impact_le_trans: "impact_le a b \<Longrightarrow> impact_le b c \<Longrightarrow> impact_le a c"
  by (simp add: impact_le_def)

lemma evidence_le_trans: "evidence_le a b \<Longrightarrow> evidence_le b c \<Longrightarrow> evidence_le a c"
  unfolding evidence_le_def by auto

lemma evolves_refl [simp]: "evolves s s"
  by (simp add: evolves_def grows_refl)

lemma evolves_trans: "evolves s s' \<Longrightarrow> evolves s' s'' \<Longrightarrow> evolves s s''"
  unfolding evolves_def
  by (auto intro: grows_trans [OF incident_le_trans] grows_trans [OF impact_le_trans]
      grows_trans [OF evidence_le_trans])

lemma evolves_incidents:
  "(\<And>r. r \<in> set (incidents s) \<Longrightarrow> P r \<Longrightarrow> incident_le r (g r)) \<Longrightarrow>
    evolves s (s\<lparr>incidents := update_where P g (incidents s)\<rparr>)"
  by (simp add: evolves_def grows_refl grows_update)

lemma evolves_impacts:
  "(\<And>r. r \<in> set (impacts s) \<Longrightarrow> P r \<Longrightarrow> impact_le r (g r)) \<Longrightarrow>
    evolves s (s\<lparr>impacts := update_where P g (impacts s)\<rparr>)"
  by (simp add: evolves_def grows_refl grows_update)

lemma evolves_evidence:
  "(\<And>r. r \<in> set (evidence s) \<Longrightarrow> P r \<Longrightarrow> evidence_le r (g r)) \<Longrightarrow>
    evolves s (s\<lparr>evidence := update_where P g (evidence s)\<rparr>)"
  by (simp add: evolves_def grows_refl grows_update)

lemma evolves_activity [simp]: "evolves s (appendActivity i m v k og a msg dt s)"
  by (simp add: evolves_def grows_refl appendActivity_def)

lemma evolves_then_activity: "evolves s s' \<Longrightarrow> evolves s (appendActivity i m v k og a msg dt s')"
  by (erule evolves_trans) simp

lemmas le_defs = incident_le_def impact_le_def evidence_le_def im_ref_def ev_ref_def ev_identity_def

subsection \<open>Statements\<close>

lemma evolves_recomputeAcknowledgement: "evolves s (recomputeAcknowledgement i s)"
  unfolding recomputeAcknowledgement_def Let_def split_beta
  by (rule evolves_incidents) (simp add: le_defs)

lemma evolves_refreshIncidentPresentation: "evolves s (refreshIncidentPresentation i b s)"
  unfolding refreshIncidentPresentation_def Let_def by (rule evolves_incidents) (simp add: le_defs)

lemma evolves_acknowledgeFromEvidence: "evolves s (acknowledgeFromEvidence i v t s)"
proof -
  have "evolves s (acknowledge_upstream i v t s)"
    unfolding acknowledge_upstream_def Let_def by (rule evolves_incidents) (simp add: le_defs)
  moreover have "evolves s' (inherit_upstream i v t s')" for s'
    unfolding inherit_upstream_def by (rule evolves_evidence) (simp add: le_defs Let_def)
  ultimately have "evolves s (inherit_upstream i v t (acknowledge_upstream i v t s))" by (blast intro: evolves_trans)
  then show ?thesis unfolding acknowledgeFromEvidence_def
    by (auto intro: evolves_trans [OF _ evolves_recomputeAcknowledgement] evolves_then_activity)
qed

lemma evolves_inherit_acknowledgement: "evolves s (inherit_acknowledgement i v s)"
proof -
  have "evolves s (queue_inherited v s)"
    unfolding queue_inherited_def by (rule evolves_evidence) (simp add: le_defs)
  moreover have "evolves s' (queue_incident i s')" for s'
    unfolding queue_incident_def by (rule evolves_incidents) (simp add: le_defs)
  ultimately show ?thesis unfolding inherit_acknowledgement_def by (auto intro: evolves_trans)
qed

lemma evolves_resolveEvidenceRow: "evolves s (resolveEvidenceRow v i m n og t s)"
  unfolding resolveEvidenceRow_def
  by (rule evolves_then_activity, rule evolves_evidence) (simp add: le_defs)

lemma evolves_touch_evidence: "evolves s (touch_evidence v t s)"
  unfolding touch_evidence_def by (rule evolves_evidence) (simp add: le_defs)

lemma evolves_refresh_evidence: "evolves s (refresh_evidence v f t s)"
  unfolding refresh_evidence_def by (rule evolves_evidence) (simp add: le_defs refresh_row_def Let_def)

lemma evolves_rearmRecoveredEvidence: "evolves s (rearmRecoveredEvidence sn seen t s)"
proof -
  have "evolves s (fold (\<lambda>r. rearm_row (ev_id r) t) cs s)" for cs
  proof (induction cs arbitrary: s)
    case (Cons c cs)
    have "evolves s (rearm_row (ev_id c) t s)"
      unfolding rearm_row_def by (rule evolves_evidence) (simp add: le_defs)
    then show ?case using Cons.IH by (auto intro: evolves_trans)
  qed simp
  then show ?thesis by (simp add: rearmRecoveredEvidence_def)
qed

lemma evolves_recomputeImpact: "evolves s (snd (recomputeImpact m t s))"
proof -
  have "evolves s (write_impact m st sev rt s)" for st sev rt
    unfolding write_impact_def by (rule evolves_impacts) (simp add: le_defs)
  then show ?thesis by (simp add: recomputeImpact_def evolves_then_activity split: option.split)
qed

lemma evolves_journal_incident: "evolves s (journal_incident prev d s)"
  unfolding journal_incident_def Let_def by (auto intro!: evolves_then_activity)

lemma evolves_recomputeIncident:
  assumes "cycle_inv s"
  shows "evolves s (snd (recomputeIncident i t s))"
proof (cases "incident_by_id s i")
  case (Some prev)
  note p = incident_by_id_Some [OF Some]
  define d where "d = derive_incident prev t s"
  define s0 where "s0 = refreshIncidentPresentation i (dv_active d = 0) s"
  have "evolves s0 (write_incident prev d t s0)"
    unfolding write_incident_def
  proof (rule evolves_incidents)
    fix r assume "r \<in> set (incidents s0)" and "in_id r = in_id prev"
    then obtain k where "r = prev\<lparr>in_alert_kind := k\<rparr>"
      using refreshed_row [OF assms conjunct1 [OF p], of r i "dv_active d = 0"] p by (auto simp: s0_def)
    then show "incident_le r (written_row prev d t (clock s0) r)"
      by (auto simp: incident_le_def written_row_def d_def derive_incident_def Let_def)
  qed
  moreover have "evolves s s0" unfolding s0_def by (rule evolves_refreshIncidentPresentation)
  ultimately have "evolves s (if incident_changed prev d then journal_incident prev d (write_incident prev d t s0) else s0)"
    by (auto intro: evolves_trans [OF _ evolves_journal_incident] evolves_trans)
  then have "evolves s (recomputeAcknowledgement i (if incident_changed prev d then journal_incident prev d (write_incident prev d t s0) else s0))"
    by (rule evolves_trans) (rule evolves_recomputeAcknowledgement)
  then show ?thesis using Some unfolding s0_def d_def by (auto simp: recomputeIncident_def Let_def)
qed (simp add: recomputeIncident_def)

subsection \<open>The Impact of a fact\<close>

lemma evolves_extendPropagation: "evolves s (extendPropagation i t w s)"
  unfolding extendPropagation_def by (rule evolves_incidents) (simp add: le_defs Let_def)

lemma evolves_reopen_impact: "evolves s (reopen_impact m sev s)"
  unfolding reopen_impact_def by (rule evolves_impacts) (simp add: le_defs)

lemma evolves_inserts:
  "evolves s (insert_impact i f s)" "evolves s (insert_incident f w t s)"
  "evolves s (insert_evidence i m f t s)"
  by (simp_all add: evolves_def grows_refl grows_append insert_impact_def insert_incident_def
      insert_evidence_def Let_def)

lemma evolves_resume: "evolves s (snd (resumeRecentIncident f t s))"
proof -
  have upd: "evolves s1 (s1\<lparr>incidents := update_where P (\<lambda>r. r\<lparr>in_resumption_count := in_resumption_count r + 1,
      in_resumed_at := x, in_revision := in_revision r + 1, in_updated_at := y\<rparr>) (incidents s1)\<rparr>)" for s1 P x y
    by (rule evolves_incidents) (simp add: le_defs)
  show ?thesis unfolding resumeRecentIncident_def Let_def
    by (auto split: option.split intro!: evolves_then_activity evolves_trans [OF evolves_reopen_impact upd])
qed

lemma evolves_ensureImpact: "evolves s (snd (ensureImpact f t s))"
proof -
  have "evolves s (snd (join_propagation f w inc s))" for w inc
    unfolding join_propagation_def
    by (auto split: option.split intro!: evolves_trans [OF _ evolves_extendPropagation] evolves_then_activity
        intro: evolves_reopen_impact evolves_inserts)
  moreover have "evolves x (snd (open_incident f w t x))" for w x
    unfolding open_incident_def Let_def by (auto intro: evolves_trans evolves_inserts)
  moreover from this have "evolves s (snd (open_incident f w t (snd (resumeRecentIncident f t s))))" for w
    by (rule evolves_trans [OF evolves_resume])
  ultimately show ?thesis
    using evolves_resume [of s f t] unfolding ensureImpact_def Let_def
    by (auto split: option.split prod.split simp: split_beta)
qed

lemma evolves_add_evidence: "evolves s (add_evidence f t e s)"
  unfolding add_evidence_def Let_def
  by (auto intro!: evolves_trans [OF _ evolves_acknowledgeFromEvidence]
      evolves_trans [OF _ evolves_inherit_acknowledgement] evolves_then_activity evolves_inserts)

lemma evolves_open_evidence: "evolves s (snd (open_evidence f t s))"
  using evolves_ensureImpact [of s f t]
  by (auto simp: open_evidence_unfold evolves_touch_evidence split: option.split prod.splits sum.splits
      intro: evolves_trans [OF _ evolves_add_evidence])

lemma evolves_applyEvidenceFact:
  assumes "cycle_inv s"
  shows "evolves s (snd (applyEvidenceFact f t s))"
proof -
  have "evolves s (snd (thenT (execT (resolveEvidenceRow v i m n og t)) (thenT (recomputeImpact m t)
      (thenT (recomputeIncident i t) (open_evidence f t))) s))" for v i m n og
  proof (intro inv_thenT [where P = "evolves s"])
    let ?s1 = "resolveEvidenceRow v i m n og t s"
    show "evolves s (snd (execT (resolveEvidenceRow v i m n og t) s))" by (simp add: execT_def evolves_resolveEvidenceRow)
    fix a s1 assume "execT (resolveEvidenceRow v i m n og t) s = (Inr a, s1)"
    then have s1: "evolves s s1" "cycle_inv s1"
      using assms by (auto simp: execT_def evolves_resolveEvidenceRow inv_resolveEvidenceRow)
    then show two: "evolves s (snd (recomputeImpact m t s1))" by (auto intro: evolves_trans evolves_recomputeImpact)
    fix b s2 assume "recomputeImpact m t s1 = (Inr b, s2)"
    then have s2: "evolves s s2" "cycle_inv s2" using two inv_recomputeImpact [OF s1(2), of m t] by auto
    then show three: "evolves s (snd (recomputeIncident i t s2))" by (auto intro: evolves_trans evolves_recomputeIncident)
    fix c s3 assume "recomputeIncident i t s2 = (Inr c, s3)"
    with three show "evolves s (snd (open_evidence f t s3))" by (auto intro: evolves_trans evolves_open_evidence)
  qed
  then show ?thesis unfolding applyEvidenceFact_def Let_def
    by (auto simp: evolves_open_evidence evolves_touch_evidence evolves_refresh_evidence split: option.split
        intro: evolves_trans [OF evolves_refresh_evidence evolves_acknowledgeFromEvidence])
qed

subsection \<open>Every operation\<close>

lemma evolves_rearm_native: "evolves s (rearm_native src t s)"
  unfolding rearm_native_def by (rule evolves_evidence) (simp add: le_defs)

lemma evolves_persist_streaks: "evolves s (persist_streaks src k s)"
  by (simp add: persist_streaks_def evolves_def grows_refl)

lemma evolves_queue_acknowledgements: "evolves s (queue_acknowledgements i s)"
  unfolding queue_acknowledgements_def by (rule evolves_evidence) (simp add: le_defs Let_def)

lemma evolves_complete_row: "evolves s (complete_row i res s)"
proof -
  have "evolves s (record_result i res s)"
    unfolding record_result_def Let_def by (rule evolves_evidence) (simp add: le_defs)
  then show ?thesis unfolding complete_row_def by (auto intro: evolves_then_activity)
qed

lemma evolves_invalidate_row:
  assumes "cycle_inv s" and "find (\<lambda>r. ev_id r = v \<and> ev_incident_id r = i \<and> ev_active r) (evidence s) = Some e"
  shows "evolves s (invalidate_row v a reason s)"
  unfolding invalidate_row_def
proof (rule evolves_evidence)
  fix r assume r: "r \<in> set (evidence s)" "ev_id r = v"
  have e: "e \<in> set (evidence s)" "ev_id e = v" "ev_active e" using find_SomeD [OF assms(2)] by auto
  then have "r = e" using evidence_id_unique [OF assms(1)] r by simp
  moreover have "ev_invalidated_at e = None" using rows_okD(3) [OF assms(1) e(1)] e(3) by (auto simp: evidence_ok_def)
  ultimately show "evidence_le r (r\<lparr>ev_active := False, ev_resolved_at := Some (clock s), ev_invalidated_at := Some (clock s),
      ev_invalidated_by := Some a, ev_invalidation_reason := reason, ev_updated_at := clock s\<rparr>)"
    using e(3) by (simp add: le_defs)
qed

lemma evolves_acknowledge_incident:
  assumes "cycle_inv s" and "incident_by_id s i = Some inc" and "in_acknowledged_at inc = None"
  shows "evolves s (acknowledge_incident i a st s)"
  unfolding acknowledge_incident_def
proof (rule evolves_incidents)
  fix r assume "r \<in> set (incidents s)" and "in_id r = i"
  then have "in_acknowledged_at r = None" using assms incident_by_id_the [OF assms(1)] by fastforce
  then show "incident_le r (r\<lparr>in_acknowledged_at := Some (clock s), in_acknowledged_by := Some a,
      in_acknowledgement_origin := Some AckUser, in_ack_sync_status := st, in_ack_sync_error := '''',
      in_revision := in_revision r + 1, in_updated_at := clock s\<rparr>)"
    by (simp add: le_defs)
qed

interpretation growth: cycle_kept "\<lambda>s s'. cycle_inv s \<longrightarrow> cycle_inv s' \<and> evolves s s'"
proof unfold_locales
  show "\<And>s s' s''. cycle_inv s \<longrightarrow> cycle_inv s' \<and> evolves s s' \<Longrightarrow> cycle_inv s' \<longrightarrow> cycle_inv s'' \<and> evolves s' s'' \<Longrightarrow>
      cycle_inv s \<longrightarrow> cycle_inv s'' \<and> evolves s s''"
    by (blast intro: evolves_trans)
qed (simp_all add: inv_applyEvidenceFact evolves_applyEvidenceFact inv_resolveEvidenceRow evolves_resolveEvidenceRow
    inv_rearmRecoveredEvidence evolves_rearmRecoveredEvidence inv_recomputeImpact evolves_recomputeImpact
    inv_recomputeIncident evolves_recomputeIncident inv_rearm_native evolves_rearm_native
    inv_persist_streaks evolves_persist_streaks inv_invalidate_row evolves_invalidate_row
    inv_acknowledge_incident evolves_acknowledge_incident inv_queue_acknowledgements
    evolves_queue_acknowledgements inv_complete_row evolves_complete_row inv_recomputeAcknowledgement
    evolves_recomputeAcknowledgement)

end
