(* ===== verification/Incident_History.thy ===== *)
theory Incident_History
  imports Incident_Growth
begin

text \<open>
  The histories of the cycle: a step is one committed or rolled back transaction of any caller,
  in any order, or a change made by another component to the tables the cycle only reads. The
  invariant, the agreement of the derived rows and the growth of the tables are properties of
  every history that starts from an empty installation.
\<close>

inductive cycle_step :: "db \<Rightarrow> db \<Rightarrow> bool" where
  snapshot: "cycle_step s (snd (ApplyEvidenceSnapshot now sn s))"
| webhook: "cycle_step s (snd (ApplyWebhook now signal s))"
| resolve: "cycle_step s (snd (ResolveEvidence now origin scope key observedAt s))"
| native: "cycle_step s (snd (commit_or_rollback (ApplyNativeObservation now ob) s))"
| archive: "cycle_step s (snd (commit_or_rollback (ResolveForArchivedTarget now target) s))"
| source_removal: "cycle_step s (snd (commit_or_rollback (ResolveForSourceRemoval now source) s))"
| connector_removal: "cycle_step s (snd (commit_or_rollback (ResolveForConnectorRemoval now connector) s))"
| advance: "cycle_step s (snd (Advance now observedAt s))"
| invalidate: "cycle_step s (snd (InvalidateEvidence now1 now2 incident ev actor name reason s))"
| acknowledge: "cycle_step s (snd (AcknowledgeLocal incident actor name s))"
| complete: "cycle_step s (snd (CompleteAcknowledgement incident results s))"
| elsewhere: "cycle_step s (s\<lparr>clock := c, targets := ts, connectors := cs, sources := ss, observations := os\<rparr>)"

definition initial :: "db \<Rightarrow> bool" where
  "initial s \<longleftrightarrow> env_ok s \<and> incidents s = [] \<and> impacts s = [] \<and> evidence s = [] \<and> activity s = []"

lemma initial_agrees: "initial s \<Longrightarrow> agrees s"
  by (simp add: initial_def agrees_def cycle_inv_def env_ok_def shape_ok_def shape_of_def
      active_identities_def rows_ok_def clean_def)

lemma invisible_elsewhere:
  "invisible s (s\<lparr>clock := c, targets := ts, connectors := cs, sources := ss, observations := os\<rparr>)"
  by (rule invisible_cong) simp_all

lemma inv_elsewhere:
  "cycle_inv (s\<lparr>clock := c, targets := ts, connectors := cs, sources := ss, observations := os\<rparr>) \<longleftrightarrow> cycle_inv s"
  by (simp add: cycle_inv_def shape_of_def active_identities_def rows_ok_def)

lemma agrees_elsewhere:
  "agrees s \<Longrightarrow> agrees (s\<lparr>clock := c, targets := ts, connectors := cs, sources := ss, observations := os\<rparr>)"
  unfolding agrees_def inv_elsewhere using clean_invisible [OF invisible_elsewhere] by blast

text \<open>An operation that owns its transaction leaves the database as it was when it fails.\<close>

lemma commit_rolls_back: "commit_or_rollback m s = (Inl e, s') \<Longrightarrow> s' = s"
  by (auto simp: commit_or_rollback_def split: prod.splits sum.splits)

lemma agrees_run:
  assumes "keeps_agreement m" and "\<And>e s'. m s = (Inl e, s') \<Longrightarrow> s' = s" and "agrees s"
  shows "agrees (snd (m s))"
proof (cases "m s")
  case (Pair r s')
  with assms show ?thesis by (cases r) (auto simp: keeps_agreement_def)
qed

lemma rolls_back_webhook: "ApplyWebhook now signal s = (Inl e, s') \<Longrightarrow> s' = s"
  unfolding ApplyWebhook_def ApplyEvidenceSnapshot_def ResolveEvidence_def Let_def failT_def
  by (auto dest: commit_rolls_back split: if_splits)

lemma rolls_back_invalidate: "InvalidateEvidence now1 now2 i v a an reason s = (Inl e, s') \<Longrightarrow> s' = s"
  unfolding InvalidateEvidence_def store_InvalidateEvidence_def Let_def failT_def
  by (auto dest: commit_rolls_back split: if_splits)

lemma agrees_step:
  assumes "cycle_step s s'" and "agrees s"
  shows "agrees s'"
  using assms
proof (cases rule: cycle_step.cases)
  case (snapshot now sn)
  show ?thesis unfolding snapshot
    by (rule agrees_run [OF keeps_ApplyEvidenceSnapshot _ assms(2)])
      (simp add: ApplyEvidenceSnapshot_def Let_def commit_rolls_back)
next
  case (webhook now signal)
  show ?thesis unfolding webhook
    by (rule agrees_run [OF keeps_ApplyWebhook rolls_back_webhook assms(2)])
next
  case (resolve now origin scope key t)
  show ?thesis unfolding resolve
    by (rule agrees_run [OF keeps_ResolveEvidence _ assms(2)]) (simp add: ResolveEvidence_def commit_rolls_back)
next
  case (advance now t)
  show ?thesis unfolding advance
    by (rule agrees_run [OF keeps_Advance _ assms(2)]) (simp add: Advance_def commit_rolls_back)
next
  case (invalidate now1 now2 i v a an reason)
  show ?thesis unfolding invalidate
    by (rule agrees_run [OF keeps_InvalidateEvidence rolls_back_invalidate assms(2)])
next
  case (acknowledge i a an)
  show ?thesis unfolding acknowledge
    by (rule agrees_run [OF keeps_AcknowledgeLocal _ assms(2)]) (simp add: AcknowledgeLocal_def commit_rolls_back)
next
  case (complete i results)
  show ?thesis unfolding complete
    by (rule agrees_run [OF keeps_CompleteAcknowledgement _ assms(2)])
      (simp add: CompleteAcknowledgement_def commit_rolls_back)
qed (use assms(2) in \<open>auto intro: agrees_commit agrees_elsewhere keeps_ApplyNativeObservation
  keeps_ResolveForArchivedTarget keeps_ResolveForSourceRemoval keeps_ResolveForConnectorRemoval\<close>)

lemma agrees_history: "cycle_step\<^sup>*\<^sup>* s s' \<Longrightarrow> agrees s \<Longrightarrow> agrees s'"
  by (induction rule: rtranclp_induct) (auto intro: agrees_step)

lemma growth_step:
  assumes "cycle_step s s'" and inv: "cycle_inv s"
  shows "cycle_inv s' \<and> evolves s s'"
  using assms
proof (cases rule: cycle_step.cases)
  case elsewhere
  then show ?thesis using inv by (simp add: evolves_def grows_refl inv_elsewhere)
qed (use inv in \<open>simp_all only: growth.kept_ApplyEvidenceSnapshot [THEN mp] growth.kept_ApplyWebhook [THEN mp]
  growth.kept_ResolveEvidence [THEN mp] growth.kept_commit [OF growth.kept_ApplyNativeObservation, THEN mp]
  growth.kept_commit [OF growth.kept_ResolveForArchivedTarget, THEN mp]
  growth.kept_commit [OF growth.kept_ResolveForSourceRemoval, THEN mp]
  growth.kept_commit [OF growth.kept_ResolveForConnectorRemoval, THEN mp] growth.kept_Advance [THEN mp]
  growth.kept_InvalidateEvidence [THEN mp] growth.kept_AcknowledgeLocal [THEN mp]
  growth.kept_CompleteAcknowledgement [THEN mp]\<close>)

lemma growth_history: "cycle_step\<^sup>*\<^sup>* s s' \<Longrightarrow> cycle_inv s \<Longrightarrow> cycle_inv s' \<and> evolves s s'"
proof (induction rule: rtranclp_induct)
  case (step y z)
  then show ?case using growth_step [of y z] evolves_trans by blast
qed simp

end
