(* ===== verification/Incident_Snapshot.thy ===== *)
theory Incident_Snapshot
  imports Incident_Growth
begin

text \<open>
  What a snapshot does to each identity. A fact only touches the Proofs of its own identity, so
  the loop of \<open>ApplyEvidenceSnapshot\<close> can be read identity by identity: a Proof whose identity
  the snapshot does not name is resolved when the snapshot observed its scope and left alone
  otherwise, one it names is active afterwards, and one a user invalidated stays silent for as
  long as its signal lasts.
\<close>

subsection \<open>Proofs outside a set of identities\<close>

definition same_proof :: "evidence_row \<Rightarrow> evidence_row \<Rightarrow> bool" where
  "same_proof a b \<longleftrightarrow> ev_id b = ev_id a \<and> ev_identity b = ev_identity a \<and>
     ev_connector_id b = ev_connector_id a \<and> ev_invalidated_at b = ev_invalidated_at a"

definition same_state :: "evidence_row \<Rightarrow> evidence_row \<Rightarrow> bool" where
  "same_state a b \<longleftrightarrow> ev_active b = ev_active a \<and> ev_resolved_at b = ev_resolved_at a \<and>
     ev_severity b = ev_severity a \<and> ev_target_id b = ev_target_id a \<and> ev_name b = ev_name a"

definition spared :: "string set \<Rightarrow> evidence_row \<Rightarrow> evidence_row \<Rightarrow> bool" where
  "spared J a b \<longleftrightarrow> same_proof a b \<and> ev_rearmed_at b = ev_rearmed_at a \<and>
     (row_identity a \<notin> J \<longrightarrow> same_state a b)"

definition spares :: "string set \<Rightarrow> db \<Rightarrow> db \<Rightarrow> bool" where
  "spares J s s' \<longleftrightarrow> grows (spared J) (evidence s) (evidence s') \<and>
     (\<forall>r \<in> set (drop (length (evidence s)) (evidence s')). ev_invalidated_at r = None \<and> row_identity r \<in> J)"

lemmas spare_defs = spared_def same_proof_def same_state_def ev_identity_def row_identity_def

lemma row_identity_same: "same_proof a b \<Longrightarrow> row_identity b = row_identity a"
  by (simp add: spare_defs)

lemma same_proof_trans: "same_proof a b \<Longrightarrow> same_proof b c \<Longrightarrow> same_proof a c"
  by (simp add: same_proof_def)

lemma spared_refl [simp]: "spared J a a"
  by (simp add: spared_def same_proof_def same_state_def)

lemma spared_trans: "spared J a b \<Longrightarrow> spared J b c \<Longrightarrow> spared J a c"
  by (auto simp: spared_def same_state_def row_identity_same intro: same_proof_trans)

lemma spared_mono: "spared J a b \<Longrightarrow> J \<subseteq> K \<Longrightarrow> spared K a b"
  by (auto simp: spared_def)

lemma spares_same: "evidence s' = evidence s \<Longrightarrow> spares J s s'"
  by (simp add: spares_def grows_refl)

lemma spares_refl [simp]: "spares J s s"
  by (simp add: spares_same)

lemma spares_mono: "spares J s s' \<Longrightarrow> J \<subseteq> K \<Longrightarrow> spares K s s'"
  unfolding spares_def grows_def by (auto intro: spared_mono)

lemma nth_in_drop: "n \<le> k \<Longrightarrow> k < length xs \<Longrightarrow> xs ! k \<in> set (drop n xs)"
  using nth_mem [of "k - n" "drop n xs"] by simp

lemma in_dropE:
  assumes "x \<in> set (drop n xs)"
  obtains k where "n \<le> k" and "k < length xs" and "x = xs ! k"
proof -
  from assms obtain j where "j < length xs - n" and "x = drop n xs ! j" by (auto simp: in_set_conv_nth)
  then show thesis using that [of "n + j"] by simp
qed

lemma spares_trans:
  assumes "spares J s s'" and "spares J s' s''"
  shows "spares J s s''"
  unfolding spares_def
proof
  show "grows (spared J) (evidence s) (evidence s'')"
    using assms by (auto simp: spares_def intro: grows_trans [OF spared_trans])
  show "\<forall>r \<in> set (drop (length (evidence s)) (evidence s'')). ev_invalidated_at r = None \<and> row_identity r \<in> J"
  proof
    fix r assume "r \<in> set (drop (length (evidence s)) (evidence s''))"
    then obtain k where k: "length (evidence s) \<le> k" "k < length (evidence s'')" "r = evidence s'' ! k"
      by (rule in_dropE)
    show "ev_invalidated_at r = None \<and> row_identity r \<in> J"
    proof (cases "k < length (evidence s')")
      case True
      then have "evidence s' ! k \<in> set (drop (length (evidence s)) (evidence s'))"
        using k(1) by (simp add: nth_in_drop)
      then have old: "ev_invalidated_at (evidence s' ! k) = None \<and> row_identity (evidence s' ! k) \<in> J"
        using assms(1) by (simp add: spares_def)
      have same: "same_proof (evidence s' ! k) r"
        using assms(2) True k(3) by (simp add: spares_def grows_def spared_def)
      show ?thesis using old row_identity_same [OF same] same by (simp add: same_proof_def)
    next
      case False
      then have "r \<in> set (drop (length (evidence s')) (evidence s''))"
        using k by (simp add: nth_in_drop)
      then show ?thesis using assms(2) by (simp add: spares_def)
    qed
  qed
qed

lemma spares_update:
  "(\<And>r. r \<in> set (evidence s) \<Longrightarrow> P r \<Longrightarrow> spared J r (g r)) \<Longrightarrow>
    spares J s (s\<lparr>evidence := update_where P g (evidence s)\<rparr>)"
  by (simp add: spares_def grows_update)

lemma spares_then_same: "spares J s s' \<Longrightarrow> evidence s'' = evidence s' \<Longrightarrow> spares J s s''"
  by (auto intro: spares_trans spares_same)

lemma spares_activity: "spares J s s' \<Longrightarrow> spares J s (appendActivity i m v k og a msg dt s')"
  by (rule spares_then_same) simp_all

lemma recomputed_evidence:
  "recomputeImpact m t s = (x, s') \<Longrightarrow> evidence s' = evidence s"
  "recomputeIncident i t s = (y, s') \<Longrightarrow> evidence s' = evidence s"
  using recompute_frame(1) [of m t s] recompute_frame(2) [of i t s] by simp_all

lemma spares_row:
  assumes "spares J s s'" and "r \<in> set (evidence s)"
  shows "\<exists>r' \<in> set (evidence s'). spared J r r'"
  using assms grows_mem [of "spared J"] by (auto simp: spares_def)

text \<open>Where a row of the later state comes from.\<close>

lemma spares_origin:
  assumes "spares J s s'" and "r' \<in> set (evidence s')"
  shows "(\<exists>r \<in> set (evidence s). spared J r r') \<or> ev_invalidated_at r' = None \<and> row_identity r' \<in> J"
proof -
  from assms(2) obtain k where k: "k < length (evidence s')" "r' = evidence s' ! k" by (auto simp: in_set_conv_nth)
  show ?thesis
  proof (cases "k < length (evidence s)")
    case True
    then show ?thesis using assms(1) k by (auto simp: spares_def grows_def)
  next
    case False
    then have "r' \<in> set (drop (length (evidence s)) (evidence s'))"
      using k by (simp add: nth_in_drop)
    then show ?thesis using assms(1) by (simp add: spares_def)
  qed
qed

subsection \<open>A fact touches its identity only\<close>

lemma spares_acknowledgeFromEvidence: "spares J s (acknowledgeFromEvidence i v t s)"
proof -
  have "spares J s1 (inherit_upstream i v t s1)" for s1
    unfolding inherit_upstream_def by (rule spares_update) (simp add: spare_defs Let_def)
  moreover have "evidence (acknowledge_upstream i v t s) = evidence s" by (simp add: acknowledge_upstream_def Let_def)
  ultimately have "spares J s (inherit_upstream i v t (acknowledge_upstream i v t s))"
    using spares_same spares_trans by blast
  then show ?thesis
    by (auto simp: acknowledgeFromEvidence_def intro: spares_then_same spares_same)
qed

lemma spares_inherit_acknowledgement: "spares J s (inherit_acknowledgement i v s)"
proof -
  have "spares J s (queue_inherited v s)"
    unfolding queue_inherited_def by (rule spares_update) (simp add: spare_defs)
  then show ?thesis
    by (auto simp: inherit_acknowledgement_def queue_incident_def intro: spares_then_same)
qed

lemma spares_touch_evidence: "spares J s (touch_evidence v t s)"
  unfolding touch_evidence_def by (rule spares_update) (simp add: spare_defs)

abbreviation fact_key :: "EvidenceFact \<Rightarrow> string" where
  "fact_key f \<equiv> identity (fa_IdentityScope f) (fa_IdentityKey f)"

lemma fact_identity_key: "fact_identity f r \<Longrightarrow> row_identity r = fact_key f"
  by (simp add: same_identity_def row_identity_def)

lemma spares_resolveEvidenceRow:
  assumes "cycle_inv s" and "e \<in> set (evidence s)" and "row_identity e \<in> J"
  shows "spares J s (resolveEvidenceRow (ev_id e) i m n og t s)"
proof -
  have "spares J s (s\<lparr>evidence := update_where (\<lambda>r. ev_id r = ev_id e \<and> ev_active r)
      (\<lambda>r. r\<lparr>ev_active := False, ev_resolved_at := Some t, ev_last_seen_at := t, ev_updated_at := clock s\<rparr>) (evidence s)\<rparr>)"
  proof (rule spares_update)
    fix r assume "r \<in> set (evidence s)" and "ev_id r = ev_id e \<and> ev_active r"
    then have "row_identity r \<in> J" using evidence_id_unique [OF assms(1,2), of r] assms(3) by simp
    then show "spared J r (r\<lparr>ev_active := False, ev_resolved_at := Some t, ev_last_seen_at := t, ev_updated_at := clock s\<rparr>)"
      by (simp add: spare_defs)
  qed
  then show ?thesis unfolding resolveEvidenceRow_def by (rule spares_then_same) simp
qed

lemma spares_refresh_evidence:
  assumes "cycle_inv s" and "e \<in> set (evidence s)" and "row_identity e \<in> J"
  shows "spares J s (refresh_evidence (ev_id e) f t s)"
  unfolding refresh_evidence_def
proof (rule spares_update)
  fix r assume "r \<in> set (evidence s)" and "ev_id r = ev_id e"
  then have "row_identity r \<in> J" using evidence_id_unique [OF assms(1,2), of r] assms(3) by simp
  then show "spared J r (refresh_row f t s r)" by (simp add: spare_defs refresh_row_def Let_def)
qed

lemma ensureImpact_evidence: "evidence (snd (ensureImpact f t s)) = evidence s"
proof -
  have resume: "evidence (snd (resumeRecentIncident f t s)) = evidence s"
    by (auto simp: resumeRecentIncident_def Let_def split: option.split)
  moreover have "evidence (snd (join_propagation f w inc s)) = evidence s" for w inc
    by (auto simp: join_propagation_def split: option.split)
  moreover have "evidence (snd (open_incident f w t s1)) = evidence s1" for w s1
    by (auto simp: open_incident_def Let_def)
  ultimately show ?thesis unfolding ensureImpact_def Let_def
    by (auto split: option.split prod.split simp: split_beta)
qed

lemma spares_add_evidence: "spares {fact_key f} s (add_evidence f t e s)"
proof -
  have "spares {fact_key f} s (insert_evidence i m f t s)" for i m
    by (simp add: spares_def insert_evidence_def grows_append row_identity_def)
  then show ?thesis unfolding add_evidence_def Let_def
    by (auto intro!: spares_trans [OF _ spares_acknowledgeFromEvidence]
        spares_trans [OF _ spares_inherit_acknowledgement] spares_activity)
qed

lemma spares_open_evidence: "spares {fact_key f} s (snd (open_evidence f t s))"
  using ensureImpact_evidence [of f t s]
  by (auto simp: open_evidence_unfold spares_touch_evidence split: option.split prod.splits sum.splits
      intro: spares_same spares_trans [OF spares_same spares_add_evidence])

lemma spares_applyEvidenceFact:
  assumes "cycle_inv s"
  shows "spares {fact_key f} s (snd (applyEvidenceFact f t s))"
proof (cases "existing_evidence f s")
  case None
  then show ?thesis by (simp add: applyEvidenceFact_def spares_open_evidence)
next
  case (Some p)
  obtain r k where p: "p = (r, k)" by (cases p)
  note ex = existing_evidence_Some [OF Some [unfolded p]]
  have key: "row_identity r \<in> {fact_key f}" using fact_identity_key [OF ex(2)] by simp
  have "spares {fact_key f} s (snd (thenT (execT (resolveEvidenceRow (ev_id r) i m n og t)) (thenT (recomputeImpact m t)
      (thenT (recomputeIncident i t) (open_evidence f t))) s))" for i m n og
  proof -
    define s1 where "s1 = resolveEvidenceRow (ev_id r) i m n og t s"
    have s1: "spares {fact_key f} s s1" unfolding s1_def by (rule spares_resolveEvidenceRow [OF assms ex(1) key])
    have "spares {fact_key f} s (snd (thenT (recomputeImpact m t) (thenT (recomputeIncident i t) (open_evidence f t)) s1))"
      by (intro inv_thenT [where P = "spares {fact_key f} s"] spares_trans [OF _ spares_open_evidence])
        (use s1 in \<open>auto dest!: recomputed_evidence intro: spares_then_same\<close>)
    then show ?thesis by (simp add: thenT_def bindT_def execT_def s1_def)
  qed
  then show ?thesis using Some p spares_refresh_evidence [OF assms ex(1) key]
    by (auto simp: applyEvidenceFact_def Let_def spares_touch_evidence
        intro: spares_trans [OF _ spares_acknowledgeFromEvidence])
qed

subsection \<open>The cycle writes its own tables\<close>

text \<open>The resources, the Connectors and the observations belong to other components: no
  operation of the cycle writes them, and of a source it only writes the streaks.\<close>

definition source_core :: "source_row \<Rightarrow> source_row" where
  "source_core r = r\<lparr>so_consecutive_unhealthy := 0, so_consecutive_healthy := 0\<rparr>"

definition elsewhere_kept :: "db \<Rightarrow> db \<Rightarrow> bool" where
  "elsewhere_kept s s' \<longleftrightarrow> targets s' = targets s \<and> connectors s' = connectors s \<and>
     map source_core (sources s') = map source_core (sources s) \<and> observations s' = observations s \<and> clock s' = clock s \<and> map_order s' = map_order s"

lemma elsewhere_refl [simp]: "elsewhere_kept s s"
  by (simp add: elsewhere_kept_def)

lemma elsewhere_trans: "elsewhere_kept s s' \<Longrightarrow> elsewhere_kept s' s'' \<Longrightarrow> elsewhere_kept s s''"
  by (simp add: elsewhere_kept_def)

lemma elsewhere_statements [simp]:
  "elsewhere_kept s (appendActivity i m v k og a msg dt s1) = elsewhere_kept s s1"
  "elsewhere_kept s (recomputeAcknowledgement i s1) = elsewhere_kept s s1"
  "elsewhere_kept s (acknowledge_upstream i v t s1) = elsewhere_kept s s1"
  "elsewhere_kept s (inherit_upstream i v t s1) = elsewhere_kept s s1"
  "elsewhere_kept s (resolveEvidenceRow v i m n og t s1) = elsewhere_kept s s1"
  "elsewhere_kept s (write_impact m st sev rt s1) = elsewhere_kept s s1"
  "elsewhere_kept s (refreshIncidentPresentation i b s1) = elsewhere_kept s s1"
  "elsewhere_kept s (write_incident prev d t s1) = elsewhere_kept s s1"
  "elsewhere_kept s (journal_incident prev d s1) = elsewhere_kept s s1"
  "elsewhere_kept s (extendPropagation i t w s1) = elsewhere_kept s s1"
  "elsewhere_kept s (reopen_impact m sev s1) = elsewhere_kept s s1"
  "elsewhere_kept s (insert_impact i f s1) = elsewhere_kept s s1"
  "elsewhere_kept s (insert_incident f w t s1) = elsewhere_kept s s1"
  "elsewhere_kept s (insert_evidence i m f t s1) = elsewhere_kept s s1"
  "elsewhere_kept s (touch_evidence v t s1) = elsewhere_kept s s1"
  "elsewhere_kept s (refresh_evidence v f t s1) = elsewhere_kept s s1"
  "elsewhere_kept s (queue_inherited v s1) = elsewhere_kept s s1"
  "elsewhere_kept s (queue_incident i s1) = elsewhere_kept s s1"
  "elsewhere_kept s (rearm_row v t s1) = elsewhere_kept s s1"
  by (simp_all add: elsewhere_kept_def appendActivity_def recomputeAcknowledgement_def acknowledge_upstream_def
      inherit_upstream_def resolveEvidenceRow_def write_impact_def refreshIncidentPresentation_def
      write_incident_def journal_incident_def extendPropagation_def reopen_impact_def insert_impact_def
      insert_incident_def insert_evidence_def touch_evidence_def refresh_evidence_def queue_inherited_def
      queue_incident_def rearm_row_def Let_def split_beta)

lemma elsewhere_ensureImpact: "elsewhere_kept s (snd (ensureImpact f t s))"
proof -
  have resume: "elsewhere_kept s (snd (resumeRecentIncident f t s))"
    by (simp add: resumeRecentIncident_def Let_def split: option.split) (simp add: elsewhere_kept_def reopen_impact_def)
  moreover have "elsewhere_kept s (snd (join_propagation f w inc s))" for w inc
    by (simp add: join_propagation_def split: option.split)
  moreover have "elsewhere_kept s (snd (open_incident f w t s1))" if "elsewhere_kept s s1" for w s1
    using that by (simp add: open_incident_def Let_def)
  ultimately show ?thesis unfolding ensureImpact_def Let_def
    by (auto split: option.split prod.split simp: split_beta)
qed

lemma elsewhere_acknowledgement [simp]:
  "elsewhere_kept s (acknowledgeFromEvidence i v t s1) = elsewhere_kept s s1"
  "elsewhere_kept s (inherit_acknowledgement i v s1) = elsewhere_kept s s1"
  by (simp_all only: acknowledgeFromEvidence_def inherit_acknowledgement_def elsewhere_statements if_distrib if_cancel)

lemma elsewhere_add_evidence: "elsewhere_kept s (add_evidence f t e s1) = elsewhere_kept s s1"
  unfolding add_evidence_def Let_def by (simp del: if_split add: if_distrib [of "elsewhere_kept s"])

lemma elsewhere_open_evidence: "elsewhere_kept s s1 \<Longrightarrow> elsewhere_kept s (snd (open_evidence f t s1))"
proof -
  assume s1: "elsewhere_kept s s1"
  obtain x s2 where e: "ensureImpact f t s1 = (x, s2)" by (cases "ensureImpact f t s1")
  then have s2: "elsewhere_kept s s2" using elsewhere_trans [OF s1 elsewhere_ensureImpact [of s1 f t]] by simp
  show ?thesis
  proof (cases "unrearmed f s1 = []")
    case True
    then show ?thesis using e s2 by (cases x) (simp_all add: open_evidence_unfold elsewhere_add_evidence)
  next
    case False
    then show ?thesis using s1 by (auto simp: open_evidence_unfold split: option.split)
  qed
qed

lemma elsewhere_recompute:
  "elsewhere_kept s s1 \<Longrightarrow> elsewhere_kept s (snd (recomputeImpact m t s1))"
  "elsewhere_kept s s1 \<Longrightarrow> elsewhere_kept s (snd (recomputeIncident i t s1))"
  by (simp_all add: recomputeImpact_def recomputeIncident_def Let_def split: option.split)

lemma elsewhere_applyEvidenceFact: "elsewhere_kept s (snd (applyEvidenceFact f t s))"
proof -
  have "elsewhere_kept s (snd (thenT (execT (resolveEvidenceRow v i m n og t)) (thenT (recomputeImpact m t)
      (thenT (recomputeIncident i t) (open_evidence f t))) s))" for v i m n og
  proof (intro inv_thenT [where P = "elsewhere_kept s"])
    fix a s1 assume "execT (resolveEvidenceRow v i m n og t) s = (Inr a, s1)"
    then have "elsewhere_kept s s1" by (auto simp: execT_def)
    from elsewhere_recompute(1) [OF this] show two: "elsewhere_kept s (snd (recomputeImpact m t s1))" .
    fix b s2 assume "recomputeImpact m t s1 = (Inr b, s2)"
    with two have "elsewhere_kept s s2" by simp
    from elsewhere_recompute(2) [OF this] show three: "elsewhere_kept s (snd (recomputeIncident i t s2))" .
    fix c s3 assume "recomputeIncident i t s2 = (Inr c, s3)"
    with three show "elsewhere_kept s (snd (open_evidence f t s3))" by (simp add: elsewhere_open_evidence)
  qed (simp add: execT_def)
  then show ?thesis
    by (auto simp: applyEvidenceFact_def acknowledgeFromEvidence_def Let_def elsewhere_open_evidence split: option.split)
qed

lemma elsewhere_rearm: "elsewhere_kept s (rearmRecoveredEvidence sn seen t s)"
proof -
  have "elsewhere_kept s (fold (\<lambda>r. rearm_row (ev_id r) t) cs s1) = elsewhere_kept s s1"
    for cs :: "evidence_row list" and s1
    by (induction cs arbitrary: s1) simp_all
  then show ?thesis by (simp add: rearmRecoveredEvidence_def)
qed

lemma elsewhere_persist_streaks: "elsewhere_kept s (persist_streaks src streaks s)"
proof -
  have "map source_core (sources (persist_streaks src streaks s)) = map source_core (sources s)"
    unfolding persist_streaks_def by (simp, rule map_update_where) (simp add: source_core_def)
  then show ?thesis by (simp add: elsewhere_kept_def) (simp add: persist_streaks_def)
qed

interpretation elsewhere: cycle_kept elsewhere_kept
proof unfold_locales
  show "\<And>s s' s''. elsewhere_kept s s' \<Longrightarrow> elsewhere_kept s' s'' \<Longrightarrow> elsewhere_kept s s''" by (rule elsewhere_trans)
qed (simp_all add: elsewhere_applyEvidenceFact elsewhere_rearm elsewhere_recompute elsewhere_persist_streaks,
  simp_all add: elsewhere_kept_def rearm_native_def invalidate_row_def acknowledge_incident_def
    queue_acknowledgements_def complete_row_def record_result_def appendActivity_def Let_def)

subsection \<open>One fact\<close>

definition shown :: "EvidenceFact \<Rightarrow> evidence_row \<Rightarrow> bool" where
  "shown f r \<longleftrightarrow> fact_identity f r \<and> ev_active r \<and> ev_target_id r = fa_TargetID f \<and>
     ev_severity r = fa_Severity f \<and> ev_name r = fa_Name f"

lemma shown_spared: "shown f r \<Longrightarrow> spared J r r' \<Longrightarrow> fact_key f \<notin> J \<Longrightarrow> shown f r'"
  by (simp add: shown_def spare_defs same_identity_def)

lemma spares_shown:
  assumes "spares J s s'" and "fact_key f \<notin> J" and "\<exists>r \<in> set (evidence s). shown f r"
  shows "\<exists>r \<in> set (evidence s'). shown f r"
  using assms spares_row [OF assms(1)] by (blast intro: shown_spared)

lemma shown_add_evidence: "\<exists>r \<in> set (evidence (add_evidence f t e s)). shown f r"
proof -
  have "\<exists>r \<in> set (evidence (insert_evidence i m f t s)). shown f r" for i m
    by (simp add: insert_evidence_def shown_def same_identity_def)
  then show ?thesis unfolding add_evidence_def Let_def
    by (auto intro!: spares_shown [where J = "{}", OF spares_acknowledgeFromEvidence]
        spares_shown [where J = "{}", OF spares_inherit_acknowledgement])
qed

lemma open_evidence_cases:
  assumes "open_evidence f t s = (Inr x, s')"
  shows "(x = None \<and> unrearmed f s \<noteq> []) \<or> (x \<noteq> None \<and> unrearmed f s = [] \<and> (\<exists>r \<in> set (evidence s'). shown f r))"
proof (cases "unrearmed f s = []")
  case True
  then show ?thesis using assms shown_add_evidence
    by (auto simp: open_evidence_unfold split: prod.splits sum.splits)
next
  case False
  then show ?thesis using assms by (auto simp: open_evidence_unfold split: option.splits)
qed

lemma spares_unrearmed:
  assumes "spares J s s'"
  shows "unrearmed f s' = [] \<longleftrightarrow> unrearmed f s = []"
proof -
  have same: "(fact_identity f r' \<and> ev_invalidated_at r' \<noteq> None \<and> ev_rearmed_at r' = None) =
      (fact_identity f r \<and> ev_invalidated_at r \<noteq> None \<and> ev_rearmed_at r = None)" if "spared J r r'" for r r'
    using that by (simp add: spare_defs same_identity_def)
  show ?thesis unfolding unrearmed_def filter_empty_conv
  proof (intro iffI ballI)
    fix r assume free: "\<forall>r' \<in> set (evidence s'). \<not> (fact_identity f r' \<and> ev_invalidated_at r' \<noteq> None \<and> ev_rearmed_at r' = None)"
      and "r \<in> set (evidence s)"
    then obtain r' where "r' \<in> set (evidence s')" "spared J r r'" using spares_row [OF assms] by blast
    then show "\<not> (fact_identity f r \<and> ev_invalidated_at r \<noteq> None \<and> ev_rearmed_at r = None)" using free same by metis
  next
    fix r' assume free: "\<forall>r \<in> set (evidence s). \<not> (fact_identity f r \<and> ev_invalidated_at r \<noteq> None \<and> ev_rearmed_at r = None)"
      and "r' \<in> set (evidence s')"
    from spares_origin [OF assms this(2)]
    show "\<not> (fact_identity f r' \<and> ev_invalidated_at r' \<noteq> None \<and> ev_rearmed_at r' = None)" using free same by metis
  qed
qed

lemma recomputes_then_open:
  assumes "cycle_inv s" and "e \<in> set (evidence s)" and "row_identity e = fact_key f"
    and "thenT (execT (resolveEvidenceRow (ev_id e) i m n og t)) (thenT (recomputeImpact m t)
      (thenT (recomputeIncident i t) (open_evidence f t))) s = (x, s')"
  shows "(\<exists>s3. spares {fact_key f} s s3 \<and> elsewhere_kept s s3 \<and> open_evidence f t s3 = (x, s')) \<or> x = Inl ErrNoRows"
proof -
  define s1 where "s1 = resolveEvidenceRow (ev_id e) i m n og t s"
  obtain x2 s2 where r2: "recomputeImpact m t s1 = (x2, s2)" by (cases "recomputeImpact m t s1")
  obtain x3 s3 where r3: "recomputeIncident i t s2 = (x3, s3)" by (cases "recomputeIncident i t s2")
  have "spares {fact_key f} s s1" unfolding s1_def using assms(1-3) by (simp add: spares_resolveEvidenceRow)
  then have sp: "spares {fact_key f} s s3" using recomputed_evidence r2 r3 by (metis spares_then_same)
  have "elsewhere_kept s s1" by (simp add: s1_def)
  then have ek: "elsewhere_kept s s3" using r2 r3 elsewhere_recompute by (metis snd_conv)
  have "x2 = Inr () \<or> x2 = Inl ErrNoRows" "x3 = Inr () \<or> x3 = Inl ErrNoRows"
    using r2 r3 by (auto simp: recomputeImpact_def recomputeIncident_def Let_def split: option.splits)
  then show ?thesis using assms(4) sp ek r2 r3 unfolding s1_def
    by (auto simp: thenT_def bindT_def execT_def)
qed

lemma applyEvidenceFact_cases:
  assumes "cycle_inv s" and "applyEvidenceFact f t s = (Inr x, s')"
  shows "(x = None \<and> unrearmed f s \<noteq> []) \<or> (x \<noteq> None \<and> (\<exists>r \<in> set (evidence s'). shown f r))"
proof (cases "existing_evidence f s")
  case None
  then show ?thesis using assms(2) open_evidence_cases [of f t s x s'] by (auto simp: applyEvidenceFact_def split: if_splits)
next
  case (Some p)
  obtain e k where p: "p = (e, k)" by (cases p)
  note ex = existing_evidence_Some [OF Some [unfolded p]]
  have valid: "ev_invalidated_at e = None" using rows_okD(3) [OF assms(1) ex(1)] ex(3) by (auto simp: evidence_ok_def)
  show ?thesis
  proof (cases "ev_target_id e = fa_TargetID f \<and> k = n_Key (fa_Nature f)")
    case True
    define s1 where "s1 = refresh_evidence (ev_id e) f t s"
    have "refresh_row f t s e \<in> set (evidence s1)"
      using ex(1) by (auto simp: s1_def refresh_evidence_def set_update_where)
    moreover have "shown f (refresh_row f t s e)"
      using True ex(2,3) by (simp add: shown_def refresh_row_def same_identity_def Let_def)
    ultimately have "\<exists>r \<in> set (evidence s1). shown f r" by blast
    then have "\<exists>r \<in> set (evidence (if fa_UpstreamAcknowledged f then acknowledgeFromEvidence i v t s1 else s1)). shown f r" for i v
      by (auto intro: spares_shown [where J = "{}", OF spares_acknowledgeFromEvidence])
    moreover have "s' = (if fa_UpstreamAcknowledged f then acknowledgeFromEvidence (ev_incident_id e) (ev_id e) t s1 else s1)
        \<and> Some (ev_incident_id e, ev_impact_id e) = x"
      using assms(2) Some p valid True by (simp add: applyEvidenceFact_def s1_def Let_def split: if_split_asm)
    ultimately show ?thesis by auto
  next
    case False
    then have "thenT (execT (resolveEvidenceRow (ev_id e) (ev_incident_id e) (ev_impact_id e) (fa_Name f) (fa_Origin f) t))
        (thenT (recomputeImpact (ev_impact_id e) t) (thenT (recomputeIncident (ev_incident_id e) t) (open_evidence f t))) s = (Inr x, s')"
      using assms(2) Some p valid by (auto simp: applyEvidenceFact_def split: if_splits)
    from recomputes_then_open [OF assms(1) ex(1) fact_identity_key [OF ex(2)] this]
    obtain s3 where "spares {fact_key f} s s3" and "open_evidence f t s3 = (Inr x, s')" by auto
    then show ?thesis using open_evidence_cases [of f t s3 x s'] spares_unrearmed [of "{fact_key f}" s s3 f] by auto
  qed
qed

definition archived :: "uuid \<Rightarrow> db \<Rightarrow> bool" where
  "archived target s \<longleftrightarrow> (\<exists>g \<in> set (targets s). tg_id g = target \<and> tg_archived_at g \<noteq> None)"

lemma archived_cong: "elsewhere_kept s s' \<Longrightarrow> archived target s' = archived target s"
  by (simp add: archived_def elsewhere_kept_def)

lemma ensureImpact_archived:
  "ensureImpact f t s = (Inl ErrTargetArchived, s') \<Longrightarrow>
    archived (fa_TargetID f) s"
  by (auto simp: archived_def ensureImpact_def Let_def split: option.splits if_splits prod.splits dest: find_SomeD)

lemma open_evidence_archived:
  "open_evidence f t s = (Inl ErrTargetArchived, s') \<Longrightarrow>
    archived (fa_TargetID f) s"
  by (auto simp: open_evidence_unfold dest: ensureImpact_archived split: option.splits prod.splits sum.splits)

lemma applyEvidenceFact_archived:
  assumes "cycle_inv s" and "applyEvidenceFact f t s = (Inl ErrTargetArchived, s')"
  shows "archived (fa_TargetID f) s"
proof (cases "existing_evidence f s")
  case None
  then show ?thesis using assms(2) by (auto simp: applyEvidenceFact_def dest: open_evidence_archived split: if_splits)
next
  case (Some p)
  obtain e k where p: "p = (e, k)" by (cases p)
  note ex = existing_evidence_Some [OF Some [unfolded p]]
  have "thenT (execT (resolveEvidenceRow (ev_id e) (ev_incident_id e) (ev_impact_id e) (fa_Name f) (fa_Origin f) t))
      (thenT (recomputeImpact (ev_impact_id e) t) (thenT (recomputeIncident (ev_incident_id e) t) (open_evidence f t))) s
      = (Inl ErrTargetArchived, s')"
    using assms(2) Some p by (auto simp: applyEvidenceFact_def Let_def split: if_splits)
  from recomputes_then_open [OF assms(1) ex(1) fact_identity_key [OF ex(2)] this]
  obtain s3 where "elsewhere_kept s s3" and "open_evidence f t s3 = (Inl ErrTargetArchived, s')" by auto
  then show ?thesis using open_evidence_archived [of f t s3 s'] archived_cong [of s s3] by simp
qed

subsection \<open>The loop over the facts\<close>

lemma apply_fact_cases:
  assumes "cycle_inv s" and "apply_fact t f p s = (Inr p', s')"
  shows "cycle_inv s' \<and> elsewhere_kept s s' \<and> set (pr_seen p') = insert (fact_key f) (set (pr_seen p)) \<and>
    spares ({fact_key f} - set (pr_seen p)) s s' \<and>
    (fact_key f \<notin> set (pr_seen p) \<longrightarrow>
       archived (fa_TargetID f) s \<or> unrearmed f s \<noteq> [] \<or> (\<exists>r \<in> set (evidence s'). shown f r))"
proof (cases "fact_key f \<in> set (pr_seen p)")
  case True
  then show ?thesis using assms by (auto simp: apply_fact_def Let_def)
next
  case False
  obtain x s1 where r: "applyEvidenceFact f t s = (x, s1)" by (cases "applyEvidenceFact f t s")
  have s1: "s1 = s'" and x: "x = Inl ErrTargetArchived \<or> (\<exists>y. x = Inr y)"
    and seen: "set (pr_seen p') = insert (fact_key f) (set (pr_seen p))"
    using assms(2) False r by (auto simp: apply_fact_def Let_def mark_def split: sum.splits option.splits if_splits)
  have "archived (fa_TargetID f) s \<or> unrearmed f s \<noteq> [] \<or> (\<exists>r \<in> set (evidence s'). shown f r)"
    using x r s1 applyEvidenceFact_archived [OF assms(1)] applyEvidenceFact_cases [OF assms(1)] by blast
  moreover have "{fact_key f} - set (pr_seen p) = {fact_key f}" using False by blast
  ultimately show ?thesis
    using inv_applyEvidenceFact [OF assms(1), of f t] elsewhere_applyEvidenceFact [of s f t]
      spares_applyEvidenceFact [OF assms(1), of f t] seen r s1 by simp
qed

lemma apply_facts_frame:
  assumes "cycle_inv s" and "apply_facts t fs p s = (Inr p', s')"
  shows "cycle_inv s' \<and> elsewhere_kept s s' \<and> set (pr_seen p') = set (pr_seen p) \<union> fact_key ` set fs \<and>
    spares (fact_key ` set fs - set (pr_seen p)) s s'"
  using assms
proof (induction fs arbitrary: p s)
  case (Cons f fs)
  from Cons.prems(2) obtain p1 s1 where one: "apply_fact t f p s = (Inr p1, s1)" and rest: "apply_facts t fs p1 s1 = (Inr p', s')"
    by (auto elim: bindT_InrE)
  note c = apply_fact_cases [OF Cons.prems(1) one]
  then have ih: "cycle_inv s' \<and> elsewhere_kept s1 s' \<and> set (pr_seen p') = set (pr_seen p1) \<union> fact_key ` set fs \<and>
      spares (fact_key ` set fs - set (pr_seen p1)) s1 s'"
    using Cons.IH [OF _ rest] by simp
  let ?J = "fact_key ` set (f # fs) - set (pr_seen p)"
  have "spares ?J s s1" using c by (auto intro: spares_mono)
  moreover have "spares ?J s1 s'" using c ih by (auto intro: spares_mono)
  ultimately show ?case using c ih by (auto intro: spares_trans elsewhere_trans)
qed (auto simp: returnT_def)

lemma apply_facts_shown:
  assumes "cycle_inv s" and "apply_facts t fs p s = (Inr p', s')" and "f \<in> set fs" and "fact_key f \<notin> set (pr_seen p)"
    and "\<And>g. g \<in> set fs \<Longrightarrow> fact_key g = fact_key f \<Longrightarrow> \<not> archived (fa_TargetID g) s \<and> unrearmed g s = []"
  shows "\<exists>g \<in> set fs. fact_key g = fact_key f \<and> (\<exists>r \<in> set (evidence s'). shown g r)"
  using assms
proof (induction fs arbitrary: p s)
  case (Cons h fs)
  from Cons.prems(2) obtain p1 s1 where one: "apply_fact t h p s = (Inr p1, s1)" and rest: "apply_facts t fs p1 s1 = (Inr p', s')"
    by (auto elim: bindT_InrE)
  note c = apply_fact_cases [OF Cons.prems(1) one]
  show ?case
  proof (cases "fact_key h = fact_key f")
    case True
    then have "\<exists>r \<in> set (evidence s1). shown h r"
      using c Cons.prems(4) Cons.prems(5) [of h] by simp
    moreover have "spares (fact_key ` set fs - set (pr_seen p1)) s1 s'" using apply_facts_frame [OF _ rest] c by simp
    moreover have "fact_key h \<notin> fact_key ` set fs - set (pr_seen p1)" using c by simp
    ultimately have "\<exists>r \<in> set (evidence s'). shown h r" by (blast intro: spares_shown)
    then show ?thesis using True by auto
  next
    case False
    have "\<not> archived (fa_TargetID g) s1 \<and> unrearmed g s1 = []" if "g \<in> set fs" "fact_key g = fact_key f" for g
    proof -
      have "archived (fa_TargetID g) s1 = archived (fa_TargetID g) s" using c archived_cong by blast
      moreover have "unrearmed g s1 = [] \<longleftrightarrow> unrearmed g s = []" using c spares_unrearmed by blast
      ultimately show ?thesis using Cons.prems(5) [of g] that by simp
    qed
    moreover have "f \<in> set fs" using Cons.prems(3) False by auto
    moreover have "fact_key f \<notin> set (pr_seen p1)" using c Cons.prems(4) False by simp
    ultimately show ?thesis using Cons.IH [OF _ rest] c by auto
  qed
qed simp

subsection \<open>What is absent\<close>

lemma update_where_twice:
  assumes "\<And>r. r \<in> set rows \<Longrightarrow> P r \<Longrightarrow> \<not> Q (g r)"
  shows "update_where Q g (update_where P g rows) = update_where (\<lambda>r. P r \<or> Q r) g rows"
  using assms by (simp add: update_where_def comp_def)

lemma update_where_cong: "(\<And>r. P r = Q r) \<Longrightarrow> update_where P g rows = update_where Q g rows"
  by (simp add: update_where_def)

lemma updated_row: "r \<in> set rows \<Longrightarrow> (if P r then g r else r) \<in> set (update_where P g rows)"
  by (auto simp: set_update_where)

lemma resolveEvidenceRow_evidence:
  "evidence (resolveEvidenceRow v i m n og t s) = update_where (\<lambda>r. ev_active r \<and> ev_id r = v)
     (\<lambda>r. r\<lparr>ev_active := False, ev_resolved_at := Some t, ev_last_seen_at := t, ev_updated_at := clock s\<rparr>) (evidence s)"
  by (simp add: resolveEvidenceRow_def conj_commute)

lemma resolve_absent_evidence:
  "evidence (snd (resolve_absent og t rs p s)) =
     update_where (\<lambda>e. ev_active e \<and> ev_id e \<in> ev_id ` {r \<in> set rs. row_identity r \<notin> set (pr_seen p)})
       (\<lambda>e. e\<lparr>ev_active := False, ev_resolved_at := Some t, ev_last_seen_at := t, ev_updated_at := clock s\<rparr>)
       (evidence s) \<and> pr_seen (fst (resolve_absent og t rs p s)) = pr_seen p"
proof (induction rs arbitrary: p s)
  case Nil
  then show ?case by (simp add: update_where_none)
next
  case (Cons r rs)
  show ?case
  proof (cases "row_identity r \<in> set (pr_seen p)")
    case True
    then have "{x \<in> set (r # rs). row_identity x \<notin> set (pr_seen p)} = {x \<in> set rs. row_identity x \<notin> set (pr_seen p)}" by auto
    then show ?thesis using True Cons.IH [of p s] by simp
  next
    case False
    have clock: "clock (resolveEvidenceRow v i m n og t s) = clock s" for v i m n
      using elsewhere_statements(5) [of s v i m n og t s] by (simp add: elsewhere_kept_def)
    have seen: "pr_seen (mark i m p) = pr_seen p" for i m by (simp add: mark_def)
    show ?thesis using False
      by (simp add: Cons.IH seen clock resolveEvidenceRow_evidence update_where_twice)
        (rule update_where_cong, auto)
  qed
qed

lemma rearm_grows: "grows (\<lambda>a b. same_proof a b \<and> same_state a b) (evidence s) (evidence (rearmRecoveredEvidence sn seen t s))"
proof -
  let ?Q = "\<lambda>a b. same_proof a b \<and> same_state a b"
  have Q: "?Q a a" "?Q a b \<Longrightarrow> ?Q b c \<Longrightarrow> ?Q a c" for a b c
    by (auto simp: same_proof_def same_state_def)
  have "grows ?Q (evidence s) (evidence (fold (\<lambda>r. rearm_row (ev_id r) t) cs s))" for cs :: "evidence_row list"
  proof (induction cs arbitrary: s)
    case (Cons c cs)
    have "grows ?Q (evidence s) (evidence (rearm_row (ev_id c) t s))"
      unfolding rearm_row_def by (simp, rule grows_update) (auto simp: spare_defs)
    then show ?case using Cons.IH grows_trans [where Q = ?Q, OF Q(2)] by fastforce
  qed (simp add: grows_refl Q(1))
  then show ?thesis by (simp add: rearmRecoveredEvidence_def)
qed

lemma forT_evidence: "(\<And>x s. evidence (snd (f x s)) = evidence s) \<Longrightarrow> evidence (snd (forT xs f s)) = evidence s"
  by (induction xs arbitrary: s) (simp_all add: returnT_def snd_thenT split: prod.split sum.split, metis snd_conv)

lemma recompute_all_evidence: "evidence (snd (recompute_all ms is t s)) = evidence s"
  unfolding recompute_all_def snd_thenT
  using forT_evidence [of "\<lambda>i. recomputeImpact i t" ms s] forT_evidence [of "\<lambda>i. recomputeIncident i t" "is"]
  by (auto split: prod.split sum.split simp: recompute_frame)

lemma advanceDue_evidence: "evidence (snd (advanceDueIncidents t s)) = evidence s"
  by (simp add: advanceDueIncidents_def bindT_def getT_def forT_evidence)

lemma snapshot_tail_evidence:
  "evidence (snd (snapshot_tail sn t p s)) =
     evidence (rearmRecoveredEvidence sn (pr_seen p) t
       (snd (resolve_absent (sn_Origin sn) t (activeEvidenceForSnapshot sn s) p s)))"
proof -
  define r where "r = resolve_absent (sn_Origin sn) t (activeEvidenceForSnapshot sn s) p s"
  have "pr_seen (fst r) = pr_seen p" using resolve_absent_evidence unfolding r_def by blast
  then show ?thesis unfolding snapshot_tail_def r_def [symmetric]
    using recompute_all_evidence advanceDue_evidence
    by (auto simp: split_beta Let_def snd_thenT split: prod.split sum.split)
qed

subsection \<open>A whole snapshot\<close>

lemma activeEvidence_filter:
  "activeEvidenceForSnapshot sn s = filter (\<lambda>r. observed sn r \<and> ev_active r) (evidence s)"
  by (auto simp: activeEvidenceForSnapshot_def observed_def)

lemma tail_row:
  assumes "cycle_inv s" and "e \<in> set (evidence s)" and "snapshot_tail sn t p s = (x, s')"
  shows "\<exists>e' \<in> set (evidence s'). same_proof e e' \<and>
    (if ev_active e \<and> observed sn e \<and> row_identity e \<notin> set (pr_seen p)
     then \<not> ev_active e' \<and> ev_resolved_at e' = Some t else same_state e e')"
proof -
  define gone where "gone = {r \<in> set (activeEvidenceForSnapshot sn s). row_identity r \<notin> set (pr_seen p)}"
  define g where "g = (\<lambda>e. e\<lparr>ev_active := False, ev_resolved_at := Some t, ev_last_seen_at := t, ev_updated_at := clock s\<rparr> :: evidence_row)"
  define s1 where "s1 = snd (resolve_absent (sn_Origin sn) t (activeEvidenceForSnapshot sn s) p s)"
  have s1: "evidence s1 = update_where (\<lambda>e. ev_active e \<and> ev_id e \<in> ev_id ` gone) g (evidence s)"
    unfolding s1_def gone_def g_def using resolve_absent_evidence by blast
  have "ev_id e \<in> ev_id ` gone \<longleftrightarrow> e \<in> gone"
    using assms(1,2) evidence_id_unique by (fastforce simp: gone_def activeEvidence_filter)
  then have go: "ev_active e \<and> ev_id e \<in> ev_id ` gone \<longleftrightarrow> ev_active e \<and> observed sn e \<and> row_identity e \<notin> set (pr_seen p)"
    using assms(2) by (auto simp: gone_def activeEvidence_filter)
  let ?e1 = "if ev_active e \<and> observed sn e \<and> row_identity e \<notin> set (pr_seen p) then g e else e"
  have "?e1 \<in> set (evidence s1)" using updated_row [OF assms(2)] go unfolding s1 by metis
  moreover have "evidence s' = evidence (rearmRecoveredEvidence sn (pr_seen p) t s1)"
    using snapshot_tail_evidence [of sn t p s] assms(3) by (simp add: s1_def)
  ultimately obtain e' where e': "e' \<in> set (evidence s')" "same_proof ?e1 e' \<and> same_state ?e1 e'"
    using grows_mem [OF rearm_grows [of s1 sn "pr_seen p" t], of ?e1] by auto
  show ?thesis
  proof (rule bexI [OF _ e'(1)], cases "ev_active e \<and> observed sn e \<and> row_identity e \<notin> set (pr_seen p)")
    case True
    then have "same_proof (g e) e' \<and> same_state (g e) e'" using e'(2) by simp
    then show "same_proof e e' \<and> (if ev_active e \<and> observed sn e \<and> row_identity e \<notin> set (pr_seen p)
        then \<not> ev_active e' \<and> ev_resolved_at e' = Some t else same_state e e')"
      using True by (simp add: g_def same_proof_def same_state_def ev_identity_def)
  next
    case False
    then have "same_proof e e' \<and> same_state e e'" using e'(2) by (simp only: if_False)
    with False show "same_proof e e' \<and> (if ev_active e \<and> observed sn e \<and> row_identity e \<notin> set (pr_seen p)
        then \<not> ev_active e' \<and> ev_resolved_at e' = Some t else same_state e e')" by (simp only: if_False)
  qed
qed

lemma tail_origin:
  assumes "e' \<in> set (evidence (snd (snapshot_tail sn t p s)))"
  shows "\<exists>e \<in> set (evidence s). same_proof e e' \<and> (ev_active e' \<longrightarrow> ev_active e)"
proof -
  let ?s1 = "snd (resolve_absent (sn_Origin sn) t (activeEvidenceForSnapshot sn s) p s)"
  have len: "length (evidence (rearmRecoveredEvidence sn (pr_seen p) t ?s1)) = length (evidence ?s1)"
  proof -
    have "length (evidence (fold (\<lambda>r. rearm_row (ev_id r) t) cs s2)) = length (evidence s2)" for cs :: "evidence_row list" and s2
      by (induction cs arbitrary: s2) (simp_all add: rearm_row_def)
    then show ?thesis by (simp add: rearmRecoveredEvidence_def)
  qed
  from assms obtain k where k: "k < length (evidence ?s1)" "e' = evidence (rearmRecoveredEvidence sn (pr_seen p) t ?s1) ! k"
    using len by (auto simp: snapshot_tail_evidence in_set_conv_nth)
  then have st: "same_proof (evidence ?s1 ! k) e' \<and> same_state (evidence ?s1 ! k) e'"
    using rearm_grows [of ?s1 sn "pr_seen p" t] by (simp add: grows_def)
  have "\<exists>e \<in> set (evidence s). same_proof e e1 \<and> (ev_active e1 \<longrightarrow> ev_active e)"
    if "e1 \<in> set (evidence ?s1)" for e1
    using in_update_where [OF that [unfolded conjunct1 [OF resolve_absent_evidence]]]
  proof (elim disjE bexE)
    fix e assume "e \<in> set (evidence s)"
      and "(ev_active e \<and> ev_id e \<in> ev_id ` {r \<in> set (activeEvidenceForSnapshot sn s). row_identity r \<notin> set (pr_seen p)}) \<and>
        e1 = e\<lparr>ev_active := False, ev_resolved_at := Some t, ev_last_seen_at := t, ev_updated_at := clock s\<rparr>"
    then show ?thesis by (intro bexI [of _ e]) (simp_all add: spare_defs)
  qed (auto simp: same_proof_def)
  from this [OF nth_mem [OF k(1)]] obtain e where "e \<in> set (evidence s)" "same_proof e (evidence ?s1 ! k)"
    "ev_active (evidence ?s1 ! k) \<longrightarrow> ev_active e" by blast
  then show ?thesis
    using st same_proof_trans [of e "evidence ?s1 ! k" e'] by (intro bexI [of _ e]) (simp_all add: same_state_def)
qed

lemma snapshot_run:
  assumes "ApplyEvidenceSnapshot now sn s = (Inr x, s')"
  defines "t \<equiv> normalizedTime now (sn_ObservedAt sn)"
  obtains p s1 where "apply_facts t (prepared_facts sn t) no_progress s = (Inr p, s1)"
    and "snapshot_tail sn t p s1 = (Inr x, s')"
proof -
  have "bindT (apply_facts t (prepared_facts sn t) no_progress) (snapshot_tail sn t) s = (Inr x, s')"
    using assms by (auto simp: ApplyEvidenceSnapshot_def Let_def commit_or_rollback_def split: sum.splits if_splits prod.splits)
  then show thesis using that by (auto elim: bindT_InrE)
qed

lemma prepared_facts_set: "set (prepared_facts sn t) = prepare_fact sn t ` set (sn_Facts sn)"
  by (simp add: prepared_facts_def)

lemma prepare_fact_simps [simp]:
  "fa_IdentityScope (prepare_fact sn t f) = fa_IdentityScope f" "fa_IdentityKey (prepare_fact sn t f) = fa_IdentityKey f"
  "fa_TargetID (prepare_fact sn t f) = fa_TargetID f" "fa_Severity (prepare_fact sn t f) = fa_Severity f"
  "fa_Name (prepare_fact sn t f) = fa_Name f" "fa_Origin (prepare_fact sn t f) = sn_Origin sn"
  by (simp_all add: prepare_fact_def)

lemma prepared_keys: "fact_key ` set (prepared_facts sn t) = fact_key ` set (sn_Facts sn)"
  by (auto simp: prepared_facts_set image_iff)

lemma snapshot_row:
  assumes "cycle_inv s" and "ApplyEvidenceSnapshot now sn s = (Inr (), s')" and "e \<in> set (evidence s)"
    and "row_identity e \<notin> fact_key ` set (sn_Facts sn)"
  shows "\<exists>e' \<in> set (evidence s'). ev_id e' = ev_id e \<and>
    (if ev_active e \<and> observed sn e
     then \<not> ev_active e' \<and> ev_resolved_at e' = Some (normalizedTime now (sn_ObservedAt sn))
     else ev_active e' = ev_active e \<and> ev_resolved_at e' = ev_resolved_at e)"
proof -
  define t where "t = normalizedTime now (sn_ObservedAt sn)"
  from snapshot_run [OF assms(2), folded t_def] obtain p s1
    where a: "apply_facts t (prepared_facts sn t) no_progress s = (Inr p, s1)" and b: "snapshot_tail sn t p s1 = (Inr (), s')" .
  note fr = apply_facts_frame [OF assms(1) a]
  then have seen: "set (pr_seen p) = fact_key ` set (sn_Facts sn)" by (simp add: prepared_keys no_progress_def)
  from fr spares_row [OF _ assms(3)] obtain e1 where e1: "e1 \<in> set (evidence s1)"
      "spared (fact_key ` set (prepared_facts sn t) - set (pr_seen no_progress)) e e1" by blast
  then have st: "same_proof e e1" "same_state e e1" using assms(4) by (auto simp: spared_def prepared_keys)
  have "observed sn e1 = observed sn e" using st(1) by (simp add: observed_def spare_defs)
  moreover have "row_identity e1 \<notin> set (pr_seen p)" using st(1) seen assms(4) row_identity_same by metis
  ultimately show ?thesis using tail_row [OF _ e1(1) b] fr st unfolding t_def [symmetric]
    by (fastforce simp: same_proof_def same_state_def)
qed

lemma snapshot_shown:
  assumes "cycle_inv s" and "ApplyEvidenceSnapshot now sn s = (Inr (), s')" and "f \<in> set (sn_Facts sn)"
    and free: "\<And>g. g \<in> set (sn_Facts sn) \<Longrightarrow> fact_key g = fact_key f \<Longrightarrow> \<not> archived (fa_TargetID g) s"
    and heard: "\<And>r. r \<in> set (evidence s) \<Longrightarrow> ev_origin r = sn_Origin sn \<Longrightarrow> row_identity r = fact_key f \<Longrightarrow>
      ev_invalidated_at r = None \<or> ev_rearmed_at r \<noteq> None"
  shows "\<exists>g \<in> set (sn_Facts sn). fact_key g = fact_key f \<and> (\<exists>e \<in> set (evidence s').
    ev_origin e = sn_Origin sn \<and> ev_identity_scope e = fa_IdentityScope g \<and> ev_identity_key e = fa_IdentityKey g \<and>
    ev_active e \<and> ev_target_id e = fa_TargetID g \<and> ev_severity e = fa_Severity g)"
proof -
  define t where "t = normalizedTime now (sn_ObservedAt sn)"
  from snapshot_run [OF assms(2), folded t_def] obtain p s1
    where a: "apply_facts t (prepared_facts sn t) no_progress s = (Inr p, s1)" and b: "snapshot_tail sn t p s1 = (Inr (), s')" .
  note fr = apply_facts_frame [OF assms(1) a]
  have "\<not> archived (fa_TargetID g) s \<and> unrearmed g s = []"
    if "g \<in> set (prepared_facts sn t)" "fact_key g = fact_key (prepare_fact sn t f)" for g
  proof
    from that(1) obtain g0 where g0: "g0 \<in> set (sn_Facts sn)" "g = prepare_fact sn t g0"
      unfolding prepared_facts_set by blast
    then show "\<not> archived (fa_TargetID g) s" using free [of g0] that(2) by simp
    have "\<not> (fact_identity g r \<and> ev_invalidated_at r \<noteq> None \<and> ev_rearmed_at r = None)" if "r \<in> set (evidence s)" for r
      using heard [OF that] g0 \<open>fact_key g = fact_key (prepare_fact sn t f)\<close> fact_identity_key [of g r]
      by (auto simp: same_identity_def)
    then show "unrearmed g s = []" unfolding unrearmed_def filter_empty_conv by blast
  qed
  moreover have "prepare_fact sn t f \<in> set (prepared_facts sn t)" using assms(3) by (simp add: prepared_facts_set)
  ultimately obtain g where "g \<in> set (prepared_facts sn t)" and key: "fact_key g = fact_key (prepare_fact sn t f)"
    and "\<exists>e \<in> set (evidence s1). shown g e"
    using apply_facts_shown [OF assms(1) a, of "prepare_fact sn t f"] by (auto simp: no_progress_def)
  then obtain g0 e where g0: "g0 \<in> set (sn_Facts sn)" "g = prepare_fact sn t g0" and e: "e \<in> set (evidence s1)" "shown g e"
    by (auto simp: prepared_facts_set)
  have "row_identity e \<in> set (pr_seen p)"
    using e(2) fr g0 fact_identity_key [of g e] by (auto simp: shown_def prepared_keys no_progress_def)
  then obtain e' where "e' \<in> set (evidence s')" "same_proof e e'" "same_state e e'"
    using tail_row [OF _ e(1) b] fr by auto
  moreover from this(2,3) e(2) have "ev_origin e' = sn_Origin sn \<and> ev_identity_scope e' = fa_IdentityScope g0 \<and>
      ev_identity_key e' = fa_IdentityKey g0 \<and> ev_active e' \<and> ev_target_id e' = fa_TargetID g0 \<and> ev_severity e' = fa_Severity g0"
    using g0(2) by (simp add: shown_def spare_defs same_identity_def)
  ultimately show ?thesis using g0 key by auto
qed

subsection \<open>Silence\<close>

text \<open>PostgreSQL stores no text with a NUL, so the separator of \<open>identity\<close> is unambiguous.\<close>

lemma identity_inj:
  assumes "CHR 0x00 \<notin> set a" and "CHR 0x00 \<notin> set b" and "identity a k = identity b l"
  shows "a = b \<and> k = l"
proof -
  have "takeWhile (\<lambda>c. c \<noteq> CHR 0x00) (x @ [CHR 0x00] @ y) = x" if "CHR 0x00 \<notin> set x" for x y
    using that by (auto intro: takeWhile_append2 simp: takeWhile_append)
  then have "a = b" using assms unfolding identity_def by metis
  then show ?thesis using assms(3) by (simp add: identity_def)
qed

lemma spares_identity_free:
  assumes "spares J s s'" and "fact_key f \<notin> J" and "identity_free f s"
  shows "identity_free f s'"
  unfolding identity_free_def
proof (intro ballI impI)
  fix r' assume r': "r' \<in> set (evidence s')" "fact_identity f r'"
  then have key: "row_identity r' = fact_key f" by (simp add: fact_identity_key)
  with spares_origin [OF assms(1) r'(1)] assms(2) obtain r where r: "r \<in> set (evidence s)" "spared J r r'" by auto
  then have "row_identity r = fact_key f" using key row_identity_same [of r r'] by (simp add: spared_def)
  then have "same_state r r'" "fact_identity f r" using r(2) assms(2) r'(2) by (auto simp: spared_def same_proof_def ev_identity_def same_identity_def)
  then show "\<not> ev_active r'" using assms(3) r(1) by (simp add: identity_free_def same_state_def)
qed

lemma silent_fact:
  assumes "cycle_inv s" and "identity_free f s" and "unrearmed f s \<noteq> []" and "apply_fact t f p s = (Inr p', s')"
  shows "identity_free f s'"
proof -
  have "identity_free f (touch_evidence v t s)" for v
    using spares_identity_free [OF spares_touch_evidence [of "{}"] _ assms(2)] by simp
  moreover have "existing_evidence f s = None"
    using existing_evidence_Some [of f s] assms(2) by (cases "existing_evidence f s") (auto simp: identity_free_def)
  ultimately show ?thesis using assms(2-4)
    by (auto simp: apply_fact_def applyEvidenceFact_def open_evidence_unfold Let_def mark_def
        split: option.splits prod.splits sum.splits if_splits)
qed

lemma identity_free_cong_fact:
  "fa_Origin g = fa_Origin f \<Longrightarrow> fa_IdentityScope g = fa_IdentityScope f \<Longrightarrow> fa_IdentityKey g = fa_IdentityKey f \<Longrightarrow>
    identity_free g s = identity_free f s \<and> unrearmed g s = unrearmed f s"
  by (simp add: identity_free_def unrearmed_def)

lemma silent_facts:
  assumes "cycle_inv s" and "identity_free f s" and "unrearmed f s \<noteq> []" and "apply_facts t fs p s = (Inr p', s')"
    and "\<And>g. g \<in> set fs \<Longrightarrow> fact_key g = fact_key f \<Longrightarrow>
      fa_Origin g = fa_Origin f \<and> fa_IdentityScope g = fa_IdentityScope f \<and> fa_IdentityKey g = fa_IdentityKey f"
  shows "identity_free f s'"
  using assms
proof (induction fs arbitrary: p s)
  case (Cons h fs)
  from Cons.prems(4) obtain p1 s1 where one: "apply_fact t h p s = (Inr p1, s1)" and rest: "apply_facts t fs p1 s1 = (Inr p', s')"
    by (auto elim: bindT_InrE)
  note c = apply_fact_cases [OF Cons.prems(1) one]
  have "identity_free f s1"
  proof (cases "fact_key h = fact_key f")
    case True
    then have "fa_Origin h = fa_Origin f" "fa_IdentityScope h = fa_IdentityScope f" "fa_IdentityKey h = fa_IdentityKey f"
      using Cons.prems(5) [of h] by simp_all
    then have "identity_free h s = identity_free f s \<and> unrearmed h s = unrearmed f s" "identity_free h s1 = identity_free f s1"
      using identity_free_cong_fact [of h f s] identity_free_cong_fact [of h f s1] by simp_all
    then show ?thesis using silent_fact [OF Cons.prems(1) _ _ one] Cons.prems(2,3) by simp
  next
    case False
    then have "fact_key f \<notin> {fact_key h} - set (pr_seen p)" by auto
    then show ?thesis using c Cons.prems(2) spares_identity_free [of "{fact_key h} - set (pr_seen p)" s s1 f] by blast
  qed
  moreover have "unrearmed f s1 \<noteq> []" using c Cons.prems(3) spares_unrearmed by blast
  ultimately show ?case using Cons.IH [OF _ _ _ rest] c Cons.prems(5) by auto
qed (auto simp: returnT_def)

lemma rearm_skips:
  assumes "cycle_inv s" and "r \<in> set (evidence s)" and "row_identity r \<in> set seen"
  shows "\<exists>r' \<in> set (evidence (rearmRecoveredEvidence sn seen t s)). ev_id r' = ev_id r \<and> ev_rearmed_at r' = ev_rearmed_at r \<and>
    ev_invalidated_at r' = ev_invalidated_at r \<and> ev_identity r' = ev_identity r"
proof -
  define V where "V = ev_id ` set (rearm_candidates sn seen s)"
  let ?Q = "\<lambda>a b. same_proof a b \<and> (ev_id a \<notin> V \<longrightarrow> ev_rearmed_at b = ev_rearmed_at a)"
  have Q: "?Q a b \<Longrightarrow> ?Q b c \<Longrightarrow> ?Q a c" for a b c by (auto simp: same_proof_def)
  have "grows ?Q (evidence s1) (evidence (fold (\<lambda>r. rearm_row (ev_id r) t) cs s1))"
    if "ev_id ` set cs \<subseteq> V" for cs :: "evidence_row list" and s1
    using that
  proof (induction cs arbitrary: s1)
    case Nil
    show ?case unfolding fold_simps id_apply by (rule grows_refl) (simp add: same_proof_def)
  next
    case (Cons c cs)
    have "grows ?Q (evidence s1) (evidence (rearm_row (ev_id c) t s1))"
      unfolding rearm_row_def using Cons.prems by (simp, intro grows_update) (auto simp: spare_defs)
    moreover have "grows ?Q (evidence (rearm_row (ev_id c) t s1)) (evidence (fold (\<lambda>r. rearm_row (ev_id r) t) cs (rearm_row (ev_id c) t s1)))"
      using Cons by simp
    ultimately show ?case unfolding fold_simps by (rule grows_trans [where Q = ?Q, rotated]) (rule Q)
  qed
  then have "grows ?Q (evidence s) (evidence (rearmRecoveredEvidence sn seen t s))"
    by (simp add: rearmRecoveredEvidence_def V_def)
  moreover have "ev_id r \<notin> V"
    using assms evidence_id_unique [OF assms(1)] by (fastforce simp: V_def rearm_candidates_def split: if_splits)
  ultimately show ?thesis using grows_mem [OF _ assms(2)] by (fastforce simp: same_proof_def)
qed

lemma snapshot_silent:
  assumes "cycle_inv s" and run: "ApplyEvidenceSnapshot now sn s = (Inr (), s')" and f: "f \<in> set (sn_Facts sn)"
    and e: "e \<in> set (evidence s)" "ev_identity e = (sn_Origin sn, fa_IdentityScope f, fa_IdentityKey f)"
      "ev_invalidated_at e \<noteq> None" "ev_rearmed_at e = None"
    and quiet: "\<And>r. r \<in> set (evidence s) \<Longrightarrow> ev_identity r = ev_identity e \<Longrightarrow> \<not> ev_active r"
    and nul: "\<And>g. g \<in> set (sn_Facts sn) \<Longrightarrow> CHR 0x00 \<notin> set (fa_IdentityScope g)"
  shows "(\<forall>r \<in> set (evidence s'). ev_identity r = ev_identity e \<longrightarrow> \<not> ev_active r) \<and>
    (\<exists>e' \<in> set (evidence s'). ev_id e' = ev_id e \<and> ev_rearmed_at e' = None)"
proof -
  define t where "t = normalizedTime now (sn_ObservedAt sn)"
  from snapshot_run [OF run, folded t_def] obtain p s1
    where a: "apply_facts t (prepared_facts sn t) no_progress s = (Inr p, s1)" and b: "snapshot_tail sn t p s1 = (Inr (), s')" .
  note fr = apply_facts_frame [OF assms(1) a]
  let ?f = "prepare_fact sn t f"
  have ident: "ev_identity r = ev_identity e \<longleftrightarrow> fact_identity ?f r" for r
    unfolding e(2) by (auto simp: ev_identity_def same_identity_def)
  have "e \<in> set (unrearmed ?f s)" using e ident [of e] by (simp add: unrearmed_def)
  then have "unrearmed ?f s \<noteq> []" by auto
  moreover have "identity_free ?f s" using quiet ident by (auto simp: identity_free_def)
  moreover have "fa_Origin g = fa_Origin ?f \<and> fa_IdentityScope g = fa_IdentityScope ?f \<and> fa_IdentityKey g = fa_IdentityKey ?f"
    if "g \<in> set (prepared_facts sn t)" "fact_key g = fact_key ?f" for g
    using that identity_inj [OF nul nul [OF f]] by (auto simp: prepared_facts_set)
  ultimately have "identity_free ?f s1" using silent_facts [OF assms(1) _ _ a] by blast
  then have one: "\<forall>r \<in> set (evidence s'). ev_identity r = ev_identity e \<longrightarrow> \<not> ev_active r"
    using tail_origin [of _ sn t p s1] b ident by (fastforce simp: identity_free_def same_proof_def)
  have "spares (fact_key ` set (prepared_facts sn t) - set (pr_seen no_progress)) s s1" using fr by blast
  from spares_row [OF this e(1)] obtain e1 where e1: "e1 \<in> set (evidence s1)" "same_proof e e1" "ev_rearmed_at e1 = None"
    unfolding spared_def using e(4) by auto
  have seen: "row_identity e1 \<in> set (pr_seen p)"
  proof -
    have "row_identity e1 = fact_key f" using row_identity_same [OF e1(2)] e(2) by (simp add: row_identity_def ev_identity_def)
    then show ?thesis using fr f by (auto simp: prepared_keys no_progress_def)
  qed
  define s2 where "s2 = snd (resolve_absent (sn_Origin sn) t (activeEvidenceForSnapshot sn s1) p s1)"
  have inv2: "cycle_inv s2" unfolding s2_def using inv.kept_resolve_absent fr by blast
  have act: "\<not> ev_active e1" using \<open>identity_free ?f s1\<close> e1 ident [of e1] by (auto simp: identity_free_def same_proof_def)
  then have "e1 \<in> set (evidence s2)"
    unfolding s2_def conjunct1 [OF resolve_absent_evidence]
    using updated_row [OF e1(1), of "\<lambda>e. ev_active e \<and> ev_id e \<in> ev_id ` {r \<in> set (activeEvidenceForSnapshot sn s1). row_identity r \<notin> set (pr_seen p)}"]
    by simp
  from rearm_skips [OF inv2 this seen, of sn t] e1 one show ?thesis
    using snapshot_tail_evidence [of sn t p s1] b by (fastforce simp: s2_def same_proof_def)
qed

end
