(* ===== verification/Incident_Total.thy ===== *)
theory Incident_Total
  imports Incident_Snapshot
begin

text \<open>
  Which transactions of the cycle can fail, and how. The rows the recomputations lock always
  exist, so a snapshot fails only for the reasons its code names, and the clock always closes
  the Propagations that are due.
\<close>

subsection \<open>The rows a recomputation locks exist\<close>

definition locatable :: "uuid list \<Rightarrow> uuid list \<Rightarrow> db \<Rightarrow> bool" where
  "locatable ms js s \<longleftrightarrow> set ms \<subseteq> im_id ` set (impacts s) \<and> set js \<subseteq> in_id ` set (incidents s)"

lemma evolves_ids:
  assumes "evolves s s'"
  shows "im_id ` set (impacts s) \<subseteq> im_id ` set (impacts s')" and "in_id ` set (incidents s) \<subseteq> in_id ` set (incidents s')"
proof -
  have g: "grows impact_le (impacts s) (impacts s')" "grows incident_le (incidents s) (incidents s')"
    using assms by (simp_all add: evolves_def)
  show "im_id ` set (impacts s) \<subseteq> im_id ` set (impacts s')"
  proof
    fix m assume "m \<in> im_id ` set (impacts s)"
    then obtain x where "x \<in> set (impacts s)" "im_id x = m" by blast
    with grows_mem [OF g(1)] obtain y where "y \<in> set (impacts s')" "im_id y = m" by (auto simp: impact_le_def im_ref_def)
    then show "m \<in> im_id ` set (impacts s')" by blast
  qed
  show "in_id ` set (incidents s) \<subseteq> in_id ` set (incidents s')"
  proof
    fix i assume "i \<in> in_id ` set (incidents s)"
    then obtain x where "x \<in> set (incidents s)" "in_id x = i" by blast
    with grows_mem [OF g(2)] obtain y where "y \<in> set (incidents s')" "in_id y = i" by (auto simp: incident_le_def)
    then show "i \<in> in_id ` set (incidents s')" by blast
  qed
qed

lemma locatable_evolves: "locatable ms js s \<Longrightarrow> evolves s s' \<Longrightarrow> locatable ms js s'"
  using evolves_ids [of s s'] by (auto simp: locatable_def)

lemma grown:
  assumes "cycle_inv s"
  shows "cycle_inv (snd (applyEvidenceFact f t s)) \<and> evolves s (snd (applyEvidenceFact f t s))"
    and "cycle_inv (snd (recomputeImpact m t s)) \<and> evolves s (snd (recomputeImpact m t s))"
    and "cycle_inv (snd (recomputeIncident i t s)) \<and> evolves s (snd (recomputeIncident i t s))"
    and "cycle_inv (snd (resolve_absent og t rs p s)) \<and> evolves s (snd (resolve_absent og t rs p s))"
    and "cycle_inv (rearmRecoveredEvidence sn seen t s) \<and> evolves s (rearmRecoveredEvidence sn seen t s)"
    and "cycle_inv (snd (recompute_all ms js t s)) \<and> evolves s (snd (recompute_all ms js t s))"
  using growth.kept_fact [THEN mp, OF assms] growth.kept_impact [THEN mp, OF assms] growth.kept_incident [THEN mp, OF assms]
    growth.kept_resolve_absent [THEN mp, OF assms] growth.kept_rearm [THEN mp, OF assms] growth.kept_recompute_all [THEN mp, OF assms]
  by simp_all

lemma impacts_total:
  assumes "cycle_inv s" and "locatable ms [] s"
  shows "\<exists>s'. forT ms (\<lambda>i. recomputeImpact i t) s = (Inr (), s') \<and> cycle_inv s' \<and> evolves s s'"
  using assms
proof (induction ms arbitrary: s)
  case (Cons m ms)
  obtain s1 where s1: "recomputeImpact m t s = (Inr (), s1)"
    using impact_row_exists [of m s t] Cons.prems(2) by (auto simp: locatable_def)
  have g: "cycle_inv s1 \<and> evolves s s1" using grown(2) [OF Cons.prems(1), of m t] s1 by simp
  then have "locatable ms [] s1" using Cons.prems(2) locatable_evolves [of ms "[]" s s1] by (simp add: locatable_def)
  then show ?case using Cons.IH [of s1] g s1 by (auto intro: evolves_trans)
qed (simp add: returnT_def)

lemma incidents_total:
  assumes "cycle_inv s" and "locatable [] js s"
  shows "\<exists>s'. forT js (\<lambda>i. recomputeIncident i t) s = (Inr (), s') \<and> cycle_inv s' \<and> evolves s s'"
  using assms
proof (induction js arbitrary: s)
  case (Cons i js)
  obtain s1 where s1: "recomputeIncident i t s = (Inr (), s1)"
    using incident_row_exists [of i s t] Cons.prems(2) by (auto simp: locatable_def)
  have g: "cycle_inv s1 \<and> evolves s s1" using grown(3) [OF Cons.prems(1), of i t] s1 by simp
  then have "locatable [] js s1" using Cons.prems(2) locatable_evolves [of "[]" js s s1] by (simp add: locatable_def)
  then show ?case using Cons.IH [of s1] g s1 by (auto intro: evolves_trans)
qed (simp add: returnT_def)

lemma recompute_all_total:
  assumes "cycle_inv s" and "locatable ms js s"
  shows "\<exists>s'. recompute_all ms js t s = (Inr (), s') \<and> cycle_inv s' \<and> evolves s s'"
proof -
  obtain s1 where s1: "forT ms (\<lambda>i. recomputeImpact i t) s = (Inr (), s1)" "cycle_inv s1" "evolves s s1"
    using impacts_total [OF assms(1), of ms t] assms(2) by (auto simp: locatable_def)
  then have "locatable [] js s1" using locatable_evolves [OF assms(2) s1(3)] by (simp add: locatable_def)
  from incidents_total [OF s1(2) this, of t] s1 show ?thesis
    unfolding recompute_all_def by (auto intro: evolves_trans)
qed

lemma due_locatable: "locatable [] (due_incidents t s) s"
  by (auto simp: locatable_def due_incidents_def)

lemma advance_total:
  assumes "cycle_inv s"
  shows "\<exists>s'. advanceDueIncidents t s = (Inr (), s') \<and> cycle_inv s' \<and> evolves s s'"
  using incidents_total [OF assms due_locatable, of t] by (simp add: advanceDueIncidents_def bindT_def getT_def)

subsection \<open>How a fact ends\<close>

lemma ensureImpact_error:
  "ensureImpact f t s = (Inl e, s') \<Longrightarrow>
    (e = ErrNotFound \<and> fa_TargetID f \<notin> tg_id ` set (targets s)) \<or> e = ErrTargetArchived"
  by (auto simp: ensureImpact_def Let_def find_eq_None split: option.splits if_splits prod.splits)

lemma open_evidence_error:
  "open_evidence f t s = (Inl e, s') \<Longrightarrow>
    (e = ErrNotFound \<and> fa_TargetID f \<notin> tg_id ` set (targets s)) \<or> e = ErrTargetArchived"
  by (auto simp: open_evidence_unfold dest!: ensureImpact_error split: option.splits prod.splits sum.splits)

lemma open_evidence_located:
  assumes "cycle_inv s" and "validSeverity (fa_Severity f)" and "open_evidence f t s = (Inr (Some (i, m)), s')"
  shows "locatable [m] [i] s'"
proof -
  from assms(3) obtain e s1 where e: "ensureImpact f t s = (Inr e, s1)" and s': "s' = add_evidence f t e s1"
    and ids: "i = en_incidentID e" "m = en_impactID e"
    by (auto simp: open_evidence_unfold split: option.splits prod.splits sum.splits)
  have en: "ensures f e s s1" using ensureImpact_ensures [OF assms(1,2), of t] e by simp
  then obtain x where "x \<in> set (impacts s1)" "im_id x = m" "im_incident_id x = i" using ids by (auto simp: ensures_def im_ref_def)
  then have "locatable [m] [i] s1"
    using cycle_invD(5) [of s1 x] en by (force simp: locatable_def ensures_def)
  then show ?thesis unfolding s' by (rule locatable_evolves) (rule evolves_add_evidence)
qed

lemma applyEvidenceFact_outcome:
  assumes "cycle_inv s"
  shows "case applyEvidenceFact f t s of
      (Inl e, _) \<Rightarrow> (e = ErrInvalidInput \<and> \<not> (fact_complete f \<and> validSeverity (fa_Severity f))) \<or>
        (e = ErrNotFound \<and> fa_TargetID f \<notin> tg_id ` set (targets s)) \<or> e = ErrTargetArchived
    | (Inr None, _) \<Rightarrow> True
    | (Inr (Some (i, m)), s') \<Rightarrow> locatable [m] [i] s'"
proof (cases "fact_complete f \<and> validSeverity (fa_Severity f)")
  case False
  then show ?thesis by (auto simp: applyEvidenceFact_def)
next
  case ok: True
  show ?thesis
  proof (cases "existing_evidence f s")
    case None
    then show ?thesis
      using ok open_evidence_error [of f t s] open_evidence_located [OF assms, of f t]
      by (auto simp: applyEvidenceFact_def split: prod.split sum.split option.split)
  next
    case (Some q)
    obtain e k where q: "q = (e, k)" by (cases q)
    note ex = existing_evidence_Some [OF Some [unfolded q]]
    have here: "locatable [ev_impact_id e] [ev_incident_id e] s"
      using evidence_incident [OF assms ex(1)] by (simp add: locatable_def)
    define s1 where "s1 = resolveEvidenceRow (ev_id e) (ev_incident_id e) (ev_impact_id e) (fa_Name f) (fa_Origin f) t s"
    obtain s2 s3 where s2: "recomputeImpact (ev_impact_id e) t s1 = (Inr (), s2)"
        and s3: "recomputeIncident (ev_incident_id e) t s2 = (Inr (), s3)"
      unfolding s1_def by (rule resolve_recompute_total [OF assms ex(1)])
    have "cycle_inv s1" unfolding s1_def using assms by (rule inv_resolveEvidenceRow)
    then have inv3: "cycle_inv s3" using grown(2) [of s1] grown(3) [of s2] s2 s3 by (metis snd_conv)
    have "elsewhere_kept s s1" by (simp add: s1_def)
    then have "targets s3 = targets s" using elsewhere_recompute s2 s3 by (metis elsewhere_kept_def snd_conv)
    then have moved: "case open_evidence f t s3 of
        (Inl e, _) \<Rightarrow> (e = ErrNotFound \<and> fa_TargetID f \<notin> tg_id ` set (targets s)) \<or> e = ErrTargetArchived
      | (Inr None, _) \<Rightarrow> True | (Inr (Some (i, m)), s') \<Rightarrow> locatable [m] [i] s'"
      using ok open_evidence_error [of f t s3] open_evidence_located [OF inv3, of f t]
      by (auto split: prod.split sum.split option.split)
    have "applyEvidenceFact f t s =
        (if ev_invalidated_at e \<noteq> None then (Inr (Some (ev_incident_id e, ev_impact_id e)), touch_evidence (ev_id e) t s)
         else if ev_target_id e = fa_TargetID f \<and> k = n_Key (fa_Nature f)
         then (Inr (Some (ev_incident_id e, ev_impact_id e)), snd (applyEvidenceFact f t s))
         else open_evidence f t s3)"
      using ok Some q s2 s3 by (simp add: applyEvidenceFact_def s1_def Let_def thenT_def bindT_def execT_def)
    then show ?thesis using moved here locatable_evolves [OF here evolves_touch_evidence]
        locatable_evolves [OF here conjunct2 [OF grown(1) [OF assms, of f t]]]
      by (auto split: prod.splits sum.splits option.splits if_splits)
  qed
qed

subsection \<open>How a snapshot ends\<close>

definition bad_fact :: "EvidenceFact \<Rightarrow> db \<Rightarrow> cycle_error \<Rightarrow> bool" where
  "bad_fact f s e \<longleftrightarrow> (e = ErrInvalidInput \<and> \<not> (fact_complete f \<and> validSeverity (fa_Severity f))) \<or>
     (e = ErrNotFound \<and> fa_TargetID f \<notin> tg_id ` set (targets s))"

lemma bad_fact_cong: "elsewhere_kept s s' \<Longrightarrow> bad_fact f s' e = bad_fact f s e"
  by (simp add: bad_fact_def elsewhere_kept_def)

abbreviation located :: "progress \<Rightarrow> db \<Rightarrow> bool" where
  "located p s \<equiv> locatable (pr_impacts p) (pr_incidents p) s"

lemma located_mark: "located p s \<Longrightarrow> locatable [m] [i] s \<Longrightarrow> located (mark i m p) s"
  by (auto simp: mark_def locatable_def)

lemma apply_fact_outcome:
  assumes "cycle_inv s" and "located p s"
  shows "case apply_fact t f p s of (Inl e, _) \<Rightarrow> bad_fact f s e | (Inr p', s') \<Rightarrow> located p' s'"
proof (cases "fact_key f \<in> set (pr_seen p)")
  case True
  then show ?thesis using assms(2) by (simp add: apply_fact_def Let_def)
next
  case False
  obtain x s1 where x: "applyEvidenceFact f t s = (x, s1)" by (cases "applyEvidenceFact f t s")
  have "evolves s s1" using grown(1) [OF assms(1), of f t] x by simp
  then have "located (p\<lparr>pr_seen := k # pr_seen p\<rparr>) s1" for k using locatable_evolves [OF assms(2)] by simp
  then show ?thesis using False x applyEvidenceFact_outcome [OF assms(1), of f t]
    by (auto simp: apply_fact_def bad_fact_def Let_def located_mark split: sum.split option.split)
qed

lemma apply_facts_outcome:
  assumes "cycle_inv s" and "located p s"
  shows "case apply_facts t fs p s of (Inl e, _) \<Rightarrow> \<exists>f \<in> set fs. bad_fact f s e | (Inr p', s') \<Rightarrow> located p' s'"
  using assms
proof (induction fs arbitrary: p s)
  case (Cons f fs)
  obtain x s1 where x: "apply_fact t f p s = (x, s1)" by (cases "apply_fact t f p s")
  show ?case
  proof (cases x)
    case (Inl e)
    then show ?thesis using x apply_fact_outcome [OF Cons.prems, where t = t and f = f] by (simp add: bindT_def)
  next
    case (Inr p1)
    then have c: "cycle_inv s1" "elsewhere_kept s s1" using apply_fact_cases [OF Cons.prems(1)] x by blast+
    have "located p1 s1" using apply_fact_outcome [OF Cons.prems, where t = t and f = f] x Inr by simp
    from Cons.IH [OF c(1) this] show ?thesis using x Inr bad_fact_cong [OF c(2)]
      by (auto simp: bindT_def split: prod.splits sum.splits)
  qed
qed (simp add: returnT_def)

lemma resolve_absent_located:
  assumes "cycle_inv s" and "located p s" and "\<And>r. r \<in> set rs \<Longrightarrow> locatable [ev_impact_id r] [ev_incident_id r] s"
  shows "located (fst (resolve_absent og t rs p s)) (snd (resolve_absent og t rs p s))"
  using assms
proof (induction rs arbitrary: p s)
  case (Cons r rs)
  define s1 where "s1 = resolveEvidenceRow (ev_id r) (ev_incident_id r) (ev_impact_id r) (ev_name r) og t s"
  have ev: "evolves s s1" unfolding s1_def by (rule evolves_resolveEvidenceRow)
  have "located (mark (ev_incident_id r) (ev_impact_id r) p) s1"
    using Cons.prems(2,3) by (intro locatable_evolves [OF _ ev] located_mark) simp_all
  moreover have "cycle_inv s1" unfolding s1_def using Cons.prems(1) by (rule inv_resolveEvidenceRow)
  moreover have "locatable [ev_impact_id q] [ev_incident_id q] s1" if "q \<in> set rs" for q
    using Cons.prems(3) [of q] that locatable_evolves [OF _ ev] by simp
  ultimately show ?case using Cons.IH Cons.prems by (simp add: s1_def)
qed simp

lemma snapshot_tail_total:
  assumes "cycle_inv s" and "located p s"
  shows "\<exists>s'. snapshot_tail sn t p s = (Inr (), s')"
proof -
  define r where "r = resolve_absent (sn_Origin sn) t (activeEvidenceForSnapshot sn s) p s"
  define s2 where "s2 = rearmRecoveredEvidence sn (pr_seen (fst r)) t (snd r)"
  have "locatable [ev_impact_id q] [ev_incident_id q] s" if "q \<in> set (activeEvidenceForSnapshot sn s)" for q
    using that evidence_incident [OF assms(1), of q] by (simp add: locatable_def activeEvidence_filter)
  then have "located (fst r) (snd r)" unfolding r_def by (rule resolve_absent_located [OF assms])
  moreover have inv1: "cycle_inv (snd r)" unfolding r_def using grown(4) [OF assms(1)] by blast
  ultimately have "located (fst r) s2" "cycle_inv s2"
    unfolding s2_def using grown(5) [OF inv1] locatable_evolves by blast+
  moreover have "set (map_order s2 xs) = set xs" for xs
    using cycle_invD(8) [OF \<open>cycle_inv s2\<close>, of xs] by (metis set_mset_mset)
  ultimately have "locatable (map_order s2 (pr_impacts (fst r))) (map_order s2 (pr_incidents (fst r))) s2"
    by (simp add: locatable_def)
  from recompute_all_total [OF \<open>cycle_inv s2\<close> this, of t] obtain s3 where
    s3: "recompute_all (map_order s2 (pr_impacts (fst r))) (map_order s2 (pr_incidents (fst r))) t s2 = (Inr (), s3)" "cycle_inv s3"
    by blast
  from advance_total [OF this(2), of t] s3(1) show ?thesis
    by (auto simp: snapshot_tail_def split_beta Let_def r_def [symmetric] s2_def [symmetric])
qed

abbreviation lease_lost :: "EvidenceSnapshot \<Rightarrow> db \<Rightarrow> bool" where
  "lease_lost sn s \<equiv> sn_LeaseOwner sn \<noteq> '''' \<and> \<not> lease_valid (sn_ConnectorID sn) (sn_LeaseOwner sn) s"

lemma snapshot_outcome:
  assumes "cycle_inv s"
  shows "case ApplyEvidenceSnapshot now sn s of
      (Inl e, s') \<Rightarrow> s' = s \<and> ((e = ErrLeaseLost \<and> lease_lost sn s) \<or> (\<exists>f \<in> set (sn_Facts sn). bad_fact f s e))
    | (Inr _, _) \<Rightarrow> \<not> lease_lost sn s"
proof (cases "lease_lost sn s")
  case True
  then show ?thesis by (simp add: ApplyEvidenceSnapshot_def Let_def commit_or_rollback_def)
next
  case False
  define t where "t = normalizedTime now (sn_ObservedAt sn)"
  obtain x s1 where x: "apply_facts t (prepared_facts sn t) no_progress s = (x, s1)" by (cases "apply_facts t (prepared_facts sn t) no_progress s")
  have out: "case apply_facts t (prepared_facts sn t) no_progress s of
      (Inl e, _) \<Rightarrow> \<exists>f \<in> set (prepared_facts sn t). bad_fact f s e | (Inr p', s') \<Rightarrow> located p' s'"
    by (rule apply_facts_outcome [OF assms]) (simp add: locatable_def no_progress_def)
  have run: "ApplyEvidenceSnapshot now sn s = commit_or_rollback (bindT (apply_facts t (prepared_facts sn t) no_progress) (snapshot_tail sn t)) s"
    using False by (auto simp: ApplyEvidenceSnapshot_def t_def Let_def commit_or_rollback_def)
  show ?thesis
  proof (cases x)
    case (Inl e)
    then obtain f where "f \<in> set (prepared_facts sn t)" "bad_fact f s e" using out x by auto
    then obtain g where "g \<in> set (sn_Facts sn)" "bad_fact (prepare_fact sn t g) s e" by (auto simp: prepared_facts_set)
    moreover have "bad_fact (prepare_fact sn t g) s e = bad_fact g s e"
      by (simp add: bad_fact_def fact_complete_def prepare_fact_def)
    ultimately have "\<exists>f \<in> set (sn_Facts sn). bad_fact f s e" by blast
    then show ?thesis using x Inl by (simp add: run bindT_def commit_or_rollback_def)
  next
    case (Inr p)
    have "cycle_inv s1" using apply_facts_frame [OF assms] x Inr by blast
    moreover have "located p s1" using out x Inr by simp
    ultimately obtain s' where "snapshot_tail sn t p s1 = (Inr (), s')" using snapshot_tail_total by blast
    then show ?thesis using x Inr False by (simp add: run bindT_def commit_or_rollback_def)
  qed
qed

lemma snapshot_succeeds:
  assumes "cycle_inv s" and "\<not> lease_lost sn s" and "\<And>f e. f \<in> set (sn_Facts sn) \<Longrightarrow> \<not> bad_fact f s e"
  shows "ApplyEvidenceSnapshot now sn s = (Inr (), snd (ApplyEvidenceSnapshot now sn s))"
  using snapshot_outcome [OF assms(1), where now = now and sn = sn] assms(2,3)
  by (cases "ApplyEvidenceSnapshot now sn s") (auto split: sum.splits)

subsection \<open>The clock closes what is due\<close>

lemma recomputed_ends:
  "map (\<lambda>r. (in_id r, in_propagation_ends_at r)) (incidents (snd (recomputeIncident i t s))) =
     map (\<lambda>r. (in_id r, in_propagation_ends_at r)) (incidents s)"
proof -
  have "map (\<lambda>r. (in_id r, in_propagation_ends_at r)) (update_where P g rows) = map (\<lambda>r. (in_id r, in_propagation_ends_at r)) rows"
    if "\<And>r. (in_id (g r), in_propagation_ends_at (g r)) = (in_id r, in_propagation_ends_at r)"
    for P and g :: "incident_row \<Rightarrow> incident_row" and rows
    by (rule map_update_where) (rule that)
  then have "map (\<lambda>r. (in_id r, in_propagation_ends_at r)) (incidents (recomputeAcknowledgement i s1)) = map (\<lambda>r. (in_id r, in_propagation_ends_at r)) (incidents s1)"
    "map (\<lambda>r. (in_id r, in_propagation_ends_at r)) (incidents (refreshIncidentPresentation i b s1)) = map (\<lambda>r. (in_id r, in_propagation_ends_at r)) (incidents s1)"
    "map (\<lambda>r. (in_id r, in_propagation_ends_at r)) (incidents (write_incident prev d t s1)) = map (\<lambda>r. (in_id r, in_propagation_ends_at r)) (incidents s1)"
    "incidents (journal_incident prev d s1) = incidents s1" for s1 b prev d
    by (simp_all add: recomputeAcknowledgement_def refreshIncidentPresentation_def write_incident_def journal_incident_def
        written_row_def appendActivity_def Let_def split_beta)
  then show ?thesis by (simp add: recomputeIncident_def Let_def split: option.split)
qed

definition settled :: "uuid \<Rightarrow> db \<Rightarrow> bool" where
  "settled i s \<longleftrightarrow> (\<forall>r \<in> set (incidents s). in_id r = i \<longrightarrow> in_propagation_status r = Closed)"

definition expired :: "instant \<Rightarrow> uuid \<Rightarrow> db \<Rightarrow> bool" where
  "expired t i s \<longleftrightarrow> (\<forall>r \<in> set (incidents s). in_id r = i \<longrightarrow> in_propagation_ends_at r \<le> t)"

lemma expired_recompute: "expired t i (snd (recomputeIncident j u s)) = expired t i s"
proof -
  have "set (map (\<lambda>r. (in_id r, in_propagation_ends_at r)) (incidents (snd (recomputeIncident j u s)))) =
      set (map (\<lambda>r. (in_id r, in_propagation_ends_at r)) (incidents s))"
    unfolding recomputed_ends ..
  then have "(\<forall>x \<in> (\<lambda>r. (in_id r, in_propagation_ends_at r)) ` set (incidents (snd (recomputeIncident j u s))). fst x = i \<longrightarrow> snd x \<le> t) =
      (\<forall>x \<in> (\<lambda>r. (in_id r, in_propagation_ends_at r)) ` set (incidents s). fst x = i \<longrightarrow> snd x \<le> t)"
    by (simp only: list.set_map)
  then show ?thesis by (simp add: expired_def)
qed

lemma settled_evolves:
  assumes "evolves s s'" and "length (incidents s') = length (incidents s)" and "settled i s"
  shows "settled i s'"
  unfolding settled_def
proof (intro ballI impI)
  fix r' assume "r' \<in> set (incidents s')" and id: "in_id r' = i"
  then obtain k where k: "k < length (incidents s)" "r' = incidents s' ! k" using assms(2) by (auto simp: in_set_conv_nth)
  then have "incident_le (incidents s ! k) r'" using assms(1) by (simp add: evolves_def grows_def)
  moreover from this have "in_propagation_status (incidents s ! k) = Closed"
    using assms(3) id nth_mem [OF k(1)] by (simp add: settled_def incident_le_def)
  ultimately show "in_propagation_status r' = Closed" by (simp add: incident_le_def)
qed

lemma settled_acknowledgement: "settled i s \<Longrightarrow> settled i (recomputeAcknowledgement j s)"
  by (rule settled_evolves [OF evolves_recomputeAcknowledgement]) (simp_all add: recomputeAcknowledgement_def Let_def split_beta)

lemma length_recompute: "length (incidents (snd (recomputeIncident i t s))) = length (incidents s)"
  using arg_cong [OF recomputed_ends [of i t s], where f = length] by simp

lemma settles:
  assumes "cycle_inv s" and "expired t i s"
  shows "settled i (snd (recomputeIncident i t s))"
proof (cases "incident_by_id s i")
  case None
  then have "i \<notin> in_id ` set (incidents s)" by (simp add: incident_by_id_None)
  then show ?thesis using None by (auto simp: recomputeIncident_def settled_def)
next
  case (Some prev)
  note pv = incident_by_id_Some [OF Some]
  define d where "d = derive_incident prev t s"
  define s0 where "s0 = refreshIncidentPresentation i (dv_active d = 0) s"
  have dc: "dv_propagation d = Closed"
    using assms(2) pv by (cases "in_propagation_status prev") (auto simp: d_def derive_incident_def Let_def expired_def)
  have "settled i (recomputeAcknowledgement i (if incident_changed prev d then journal_incident prev d (write_incident prev d t s0) else s0))"
  proof (cases "incident_changed prev d")
    case True
    have "settled i (journal_incident prev d (write_incident prev d t s0))"
      using dc pv
      by (auto simp: settled_def journal_incident_def write_incident_def written_row_def appendActivity_def Let_def
          elim!: update_whereE)
    then show ?thesis using True by (simp add: settled_acknowledgement)
  next
    case False
    then have "in_propagation_status prev = Closed" using dc by (simp add: incident_changed_def)
    then have "settled i s" using incident_by_id_the [OF assms(1)] Some by (auto simp: settled_def)
    then have "settled i s0" unfolding s0_def
      by (rule settled_evolves [OF evolves_refreshIncidentPresentation, rotated]) (simp add: refreshIncidentPresentation_def Let_def)
    then show ?thesis using False by (simp add: settled_acknowledgement)
  qed
  then show ?thesis using Some unfolding s0_def d_def by (auto simp: recomputeIncident_def Let_def)
qed

lemma all_settled:
  assumes "cycle_inv s" and "\<And>i. i \<in> set js \<Longrightarrow> expired t i s" and "forT js (\<lambda>i. recomputeIncident i t) s = (Inr u, s')"
  shows "length (incidents s') = length (incidents s) \<and> evolves s s' \<and> (\<forall>i \<in> set js. settled i s')"
  using assms
proof (induction js arbitrary: s)
  case (Cons j js)
  from Cons.prems(3) obtain s1 where one: "recomputeIncident j t s = (Inr (), s1)"
    and rest: "forT js (\<lambda>i. recomputeIncident i t) s1 = (Inr u, s')" by (auto elim: thenT_InrE)
  have s1: "s1 = snd (recomputeIncident j t s)" using one by simp
  have g: "cycle_inv s1 \<and> evolves s s1" unfolding s1 by (rule grown(3) [OF Cons.prems(1)])
  have "expired t i s1" if "i \<in> set js" for i using Cons.prems(2) [of i] that by (simp add: s1 expired_recompute)
  then have ih: "length (incidents s') = length (incidents s1) \<and> evolves s1 s' \<and> (\<forall>i \<in> set js. settled i s')"
    using Cons.IH [OF _ _ rest] g by blast
  have "settled j s1" unfolding s1 using Cons.prems(1,2) by (simp add: settles)
  then have "settled j s'" using settled_evolves ih by blast
  then show ?case using ih g by (auto simp: s1 length_recompute intro: evolves_trans)
qed (simp add: returnT_def)

lemma advance_closes:
  assumes "cycle_inv s"
  shows "\<exists>s'. Advance now observedAt s = (Inr (), s') \<and>
    (\<forall>r \<in> set (incidents s'). in_propagation_status r = Open \<longrightarrow> normalizedTime now observedAt < in_propagation_ends_at r)"
proof -
  define t where "t = normalizedTime now observedAt"
  from advance_total [OF assms, of t] obtain s' where s': "advanceDueIncidents t s = (Inr (), s')" by blast
  have "expired t i s" if "i \<in> set (due_incidents t s)" for i
    unfolding expired_def
  proof (intro ballI impI)
    fix r assume r: "r \<in> set (incidents s)" "in_id r = i"
    from that obtain r0 where r0: "r0 \<in> set (incidents s)" "in_id r0 = i" "in_propagation_ends_at r0 \<le> t"
      by (auto simp: due_incidents_def)
    then have "r = r0" using incident_by_id_the [OF assms r(1)] incident_by_id_the [OF assms r0(1)] r(2) by simp
    then show "in_propagation_ends_at r \<le> t" using r0(3) by simp
  qed
  then have all: "length (incidents s') = length (incidents s)" "evolves s s'" "\<forall>i \<in> set (due_incidents t s). settled i s'"
    using all_settled [OF assms, of "due_incidents t s" t] s' by (auto simp: advanceDueIncidents_def bindT_def getT_def)
  have "t < in_propagation_ends_at r'" if "r' \<in> set (incidents s')" "in_propagation_status r' = Open" for r'
  proof (rule ccontr)
    assume "\<not> t < in_propagation_ends_at r'"
    from that(1) obtain k where k: "k < length (incidents s)" "r' = incidents s' ! k"
      using all(1) unfolding in_set_conv_nth by metis
    then have le: "incident_le (incidents s ! k) r'" using all(2) by (simp add: evolves_def grows_def)
    then have "in_propagation_status (incidents s ! k) = Open"
      using that(2) by (cases "in_propagation_status (incidents s ! k)") (simp_all add: incident_le_def)
    moreover from this have "in_status (incidents s ! k) = Active"
      using rows_okD(1) [OF assms nth_mem [OF k(1)]] by (cases "in_status (incidents s ! k)") (simp_all add: incident_ok_def)
    moreover have "in_propagation_ends_at (incidents s ! k) \<le> t" using le \<open>\<not> t < in_propagation_ends_at r'\<close> by (simp add: incident_le_def)
    ultimately have "in_id (incidents s ! k) \<in> set (due_incidents t s)" using nth_mem [OF k(1)] by (simp add: due_incidents_def)
    then have "in_propagation_status r' = Closed" using all(3) that(1) le by (auto simp: settled_def incident_le_def)
    with that(2) show False by simp
  qed
  then show ?thesis using s' by (auto simp: Advance_def commit_or_rollback_def t_def)
qed

subsection \<open>Acknowledging\<close>

lemma appended_incidents [simp]: "incidents (appendActivity i m v k og a msg dt s) = incidents s"
  by (simp add: appendActivity_def)

lemma incident_by_id_update:
  assumes "incident_by_id s i = Some r" and "\<And>r. in_id (g r) = in_id r"
  shows "incident_by_id (s\<lparr>incidents := update_where (\<lambda>r. in_id r = i) g (incidents s)\<rparr>) i = Some (g r)"
  using assms unfolding incident_by_id_def by (auto simp: find_update_where dest: find_SomeD)

lemma acknowledge_twice:
  assumes "AcknowledgeLocal i a n s = (Inr plan, s')"
  shows "(\<exists>r. incident_by_id s' i = Some r \<and> in_acknowledged_at r \<noteq> None) \<and> AcknowledgeLocal i a' n' s' = (Inr plan, s')"
proof -
  from assms obtain inc where inc: "incident_by_id s i = Some inc" "in_status inc \<noteq> Resolved"
    by (auto simp: AcknowledgeLocal_def commit_or_rollback_def split: option.splits if_splits)
  have plan: "plan = acknowledgement_targets i s'"
    using assms inc by (auto simp: AcknowledgeLocal_def commit_or_rollback_def Let_def)
  have "\<exists>r. incident_by_id s' i = Some r \<and> in_acknowledged_at r \<noteq> None \<and> in_status r = in_status inc"
  proof (cases "in_acknowledged_at inc = None")
    case False
    then show ?thesis using assms inc by (auto simp: AcknowledgeLocal_def commit_or_rollback_def Let_def)
  next
    case True
    let ?st = "if \<exists>r \<in> set (evidence s). is_zabbix_active i r then Pending else NotApplicable"
    have "incident_by_id (acknowledge_incident i a ?st s) i =
        Some (inc\<lparr>in_acknowledged_at := Some (clock s), in_acknowledged_by := Some a,
          in_acknowledgement_origin := Some AckUser, in_ack_sync_status := ?st,
          in_ack_sync_error := '''', in_revision := in_revision inc + 1, in_updated_at := clock s\<rparr>)"
      unfolding acknowledge_incident_def by (rule incident_by_id_update [OF inc(1)]) simp
    moreover have "incidents s' = incidents (acknowledge_incident i a ?st s)"
      using assms inc True
      by (auto simp: AcknowledgeLocal_def commit_or_rollback_def Let_def queue_acknowledgements_def)
    ultimately show ?thesis by (simp add: incident_by_id_def)
  qed
  then show ?thesis using plan inc(2) by (auto simp: AcknowledgeLocal_def commit_or_rollback_def Let_def)
qed

definition awaiting :: "uuid \<Rightarrow> uuid set \<Rightarrow> db \<Rightarrow> bool" where
  "awaiting i V s \<longleftrightarrow> (\<forall>e \<in> set (evidence s). is_zabbix_active i e \<longrightarrow> ev_ack_sync_status e = Synchronized \<or> ev_id e \<in> V)"

lemma awaiting_complete:
  assumes "awaiting i (insert (ar_EvidenceID res) V) s" and "ar_Error res = ''''"
  shows "awaiting i V (complete_row i res s)"
proof -
  have err: "sync_error res = ''''" using assms(2) by (simp add: sync_error_def TrimSpace_Nil)
  have "evidence (complete_row i res s) = evidence (record_result i res s)" by (simp add: complete_row_def)
  then show ?thesis using assms(1) err
    by (auto simp: awaiting_def record_result_def result_of_def is_zabbix_active_def Let_def elim!: update_whereE)
qed

lemma awaiting_completes:
  "awaiting i (ar_EvidenceID ` set results) s \<Longrightarrow> (\<And>r. r \<in> set results \<Longrightarrow> ar_Error r = '''') \<Longrightarrow>
    awaiting i {} (fold (complete_row i) results s)"
proof (induction results arbitrary: s)
  case (Cons r rs)
  then show ?case using awaiting_complete [of i r "ar_EvidenceID ` set rs" s] by simp
qed simp

lemma complete_rows_frame:
  "incidents (fold (complete_row i) results s) = incidents s \<and>
    map (\<lambda>e. (ev_id e, is_zabbix_active i e)) (evidence (fold (complete_row i) results s)) =
    map (\<lambda>e. (ev_id e, is_zabbix_active i e)) (evidence s)"
proof (induction results arbitrary: s)
  case (Cons r rs)
  have "map (\<lambda>e. (ev_id e, is_zabbix_active i e)) (evidence (complete_row i r s)) =
      map (\<lambda>e. (ev_id e, is_zabbix_active i e)) (evidence s)"
    unfolding complete_row_def record_result_def Let_def
    by (auto intro!: map_update_where simp: is_zabbix_active_def)
  then show ?case using Cons by (simp add: complete_row_def record_result_def Let_def)
qed simp

lemma acknowledge_synchronizes:
  assumes "incident_by_id s i = Some inc" and "in_status inc = Active" and "in_acknowledged_at inc = None"
    and "e0 \<in> set (evidence s)" and "is_zabbix_active i e0" and "\<not> ev_upstream_acknowledged e0"
    and call: "\<And>target message. call target message = None"
  shows "\<exists>s'. Acknowledge (Some call) i a n s = (Inr (), s') \<and>
    (\<forall>e \<in> set (evidence s'). is_zabbix_active i e \<longrightarrow> ev_ack_sync_status e = Synchronized) \<and>
    (\<forall>r \<in> set (incidents s'). in_id r = i \<and> in_acknowledged_at r \<noteq> None \<longrightarrow> in_ack_sync_status r = Synchronized)"
proof -
  define s1 where "s1 = queue_acknowledgements i (appendActivity i '''' '''' ''acknowledged'' ''user'' a
      (''Incident acquitt'' @ [CHR 0xC3, CHR 0xA9]) [(''actor_name'', JString n)] (acknowledge_incident i a Pending s))"
  have ext: "\<exists>r \<in> set (evidence s). is_zabbix_active i r" using assms(4,5) by blast
  have ack: "AcknowledgeLocal i a n s = (Inr (acknowledgement_targets i s1), s1)"
    using assms(1-3) ext by (simp add: AcknowledgeLocal_def commit_or_rollback_def Let_def s1_def)
  define plan where "plan = acknowledgement_targets i s1"
  have ev1: "evidence s1 = update_where (is_zabbix_active i)
      (\<lambda>r. r\<lparr>ev_ack_sync_status := (if ev_upstream_acknowledged r then Synchronized else Pending), ev_ack_sync_error := '''',
         ev_ack_synced_at := (if ev_upstream_acknowledged r then (case ev_ack_synced_at r of None \<Rightarrow> Some (clock s) | Some t \<Rightarrow> Some t) else None),
         ev_updated_at := clock s\<rparr>) (evidence s)"
  proof -
    have "evidence (queue_acknowledgements i s0) = update_where (is_zabbix_active i)
      (\<lambda>r. r\<lparr>ev_ack_sync_status := (if ev_upstream_acknowledged r then Synchronized else Pending), ev_ack_sync_error := '''',
         ev_ack_synced_at := (if ev_upstream_acknowledged r then (case ev_ack_synced_at r of None \<Rightarrow> Some (clock s) | Some t \<Rightarrow> Some t) else None),
         ev_updated_at := clock s\<rparr>) (evidence s)" if "evidence s0 = evidence s" "clock s0 = clock s" for s0
      unfolding queue_acknowledgements_def Let_def that by simp
    then show ?thesis unfolding s1_def by (simp add: acknowledge_incident_def appendActivity_def)
  qed
  have planids: "at_EvidenceID ` set plan = ev_id ` {e \<in> set (evidence s1). is_zabbix_active i e \<and>
      (ev_ack_sync_status e = Pending \<or> ev_ack_sync_status e = Failed)}"
    by (auto simp: plan_def acknowledgement_targets_def image_image image_iff)
  have "ev_ack_sync_status e = Synchronized \<or> ev_ack_sync_status e = Pending" if "e \<in> set (evidence s1)" "is_zabbix_active i e" for e
    using that unfolding ev1 by (auto simp: is_zabbix_active_def elim!: update_whereE split: if_split_asm)
  then have wait: "awaiting i (at_EvidenceID ` set plan) s1" unfolding awaiting_def planids by blast
  have pend: "\<exists>e \<in> set (evidence s1). is_zabbix_active i e \<and> ev_ack_sync_status e = Pending"
    unfolding ev1 by (rule bexI [OF _ updated_row [OF assms(4)]]) (use assms(5,6) in \<open>simp add: is_zabbix_active_def\<close>)
  then have "plan \<noteq> []" using planids by fastforce
  define results where "results = map (synchronize (Some call) n) plan"
  have ids: "ar_EvidenceID ` set results = at_EvidenceID ` set plan" by (auto simp: results_def synchronize_def image_image)
  have errs: "ar_Error r = ''''" if "r \<in> set results" for r using that call by (auto simp: results_def synchronize_def)
  define s2 where "s2 = fold (complete_row i) results s1"
  have done2: "awaiting i {} s2" unfolding s2_def using awaiting_completes [OF wait [folded ids]] errs by blast
  have run: "Acknowledge (Some call) i a n s = (Inr (), recomputeAcknowledgement i s2)"
    using ack \<open>plan \<noteq> []\<close>
    by (simp add: Acknowledge_def bindT_def plan_def [symmetric] results_def [symmetric] CompleteAcknowledgement_def
        commit_or_rollback_def execT_def s2_def)
  have some: "\<exists>e \<in> set (evidence s2). is_zabbix_active i e"
  proof -
    have "(\<lambda>e. (ev_id e, is_zabbix_active i e)) ` set (evidence s2) = (\<lambda>e. (ev_id e, is_zabbix_active i e)) ` set (evidence s1)"
      using complete_rows_frame [of i results s1] unfolding s2_def by (metis list.set_map)
    moreover obtain e1 where "e1 \<in> set (evidence s1)" "is_zabbix_active i e1" using pend by blast
    ultimately have "(ev_id e1, True) \<in> (\<lambda>e. (ev_id e, is_zabbix_active i e)) ` set (evidence s2)"
      by (metis (mono_tags, lifting) image_eqI)
    then show ?thesis by auto
  qed
  have "fst (desired_sync s2 i) = Synchronized"
    using some done2 by (auto simp: desired_sync_def Let_def awaiting_def filter_empty_conv)
  then have "\<forall>r \<in> set (incidents (recomputeAcknowledgement i s2)). in_id r = i \<and> in_acknowledged_at r \<noteq> None \<longrightarrow>
      in_ack_sync_status r = Synchronized"
    unfolding recomputeAcknowledgement_def split_beta Let_def
    by (intro ballI impI, simp, elim update_whereE) (simp, blast)
  then show ?thesis using run done2 by (auto simp: awaiting_def)
qed

end
