(* ===== verification/Incident_Structure.thy ===== *)
theory Incident_Structure
  imports Incident_History Incident_Total
begin

text \<open>
  Corrections of the identity of a resource (\<^verbatim>\<open>internal/incidents/structure.go\<close>): two resources
  become one (\<open>MergeTargets\<close>), or a Source is given to another resource (\<open>ReassignSource\<close>, in
  \<open>Incident_Reassign\<close>).
  The Proofs stay in their Incident and move to the Impact of the resource that is kept. Both
  run in the transaction of the reconciliation that asks for them. The snapshots of indicators
  and the inbox, which are outside the tables of the cycle, follow the same identifiers in the
  code and are not part of this state.
\<close>

subsection \<open>Statements\<close>

definition touchIncidentStructure :: "uuid \<Rightarrow> db \<Rightarrow> db" where
  "touchIncidentStructure i s =
     s\<lparr>incidents := update_where (\<lambda>r. in_id r = i)
        (\<lambda>r. r\<lparr>in_revision := in_revision r + 1, in_updated_at := clock s\<rparr>) (incidents s)\<rparr>"

definition retarget_impact :: "uuid \<Rightarrow> uuid \<Rightarrow> db \<Rightarrow> db" where
  "retarget_impact m t s =
     s\<lparr>impacts := update_where (\<lambda>r. im_id r = m) (\<lambda>r. r\<lparr>im_target_id := t\<rparr>) (impacts s)\<rparr>"

definition retarget_evidence :: "uuid \<Rightarrow> uuid \<Rightarrow> db \<Rightarrow> db" where
  "retarget_evidence m t s =
     s\<lparr>evidence := update_where (\<lambda>r. ev_impact_id r = m)
        (\<lambda>r. r\<lparr>ev_target_id := t, ev_updated_at := clock s\<rparr>) (evidence s)\<rparr>"

definition relink :: "(evidence_row \<Rightarrow> bool) \<Rightarrow> uuid \<Rightarrow> uuid \<Rightarrow> db \<Rightarrow> db" where
  "relink P m t s =
     s\<lparr>evidence := update_where P
        (\<lambda>r. r\<lparr>ev_impact_id := m, ev_target_id := t, ev_updated_at := clock s\<rparr>) (evidence s)\<rparr>"

definition relink_activity :: "(activity_row \<Rightarrow> bool) \<Rightarrow> uuid \<Rightarrow> db \<Rightarrow> db" where
  "relink_activity P m s =
     s\<lparr>activity := update_where P (\<lambda>r. r\<lparr>ac_impact_id := Some m\<rparr>) (activity s)\<rparr>"

definition delete_impact :: "uuid \<Rightarrow> db \<Rightarrow> db" where
  "delete_impact m s = s\<lparr>impacts := filter (\<lambda>r. im_id r \<noteq> m) (impacts s)\<rparr>"

definition impact_at :: "db \<Rightarrow> uuid \<Rightarrow> uuid \<Rightarrow> uuid option" where
  "impact_at s i t = map_option im_id (find (\<lambda>m. im_incident_id m = i \<and> im_target_id m = t) (impacts s))"

subsection \<open>Two resources become one (\<open>MergeTargets\<close>)\<close>

text \<open>The Impacts of the absorbed resource, each with the Impact of the kept one in the same
  Incident when there is one (the left join).\<close>

definition merge_candidates :: "uuid \<Rightarrow> uuid \<Rightarrow> db \<Rightarrow> (uuid \<times> uuid \<times> uuid option) list" where
  "merge_candidates primary secondary s =
     map (\<lambda>r. (im_id r, im_incident_id r, impact_at s (im_incident_id r) primary))
       (sort_key (\<lambda>r. (im_incident_id r, im_id r))
         (filter (\<lambda>r. im_target_id r = secondary) (impacts s)))"

definition move_impact :: "uuid \<Rightarrow> uuid \<Rightarrow> db \<Rightarrow> db" where
  "move_impact m t s = retarget_evidence m t (retarget_impact m t s)"

definition absorb_impact :: "uuid \<Rightarrow> uuid \<Rightarrow> uuid \<Rightarrow> db \<Rightarrow> db" where
  "absorb_impact m0 m1 t s =
     delete_impact m0
       (relink_activity (\<lambda>r. ac_impact_id r = Some m0) m1
         (relink (\<lambda>r. ev_impact_id r = m0) m1 t s))"

definition merge_item :: "instant \<Rightarrow> uuid \<Rightarrow> uuid \<times> uuid \<times> uuid option \<Rightarrow> unit tx" where
  "merge_item now primary item =
     (case item of
        (m0, i, None) \<Rightarrow> execT (move_impact m0 primary)
      | (m0, i, Some m1) \<Rightarrow> thenT (execT (absorb_impact m0 m1 primary)) (recomputeImpact m1 now))"

definition close_structure :: "instant \<Rightarrow> string \<Rightarrow> string \<Rightarrow> metadata \<Rightarrow> uuid list \<Rightarrow> unit tx" where
  "close_structure now kind message data is =
     forT is (\<lambda>i. thenT (recomputeIncident i now)
       (execT (\<lambda>s. appendActivity i '''' '''' kind ''cairnops'' '''' message data
                     (touchIncidentStructure i s))))"

definition MergeTargets :: "instant \<Rightarrow> uuid \<Rightarrow> uuid \<Rightarrow> int tx" where
  "MergeTargets now primary secondary s =
     (let items = merge_candidates primary secondary s
      in thenT (forT items (merge_item now primary))
           (thenT (close_structure now ''target_reconciled''
                    (''Atteintes r'' @ [CHR 0xC3, CHR 0xA9] @ ''unies apr'' @ [CHR 0xC3, CHR 0xA8] @
                     ''s rapprochement de Cibles'')
                    [(''absorbed_target_id'', JString secondary), (''target_id'', JString primary)]
                    (sortedKeys (map (\<lambda>(m, i, p). i) items)))
             (returnT (int (length (filter (\<lambda>(m, i, p). p \<noteq> None) items))))) s)"

subsection \<open>Each statement keeps the invariant and the agreement\<close>

abbreviation refs :: "db \<Rightarrow> (uuid \<times> uuid \<times> uuid) set" where
  "refs s \<equiv> im_ref ` set (impacts s)"

lemma refD: "(m, i, t) \<in> refs s \<Longrightarrow> \<exists>r \<in> set (impacts s). im_id r = m \<and> im_incident_id r = i \<and> im_target_id r = t"
  by (auto simp: im_ref_def)

lemma refI: "r \<in> set (impacts s) \<Longrightarrow> (im_id r, im_incident_id r, im_target_id r) \<in> refs s"
  by (auto simp: im_ref_def)

lemma ref_unique:
  assumes "cycle_inv s" and "(m, i, t) \<in> refs s"
  shows "(m, i', t') \<in> refs s \<Longrightarrow> i' = i \<and> t' = t" and "(m', i, t) \<in> refs s \<Longrightarrow> m' = m"
  using assms cycle_invD(2,9) [OF assms(1)] by (auto simp: im_ref_def distinct_map inj_on_def)

lemma evidence_ref: "cycle_inv s \<Longrightarrow> e \<in> set (evidence s) \<Longrightarrow> (ev_impact_id e, ev_incident_id e, ev_target_id e) \<in> refs s"
  using cycle_invD(7) [of s e] refI by metis

lemma impact_at_Some: "impact_at s i t = Some m \<Longrightarrow> (m, i, t) \<in> refs s"
  by (auto simp: impact_at_def im_ref_def dest!: find_SomeD)

lemma impact_at_None: "impact_at s i t = None \<Longrightarrow> (m, i, t) \<notin> refs s"
  by (auto simp: impact_at_def im_ref_def find_eq_None)

lemma local_relink:
  assumes "\<And>e. e \<in> set (evidence s) \<Longrightarrow> P e \<Longrightarrow> ev_impact_id e = m0"
    and "\<And>r. r \<in> set (impacts s) \<Longrightarrow> im_id r = m0 \<Longrightarrow> im_incident_id r = i"
    and "\<And>r. r \<in> set (impacts s) \<Longrightarrow> im_id r = m1 \<Longrightarrow> im_incident_id r = i"
  shows "\<exists>s1. local_change m0 i s s1 \<and> local_change m1 i s1 (relink P m1 t s)"
proof (intro exI conjI)
  define s1 where "s1 = s\<lparr>evidence := filter (\<lambda>e. \<not> P e) (evidence s)\<rparr>"
  have "filter (\<lambda>r. ev_impact_id r = m \<and> standing r) (filter (\<lambda>e. \<not> P e) (evidence s)) =
      filter (\<lambda>r. ev_impact_id r = m \<and> standing r) (evidence s)" if "m \<noteq> m0" for m
    unfolding filter_filter using assms(1) that by (intro filter_cong) auto
  then show "local_change m0 i s s1"
    using assms(2) by (simp add: local_change_def s1_def standing_severities_def impact_evidence_def)
  have "filter (\<lambda>r. ev_impact_id r = m \<and> standing r) (update_where P (\<lambda>r. r\<lparr>ev_impact_id := m1, ev_target_id := t, ev_updated_at := c\<rparr>) es) =
      filter (\<lambda>r. ev_impact_id r = m \<and> standing r) (filter (\<lambda>e. \<not> P e) es)" if "m \<noteq> m1" for m c es
    using that by (induction es) auto
  then show "local_change m1 i s1 (relink P m1 t s)"
    using assms(3) by (simp add: local_change_def s1_def relink_def standing_severities_def impact_evidence_def)
qed

lemma relink_frame [simp]:
  "impacts (relink P m t s) = impacts s" "incidents (relink P m t s) = incidents s"
  "uuids_drawn (relink P m t s) = uuids_drawn s" "gen_random_uuid (relink P m t s) = gen_random_uuid s"
  "map_order (relink P m t s) = map_order s"
  by (simp_all add: relink_def)

lemma relink_ids: "map fst (map ev_ref (evidence (relink P m t s))) = map fst (map ev_ref (evidence s))"
  by (simp add: relink_def map_update_where ev_ref_def comp_def)

lemma relink_identities [simp]: "active_identities (relink P m t s) = active_identities s"
proof -
  have "map ev_identity (filter ev_active (update_where P (\<lambda>r. r\<lparr>ev_impact_id := m, ev_target_id := t, ev_updated_at := c\<rparr>) es)) =
      map ev_identity (filter ev_active es)" for es c
    by (induction es) (simp_all add: ev_identity_def)
  then show ?thesis by (simp add: active_identities_def relink_def)
qed

lemma rows_ok_relink: "rows_ok s \<Longrightarrow> rows_ok (relink P m t s)"
  by (auto simp: rows_ok_def relink_def evidence_ok_def elim!: update_whereE)

lemma relink_refs:
  "x \<in> snd ` set (map ev_ref (evidence (relink P m t s))) \<Longrightarrow>
    \<exists>e \<in> set (evidence s). x = (if P e then (m, ev_incident_id e, t) else snd (ev_ref e))"
  by (auto simp: relink_def ev_ref_def elim!: update_whereE)

text \<open>A state whose rows name the same identifiers, the Impacts of the same Incidents, is of a
  correct shape when each Proof still names an Impact.\<close>

lemma shape_kept:
  assumes "shape_ok h" and "sh_gen h' = sh_gen h" and "sh_drawn h' = sh_drawn h" and "sh_order h' = sh_order h"
    and "sh_incidents h' = sh_incidents h" and "map fst (sh_impacts h') = map fst (sh_impacts h)"
    and "map (fst \<circ> snd) (sh_impacts h') = map (fst \<circ> snd) (sh_impacts h)"
    and "map fst (sh_evidence h') = map fst (sh_evidence h)"
    and "distinct (map snd (sh_impacts h'))" and "snd ` set (sh_evidence h') \<subseteq> set (sh_impacts h')"
  shows "shape_ok h'"
proof -
  have "fst ` set (sh_impacts h') = fst ` set (sh_impacts h)"
      "(fst \<circ> snd) ` set (sh_impacts h') = (fst \<circ> snd) ` set (sh_impacts h)"
      "fst ` set (sh_evidence h') = fst ` set (sh_evidence h)"
    using assms(6-8) by (metis list.set_map)+
  then show ?thesis using assms unfolding shape_ok_def by (elim conjE, intro conjI) simp_all
qed

lemma shape_db_kept:
  assumes "cycle_inv s" and "gen_random_uuid s' = gen_random_uuid s" and "uuids_drawn s' = uuids_drawn s"
    and "map_order s' = map_order s" and "incidents s' = incidents s"
    and "map fst (map im_ref (impacts s')) = map fst (map im_ref (impacts s))"
    and "map (fst \<circ> snd) (map im_ref (impacts s')) = map (fst \<circ> snd) (map im_ref (impacts s))"
    and "map fst (map ev_ref (evidence s')) = map fst (map ev_ref (evidence s))"
    and "distinct (map snd (map im_ref (impacts s')))"
    and "\<And>x. x \<in> snd ` set (map ev_ref (evidence s')) \<Longrightarrow> x \<in> refs s'"
  shows "shape_ok (shape_of s')"
proof (rule shape_kept)
  show "shape_ok (shape_of s)" using assms(1) by (simp add: cycle_inv_def)
  show "snd ` set (sh_evidence (shape_of s')) \<subseteq> set (sh_impacts (shape_of s'))"
    unfolding shape_of_def shape.simps set_map [of im_ref] using assms(10) by (rule subsetI)
qed (use assms(2-9) in \<open>simp_all only: shape_of_def shape.simps\<close>)

lemma inv_relink:
  assumes "cycle_inv s" and "(m1, i, t) \<in> refs s"
    and "\<And>e. e \<in> set (evidence s) \<Longrightarrow> P e \<Longrightarrow> ev_incident_id e = i"
  shows "cycle_inv (relink P m1 t s)"
proof -
  have "x \<in> refs s" if x: "x \<in> snd ` set (map ev_ref (evidence (relink P m1 t s)))" for x
  proof -
    obtain e where e: "e \<in> set (evidence s)" "x = (if P e then (m1, ev_incident_id e, t) else snd (ev_ref e))"
      using relink_refs [OF x] by blast
    then show ?thesis
      using assms(2) assms(3) [OF e(1)] evidence_ref [OF assms(1) e(1)] by (auto simp: ev_ref_def)
  qed
  then have "shape_ok (shape_of (relink P m1 t s))"
    using assms(1) relink_ids [of P m1 t s]
    by (intro shape_db_kept [OF assms(1)]) (simp_all only: relink_frame, simp add: cycle_inv_def shape_ok_def shape_of_def)
  then show ?thesis using assms(1) by (simp add: cycle_inv_def rows_ok_relink)
qed

lemma one_incident:
  "cycle_inv s \<Longrightarrow> (m, i, t) \<in> refs s \<Longrightarrow> r \<in> set (impacts s) \<Longrightarrow> im_id r = m \<Longrightarrow> im_incident_id r = i"
  using ref_unique(1) refI by metis

lemma tracked_relink:
  assumes "tracked s A B" and "(m0, i, t0) \<in> refs s" and "(m1, i, t) \<in> refs s"
    and "\<And>e. e \<in> set (evidence s) \<Longrightarrow> P e \<Longrightarrow> ev_impact_id e = m0"
  shows "tracked (relink P m1 t s) (insert m1 (insert m0 A)) (insert i B)"
proof -
  have inv: "cycle_inv s" using assms(1) by (simp add: tracked_def)
  obtain s1 where "local_change m0 i s s1" and two: "local_change m1 i s1 (relink P m1 t s)"
    using local_relink [of s P m0 i m1 t] assms(4) one_incident [OF inv assms(2)] one_incident [OF inv assms(3)] by blast
  then have "clean s1 (insert m0 A) (insert i B)" "covers s1 (insert m0 A) (insert i B)"
    using assms(1) clean_local covers_local unfolding tracked_def by blast+
  with two have "clean (relink P m1 t s) (insert m1 (insert m0 A)) (insert i B)"
      "covers (relink P m1 t s) (insert m1 (insert m0 A)) (insert i B)"
    using clean_local covers_local insert_absorb2 by metis+
  moreover have "ev_incident_id e = i" if "e \<in> set (evidence s)" "P e" for e
    using evidence_ref [OF inv that(1)] ref_unique(1) [OF inv assms(2)] assms(4) [OF that] by metis
  ultimately show ?thesis using inv_relink [OF inv assms(3)] by (simp add: tracked_def)
qed

text \<open>The Impact and its Proofs change resource together.\<close>

lemma retarget_as_relink:
  "cycle_inv s \<Longrightarrow> retarget_evidence m t s = relink (\<lambda>r. ev_impact_id r = m) m t s"
  by (auto simp: retarget_evidence_def relink_def update_where_def)

lemma distinct_retarget:
  assumes "distinct (map im_id xs)" and "distinct (map (\<lambda>r. (im_incident_id r, im_target_id r)) xs)"
    and "\<And>r. r \<in> set xs \<Longrightarrow> im_id r = m \<Longrightarrow> im_incident_id r = i"
    and "\<And>r. r \<in> set xs \<Longrightarrow> im_incident_id r = i \<Longrightarrow> im_target_id r \<noteq> t"
  shows "distinct (map (\<lambda>r. (im_incident_id r, im_target_id r)) (update_where (\<lambda>r. im_id r = m) (\<lambda>r. r\<lparr>im_target_id := t\<rparr>) xs))"
proof -
  let ?h = "\<lambda>r. if im_id r = m then r\<lparr>im_target_id := t\<rparr> else r"
  have "map (\<lambda>r. (im_incident_id r, im_target_id r)) (update_where (\<lambda>r. im_id r = m) (\<lambda>r. r\<lparr>im_target_id := t\<rparr>) xs) =
      map (\<lambda>r. (im_incident_id (?h r), im_target_id (?h r))) xs" by (simp add: update_where_def)
  moreover have "inj_on (\<lambda>r. (im_incident_id (?h r), im_target_id (?h r))) (set xs)"
  proof (rule inj_onI)
    fix x y assume xy: "x \<in> set xs" "y \<in> set xs"
      "(im_incident_id (?h x), im_target_id (?h x)) = (im_incident_id (?h y), im_target_id (?h y))"
    show "x = y"
    proof (cases "im_id x = im_id y")
      case True
      then show ?thesis using assms(1) xy by (auto simp: distinct_map inj_on_def)
    next
      case False
      then have "im_id x \<noteq> m \<and> im_id y \<noteq> m" using assms(3,4) xy by (auto split: if_splits)
      then show ?thesis using assms(2) xy by (auto simp: distinct_map inj_on_def)
    qed
  qed
  ultimately show ?thesis using assms(1) by (simp add: distinct_map)
qed

lemma refs_retarget:
  assumes "cycle_inv s" and "(m, i, t0) \<in> refs s"
  shows "refs (retarget_impact m t s) = insert (m, i, t) (refs s - {(m, i, t0)})"
proof -
  have one: "fst x = m \<longleftrightarrow> x = (m, i, t0)" if "x \<in> refs s" for x
    using that ref_unique(1) [OF assms, of "fst (snd x)" "snd (snd x)"] by (cases x) auto
  have "refs (retarget_impact m t s) = (\<lambda>x. if fst x = m then (m, fst (snd x), t) else x) ` refs s"
  proof -
    have "im_ref ` (\<lambda>r. if im_id r = m then r\<lparr>im_target_id := t\<rparr> else r) ` S =
        (\<lambda>x. if fst x = m then (m, fst (snd x), t) else x) ` im_ref ` S" for S
      unfolding image_image by (rule image_cong [OF refl]) (simp add: im_ref_def)
    then show ?thesis by (simp add: retarget_impact_def set_update_where)
  qed
  also have "\<dots> = (\<lambda>x. if x = (m, i, t0) then (m, i, t) else x) ` refs s"
    using one by (intro image_cong refl) auto
  also have "\<dots> = insert (m, i, t) (refs s - {(m, i, t0)})" using assms(2) by auto
  finally show ?thesis .
qed

lemma retarget_frame [simp]:
  "evidence (retarget_impact m t s) = evidence s" "incidents (retarget_impact m t s) = incidents s"
  "uuids_drawn (retarget_impact m t s) = uuids_drawn s"
  "gen_random_uuid (retarget_impact m t s) = gen_random_uuid s" "map_order (retarget_impact m t s) = map_order s"
  by (simp_all add: retarget_impact_def)

lemma retarget_ids:
  "map fst (map im_ref (impacts (retarget_impact m t s))) = map fst (map im_ref (impacts s))"
  "map (fst \<circ> snd) (map im_ref (impacts (retarget_impact m t s))) = map (fst \<circ> snd) (map im_ref (impacts s))"
  "map im_sync (impacts (retarget_impact m t s)) = map im_sync (impacts s)"
  by (simp_all add: retarget_impact_def map_update_where im_sync_def im_ref_def comp_def)

lemma inv_retarget:
  assumes inv: "cycle_inv s" and m: "(m, i, t0) \<in> refs s" and free: "\<And>m'. (m', i, t) \<notin> refs s"
    and P: "\<And>e. e \<in> set (evidence s) \<Longrightarrow> P e \<longleftrightarrow> ev_impact_id e = m"
  shows "cycle_inv (relink P m t (retarget_impact m t s))"
proof -
  let ?s1 = "retarget_impact m t s"
  have snds: "map snd (map im_ref xs) = map (\<lambda>m. (im_incident_id m, im_target_id m)) xs" for xs
    by (simp add: im_ref_def comp_def)
  have "distinct (map snd (map im_ref (impacts ?s1)))"
  proof -
    have "im_target_id r \<noteq> t" if "r \<in> set (impacts s)" "im_incident_id r = i" for r
      using refI [OF that(1)] free that(2) by auto
    moreover have "impacts ?s1 = update_where (\<lambda>r. im_id r = m) (\<lambda>r. r\<lparr>im_target_id := t\<rparr>) (impacts s)"
      by (simp add: retarget_impact_def)
    ultimately show ?thesis
      unfolding snds using distinct_retarget [OF cycle_invD(2,9) [OF inv] one_incident [OF inv m]] by simp
  qed
  moreover have "x \<in> refs ?s1" if x: "x \<in> snd ` set (map ev_ref (evidence (relink P m t ?s1)))" for x
  proof -
    obtain e where e: "e \<in> set (evidence s)" "x = (if P e then (m, ev_incident_id e, t) else snd (ev_ref e))"
      using relink_refs [OF x] by auto
    then show ?thesis
      using P [OF e(1)] evidence_ref [OF inv e(1)] ref_unique(1) [OF inv m] refs_retarget [OF inv m, of t]
      by (auto simp: ev_ref_def)
  qed
  ultimately have "shape_ok (shape_of (relink P m t ?s1))"
    using relink_ids [of P m t ?s1] retarget_ids(1,2) [of m t s]
    by (intro shape_db_kept [OF inv]) (simp_all only: relink_frame retarget_frame)
  moreover have "rows_ok ?s1"
    using inv by (auto simp: cycle_inv_def rows_ok_def retarget_impact_def impact_ok_def elim!: update_whereE)
  moreover have "active_identities ?s1 = active_identities s" by (simp add: active_identities_def)
  ultimately show ?thesis using inv by (simp add: cycle_inv_def rows_ok_relink)
qed

lemma tracked_retarget:
  assumes "tracked s A B" and "(m, i, t0) \<in> refs s" and "\<And>m'. (m', i, t) \<notin> refs s"
    and "\<And>e. e \<in> set (evidence s) \<Longrightarrow> P e \<longleftrightarrow> ev_impact_id e = m"
  shows "tracked (relink P m t (retarget_impact m t s)) A B"
proof (rule tracked_invisible [OF assms(1)])
  let ?s1 = "retarget_impact m t s"
  have "invisible s ?s1"
    unfolding invisible_def using retarget_ids(3) [of m t s]
    by (simp only: retarget_frame standing_severities_def [abs_def] impact_evidence_def)
  moreover have "invisible ?s1 (relink P m t ?s1)"
    unfolding relink_def by (rule invisible_evidence) (simp add: assms(4) ev_sync_def standing_def)
  ultimately show "invisible s (relink P m t ?s1)" by (rule invisible_trans)
  show "cycle_inv (relink P m t ?s1)" using assms inv_retarget by (auto simp: tracked_def)
qed

text \<open>An Impact without a Proof goes, in an Incident that has another.\<close>

lemma delete_refs: "map im_ref (impacts (delete_impact m s)) = filter (\<lambda>x. fst x \<noteq> m) (map im_ref (impacts s))"
  by (simp add: delete_impact_def filter_map comp_def im_ref_def)

lemma refs_delete: "refs (delete_impact m s) = {x \<in> refs s. fst x \<noteq> m}"
  using arg_cong [OF delete_refs [of m s], of set] by (simp only: set_map set_filter)

lemma shape_ok_delete:
  assumes h: "shape_ok h" and m: "(m, i, t) \<in> set (sh_impacts h)" and other: "(m', i, t') \<in> set (sh_impacts h)" "m' \<noteq> m"
    and free: "\<And>x. x \<in> set (sh_evidence h) \<Longrightarrow> fst (snd x) \<noteq> m"
  shows "shape_ok (h\<lparr>sh_impacts := filter (\<lambda>x. fst x \<noteq> m) (sh_impacts h)\<rparr>)"
proof -
  let ?ys = "filter (\<lambda>x. fst x \<noteq> m) (sh_impacts h)"
  have one: "x = (m, i, t)" if "x \<in> set (sh_impacts h)" "fst x = m" for x
  proof -
    have "inj_on fst (set (sh_impacts h))" using h by (simp add: shape_ok_def distinct_map)
    then show ?thesis using that m by (metis fst_conv inj_onD)
  qed
  have "fst (snd x) \<in> (fst \<circ> snd) ` set ?ys" if x: "x \<in> set (sh_impacts h)" for x
  proof (cases "fst x = m")
    case True
    then have "fst (snd x) = (fst \<circ> snd) (m', i, t')" using one [OF x] by simp
    moreover have "(m', i, t') \<in> set ?ys" using other by simp
    ultimately show ?thesis by (metis image_eqI)
  next
    case False
    then have "x \<in> set ?ys" using x by simp
    then show ?thesis by (metis comp_apply image_eqI)
  qed
  then have eq: "(fst \<circ> snd) ` set ?ys = (fst \<circ> snd) ` set (sh_impacts h)" by auto
  have "snd ` set (sh_evidence h) \<subseteq> set ?ys"
  proof (rule image_subsetI)
    fix x assume x: "x \<in> set (sh_evidence h)"
    then have "snd x \<in> set (sh_impacts h)" using h by (auto simp: shape_ok_def)
    then show "snd x \<in> set ?ys" using free [OF x] by simp
  qed
  moreover have "fst ` set ?ys \<subseteq> fst ` set (sh_impacts h)" by auto
  moreover have "distinct (map fst ?ys)" "distinct (map snd ?ys)"
    using h by (simp_all add: shape_ok_def distinct_map_filter)
  ultimately show ?thesis
    using h eq unfolding shape_ok_def by (elim conjE, intro conjI) auto
qed

lemma inv_delete:
  assumes inv: "cycle_inv s" and m: "(m, i, t) \<in> refs s" and other: "(m', i, t') \<in> refs s" "m' \<noteq> m"
    and free: "\<And>e. e \<in> set (evidence s) \<Longrightarrow> ev_impact_id e \<noteq> m"
  shows "cycle_inv (delete_impact m s)"
proof -
  have "shape_of (delete_impact m s) = (shape_of s)\<lparr>sh_impacts := filter (\<lambda>x. fst x \<noteq> m) (sh_impacts (shape_of s))\<rparr>"
    using delete_refs [of m s] by (simp only: shape_of_def shape.simps) (simp add: delete_impact_def)
  moreover have "shape_ok \<dots>"
  proof (rule shape_ok_delete [of _ m i t m' t'])
    fix x assume "x \<in> set (sh_evidence (shape_of s))"
    then obtain e where "e \<in> set (evidence s)" "x = ev_ref e" by (auto simp: shape_of_def)
    then show "fst (snd x) \<noteq> m" using free by (simp add: ev_ref_def)
  qed (use inv m other in \<open>simp_all add: cycle_inv_def shape_of_def\<close>)
  ultimately show ?thesis
    using inv by (simp add: cycle_inv_def active_identities_def rows_ok_def delete_impact_def)
qed

lemma tracked_delete:
  assumes tr: "tracked s A B" and m: "(m, i, t) \<in> refs s" and other: "(m', i, t') \<in> refs s" "m' \<noteq> m"
    and free: "\<And>e. e \<in> set (evidence s) \<Longrightarrow> ev_impact_id e \<noteq> m"
  shows "tracked (delete_impact m s) (A - {m}) (insert i B)"
proof -
  have inv: "cycle_inv s" using tr by (simp add: tracked_def)
  have "local_change m i s (delete_impact m s)"
    using one_incident [OF inv m]
    by (auto simp: local_change_def delete_impact_def standing_severities_def impact_evidence_def)
  then have "clean (delete_impact m s) (insert m A) (insert i B)" "covers (delete_impact m s) (insert m A) (insert i B)"
    using tr clean_local covers_local by (auto simp: tracked_def)
  then have "clean (delete_impact m s) (A - {m}) (insert i B)" "covers (delete_impact m s) (A - {m}) (insert i B)"
    by (auto simp: clean_def covers_def delete_impact_def)
  then show ?thesis using inv_delete [OF inv m other free] by (simp add: tracked_def)
qed

lemma relink_activity_frame [simp]:
  "impacts (relink_activity P m s) = impacts s" "evidence (relink_activity P m s) = evidence s"
  "incidents (relink_activity P m s) = incidents s" "map_order (relink_activity P m s) = map_order s"
  "uuids_drawn (relink_activity P m s) = uuids_drawn s" "gen_random_uuid (relink_activity P m s) = gen_random_uuid s"
  by (simp_all add: relink_activity_def)

lemma tracked_relink_activity: "tracked s A B \<Longrightarrow> tracked (relink_activity P m s) A B"
  using tracked_invisible [of s A B "relink_activity P m s"]
  by (simp add: tracked_def relink_activity_def invisible_cong)

subsection \<open>Merging\<close>

text \<open>What a Proof keeps, everything but the Impact, the resource and the date of the row; and
  the resource it is about.\<close>

definition content :: "evidence_row \<Rightarrow> evidence_row" where
  "content e = e\<lparr>ev_impact_id := '''', ev_target_id := '''', ev_updated_at := 0\<rparr>"

definition proofs :: "db \<Rightarrow> (evidence_row \<times> uuid) list" where
  "proofs s = map (\<lambda>e. (content e, ev_target_id e)) (evidence s)"

text \<open>The Proofs of \<open>P\<close> go to the resource \<open>t\<close>.\<close>

definition redirect :: "(evidence_row \<Rightarrow> uuid \<Rightarrow> bool) \<Rightarrow> uuid \<Rightarrow> (evidence_row \<times> uuid) list \<Rightarrow> (evidence_row \<times> uuid) list" where
  "redirect P t = map (\<lambda>(c, u). (c, if P c u then t else u))"

lemma redirect_redirect [simp]: "redirect P t (redirect Q t ps) = redirect (\<lambda>c u. P c (if Q c u then t else u) \<or> Q c u) t ps"
  by (auto simp: redirect_def)

lemma redirect_none [simp]: "redirect (\<lambda>c u. False) t ps = ps"
  by (simp add: redirect_def)

lemma redirect_cong:
  "(\<And>c u. (c, u) \<in> set ps \<Longrightarrow> P c u \<longleftrightarrow> Q c u) \<Longrightarrow> redirect P t ps = redirect Q t ps"
  by (auto simp: redirect_def)

lemma proofs_frame [simp]:
  "proofs (retarget_impact m t s) = proofs s"
  "proofs (delete_impact m s) = proofs s" "proofs (relink_activity Q m s) = proofs s"
  by (simp_all add: proofs_def delete_impact_def)

lemma proofs_relink:
  assumes "\<And>e. e \<in> set (evidence s) \<Longrightarrow> P e \<longleftrightarrow> Q (content e) (ev_target_id e)"
  shows "proofs (relink P m t s) = redirect Q t (proofs s)"
  using assms by (simp add: proofs_def relink_def redirect_def update_where_def content_def)
lemma recomputeImpact_frame:
  "evidence (snd (recomputeImpact m t s)) = evidence s" "map_order (snd (recomputeImpact m t s)) = map_order s"
  by (simp_all add: recomputeImpact_def write_impact_def appendActivity_def split: option.split)

lemma recomputeImpact_step:
  assumes tr: "tracked s (insert m A) B" and "(m, i, t) \<in> refs s"
  shows "\<exists>s'. recomputeImpact m now s = (Inr (), s') \<and> tracked s' (A - {m}) B \<and> refs s' = refs s \<and>
    evidence s' = evidence s \<and> incidents s' = incidents s \<and> map_order s' = map_order s"
proof -
  have "m \<in> im_id ` set (impacts s)" using refD [OF assms(2)] by auto
  from impact_row_exists [OF this] obtain s' where s': "recomputeImpact m now s = (Inr (), s')" by blast
  have "tracked s' (insert m A - {m}) B" using tracked_recomputeImpact [OF tr insertI1 s'] .
  then have "tracked s' (A - {m}) B" by (simp add: insert_Diff_if)
  moreover have "refs s' = refs s" using impact_refs_kept(1) [of m now s] s' by (metis list.set_map snd_conv)
  ultimately show ?thesis
    using s' recomputeImpact_frame [of m now s] incidents_kept(2) [of m now s] by auto
qed

definition candidate_ok :: "uuid \<Rightarrow> uuid \<Rightarrow> (uuid \<times> uuid \<times> uuid) set \<Rightarrow> uuid \<times> uuid \<times> uuid option \<Rightarrow> bool" where
  "candidate_ok p q R c = (case c of (m0, i, pm) \<Rightarrow> (m0, i, q) \<in> R \<and>
     (case pm of None \<Rightarrow> (\<forall>m. (m, i, p) \<notin> R) | Some m1 \<Rightarrow> (m1, i, p) \<in> R))"

lemma evidence_impact:
  "cycle_inv s \<Longrightarrow> e \<in> set (evidence s) \<Longrightarrow> (m, i, t) \<in> refs s \<Longrightarrow> ev_impact_id e = m \<Longrightarrow>
    ev_incident_id e = i \<and> ev_target_id e = t"
  using evidence_ref ref_unique(1) by blast

lemma tracked_absorb:
  assumes tr: "tracked s {} B" and m0: "(m0, i, q) \<in> refs s" and m1: "(m1, i, p) \<in> refs s" and "m0 \<noteq> m1"
  shows "tracked (absorb_impact m0 m1 p s) {m1} (insert i B)"
    and "refs (absorb_impact m0 m1 p s) = refs s - {(m0, i, q)}"
proof -
  have inv: "cycle_inv s" using tr by (simp add: tracked_def)
  let ?s1 = "relink_activity (\<lambda>r. ac_impact_id r = Some m0) m1 (relink (\<lambda>r. ev_impact_id r = m0) m1 p s)"
  have one: "tracked ?s1 {m1, m0} (insert i B)"
    by (intro tracked_relink_activity tracked_relink [OF tr m0 m1]) simp
  have "tracked (delete_impact m0 ?s1) ({m1, m0} - {m0}) (insert i (insert i B))"
  proof (rule tracked_delete [OF one])
    show "(m0, i, q) \<in> refs ?s1" "(m1, i, p) \<in> refs ?s1" "m1 \<noteq> m0" using m0 m1 assms(4) by simp_all
    show "ev_impact_id e \<noteq> m0" if "e \<in> set (evidence ?s1)" for e
      using that assms(4) by (auto simp: relink_def elim!: update_whereE)
  qed
  moreover have "{m1, m0} - {m0} = {m1}" using assms(4) by auto
  ultimately show "tracked (absorb_impact m0 m1 p s) {m1} (insert i B)" by (simp add: absorb_impact_def)
  have "fst x \<noteq> m0 \<longleftrightarrow> x \<noteq> (m0, i, q)" if "x \<in> refs s" for x
    using that ref_unique(1) [OF inv m0] by (metis prod.collapse fst_conv)
  then show "refs (absorb_impact m0 m1 p s) = refs s - {(m0, i, q)}"
    unfolding absorb_impact_def refs_delete relink_activity_frame relink_frame by blast
qed


lemma move_as_relink: "move_impact m t s = relink (\<lambda>r. ev_impact_id r = m) m t (retarget_impact m t s)"
  by (auto simp: move_impact_def retarget_evidence_def relink_def update_where_def)

lemma tracked_move:
  assumes tr: "tracked s {} B" and m0: "(m0, i, q) \<in> refs s" and free: "\<And>m. (m, i, p) \<notin> refs s"
  shows "tracked (move_impact m0 p s) {} B"
    and "refs (move_impact m0 p s) = insert (m0, i, p) (refs s - {(m0, i, q)})"
proof -
  have inv: "cycle_inv s" using tr by (simp add: tracked_def)
  note eq = move_as_relink [of m0 p s]
  show "tracked (move_impact m0 p s) {} B" unfolding eq by (rule tracked_retarget [OF tr m0 free refl])
  show "refs (move_impact m0 p s) = insert (m0, i, p) (refs s - {(m0, i, q)})"
    unfolding eq relink_frame by (rule refs_retarget [OF inv m0])
qed

definition merged_refs :: "uuid \<Rightarrow> uuid \<Rightarrow> uuid \<times> uuid \<times> uuid option \<Rightarrow> (uuid \<times> uuid \<times> uuid) set \<Rightarrow> (uuid \<times> uuid \<times> uuid) set" where
  "merged_refs p q c R = (case c of (m0, i, pm) \<Rightarrow>
     (case pm of None \<Rightarrow> {(m0, i, p)} | Some m1 \<Rightarrow> {}) \<union> (R - {(m0, i, q)}))"

lemma merge_item_step:
  assumes tr: "tracked s {} B" and c: "candidate_ok p q (refs s) (m0, i, pm)" and "p \<noteq> q"
  shows "\<exists>s'. merge_item now p (m0, i, pm) s = (Inr (), s') \<and> tracked s' {} (insert i B) \<and>
    refs s' = merged_refs p q (m0, i, pm) (refs s) \<and>
    proofs s' = redirect (\<lambda>c u. ev_incident_id c = i \<and> u = q) p (proofs s) \<and>
    map in_id (incidents s') = map in_id (incidents s)"
proof -
  have m0: "(m0, i, q) \<in> refs s" using c by (simp add: candidate_ok_def)
  have inv: "cycle_inv s" using tr by (simp add: tracked_def)
  have place: "ev_impact_id e = m0 \<longleftrightarrow> ev_incident_id (content e) = i \<and> ev_target_id e = q"
    if "e \<in> set (evidence s)" for e
    using evidence_impact [OF inv that m0] ref_unique(2) [OF inv m0] evidence_ref [OF inv that]
    by (auto simp: content_def)
  show ?thesis
  proof (cases pm)
    case None
    then have free: "(m, i, p) \<notin> refs s" for m using c by (simp add: candidate_ok_def)
    have "tracked (move_impact m0 p s) {} (insert i B)"
      using tracked_move(1) [OF tr m0 free] by (auto simp: tracked_def clean_def covers_def)
    moreover have "proofs (move_impact m0 p s) = redirect (\<lambda>c u. ev_incident_id c = i \<and> u = q) p (proofs s)"
      using proofs_relink [of "retarget_impact m0 p s" "\<lambda>r. ev_impact_id r = m0" "\<lambda>c u. ev_incident_id c = i \<and> u = q" m0 p] place
      by (simp add: move_as_relink)
    moreover have "incidents (move_impact m0 p s) = incidents s" by (simp add: move_as_relink)
    ultimately show ?thesis
      using None tracked_move(2) [OF tr m0 free] by (simp add: merge_item_def execT_def merged_refs_def)
  next
    case (Some m1)
    then have m1: "(m1, i, p) \<in> refs s" using c by (simp add: candidate_ok_def)
    have ne: "m0 \<noteq> m1" using ref_unique(1) [OF inv m0] m1 assms(3) by metis
    let ?s1 = "absorb_impact m0 m1 p s"
    note a = tracked_absorb [OF tr m0 m1 ne]
    have "(m1, i, p) \<in> refs ?s1" unfolding a(2) using m1 ne by simp
    from recomputeImpact_step [OF a(1) this, of now] obtain s'
      where s': "recomputeImpact m1 now ?s1 = (Inr (), s')" "tracked s' ({} - {m1}) (insert i B)"
        "refs s' = refs ?s1" "evidence s' = evidence ?s1" "incidents s' = incidents ?s1" by blast
    moreover have "proofs ?s1 = redirect (\<lambda>c u. ev_incident_id c = i \<and> u = q) p (proofs s)" "incidents ?s1 = incidents s"
      by (simp_all add: absorb_impact_def proofs_relink [of _ _ "\<lambda>c u. ev_incident_id c = i \<and> u = q"] place)
        (simp add: delete_impact_def)
    ultimately show ?thesis
      using Some a(2) by (simp add: merge_item_def execT_def merged_refs_def proofs_def)
  qed
qed

text \<open>Candidates of different Incidents do not disturb each other.\<close>

lemma candidate_ok_kept:
  "candidate_ok p q R (m0, i, pm) \<Longrightarrow> j \<noteq> i \<Longrightarrow> candidate_ok p q (merged_refs p q (m1, j, pm') R) (m0, i, pm)"
  by (auto simp: candidate_ok_def merged_refs_def split: option.splits)

lemma merge_items_run:
  assumes "tracked s {} B" and "\<And>c. c \<in> set cs \<Longrightarrow> candidate_ok p q (refs s) c"
    and "distinct (map (\<lambda>(m, i, pm). i) cs)" and "p \<noteq> q"
  shows "\<exists>s'. forT cs (merge_item now p) s = (Inr (), s') \<and>
    tracked s' {} ((\<lambda>(m, i, pm). i) ` set cs \<union> B) \<and> refs s' = fold (merged_refs p q) cs (refs s) \<and>
    proofs s' = redirect (\<lambda>c u. ev_incident_id c \<in> (\<lambda>(m, i, pm). i) ` set cs \<and> u = q) p (proofs s) \<and>
    map in_id (incidents s') = map in_id (incidents s)"
  using assms
proof (induction cs arbitrary: s B)
  case (Cons c cs)
  obtain m0 i pm where c: "c = (m0, i, pm)" by (cases c)
  obtain s1 where s1: "merge_item now p (m0, i, pm) s = (Inr (), s1)" "tracked s1 {} (insert i B)"
      "refs s1 = merged_refs p q (m0, i, pm) (refs s)"
      "proofs s1 = redirect (\<lambda>c u. ev_incident_id c = i \<and> u = q) p (proofs s)"
      "map in_id (incidents s1) = map in_id (incidents s)"
    using merge_item_step [OF Cons.prems(1) _ Cons.prems(4), of m0 i pm now] Cons.prems(2) c by auto
  have ok: "candidate_ok p q (refs s1) d" if "d \<in> set cs" for d
  proof -
    obtain m2 j pm2 where d: "d = (m2, j, pm2)" by (cases d)
    with that Cons.prems(3) have "i \<noteq> j" by (auto simp: c image_iff)
    then show ?thesis unfolding s1(3) d using Cons.prems(2) [of d] that d by (intro candidate_ok_kept) simp_all
  qed
  have "distinct (map (\<lambda>(m, i, pm). i) cs)" using Cons.prems(3) by simp
  from Cons.IH [OF s1(2) ok this Cons.prems(4)] obtain s' where
    "forT cs (merge_item now p) s1 = (Inr (), s')" "tracked s' {} ((\<lambda>(m, i, pm). i) ` set cs \<union> insert i B)"
    "refs s' = fold (merged_refs p q) cs (refs s1)"
    "proofs s' = redirect (\<lambda>c u. ev_incident_id c \<in> (\<lambda>(m, i, pm). i) ` set cs \<and> u = q) p (proofs s1)"
    "map in_id (incidents s') = map in_id (incidents s1)" by blast
  moreover have "redirect (\<lambda>c u. ev_incident_id c \<in> I \<and> u = q) p (redirect (\<lambda>c u. ev_incident_id c = i \<and> u = q) p ps) =
      redirect (\<lambda>c u. ev_incident_id c \<in> insert i I \<and> u = q) p ps" for I ps
    unfolding redirect_redirect using Cons.prems(4) by (intro redirect_cong) auto
  ultimately show ?case using s1 by (simp add: c del: redirect_redirect)
qed (simp add: returnT_def redirect_none)


lemma invisible_touch: "invisible s (touchIncidentStructure i s)"
  unfolding touchIncidentStructure_def by (rule invisible_incidents) (simp add: in_sync_def)

lemma inv_touch: "cycle_inv s \<Longrightarrow> cycle_inv (touchIncidentStructure i s)"
  unfolding touchIncidentStructure_def by (rule inv_update_incidents) (auto simp: incident_ok_def)

lemma touch_frame [simp]:
  "impacts (touchIncidentStructure i s) = impacts s" "evidence (touchIncidentStructure i s) = evidence s"
  "map in_id (incidents (touchIncidentStructure i s)) = map in_id (incidents s)"
  by (simp_all add: touchIncidentStructure_def map_update_where)

lemma recomputeIncident_ids:
  "map in_id (incidents (snd (recomputeIncident i t s))) = map in_id (incidents s)"
  by (auto simp: recomputeIncident_def Let_def recomputeAcknowledgement_def refreshIncidentPresentation_def
      journal_incident_def appendActivity_def write_incident_def written_row_def map_update_where split_beta
      split: option.split)

lemma close_structure_run:
  assumes "tracked s {} B" and "set is \<subseteq> in_id ` set (incidents s)"
  shows "\<exists>s'. close_structure now k msg dt is s = (Inr (), s') \<and> tracked s' {} (B - set is) \<and>
    impacts s' = impacts s \<and> evidence s' = evidence s"
  using assms
proof (induction "is" arbitrary: s B)
  case (Cons i "is")
  from Cons.prems(2) obtain s1 where s1: "recomputeIncident i now s = (Inr (), s1)"
    using incident_row_exists [of i s now] by auto
  note t = tracked_recomputeIncident [OF Cons.prems(1) s1]
  have ev: "evidence s1 = evidence s" using recompute_frame(2) [of i now s] s1 by simp
  have ids: "map in_id (incidents s1) = map in_id (incidents s)" using recomputeIncident_ids [of i now s] s1 by simp
  define s2 where "s2 = appendActivity i '''' '''' k ''cairnops'' '''' msg dt (touchIncidentStructure i s1)"
  have "tracked s1 {} (B - {i})" using t by (auto simp: tracked_def covers_def)
  then have two: "tracked s2 {} (B - {i})"
    by (rule tracked_invisible) (use invisible_trans [OF invisible_touch invisible_activity] t(1) in \<open>auto simp: s2_def inv_touch\<close>)
  have rows: "impacts s2 = impacts s" "evidence s2 = evidence s" "map in_id (incidents s2) = map in_id (incidents s)"
    using t(3) ev ids by (simp_all add: s2_def appendActivity_def)
  then have "in_id ` set (incidents s2) = in_id ` set (incidents s)" by (metis list.set_map)
  then obtain s' where "close_structure now k msg dt is s2 = (Inr (), s')" "tracked s' {} (B - {i} - set is)"
    "impacts s' = impacts s2" "evidence s' = evidence s2"
    using Cons.IH [OF two] Cons.prems(2) by auto
  moreover have "B - {i} - set is = B - set (i # is)" by auto
  ultimately show ?case
    using s1 rows by (simp add: close_structure_def execT_def s2_def)
qed (simp add: close_structure_def returnT_def)


text \<open>Where the resources are: the Incidents and the resources of their Impacts.\<close>

definition places :: "db \<Rightarrow> (uuid \<times> uuid) set" where
  "places s = (\<lambda>r. (im_incident_id r, im_target_id r)) ` set (impacts s)"

lemma places_refs: "places s = snd ` refs s"
  by (simp add: places_def image_image im_ref_def)

lemma merge_candidates_ok:
  assumes "cycle_inv s"
  shows "c \<in> set (merge_candidates p q s) \<Longrightarrow> candidate_ok p q (refs s) c"
    and "distinct (map (\<lambda>(m, i, pm). i) (merge_candidates p q s))"
    and "set (map (\<lambda>(m, i, pm). i) (merge_candidates p q s)) = {i. (i, q) \<in> places s}"
proof -
  let ?rows = "sort_key (\<lambda>r. (im_incident_id r, im_id r)) (filter (\<lambda>r. im_target_id r = q) (impacts s))"
  show "candidate_ok p q (refs s) c" if c: "c \<in> set (merge_candidates p q s)"
  proof -
    obtain r where r: "r \<in> set (impacts s)" "im_target_id r = q"
        "c = (im_id r, im_incident_id r, impact_at s (im_incident_id r) p)"
      using c by (auto simp: merge_candidates_def)
    then have "(im_id r, im_incident_id r, q) \<in> refs s" using refI by fastforce
    then show ?thesis
      unfolding r(3) candidate_ok_def using impact_at_Some impact_at_None by (auto split: option.split)
  qed
  have incs: "map (\<lambda>(m, i, pm). i) (merge_candidates p q s) = map im_incident_id ?rows"
    by (simp add: merge_candidates_def)
  have "distinct ?rows" using cycle_invD(2) [OF assms] by (simp add: distinct_map)
  moreover have "inj_on im_incident_id (set ?rows)"
    using cycle_invD(9) [OF assms] by (auto simp: distinct_map inj_on_def)
  ultimately show "distinct (map (\<lambda>(m, i, pm). i) (merge_candidates p q s))"
    unfolding incs by (simp add: distinct_map)
  show "set (map (\<lambda>(m, i, pm). i) (merge_candidates p q s)) = {i. (i, q) \<in> places s}"
    unfolding incs by (auto simp: places_def)
qed

lemma merged_refs_places:
  "candidate_ok p q R (m0, i, pm) \<Longrightarrow> (\<And>m. (m, i, q) \<in> R \<Longrightarrow> m = m0) \<Longrightarrow> p \<noteq> q \<Longrightarrow>
    snd ` merged_refs p q (m0, i, pm) R = (\<lambda>(j, t). (j, if j = i \<and> t = q then p else t)) ` snd ` R"
proof -
  assume c: "candidate_ok p q R (m0, i, pm)" and one: "\<And>m. (m, i, q) \<in> R \<Longrightarrow> m = m0"
  let ?S = "snd ` R"
  have "snd ` (R - {(m0, i, q)}) = ?S - {(i, q)}"
  proof (intro equalityI subsetI)
    fix x assume "x \<in> snd ` (R - {(m0, i, q)})"
    then obtain y where "y \<in> R" "y \<noteq> (m0, i, q)" "x = snd y" by blast
    then obtain m where m: "(m, x) \<in> R" "(m, x) \<noteq> (m0, i, q)" by (metis prod.collapse)
    then have "x \<noteq> (i, q)" using one by blast
    then show "x \<in> ?S - {(i, q)}" using m(1) by force
  next
    fix x assume "x \<in> ?S - {(i, q)}"
    then obtain m where "(m, x) \<in> R" "x \<noteq> (i, q)" by auto
    then have "(m, x) \<in> R - {(m0, i, q)}" by auto
    then show "x \<in> snd ` (R - {(m0, i, q)})" by force
  qed
  then have "snd ` merged_refs p q (m0, i, pm) R = (case pm of None \<Rightarrow> {(i, p)} | Some _ \<Rightarrow> {}) \<union> (?S - {(i, q)})"
    by (simp add: merged_refs_def image_Un split: option.split)
  moreover have "(i, p) \<in> ?S - {(i, q)} \<or> pm = None \<or> p = q"
    using c by (force simp: candidate_ok_def split: option.splits)
  moreover have iq: "(i, q) \<in> ?S" using c by (force simp: candidate_ok_def)
  ultimately have "p = q \<or> snd ` merged_refs p q (m0, i, pm) R = insert (i, p) (?S - {(i, q)})"
    by (auto split: option.splits)
  moreover have "(\<lambda>(j, t). (j, if j = i \<and> t = q then p else t)) ` S = insert (i, p) (S - {(i, q)})" if "(i, q) \<in> S" for S
  proof -
    let ?f = "\<lambda>(j, t). (j, if j = i \<and> t = q then p else t)"
    have "?f ` S = ?f ` insert (i, q) (S - {(i, q)})" using that by (simp only: insert_Diff)
    also have "\<dots> = insert (?f (i, q)) (?f ` (S - {(i, q)}))" by (rule image_insert)
    also have "?f (i, q) = (i, p)" by simp
    also have "?f ` (S - {(i, q)}) = id ` (S - {(i, q)})" by (rule image_cong) (auto split: if_splits)
    finally show ?thesis by simp
  qed
  moreover assume "p \<noteq> q"
  ultimately show ?thesis using iq by simp
qed

lemma fold_merged_places:
  assumes "\<And>c. c \<in> set cs \<Longrightarrow> candidate_ok p q R c" and "distinct (map (\<lambda>(m, i, pm). i) cs)"
    and "\<And>m m' i. (m, i, q) \<in> R \<Longrightarrow> (m', i, q) \<in> R \<Longrightarrow> m = m'" and "p \<noteq> q"
  shows "snd ` fold (merged_refs p q) cs R =
    (\<lambda>(j, t). (j, if j \<in> set (map (\<lambda>(m, i, pm). i) cs) \<and> t = q then p else t)) ` snd ` R"
  using assms
proof (induction cs arbitrary: R)
  case Nil
  show ?case by (simp add: image_image case_prod_unfold)
next
  case (Cons c cs)
  obtain m0 i pm where c: "c = (m0, i, pm)" by (cases c)
  let ?R = "merged_refs p q c R" and ?is = "set (map (\<lambda>(m, i, pm). i) cs)"
  have ok: "candidate_ok p q ?R d" if "d \<in> set cs" for d
  proof -
    obtain m2 j pm2 where d: "d = (m2, j, pm2)" by (cases d)
    with that Cons.prems(2) have "i \<noteq> j" by (auto simp: c image_iff)
    then show ?thesis unfolding c d using Cons.prems(1) [of d] that d by (intro candidate_ok_kept) simp_all
  qed
  have "m = m'" if "(m, j, q) \<in> ?R" "(m', j, q) \<in> ?R" for m m' j
    using that Cons.prems(3,4) by (auto simp: c merged_refs_def split: option.splits)
  then have "snd ` fold (merged_refs p q) cs ?R = (\<lambda>(j, t). (j, if j \<in> ?is \<and> t = q then p else t)) ` snd ` ?R"
    using Cons.IH [OF ok] Cons.prems(2,4) by simp
  moreover have "snd ` ?R = (\<lambda>(j, t). (j, if j = i \<and> t = q then p else t)) ` snd ` R"
  proof -
    have "candidate_ok p q R (m0, i, pm)" using Cons.prems(1) c by simp
    moreover from this have "(m0, i, q) \<in> R" by (simp add: candidate_ok_def)
    ultimately show ?thesis unfolding c using Cons.prems(3,4) by (intro merged_refs_places) blast+
  qed
  moreover have "(\<lambda>(j, t). (j, if j \<in> I \<and> t = q then p else t)) ` (\<lambda>(j, t). (j, if j = i \<and> t = q then p else t)) ` S =
      (\<lambda>(j, t). (j, if j \<in> insert i I \<and> t = q then p else t)) ` S" for I and S :: "(uuid \<times> uuid) set"
    unfolding image_image by (rule image_cong) (use Cons.prems(4) in auto)
  ultimately show ?case by (simp add: c)
qed

lemma impact_at_places: "impact_at s i t \<noteq> None \<longleftrightarrow> (i, t) \<in> places s"
proof
  assume "impact_at s i t \<noteq> None"
  then obtain m where "impact_at s i t = Some m" by blast
  from imageI [OF impact_at_Some [OF this], of snd] show "(i, t) \<in> places s" unfolding places_refs by simp
next
  assume "(i, t) \<in> places s"
  then obtain x where "x \<in> refs s" "(i, t) = snd x" unfolding places_refs by blast
  then obtain m where "(m, i, t) \<in> refs s" by (metis prod.collapse)
  then show "impact_at s i t \<noteq> None" using impact_at_None by blast
qed

lemma merged_count:
  assumes "cycle_inv s"
  shows "length (filter (\<lambda>(m, i, pm). pm \<noteq> None) (merge_candidates p q s)) = card {i. (i, p) \<in> places s \<and> (i, q) \<in> places s}"
proof -
  let ?cs = "merge_candidates p q s" and ?hit = "\<lambda>(m :: uuid, i :: uuid, pm :: uuid option). pm \<noteq> None"
    and ?inc = "\<lambda>(m :: uuid, i :: uuid, pm :: uuid option). i"
  have "distinct (map ?inc (filter ?hit ?cs))"
    using merge_candidates_ok(2) [OF assms] by (rule distinct_map_filter)
  then have "length (filter ?hit ?cs) = card (set (map ?inc (filter ?hit ?cs)))"
    using distinct_card [of "map ?inc (filter ?hit ?cs)"] by (simp only: length_map)
  also have "set (map ?inc (filter ?hit ?cs)) = {i. (i, p) \<in> places s \<and> (i, q) \<in> places s}"
  proof -
    have hit: "?hit c \<longleftrightarrow> impact_at s (?inc c) p \<noteq> None" if "c \<in> set ?cs" for c
      using that by (auto simp: merge_candidates_def)
    have "set (map f (filter P xs)) = {i \<in> set (map f xs). Q i}" if "\<And>c. c \<in> set xs \<Longrightarrow> P c \<longleftrightarrow> Q (f c)"
      for f :: "uuid \<times> uuid \<times> uuid option \<Rightarrow> uuid" and P Q xs
      using that by auto
    from this [of ?cs ?hit "\<lambda>i. impact_at s i p \<noteq> None" ?inc, OF hit]
    have "set (map ?inc (filter ?hit ?cs)) = {i \<in> set (map ?inc ?cs). impact_at s i p \<noteq> None}" .
    then show ?thesis unfolding merge_candidates_ok(3) [OF assms] impact_at_places by auto
  qed
  finally show ?thesis .
qed

lemma MergeTargets_run:
  assumes "agrees s" and "p \<noteq> q"
  shows "\<exists>s'. MergeTargets now p q s = (Inr (int (card {i. (i, p) \<in> places s \<and> (i, q) \<in> places s})), s') \<and>
    agrees s' \<and> places s' = (\<lambda>(i, t). (i, if t = q then p else t)) ` places s \<and>
    proofs s' = redirect (\<lambda>c u. u = q) p (proofs s)"
proof -
  let ?cs = "merge_candidates p q s" and ?is = "set (map (\<lambda>(m, i, pm). i) (merge_candidates p q s))"
  have tr: "tracked s {} {}" using assms(1) by (simp add: agrees_tracked)
  then have inv: "cycle_inv s" by (simp add: tracked_def)
  note cs = merge_candidates_ok(1) [OF inv, of _ p q] merge_candidates_ok(2,3) [OF inv, of p q]
  obtain s1 where s1: "forT ?cs (merge_item now p) s = (Inr (), s1)" "tracked s1 {} ?is"
      "refs s1 = fold (merged_refs p q) ?cs (refs s)"
      "proofs s1 = redirect (\<lambda>c u. ev_incident_id c \<in> ?is \<and> u = q) p (proofs s)"
      "map in_id (incidents s1) = map in_id (incidents s)"
    using merge_items_run [OF tr cs(1,2) assms(2), of now] by auto
  have "places s1 = (\<lambda>(i, t). (i, if i \<in> ?is \<and> t = q then p else t)) ` places s"
    unfolding places_refs s1(3) using ref_unique(2) [OF inv] assms(2)
    by (intro fold_merged_places cs(1,2)) auto
  also have "\<dots> = (\<lambda>(i, t). (i, if t = q then p else t)) ` places s"
    unfolding cs(3) by (rule image_cong) auto
  finally have pl: "places s1 = (\<lambda>(i, t). (i, if t = q then p else t)) ` places s" .
  have "(ev_incident_id e, ev_target_id e) \<in> places s" if "e \<in> set (evidence s)" for e
    using imageI [OF evidence_ref [OF inv that], of snd] unfolding places_refs by simp
  then have pr: "proofs s1 = redirect (\<lambda>c u. u = q) p (proofs s)"
    unfolding s1(4) cs(3) by (intro redirect_cong) (auto simp: proofs_def content_def)
  have "?is \<subseteq> in_id ` set (incidents s)"
  proof
    fix i assume "i \<in> ?is"
    then obtain r where "r \<in> set (impacts s)" "im_incident_id r = i" unfolding cs(3) places_def by auto
    then show "i \<in> in_id ` set (incidents s)" using cycle_invD(5) [OF inv] by (metis imageI)
  qed
  also have "in_id ` set (incidents s) = in_id ` set (incidents s1)" using s1(5) by (metis list.set_map)
  finally have "set (sortedKeys (map (\<lambda>(m, i, pm). i) ?cs)) \<subseteq> in_id ` set (incidents s1)" by simp
  from close_structure_run [OF s1(2) this] obtain s' where
    "close_structure now ''target_reconciled''
      (''Atteintes r'' @ [CHR 0xC3, CHR 0xA9] @ ''unies apr'' @ [CHR 0xC3, CHR 0xA8] @ ''s rapprochement de Cibles'')
      [(''absorbed_target_id'', JString q), (''target_id'', JString p)]
      (sortedKeys (map (\<lambda>(m, i, pm). i) ?cs)) s1 = (Inr (), s')"
    "tracked s' {} (?is - set (sortedKeys (map (\<lambda>(m, i, pm). i) ?cs)))" "impacts s' = impacts s1" "evidence s' = evidence s1"
    by blast
  moreover from this have "places s' = places s1" "proofs s' = proofs s1" by (simp_all add: places_def proofs_def)
  ultimately show ?thesis
    using s1(1) pl pr merged_count [OF inv, of p q]
    by (simp add: MergeTargets_def Let_def agrees_tracked returnT_def)
qed

end
