(* ===== verification/Incident_Reassign.thy ===== *)
theory Incident_Reassign
  imports Incident_Structure
begin

text \<open>
  A Source is given to another resource (\<open>ReassignSource\<close> of
  \<^verbatim>\<open>internal/incidents/structure.go\<close>): its Proofs, grouped by Impact, move to the Impact the
  resource has in each Incident, to the original one when it loses all its Proofs, or to a new
  one. Last come the histories in which corrections happen between the operations of the cycle.
\<close>

subsection \<open>A Source goes to another resource (\<open>ReassignSource\<close>)\<close>

definition source_moves :: "uuid \<Rightarrow> uuid \<Rightarrow> evidence_row \<Rightarrow> bool" where
  "source_moves source binding r \<longleftrightarrow>
     ev_source_id r = Some source \<or> binding \<noteq> '''' \<and> ev_connector_binding_id r = Some binding"

text \<open>The new Impact, derived from the Proofs it receives.\<close>

definition severest :: "evidence_row list \<Rightarrow> severity" where
  "severest rows = (case first_max severity_rank (map ev_severity rows) of None \<Rightarrow> '''' | Some v \<Rightarrow> v)"

definition reassigned_impact :: "uuid \<Rightarrow> uuid \<Rightarrow> evidence_row list \<Rightarrow> db \<Rightarrow> impact_row" where
  "reassigned_impact i t rows s =
     \<lparr>im_id = draw_uuid s, im_incident_id = i, im_target_id = t,
      im_status = (if list_ex standing rows then Active else Resolved),
      im_source_severity = severest rows, im_effective_severity = severest rows,
      im_opened_at = fold min (map ev_opened_at rows) (ev_opened_at (hd rows)),
      im_resolved_at =
        (if list_ex standing rows then None
         else case List.map_filter ev_resolved_at rows of
                [] \<Rightarrow> Some (clock s) | x # xs \<Rightarrow> Some (fold max xs x))\<rparr>"

definition insert_reassigned :: "uuid \<Rightarrow> uuid \<Rightarrow> uuid list \<Rightarrow> db \<Rightarrow> db" where
  "insert_reassigned i t ids s =
     s\<lparr>uuids_drawn := Suc (uuids_drawn s),
       impacts := impacts s @ [reassigned_impact i t (filter (\<lambda>r. ev_id r \<in> set ids) (evidence s)) s]\<rparr>"

text \<open>The Impact that receives the Proofs: the one the resource has in the Incident, the
  original one when all its Proofs move, or a new one.\<close>

definition destination_impact :: "uuid \<Rightarrow> uuid \<Rightarrow> uuid \<Rightarrow> uuid list \<Rightarrow> db \<Rightarrow> uuid \<times> db" where
  "destination_impact i m0 t ids s =
     (case impact_at s i t of
        Some m1 \<Rightarrow> (m1, s)
      | None \<Rightarrow>
          (if length (filter (\<lambda>r. ev_impact_id r = m0) (evidence s)) = length ids
           then (m0, retarget_impact m0 t s)
           else (draw_uuid s, insert_reassigned i t ids s)))"

definition leave_impact :: "instant \<Rightarrow> uuid \<Rightarrow> uuid \<Rightarrow> unit tx" where
  "leave_impact now m0 m1 s =
     (if m1 = m0 then (Inr (), s)
      else if filter (\<lambda>r. ev_impact_id r = m0) (evidence s) = []
      then (Inr (), delete_impact m0 (relink_activity (\<lambda>r. ac_impact_id r = Some m0) m1 s))
      else recomputeImpact m0 now s)"

definition move_evidence :: "uuid list \<Rightarrow> uuid \<Rightarrow> uuid \<Rightarrow> db \<Rightarrow> db" where
  "move_evidence ids m1 t s =
     relink_activity (\<lambda>r. case ac_evidence_id r of None \<Rightarrow> False | Some v \<Rightarrow> v \<in> set ids) m1
       (relink (\<lambda>r. ev_id r \<in> set ids) m1 t s)"

definition reassign_group :: "instant \<Rightarrow> uuid \<Rightarrow> uuid \<times> uuid \<times> uuid list \<Rightarrow> unit tx" where
  "reassign_group now t g s =
     (case g of (m0, i, ids) \<Rightarrow>
        (let (m1, s1) = destination_impact i m0 t ids s
         in thenT (execT (move_evidence ids m1 t))
              (thenT (leave_impact now m0 m1) (recomputeImpact m1 now)) s1))"

definition evidence_groups :: "evidence_row list \<Rightarrow> db \<Rightarrow> (uuid \<times> uuid \<times> uuid list) list" where
  "evidence_groups moves s =
     map (\<lambda>m. let selected = filter (\<lambda>r. ev_impact_id r = m) moves
              in (m, ev_incident_id (hd selected), map ev_id selected))
       (map_order s (remdups (map ev_impact_id moves)))"

definition ReassignSource :: "instant \<Rightarrow> uuid \<Rightarrow> uuid \<Rightarrow> uuid \<Rightarrow> int tx" where
  "ReassignSource now destination source binding s =
     (let moves = sort_key (\<lambda>r. (ev_incident_id r, ev_impact_id r, ev_id r))
                    (filter (source_moves source binding) (evidence s));
          groups = evidence_groups moves s;
          incidentIDs = sortedKeys (map (\<lambda>(m, i, ids). i) groups)
      in thenT (forT groups (reassign_group now destination))
           (thenT (close_structure now ''source_reassigned''
                    (''Preuves r'' @ [CHR 0xC3, CHR 0xA9] @ ''attribu'' @ [CHR 0xC3, CHR 0xA9] @ ''es apr'' @
                     [CHR 0xC3, CHR 0xA8] @ ''s correction d'' @ [CHR 0x27] @ ''une Source'')
                    [(''source_id'', JString source), (''target_id'', JString destination)] incidentIDs)
             (returnT (int (length incidentIDs)))) s)"

subsection \<open>The new Impact\<close>

lemma severest_valid:
  "rows \<noteq> [] \<Longrightarrow> (\<And>r. r \<in> set rows \<Longrightarrow> validSeverity (ev_severity r)) \<Longrightarrow> validSeverity (severest rows)"
  using first_max_None [of severity_rank "map ev_severity rows"]
  by (auto simp: severest_def split: option.split dest!: first_max_in)

lemma tracked_insert_reassigned:
  assumes tr: "tracked s A B" and i: "i \<in> in_id ` set (incidents s)" and free: "\<And>m'. (m', i, t) \<notin> refs s"
    and rows: "e \<in> set (evidence s)" "ev_id e \<in> set ids"
  shows "tracked (insert_reassigned i t ids s) (insert (draw_uuid s) A) (insert i B)"
    and "refs (insert_reassigned i t ids s) = insert (draw_uuid s, i, t) (refs s)"
proof -
  let ?s' = "insert_reassigned i t ids s" and ?rows = "filter (\<lambda>r. ev_id r \<in> set ids) (evidence s)"
  have inv: "cycle_inv s" using tr by (simp add: tracked_def)
  have "im_id r \<noteq> draw_uuid s" if "r \<in> set (impacts s)" for r
    using fresh_uuid(2) [OF inv] that by (metis imageI)
  then have "local_change (draw_uuid s) i s ?s'"
    by (auto simp: local_change_def insert_reassigned_def reassigned_impact_def standing_severities_def impact_evidence_def)
  moreover have "cycle_inv ?s'"
  proof -
    have "(i, t) \<notin> snd ` set (sh_impacts (shape_of s))"
      using free by (auto simp: shape_of_def image_iff) (metis prod.collapse snd_conv)
    then have "shape_ok ((shape_of s)\<lparr>sh_drawn := Suc (uuids_drawn s), sh_impacts := map im_ref (impacts s) @ [(draw_uuid s, i, t)]\<rparr>)"
      using shape_ok_insert_impact [of "shape_of s" i t] inv i by (simp add: cycle_inv_def shape_of_def draw_uuid_def)
    then have "shape_ok (shape_of ?s')"
      by (simp add: shape_of_def insert_reassigned_def reassigned_impact_def im_ref_def)
    moreover have "validSeverity (severest ?rows)"
      using rows rows_okD(3) [OF inv] by (intro severest_valid) (auto simp: filter_empty_conv evidence_ok_def)
    then have "impact_ok (reassigned_impact i t ?rows s)"
      by (auto simp: impact_ok_def reassigned_impact_def split: list.split)
    then have "rows_ok ?s'" using inv by (auto simp: cycle_inv_def rows_ok_def insert_reassigned_def)
    ultimately show ?thesis
      using inv by (simp add: cycle_inv_def active_identities_def insert_reassigned_def)
  qed
  ultimately show "tracked ?s' (insert (draw_uuid s) A) (insert i B)" by (rule tracked_local [OF tr])
  show "refs ?s' = insert (draw_uuid s, i, t) (refs s)"
    by (simp add: insert_reassigned_def reassigned_impact_def im_ref_def)
qed



subsection \<open>One group of Proofs\<close>

text \<open>The Proofs, their Impacts and their Incidents.\<close>

definition links :: "db \<Rightarrow> (uuid \<times> uuid \<times> uuid) list" where
  "links s = map (\<lambda>e. (ev_id e, ev_impact_id e, ev_incident_id e)) (evidence s)"

definition relinked :: "uuid set \<Rightarrow> uuid \<Rightarrow> (uuid \<times> uuid \<times> uuid) list \<Rightarrow> (uuid \<times> uuid \<times> uuid) list" where
  "relinked V m = map (\<lambda>(v, m0, i). (v, if v \<in> V then m else m0, i))"

lemma links_relink: "links (relink (\<lambda>r. ev_id r \<in> V) m t s) = relinked V m (links s)"
  by (simp add: links_def relinked_def relink_def update_where_def)

lemma links_frame [simp]:
  "links (relink_activity P m s) = links s" "links (retarget_impact m t s) = links s"
  "links (delete_impact m s) = links s" "links (insert_reassigned i t ids s) = links s"
  "proofs (insert_reassigned i t ids s) = proofs s" "incidents (insert_reassigned i t ids s) = incidents s"
  "evidence (insert_reassigned i t ids s) = evidence s" "incidents (delete_impact m s) = incidents s"
  by (simp_all add: links_def proofs_def delete_impact_def insert_reassigned_def)

definition group_ok :: "(uuid \<times> uuid \<times> uuid) list \<Rightarrow> uuid \<times> uuid \<times> uuid list \<Rightarrow> bool" where
  "group_ok ls g = (case g of (m0, i, ids) \<Rightarrow> ids \<noteq> [] \<and> distinct ids \<and> (\<forall>v \<in> set ids. (v, m0, i) \<in> set ls))"

lemma leave_run:
  assumes tr: "tracked s {m1, m0} B" and m1: "(m1, i, d) \<in> refs s" and m0: "(m0, i, t0) \<in> refs s"
  shows "\<exists>s'. leave_impact now m0 m1 s = (Inr (), s') \<and> tracked s' {m1} (insert i B) \<and> (m1, i, d) \<in> refs s' \<and>
    proofs s' = proofs s \<and> links s' = links s \<and> map in_id (incidents s') = map in_id (incidents s)"
proof (cases "m1 = m0")
  case True
  have "tracked s {m1} (insert i B)" using tr True by (auto simp: tracked_def clean_def covers_def)
  then show ?thesis using True m1 by (simp add: leave_impact_def)
next
  case False
  then have sets: "{m1, m0} - {m0} = {m1}" by auto
  show ?thesis
  proof (cases "filter (\<lambda>r. ev_impact_id r = m0) (evidence s) = []")
    case True
    let ?s1 = "relink_activity (\<lambda>r. ac_impact_id r = Some m0) m1 s"
    have "tracked (delete_impact m0 ?s1) ({m1, m0} - {m0}) (insert i B)"
    proof (rule tracked_delete [OF tracked_relink_activity [OF tr]])
      show "(m0, i, t0) \<in> refs ?s1" "(m1, i, d) \<in> refs ?s1" using m0 m1 by simp_all
    qed (use False True in \<open>auto simp: filter_empty_conv\<close>)
    moreover have "(m1, i, d) \<in> refs (delete_impact m0 ?s1)"
      unfolding refs_delete using m1 False by simp
    ultimately show ?thesis using False True sets by (simp add: leave_impact_def)
  next
    case rest: False
    have "insert m0 {m1} = {m1, m0}" by auto
    with tr have "tracked s (insert m0 {m1}) B" by simp
    from recomputeImpact_step [OF this m0, of now] obtain s' where s': "recomputeImpact m0 now s = (Inr (), s')"
      "tracked s' ({m1} - {m0}) B" "refs s' = refs s" "evidence s' = evidence s" "incidents s' = incidents s" by blast
    then have "tracked s' {m1} (insert i B)"
      using False by (auto simp: tracked_def covers_def intro: clean_mono)
    then show ?thesis using False rest s' m1 by (simp add: leave_impact_def proofs_def links_def)
  qed
qed

text \<open>The Proofs have moved; the Impacts are still to be derived again.\<close>

lemma moved_elsewhere:
  assumes "tracked s A B" and m0: "(m0, i, t0) \<in> refs s" and m1: "(m1, i, d) \<in> refs s"
    and "\<And>e. e \<in> set (evidence s) \<Longrightarrow> ev_id e \<in> set ids \<Longrightarrow> ev_impact_id e = m0"
  shows "tracked (move_evidence ids m1 d s) (insert m1 (insert m0 A)) (insert i B)"
  unfolding move_evidence_def
  by (intro tracked_relink_activity tracked_relink [OF assms(1) m0 m1]) (use assms(4) in blast)

lemma move_evidence_frame [simp]:
  "impacts (move_evidence ids m t s) = impacts s" "incidents (move_evidence ids m t s) = incidents s"
  "links (move_evidence ids m t s) = relinked (set ids) m (links s)"
  "proofs (move_evidence ids m t s) = redirect (\<lambda>c u. ev_id c \<in> set ids) t (proofs s)"
  by (simp_all add: move_evidence_def links_relink proofs_relink content_def)

lemma whole_impact:
  assumes "cycle_inv s" and "group_ok (links s) (m0, i, ids)"
    and "length (filter (\<lambda>r. ev_impact_id r = m0) (evidence s)) = length ids" and "e \<in> set (evidence s)"
  shows "ev_id e \<in> set ids \<longleftrightarrow> ev_impact_id e = m0"
proof -
  let ?rows = "filter (\<lambda>r. ev_impact_id r = m0) (evidence s)"
  have d: "distinct (map ev_id ?rows)" using cycle_invD(3) [OF assms(1)] by (rule distinct_map_filter)
  have sub: "set ids \<subseteq> set (map ev_id ?rows)"
    using assms(2) by (auto simp: group_ok_def links_def image_iff)
  have "card (set (map ev_id ?rows)) = card (set ids)"
    using d assms(2,3) by (simp only: distinct_card length_map) (simp add: group_ok_def distinct_card)
  then have "set ids = set (map ev_id ?rows)" using sub by (intro card_subset_eq) auto
  then show ?thesis
    using assms(4) evidence_id_unique [OF assms(1) _ assms(4)] by (auto simp: image_iff)
qed


lemma settle_run:
  assumes "tracked s {m1, m0} B" and "(m1, i, d) \<in> refs s" and "(m0, i, t0) \<in> refs s"
  shows "\<exists>s'. thenT (leave_impact now m0 m1) (recomputeImpact m1 now) s = (Inr (), s') \<and>
    tracked s' {} (insert i B) \<and> proofs s' = proofs s \<and> links s' = links s \<and>
    map in_id (incidents s') = map in_id (incidents s)"
proof -
  obtain s1 where s1: "leave_impact now m0 m1 s = (Inr (), s1)" "tracked s1 {m1} (insert i B)" "(m1, i, d) \<in> refs s1"
    "proofs s1 = proofs s" "links s1 = links s" "map in_id (incidents s1) = map in_id (incidents s)"
    using leave_run [OF assms, of now] by blast
  from recomputeImpact_step [OF s1(2,3), of now] obtain s' where "recomputeImpact m1 now s1 = (Inr (), s')"
    "tracked s' ({} - {m1}) (insert i B)" "evidence s' = evidence s1" "incidents s' = incidents s1" by blast
  with s1 show ?thesis by (simp add: proofs_def links_def)
qed

lemma destination_run:
  assumes tr: "tracked s {} B" and g: "group_ok (links s) (m0, i, ids)" and m0: "(m0, i, t0) \<in> refs s"
    and dest: "destination_impact i m0 d ids s = (m1, s1)"
  shows "tracked (move_evidence ids m1 d s1) {m1, m0} (insert i B)"
    and "(m1, i, d) \<in> refs s1" and "\<exists>t. (m0, i, t) \<in> refs s1"
    and "links s1 = links s" and "proofs s1 = proofs s" and "incidents s1 = incidents s"
proof -
  have inv: "cycle_inv s" using tr by (simp add: tracked_def)
  have mem: "ev_impact_id e = m0" if "e \<in> set (evidence s)" "ev_id e \<in> set ids" for e
    using g that evidence_id_unique [OF inv _ that(1)] by (auto simp: group_ok_def links_def)
  have goal: "tracked (move_evidence ids m1 d s1) {m1, m0} (insert i B) \<and> (m1, i, d) \<in> refs s1 \<and>
      (\<exists>t. (m0, i, t) \<in> refs s1) \<and> links s1 = links s \<and> proofs s1 = proofs s \<and> incidents s1 = incidents s"
  proof (cases "impact_at s i d")
    case (Some m)
    then have "m1 = m" "s1 = s" using dest by (simp_all add: destination_impact_def)
    then show ?thesis using moved_elsewhere [OF tr m0 impact_at_Some [OF Some] mem] impact_at_Some [OF Some] m0 by auto
  next
    case None
    note free = impact_at_None [OF None]
    show ?thesis
    proof (cases "length (filter (\<lambda>r. ev_impact_id r = m0) (evidence s)) = length ids")
      case True
      then have eq: "m1 = m0" "s1 = retarget_impact m0 d s" using dest None by (auto simp: destination_impact_def)
      have "(m0, i, d) \<in> refs s1" unfolding eq(2) refs_retarget [OF inv m0] by simp
      moreover have "tracked (move_evidence ids m0 d s1) {} B"
        unfolding move_evidence_def eq(2)
        by (intro tracked_relink_activity tracked_retarget [OF tr m0 free] whole_impact [OF inv g True])
      then have "tracked (move_evidence ids m0 d s1) {m0, m0} (insert i B)"
        using one_incident [of "move_evidence ids m0 d s1" m0 i d] calculation
        by (auto simp: tracked_def clean_def covers_def)
      ultimately show ?thesis using eq by auto
    next
      case False
      then have eq: "m1 = draw_uuid s" "s1 = insert_reassigned i d ids s" using dest None by (auto simp: destination_impact_def)
      obtain e where e: "e \<in> set (evidence s)" "ev_id e \<in> set ids"
        using g by (cases ids) (auto simp: group_ok_def links_def)
      have i: "i \<in> in_id ` set (incidents s)"
        using refD [OF m0] cycle_invD(5) [OF inv] by (metis imageI)
      note ins = tracked_insert_reassigned [OF tr i free e]
      have refs: "(m0, i, t0) \<in> refs s1" "(m1, i, d) \<in> refs s1" unfolding eq ins(2) using m0 by auto
      have "tracked (move_evidence ids m1 d s1) {m1, m0} (insert i B)"
        using moved_elsewhere [OF ins(1) refs(1) [unfolded eq] refs(2) [unfolded eq], of ids] mem eq
        by (auto simp: insert_commute)
      then show ?thesis using refs eq by auto
    qed
  qed
  then show "tracked (move_evidence ids m1 d s1) {m1, m0} (insert i B)"
    and "(m1, i, d) \<in> refs s1" and "\<exists>t. (m0, i, t) \<in> refs s1"
    and "links s1 = links s" and "proofs s1 = proofs s" and "incidents s1 = incidents s" by blast+
qed

lemma reassign_group_step:
  assumes tr: "tracked s {} B" and g: "group_ok (links s) (m0, i, ids)"
  shows "\<exists>s' m1. reassign_group now d (m0, i, ids) s = (Inr (), s') \<and> tracked s' {} (insert i B) \<and>
    proofs s' = redirect (\<lambda>c u. ev_id c \<in> set ids) d (proofs s) \<and> links s' = relinked (set ids) m1 (links s) \<and>
    map in_id (incidents s') = map in_id (incidents s)"
proof -
  have inv: "cycle_inv s" using tr by (simp add: tracked_def)
  obtain e where "e \<in> set (evidence s)" "ev_impact_id e = m0" "ev_incident_id e = i"
    using g by (cases ids) (auto simp: group_ok_def links_def)
  then obtain t0 where m0: "(m0, i, t0) \<in> refs s" using evidence_ref [OF inv] by blast
  obtain m1 s1 where dest: "destination_impact i m0 d ids s = (m1, s1)" by (cases "destination_impact i m0 d ids s")
  note r = destination_run [OF tr g m0 dest]
  let ?s2 = "move_evidence ids m1 d s1"
  obtain t where "(m0, i, t) \<in> refs ?s2" using r(3) by auto
  moreover have "(m1, i, d) \<in> refs ?s2" using r(2) by simp
  ultimately obtain s' where "thenT (leave_impact now m0 m1) (recomputeImpact m1 now) ?s2 = (Inr (), s')"
    "tracked s' {} (insert i (insert i B))" "proofs s' = proofs ?s2" "links s' = links ?s2"
    "map in_id (incidents s') = map in_id (incidents ?s2)"
    using settle_run [OF r(1), of i d t now] by blast
  with r(4-6) dest show ?thesis by (auto simp: reassign_group_def execT_def)
qed

lemma group_ok_relinked:
  assumes "group_ok ls (m, i, ids)" and "set ids \<inter> V = {}"
  shows "group_ok (relinked V m1 ls) (m, i, ids)"
  using assms by (fastforce simp: group_ok_def relinked_def image_iff)

lemma reassign_groups_run:
  assumes "tracked s {} B" and "\<And>g. g \<in> set gs \<Longrightarrow> group_ok (links s) g"
    and "distinct (concat (map (\<lambda>(m, i, ids). ids) gs))"
  shows "\<exists>s'. forT gs (reassign_group now d) s = (Inr (), s') \<and>
    tracked s' {} ((\<lambda>(m, i, ids). i) ` set gs \<union> B) \<and>
    proofs s' = redirect (\<lambda>c u. ev_id c \<in> set (concat (map (\<lambda>(m, i, ids). ids) gs))) d (proofs s) \<and>
    map in_id (incidents s') = map in_id (incidents s)"
  using assms
proof (induction gs arbitrary: s B)
  case Nil
  then show ?case by (simp add: returnT_def)
next
  case (Cons g gs)
  obtain m0 i ids where g: "g = (m0, i, ids)" by (cases g)
  obtain s1 m1 where s1: "reassign_group now d (m0, i, ids) s = (Inr (), s1)" "tracked s1 {} (insert i B)"
    "proofs s1 = redirect (\<lambda>c u. ev_id c \<in> set ids) d (proofs s)" "links s1 = relinked (set ids) m1 (links s)"
    "map in_id (incidents s1) = map in_id (incidents s)"
    using reassign_group_step [OF Cons.prems(1), of m0 i ids now d] Cons.prems(2) g by auto
  have ok: "group_ok (links s1) h" if "h \<in> set gs" for h
  proof -
    obtain m2 j ids2 where h: "h = (m2, j, ids2)" by (cases h)
    have "set ids2 \<subseteq> set (concat (map (\<lambda>(m, i, ids). ids) gs))" using that h by fastforce
    moreover have "set ids \<inter> set (concat (map (\<lambda>(m, i, ids). ids) gs)) = {}"
      using Cons.prems(3) unfolding g by (simp only: list.map concat.simps distinct_append prod.case)
    ultimately have "set ids2 \<inter> set ids = {}" by blast
    then show ?thesis unfolding s1(4) h using Cons.prems(2) [of h] that h by (intro group_ok_relinked) simp_all
  qed
  have "distinct (concat (map (\<lambda>(m, i, ids). ids) gs))"
    using Cons.prems(3) unfolding g by (simp only: list.map concat.simps distinct_append prod.case)
  from Cons.IH [OF s1(2) ok this] obtain s' where
    "forT gs (reassign_group now d) s1 = (Inr (), s')" "tracked s' {} ((\<lambda>(m, i, ids). i) ` set gs \<union> insert i B)"
    "proofs s' = redirect (\<lambda>c u. ev_id c \<in> set (concat (map (\<lambda>(m, i, ids). ids) gs))) d (proofs s1)"
    "map in_id (incidents s') = map in_id (incidents s1)" by blast
  then show ?case using s1 by (auto simp: g intro!: redirect_cong)
qed


subsection \<open>The whole reassignment\<close>

lemma distinct_groups:
  "distinct ms \<Longrightarrow> distinct xs \<Longrightarrow> distinct (concat (map (\<lambda>m. filter (\<lambda>r. k r = m) xs) ms))"
  by (induction ms) auto

lemma evidence_groups_ok:
  assumes inv: "cycle_inv s" and "set moves \<subseteq> set (evidence s)" and d: "distinct moves"
  shows "g \<in> set (evidence_groups moves s) \<Longrightarrow> group_ok (links s) g"
    and "distinct (concat (map (\<lambda>(m, i, ids). ids) (evidence_groups moves s)))"
    and "set (concat (map (\<lambda>(m, i, ids). ids) (evidence_groups moves s))) = ev_id ` set moves"
    and "set (map (\<lambda>(m, i, ids). i) (evidence_groups moves s)) = ev_incident_id ` set moves"
proof -
  let ?keys = "map_order s (remdups (map ev_impact_id moves))"
    and ?sel = "\<lambda>m. filter (\<lambda>r. ev_impact_id r = m) moves"
  have ks: "set ?keys = ev_impact_id ` set moves" "distinct ?keys"
    using cycle_invD(8) [OF inv] by (metis mset_eq_setD set_remdups list.set_map, metis mset_eq_imp_distinct_iff distinct_remdups)
  have inj: "inj_on ev_id (set moves)"
    using evidence_id_unique [OF inv] assms(2) by (auto intro!: inj_onI)
  have same: "ev_incident_id a = ev_incident_id b" if "a \<in> set moves" "b \<in> set moves" "ev_impact_id a = ev_impact_id b" for a b
    using that assms(2) evidence_ref [OF inv, of a] evidence_ref [OF inv, of b] ref_unique(1) [OF inv] by (metis subsetD)
  have sel: "?sel m \<noteq> []" "hd (?sel m) \<in> set moves" "ev_impact_id (hd (?sel m)) = m" if "m \<in> set ?keys" for m
  proof -
    show "?sel m \<noteq> []" using that ks(1) by (auto simp: filter_empty_conv)
    from hd_in_set [OF this] show "hd (?sel m) \<in> set moves" "ev_impact_id (hd (?sel m)) = m" by auto
  qed
  show "group_ok (links s) g" if g: "g \<in> set (evidence_groups moves s)"
  proof -
    obtain m where m: "m \<in> set ?keys" "g = (m, ev_incident_id (hd (?sel m)), map ev_id (?sel m))"
      using g by (auto simp: evidence_groups_def Let_def)
    have "(ev_id e, m, ev_incident_id (hd (?sel m))) \<in> set (links s)" if "e \<in> set (?sel m)" for e
      using that assms(2) same [OF _ sel(2) [OF m(1)]] sel(3) [OF m(1)] by (force simp: links_def image_iff)
    moreover have "distinct (map ev_id (?sel m))"
      using d inj by (simp add: distinct_map inj_on_subset [of _ "set moves"])
    ultimately show ?thesis using sel(1) [OF m(1)] unfolding m(2) group_ok_def by auto
  qed
  have all: "concat (map (\<lambda>(m, i, ids). ids) (evidence_groups moves s)) = map ev_id (concat (map ?sel ?keys))"
    by (simp add: evidence_groups_def Let_def comp_def map_concat)
  have mem: "set (concat (map ?sel ?keys)) = set moves" using ks(1) by auto
  show "distinct (concat (map (\<lambda>(m, i, ids). ids) (evidence_groups moves s)))"
    unfolding all distinct_map using distinct_groups [OF ks(2) d] inj mem by simp
  show "set (concat (map (\<lambda>(m, i, ids). ids) (evidence_groups moves s))) = ev_id ` set moves"
    unfolding all set_map mem ..
  have "set (map (\<lambda>(m, i, ids). i) (evidence_groups moves s)) = (\<lambda>m. ev_incident_id (hd (?sel m))) ` ev_impact_id ` set moves"
    by (simp add: evidence_groups_def Let_def comp_def ks(1) image_image)
  also have "\<dots> = ev_incident_id ` set moves"
    unfolding image_image
  proof (rule image_cong [OF refl])
    fix e assume e: "e \<in> set moves"
    then have "ev_impact_id e \<in> set ?keys" using ks(1) by simp
    from same [OF sel(2) [OF this] e sel(3) [OF this]] show "ev_incident_id (hd (?sel (ev_impact_id e))) = ev_incident_id e" .
  qed
  finally show "set (map (\<lambda>(m, i, ids). i) (evidence_groups moves s)) = ev_incident_id ` set moves" .
qed

lemma ReassignSource_run:
  assumes "agrees s"
  shows "\<exists>s'. ReassignSource now d src b s = (Inr (int (card (ev_incident_id ` {e \<in> set (evidence s). source_moves src b e}))), s') \<and>
    agrees s' \<and> proofs s' = redirect (\<lambda>c u. source_moves src b c) d (proofs s)"
proof -
  define moves where "moves = sort_key (\<lambda>r. (ev_incident_id r, ev_impact_id r, ev_id r)) (filter (source_moves src b) (evidence s))"
  define gs where "gs = evidence_groups moves s"
  have tr: "tracked s {} {}" using assms(1) by (simp add: agrees_tracked)
  then have inv: "cycle_inv s" by (simp add: tracked_def)
  have ms: "set moves = {e \<in> set (evidence s). source_moves src b e}" "distinct moves"
    using cycle_invD(3) [OF inv] by (auto simp: moves_def distinct_map)
  then have "set moves \<subseteq> set (evidence s)" by auto
  note gp = evidence_groups_ok [OF inv this ms(2), folded gs_def]
  let ?is = "set (map (\<lambda>(m, i, ids). i) gs)"
  obtain s1 where s1: "forT gs (reassign_group now d) s = (Inr (), s1)" "tracked s1 {} ?is"
      "proofs s1 = redirect (\<lambda>c u. ev_id c \<in> ev_id ` set moves) d (proofs s)"
      "map in_id (incidents s1) = map in_id (incidents s)"
    using reassign_groups_run [OF tr gp(1,2), of now d] unfolding gp(3) by auto
  have "ev_id e \<in> ev_id ` set moves \<longleftrightarrow> source_moves src b e" if "e \<in> set (evidence s)" for e
    using that evidence_id_unique [OF inv _ that] unfolding ms(1) by (auto simp: image_iff)
  moreover have "source_moves src b (content e) \<longleftrightarrow> source_moves src b e" "ev_id (content e) = ev_id e" for e
    by (simp_all add: content_def source_moves_def)
  moreover have "\<exists>e \<in> set (evidence s). c = content e" if "(c, u) \<in> set (proofs s)" for c u
    using that by (auto simp: proofs_def)
  ultimately have pr: "proofs s1 = redirect (\<lambda>c u. source_moves src b c) d (proofs s)"
    unfolding s1(3) by (intro redirect_cong) metis
  have "?is \<subseteq> in_id ` set (incidents s1)"
  proof -
    have "ev_incident_id e \<in> in_id ` set (incidents s)" if "e \<in> set (evidence s)" for e
      using evidence_incident(1) [OF inv that] .
    then have "?is \<subseteq> in_id ` set (incidents s)" unfolding gp(4) ms(1) by auto
    then show ?thesis using s1(4) by (metis list.set_map)
  qed
  then have "set (sortedKeys (map (\<lambda>(m, i, ids). i) gs)) \<subseteq> in_id ` set (incidents s1)" by simp
  from close_structure_run [OF s1(2) this] obtain s' where
    "close_structure now ''source_reassigned''
      (''Preuves r'' @ [CHR 0xC3, CHR 0xA9] @ ''attribu'' @ [CHR 0xC3, CHR 0xA9] @ ''es apr'' @
                     [CHR 0xC3, CHR 0xA8] @ ''s correction d'' @ [CHR 0x27] @ ''une Source'')
      [(''source_id'', JString src), (''target_id'', JString d)]
      (sortedKeys (map (\<lambda>(m, i, ids). i) gs)) s1 = (Inr (), s')"
    "tracked s' {} (?is - set (sortedKeys (map (\<lambda>(m, i, ids). i) gs)))" "evidence s' = evidence s1"
    by blast
  moreover have "length (sortedKeys (map (\<lambda>(m, i, ids). i) gs)) = card (ev_incident_id ` {e \<in> set (evidence s). source_moves src b e})"
    using distinct_card [of "sortedKeys (map (\<lambda>(m, i, ids). i) gs)"] gp(4) ms(1) by simp
  ultimately show ?thesis
    using s1(1) pr by (simp add: ReassignSource_def Let_def agrees_tracked returnT_def proofs_def moves_def [symmetric] gs_def [symmetric])
qed


subsection \<open>Histories with corrections\<close>

text \<open>A step is one of the cycle, or a correction that a reconciliation commits or rolls back.
  The resources of a merge are two (\<open>lockTargets\<close> of the reconciliation refuses the others).\<close>

inductive table_step :: "db \<Rightarrow> db \<Rightarrow> bool" where
  cycle: "cycle_step s s' \<Longrightarrow> table_step s s'"
| merge: "p \<noteq> q \<Longrightarrow> table_step s (snd (commit_or_rollback (MergeTargets now p q) s))"
| reassign: "table_step s (snd (commit_or_rollback (ReassignSource now destination source binding) s))"

lemma agrees_table_step:
  assumes "table_step s s'" and "agrees s"
  shows "agrees s'"
  using assms
proof (cases rule: table_step.cases)
  case cycle
  then show ?thesis using agrees_step assms(2) by blast
next
  case (merge p q now)
  obtain n s1 where "MergeTargets now p q s = (Inr n, s1)" "agrees s1"
    using MergeTargets_run [OF assms(2) merge(2)] by blast
  then show ?thesis by (simp add: merge(1) commit_or_rollback_def)
next
  case (reassign now d source binding)
  obtain n s1 where "ReassignSource now d source binding s = (Inr n, s1)" "agrees s1"
    using ReassignSource_run [OF assms(2)] by blast
  then show ?thesis by (simp add: reassign commit_or_rollback_def)
qed

lemma agrees_table_history: "table_step\<^sup>*\<^sup>* s s' \<Longrightarrow> agrees s \<Longrightarrow> agrees s'"
  by (induction rule: rtranclp_induct) (auto intro: agrees_table_step)

lemma cycle_history_steps: "cycle_step\<^sup>*\<^sup>* s s' \<Longrightarrow> table_step\<^sup>*\<^sup>* s s'"
  by (induction rule: rtranclp_induct) (auto intro: table_step.cycle rtranclp.rtrancl_into_rtrancl)

end
