(* ===== verification/Incident_Properties.thy ===== *)
theory Incident_Properties
  imports Incident_Reassign
begin

text \<open>
  What the Incident--Proof cycle guarantees, stated on the rows a reader of the tables sees,
  with a small installation on which each statement is exercised.
\<close>

subsection \<open>A small installation\<close>

definition sample_db :: db where
  "sample_db =
     \<lparr>gen_random_uuid = (\<lambda>n. CHR ''u'' # replicate n (CHR ''0'')), uuids_drawn = 0,
      map_order = (\<lambda>xs. xs), clock = 1000 * second,
      targets = [\<lparr>tg_id = ''t1'', tg_name = ''web'', tg_archived_at = None\<rparr>],
      connectors = [], sources = [], observations = [], incidents = [], impacts = [],
      evidence = [], activity = []\<rparr>"

definition sample_fact :: "string \<Rightarrow> EvidenceFact" where
  "sample_fact key =
     \<lparr>fa_Alert = no_fact, fa_Origin = ''zabbix'', fa_ConnectorID = ''c'', fa_BindingID = ''b'',
      fa_SourceID = '''', fa_IdentityScope = ''b'', fa_IdentityKey = key, fa_TargetID = ''t1'',
      fa_ExternalEventID = key, fa_ExternalObjectID = ''o'',
      fa_Nature = CanonicalNature ''availability'' ''Indisponible'', fa_Name = ''down'',
      fa_Severity = SeverityMajor, fa_OpenedAt = 0, fa_UpstreamAcknowledged = False,
      fa_Metadata = [], fa_EvaluationWindow = 0\<rparr>"

definition sample_snapshot :: "instant \<Rightarrow> EvidenceFact list \<Rightarrow> EvidenceSnapshot" where
  "sample_snapshot observedAt facts =
     \<lparr>sn_Origin = ''zabbix'', sn_ConnectorID = ''c'', sn_LeaseOwner = '''', sn_ObservedAt = observedAt,
      sn_CompleteConnector = True, sn_ObservedScopes = [], sn_Facts = facts\<rparr>"

definition sample_open :: db where
  "sample_open = snd (ApplyEvidenceSnapshot 1 (sample_snapshot (1000 * second) [sample_fact ''e1'']) sample_db)"

definition opened :: "db \<Rightarrow> bool" where
  "opened s \<longleftrightarrow> length (incidents s) = 1 \<and> length (evidence s) = 1 \<and> ev_active (hd (evidence s)) \<and>
     observed (sample_snapshot (1100 * second) []) (hd (evidence s)) \<and> in_status (hd (incidents s)) = Active \<and>
     in_acknowledged_at (hd (incidents s)) = None \<and>
     is_zabbix_active (in_id (hd (incidents s))) (hd (evidence s)) \<and> \<not> ev_upstream_acknowledged (hd (evidence s))"

lemma sample_opened: "opened sample_open"
  by code_simp

lemma sample_rows: "hd (evidence sample_open) \<in> set (evidence sample_open)" "hd (incidents sample_open) \<in> set (incidents sample_open)"
  using sample_opened by (cases "evidence sample_open"; cases "incidents sample_open"; simp add: opened_def)+

lemma sample_env: "env_ok sample_db"
proof -
  have "TrimSpace (CHR ''u'' # replicate n (CHR ''0'')) \<noteq> ''''" for n
  proof -
    have "ascii (CHR ''u'' # replicate n (CHR ''0''))" by (simp add: ascii_def list_all_iff in_range_def)
    then show ?thesis by (simp add: TrimSpace_Nil_iff blank_def rune_chunks_ascii) (simp add: is_space_def)
  qed
  moreover have "inj (\<lambda>n. CHR ''u'' # replicate n (CHR ''0''))"
    by (rule injI) (metis length_replicate list.inject)
  ultimately show ?thesis by (simp add: env_ok_def sample_db_def)
qed

lemma sample_initial: "initial sample_db"
  using sample_env by (simp add: initial_def) (simp add: sample_db_def)

lemma sample_open_step: "cycle_step\<^sup>*\<^sup>* sample_db sample_open"
  unfolding sample_open_def by (rule r_into_rtranclp) (rule cycle_step.snapshot)

lemma sample_open_history: "table_step\<^sup>*\<^sup>* sample_db sample_open"
  by (rule cycle_history_steps [OF sample_open_step])

lemma sample_open_inv: "cycle_inv sample_open"
  using agrees_history [OF sample_open_step initial_agrees [OF sample_initial]] by (simp add: agrees_def)

subsection \<open>Every history\<close>

lemma impact_reads:
  assumes "impact_synced s m"
  shows "im_status m = Active \<longleftrightarrow> (\<exists>e \<in> set (evidence s). ev_impact_id e = im_id m \<and> standing e)"
    and "e \<in> set (evidence s) \<Longrightarrow> ev_impact_id e = im_id m \<Longrightarrow> standing e \<Longrightarrow>
      severity_rank (ev_severity e) \<le> severity_rank (im_effective_severity m)"
proof -
  have mem: "ev_severity e \<in> set (standing_severities s (im_id m))"
    if "e \<in> set (evidence s)" "ev_impact_id e = im_id m" "standing e" for e
    using that by (auto simp: standing_severities_def impact_evidence_def)
  show "im_status m = Active \<longleftrightarrow> (\<exists>e \<in> set (evidence s). ev_impact_id e = im_id m \<and> standing e)"
  proof (cases "first_max severity_rank (standing_severities s (im_id m))")
    case None
    then show ?thesis using assms mem by (fastforce simp: impact_synced_def)
  next
    case (Some sev)
    then have "sev \<in> set (standing_severities s (im_id m))" by (rule first_max_in)
    then show ?thesis using assms Some by (auto simp: impact_synced_def standing_severities_def impact_evidence_def)
  qed
  show "severity_rank (ev_severity e) \<le> severity_rank (im_effective_severity m)"
    if "e \<in> set (evidence s)" "ev_impact_id e = im_id m" "standing e"
    using assms mem [OF that] first_max_ge [of severity_rank "standing_severities s (im_id m)"]
    by (auto simp: impact_synced_def split: option.splits)
qed

lemma incident_reads:
  assumes "incident_synced s r"
  shows "in_active_impact_count r = int (length (filter (\<lambda>m. im_incident_id m = in_id r \<and> im_status m = Active) (impacts s)))"
    and "in_impact_count r = int (length (filter (\<lambda>m. im_incident_id m = in_id r) (impacts s)))"
    and "in_status r = Resolved \<longleftrightarrow> in_propagation_status r = Closed \<and>
      (\<forall>m \<in> set (impacts s). im_incident_id m = in_id r \<longrightarrow> im_status m = Resolved)"
    and "m \<in> set (impacts s) \<Longrightarrow> im_incident_id m = in_id r \<Longrightarrow> im_status m = Active \<Longrightarrow>
      severity_rank (im_effective_severity m) \<le> severity_rank (in_severity r)"
proof -
  have filters: "active_impacts s (in_id r) = filter (\<lambda>m. im_incident_id m = in_id r \<and> im_status m = Active) (impacts s)"
    by (simp add: active_impacts_def incident_impacts_def conj_commute)
  show "in_active_impact_count r = int (length (filter (\<lambda>m. im_incident_id m = in_id r \<and> im_status m = Active) (impacts s)))"
    and "in_impact_count r = int (length (filter (\<lambda>m. im_incident_id m = in_id r) (impacts s)))"
    using assms by (simp_all add: incident_synced_def active_severities_def filters incident_impacts_def)
  have "active_severities s (in_id r) = [] \<longleftrightarrow>
      (\<forall>m \<in> set (impacts s). im_incident_id m = in_id r \<longrightarrow> im_status m = Resolved)"
    by (auto simp: active_severities_def filters filter_empty_conv intro: row_status.exhaust)
  then show "in_status r = Resolved \<longleftrightarrow> in_propagation_status r = Closed \<and>
      (\<forall>m \<in> set (impacts s). im_incident_id m = in_id r \<longrightarrow> im_status m = Resolved)"
    using assms by (simp add: incident_synced_def)
  show "severity_rank (im_effective_severity m) \<le> severity_rank (in_severity r)"
    if "m \<in> set (impacts s)" "im_incident_id m = in_id r" "im_status m = Active"
  proof -
    have "im_effective_severity m \<in> set (active_severities s (in_id r))"
      using that by (simp add: active_severities_def filters)
    then show ?thesis using assms first_max_ge [of severity_rank "active_severities s (in_id r)"]
      by (auto simp: incident_synced_def split: option.splits)
  qed
qed

text \<open>C1. In every history of the cycle, merges of resources and reassignments of Sources included,
  the derived rows agree with what they are derived from, after each transaction: an Impact is active exactly when a Proof that is active and not
  invalidated supports it, and is at least as severe as each of them; an Incident carries the
  number of its Impacts and of its active Impacts, is at least as severe as each active one,
  and is resolved exactly when its Propagation is closed and all its Impacts are resolved.\<close>

theorem cycle_agreement:
  assumes "initial s0" and "table_step\<^sup>*\<^sup>* s0 s"
  shows "(\<forall>m \<in> set (impacts s).
      (im_status m = Active \<longleftrightarrow> (\<exists>e \<in> set (evidence s). ev_impact_id e = im_id m \<and> standing e)) \<and>
      (\<forall>e \<in> set (evidence s). ev_impact_id e = im_id m \<and> standing e \<longrightarrow>
         severity_rank (ev_severity e) \<le> severity_rank (im_effective_severity m))) \<and>
    (\<forall>r \<in> set (incidents s).
      in_active_impact_count r = int (length (filter (\<lambda>m. im_incident_id m = in_id r \<and> im_status m = Active) (impacts s))) \<and>
      in_impact_count r = int (length (filter (\<lambda>m. im_incident_id m = in_id r) (impacts s))) \<and>
      (in_status r = Resolved \<longleftrightarrow> in_propagation_status r = Closed \<and>
         (\<forall>m \<in> set (impacts s). im_incident_id m = in_id r \<longrightarrow> im_status m = Resolved)) \<and>
      (\<forall>m \<in> set (impacts s). im_incident_id m = in_id r \<and> im_status m = Active \<longrightarrow>
         severity_rank (im_effective_severity m) \<le> severity_rank (in_severity r)))"
proof -
  have "agrees s" using assms by (blast intro: agrees_table_history initial_agrees)
  then have synced: "synced s" by (simp add: agrees_def)
  show ?thesis
  proof (rule conjI; rule ballI)
    fix m assume "m \<in> set (impacts s)"
    then have m: "impact_synced s m" using synced by (simp add: clean_def)
    show "(im_status m = Active \<longleftrightarrow> (\<exists>e \<in> set (evidence s). ev_impact_id e = im_id m \<and> standing e)) \<and>
      (\<forall>e \<in> set (evidence s). ev_impact_id e = im_id m \<and> standing e \<longrightarrow>
         severity_rank (ev_severity e) \<le> severity_rank (im_effective_severity m))"
      by (rule conjI, rule impact_reads(1) [OF m], blast intro: impact_reads(2) [OF m])
  next
    fix r assume "r \<in> set (incidents s)"
    then have r: "incident_synced s r" using synced by (simp add: clean_def)
    show "in_active_impact_count r = int (length (filter (\<lambda>m. im_incident_id m = in_id r \<and> im_status m = Active) (impacts s))) \<and>
      in_impact_count r = int (length (filter (\<lambda>m. im_incident_id m = in_id r) (impacts s))) \<and>
      (in_status r = Resolved \<longleftrightarrow> in_propagation_status r = Closed \<and>
         (\<forall>m \<in> set (impacts s). im_incident_id m = in_id r \<longrightarrow> im_status m = Resolved)) \<and>
      (\<forall>m \<in> set (impacts s). im_incident_id m = in_id r \<and> im_status m = Active \<longrightarrow>
         severity_rank (im_effective_severity m) \<le> severity_rank (in_severity r))"
      by (intro conjI, rule incident_reads(1) [OF r], rule incident_reads(2) [OF r],
          rule incident_reads(3) [OF r], blast intro: incident_reads(4) [OF r])
  qed
qed

theorem cycle_agreement_witness:
  "length (incidents sample_open) = 1 \<and>
   in_active_impact_count (hd (incidents sample_open)) =
     int (length (filter (\<lambda>m. im_incident_id m = in_id (hd (incidents sample_open)) \<and> im_status m = Active)
       (impacts sample_open)))"
proof
  show "length (incidents sample_open) = 1" using sample_opened by (simp add: opened_def)
  show "in_active_impact_count (hd (incidents sample_open)) =
     int (length (filter (\<lambda>m. im_incident_id m = in_id (hd (incidents sample_open)) \<and> im_status m = Active)
       (impacts sample_open)))"
    using conjunct2 [OF cycle_agreement [OF sample_initial sample_open_history]] sample_rows(2) by blast
qed





subsection \<open>What a snapshot does to a Proof\<close>

definition sample_closed :: db where
  "sample_closed = snd (ApplyEvidenceSnapshot 1 (sample_snapshot (1100 * second) []) sample_open)"

lemma sample_db_inv: "cycle_inv sample_db"
  using initial_agrees [OF sample_initial] by (simp add: agrees_def)

lemma sample_good: "''t1'' \<in> tg_id ` set (targets s) \<Longrightarrow> \<not> bad_fact (sample_fact ''e1'') s e"
proof -
  assume "''t1'' \<in> tg_id ` set (targets s)"
  moreover have "fact_complete (sample_fact ''e1'') \<and> validSeverity (fa_Severity (sample_fact ''e1''))" by code_simp
  ultimately show ?thesis by (simp add: bad_fact_def) (simp add: sample_fact_def)
qed

text \<open>C5. A Proof that a successful snapshot does not name is resolved, dated from the
  observation, when the snapshot observed it (same origin, same Connector, and either a
  complete reading or an observed scope); otherwise the snapshot leaves it as it was. A
  partial reading therefore never resolves what it did not look at.\<close>

theorem snapshot_absent:
  assumes "cycle_inv s" and "ApplyEvidenceSnapshot now sn s = (Inr (), s')" and "e \<in> set (evidence s)"
    and "row_identity e \<notin> (\<lambda>f. identity (fa_IdentityScope f) (fa_IdentityKey f)) ` set (sn_Facts sn)"
  shows "\<exists>e' \<in> set (evidence s'). ev_id e' = ev_id e \<and>
    (if ev_active e \<and> observed sn e
     then \<not> ev_active e' \<and> ev_resolved_at e' = Some (normalizedTime now (sn_ObservedAt sn))
     else ev_active e' = ev_active e \<and> ev_resolved_at e' = ev_resolved_at e)"
  using snapshot_row [OF assms] .

theorem snapshot_absent_witness:
  "\<exists>e' \<in> set (evidence sample_closed). ev_id e' = ev_id (hd (evidence sample_open)) \<and>
     \<not> ev_active e' \<and> ev_resolved_at e' = Some (1100 * second)"
proof -
  let ?sn = "sample_snapshot (1100 * second) []"
  have "ApplyEvidenceSnapshot 1 ?sn sample_open = (Inr (), sample_closed)"
    unfolding sample_closed_def by (rule snapshot_succeeds [OF sample_open_inv]) (simp_all add: sample_snapshot_def)
  from snapshot_absent [OF sample_open_inv this sample_rows(1)]
  have "\<exists>e' \<in> set (evidence sample_closed). ev_id e' = ev_id (hd (evidence sample_open)) \<and>
    (if ev_active (hd (evidence sample_open)) \<and> observed ?sn (hd (evidence sample_open))
     then \<not> ev_active e' \<and> ev_resolved_at e' = Some (normalizedTime 1 (sn_ObservedAt ?sn))
     else ev_active e' = ev_active (hd (evidence sample_open)) \<and> ev_resolved_at e' = ev_resolved_at (hd (evidence sample_open)))"
    by (simp add: sample_snapshot_def)
  moreover have "ev_active (hd (evidence sample_open)) \<and> observed ?sn (hd (evidence sample_open))"
    using sample_opened by (simp add: opened_def)
  ultimately show ?thesis by (simp add: sample_snapshot_def normalizedTime_def)
qed



definition sample_silenced :: db where
  "sample_silenced = snd (InvalidateEvidence 1 1 (ev_incident_id (hd (evidence sample_open))) (ev_id (hd (evidence sample_open)))
     ''actor'' ''Ann'' ''a known false alarm'' sample_open)"

definition silenced :: "db \<Rightarrow> bool" where
  "silenced s \<longleftrightarrow> length (evidence s) = 1 \<and>
     ev_identity (hd (evidence s)) = (''zabbix'', ''b'', ''e1'') \<and> ev_invalidated_at (hd (evidence s)) \<noteq> None \<and>
     ev_rearmed_at (hd (evidence s)) = None \<and> \<not> ev_active (hd (evidence s))"

lemma sample_is_silenced: "silenced sample_silenced"
  by code_simp

text \<open>C6. A Proof that a user invalidated stays silent while its signal lasts: as long as the
  snapshots keep naming its identity, no active Proof of that identity appears and the
  invalidated one is not rearmed.\<close>

theorem invalidated_stays_silent:
  assumes "cycle_inv s" and "ApplyEvidenceSnapshot now sn s = (Inr (), s')" and "f \<in> set (sn_Facts sn)"
    and "e \<in> set (evidence s)" and "ev_identity e = (sn_Origin sn, fa_IdentityScope f, fa_IdentityKey f)"
    and "ev_invalidated_at e \<noteq> None" and "ev_rearmed_at e = None"
    and "\<forall>r \<in> set (evidence s). ev_identity r = ev_identity e \<longrightarrow> \<not> ev_active r"
    and "\<forall>g \<in> set (sn_Facts sn). CHR 0x00 \<notin> set (fa_IdentityScope g)"
  shows "(\<forall>r \<in> set (evidence s'). ev_identity r = ev_identity e \<longrightarrow> \<not> ev_active r) \<and>
    (\<exists>e' \<in> set (evidence s'). ev_id e' = ev_id e \<and> ev_rearmed_at e' = None)"
  using snapshot_silent [OF assms(1-7)] assms(8,9) by blast

theorem invalidated_stays_silent_witness:
  "\<exists>e' \<in> set (evidence (snd (ApplyEvidenceSnapshot 1 (sample_snapshot (1100 * second) [sample_fact ''e1'']) sample_silenced))).
     ev_id e' = ev_id (hd (evidence sample_silenced)) \<and> ev_rearmed_at e' = None"
proof -
  let ?sn = "sample_snapshot (1100 * second) [sample_fact ''e1'']"
  let ?e = "hd (evidence sample_silenced)"
  have inv: "cycle_inv sample_silenced"
    unfolding sample_silenced_def using growth_step [OF cycle_step.invalidate sample_open_inv] by blast
  have "elsewhere_kept sample_open sample_silenced"
    unfolding sample_silenced_def by (rule elsewhere.kept_InvalidateEvidence)
  moreover have "elsewhere_kept sample_db sample_open"
    unfolding sample_open_def by (rule elsewhere.kept_ApplyEvidenceSnapshot)
  ultimately have "targets sample_silenced = targets sample_db" by (simp add: elsewhere_kept_def)
  then have "''t1'' \<in> tg_id ` set (targets sample_silenced)" by (simp add: sample_db_def)
  then have "ApplyEvidenceSnapshot 1 ?sn sample_silenced = (Inr (), snd (ApplyEvidenceSnapshot 1 ?sn sample_silenced))"
    using sample_good [of sample_silenced] by (intro snapshot_succeeds inv) (auto simp: sample_snapshot_def)
  moreover have "set (evidence sample_silenced) = {?e}"
    using sample_is_silenced by (cases "evidence sample_silenced") (auto simp: silenced_def)
  moreover have "ev_identity ?e = (''zabbix'', ''b'', ''e1'') \<and> ev_invalidated_at ?e \<noteq> None \<and> ev_rearmed_at ?e = None \<and> \<not> ev_active ?e"
    using sample_is_silenced by (simp add: silenced_def)
  ultimately show ?thesis
    using invalidated_stays_silent [OF inv, where now = 1 and sn = ?sn and f = "sample_fact ''e1''" and e = ?e]
    by (simp add: sample_snapshot_def sample_fact_def)
qed

subsection \<open>How transactions end\<close>



text \<open>C8. The clock always succeeds, and once it has run no Propagation whose window has ended
  is left open.\<close>

theorem clock_closes_propagations:
  assumes "cycle_inv s"
  shows "\<exists>s'. Advance now observedAt s = (Inr (), s') \<and>
    (\<forall>r \<in> set (incidents s'). in_propagation_status r = Open \<longrightarrow> normalizedTime now observedAt < in_propagation_ends_at r)"
  by (rule advance_closes [OF assms])

theorem clock_closes_propagations_witness: "\<exists>s'. Advance 1 (2000 * second) sample_open = (Inr (), s')"
  using clock_closes_propagations [OF sample_open_inv, where now = 1 and observedAt = "2000 * second"] by blast

text \<open>Acknowledging an Incident a second time changes nothing and yields the same list of
  upstream acknowledgements to send: the first author and date are kept, and a retry resends
  exactly what is still pending or failed.\<close>

theorem acknowledge_idempotent:
  assumes "AcknowledgeLocal i a n s = (Inr plan, s')"
  shows "AcknowledgeLocal i a' n' s' = (Inr plan, s') \<and>
    (\<exists>r. incident_by_id s' i = Some r \<and> in_acknowledged_at r \<noteq> None)"
  using acknowledge_twice [OF assms] by blast

theorem acknowledge_idempotent_witness:
  "AcknowledgeLocal (in_id (hd (incidents sample_open))) ''b'' ''Bob''
      (snd (AcknowledgeLocal (in_id (hd (incidents sample_open))) ''a'' ''Ann'' sample_open)) =
    AcknowledgeLocal (in_id (hd (incidents sample_open))) ''a'' ''Ann'' sample_open"
proof -
  let ?i = "in_id (hd (incidents sample_open))"
  have "incident_by_id sample_open ?i = Some (hd (incidents sample_open))"
    using incident_by_id_the [OF sample_open_inv sample_rows(2)] .
  then obtain plan s' where "AcknowledgeLocal ?i ''a'' ''Ann'' sample_open = (Inr plan, s')"
    using sample_opened by (auto simp: AcknowledgeLocal_def commit_or_rollback_def opened_def Let_def)
  then show ?thesis using acknowledge_idempotent [where a' = "''b''" and n' = "''Bob''"] by simp
qed



text \<open>The message of a failed upstream acknowledgement is cut at 500 bytes, not at 500
  characters: a well-formed message can be stored as a text that is not UTF-8, which PostgreSQL
  refuses, so that the whole transaction that records the results fails.\<close>

theorem sync_error_cuts_rune:
  "\<exists>result. list_all valid_rune (rune_chunks (ar_Error result)) \<and>
     \<not> list_all valid_rune (rune_chunks (sync_error result))"
proof (intro exI conjI)
  let ?cut = "replicate 499 (CHR ''a'') @ [CHR 0xC3]"
  let ?r = "\<lparr>ar_EvidenceID = '''', ar_Error = ?cut @ [CHR 0xA9]\<rparr>"
  have valid: "valid_rune ''a''" "valid_rune [CHR 0xC3, CHR 0xA9]" "\<not> valid_rune [CHR 0xC3]" by code_simp+
  have "rune_chunks (CHR ''a'' # s) = ''a'' # rune_chunks s" for s
    using rune_chunks_valid_Cons [OF valid(1), of s] by simp
  then have chunks: "rune_chunks (replicate n (CHR ''a'') @ s) = replicate n ''a'' @ rune_chunks s" for n s
    by (induction n) simp_all
  have "rune_chunks [CHR 0xC3, CHR 0xA9] = [[CHR 0xC3, CHR 0xA9]]" "rune_chunks [CHR 0xC3] = [[CHR 0xC3]]" by code_simp+
  then have whole: "rune_chunks (ar_Error ?r) = replicate 499 ''a'' @ [[CHR 0xC3, CHR 0xA9]]"
    and cut: "rune_chunks ?cut = replicate 499 ''a'' @ [[CHR 0xC3]]" by (simp_all add: chunks)
  show "list_all valid_rune (rune_chunks (ar_Error ?r))" unfolding whole using valid by (simp add: list_all_iff)
  have "\<not> is_space ''a''" "\<not> is_space [CHR 0xC3, CHR 0xA9]" by code_simp+
  then have "trim_chunks (rune_chunks (ar_Error ?r)) = rune_chunks (ar_Error ?r)"
    unfolding whole trim_chunks_def by (simp add: dropWhile_append)
  then have "TrimSpace (ar_Error ?r) = ?cut @ [CHR 0xA9]"
    unfolding TrimSpace_def using concat_rune_chunks [of "?cut @ [CHR 0xA9]"] by simp
  then have "sync_error ?r = ?cut" by (simp add: sync_error_def)
  then show "\<not> list_all valid_rune (rune_chunks (sync_error ?r))" unfolding \<open>sync_error ?r = ?cut\<close> cut using valid by simp
qed


subsection \<open>Corrections of the identity of a resource\<close>

definition twin_db :: db where
  "twin_db = sample_db\<lparr>targets := [\<lparr>tg_id = ''t1'', tg_name = ''web'', tg_archived_at = None\<rparr>,
     \<lparr>tg_id = ''t2'', tg_name = ''www'', tg_archived_at = None\<rparr>]\<rparr>"

definition twin_open :: db where
  "twin_open = snd (ApplyEvidenceSnapshot 1 (sample_snapshot (1000 * second)
     [sample_fact ''e1'', (sample_fact ''e2'')\<lparr>fa_TargetID := ''t2'', fa_SourceID := ''s2''\<rparr>]) twin_db)"

definition twins :: "db \<Rightarrow> bool" where
  "twins s \<longleftrightarrow> length (incidents s) = 1 \<and> map im_target_id (impacts s) = [''t1'', ''t2''] \<and>
     map (\<lambda>e. (ev_target_id e, ev_source_id e)) (evidence s) = [(''t1'', None), (''t2'', Some ''s2'')]"

lemma twin_opened: "twins twin_open"
  by code_simp

lemma twin_rows:
  obtains a b where "evidence twin_open = [a, b]" "ev_target_id a = ''t1''" "ev_target_id b = ''t2''"
    "ev_source_id a = None" "ev_source_id b = Some ''s2''"
proof -
  have "map (\<lambda>e. (ev_target_id e, ev_source_id e)) (evidence twin_open) = [(''t1'', None), (''t2'', Some ''s2'')]"
    using twin_opened by (simp add: twins_def)
  then show ?thesis using that by (auto simp: map_eq_Cons_conv)
qed

lemma twin_history: "table_step\<^sup>*\<^sup>* twin_db twin_open"
  unfolding twin_open_def
  by (rule cycle_history_steps [OF r_into_rtranclp]) (rule cycle_step.snapshot)

lemma twin_initial: "initial twin_db"
  using sample_initial by (simp add: initial_def twin_db_def env_ok_def)

text \<open>C2. A merge of two resources always succeeds and unites them: afterwards the absorbed
  resource has no Impact and no Proof, the kept one is in every Incident where either was and
  every other resource is where it was, no Proof is lost or changed but in its resource, the
  derived rows agree, and the count returned is the number of Incidents that had both.\<close>

theorem merge_unites:
  assumes "initial s0" and "table_step\<^sup>*\<^sup>* s0 s" and "p \<noteq> q"
  shows "\<exists>s'. MergeTargets now p q s = (Inr (int (card {i. (i, p) \<in> places s \<and> (i, q) \<in> places s})), s') \<and>
    agrees s' \<and> places s' = (\<lambda>(i, t). (i, if t = q then p else t)) ` places s \<and>
    map (\<lambda>e. (content e, ev_target_id e)) (evidence s') =
      map (\<lambda>e. (content e, if ev_target_id e = q then p else ev_target_id e)) (evidence s)"
proof -
  have "agrees s" using assms(1,2) by (blast intro: agrees_table_history initial_agrees)
  from MergeTargets_run [OF this assms(3), of now] show ?thesis by (simp add: proofs_def redirect_def comp_def)
qed

theorem merge_unites_witness:
  "map im_target_id (impacts twin_open) = [''t1'', ''t2''] \<and>
   (\<exists>n s'. MergeTargets 2 ''t1'' ''t2'' twin_open = (Inr n, s') \<and>
      map ev_target_id (evidence s') = [''t1'', ''t1''])"
proof
  show "map im_target_id (impacts twin_open) = [''t1'', ''t2'']" using twin_opened by (simp add: twins_def)
  have "map ev_target_id (evidence twin_open) = [''t1'', ''t2'']" by (rule twin_rows) simp
  moreover obtain n s' where s': "MergeTargets 2 ''t1'' ''t2'' twin_open = (Inr n, s')"
    "map (\<lambda>e. (content e, ev_target_id e)) (evidence s') =
      map (\<lambda>e. (content e, if ev_target_id e = ''t2'' then ''t1'' else ev_target_id e)) (evidence twin_open)"
    using merge_unites [OF twin_initial twin_history, of "''t1''" "''t2''" 2] by auto
  moreover from arg_cong [OF s'(2), of "map snd"] have "map ev_target_id (evidence s') =
      map (\<lambda>t. if t = ''t2'' then ''t1'' else t) (map ev_target_id (evidence twin_open))" by (simp add: comp_def)
  ultimately show "\<exists>n s'. MergeTargets 2 ''t1'' ''t2'' twin_open = (Inr n, s') \<and>
      map ev_target_id (evidence s') = [''t1'', ''t1'']" by auto
qed



end
