(* ===== verification/Monitoring.thy ===== *)
theory Monitoring
  imports Incident_History Incident_Total
begin

text \<open>
  The scheduler of the native Checks (\<^verbatim>\<open>internal/monitoring\<close>): sources that are due are claimed
  under a lease, checked, and completed in one transaction that releases the lease, records
  the Observation and hands it to the Incident cycle. The check itself is a parameter, and so
  is the order in which the goroutines of a tick finish.
\<close>

subsection \<open>Claiming (\<open>ClaimDue\<close>)\<close>

definition target_open :: "uuid \<Rightarrow> db \<Rightarrow> bool" where
  "target_open target s \<longleftrightarrow> (\<exists>t \<in> set (targets s). tg_id t = target \<and> tg_archived_at t = None)"

definition source_due :: "db \<Rightarrow> source_row \<Rightarrow> bool" where
  "source_due s r \<longleftrightarrow> so_enabled r \<and> so_origin r = ''native'' \<and> target_open (so_target_id r) s \<and>
     so_next_run_at r \<le> clock s \<and> (case so_lease_until r of None \<Rightarrow> True | Some t \<Rightarrow> t < clock s)"

definition due_sources :: "nat \<Rightarrow> db \<Rightarrow> uuid list" where
  "due_sources limit s =
     map so_id (take limit (sort_key (\<lambda>r. (so_next_run_at r, so_id r)) (filter (source_due s) (sources s))))"

definition claimed_source :: "source_row \<Rightarrow> Source" where
  "claimed_source r =
     \<lparr>src_ID = so_id r, src_TargetID = so_target_id r, src_Name = so_name r, src_Kind = so_kind r,
      src_Interval = wrap64 (so_interval_seconds r * second),
      src_Timeout = wrap64 (so_timeout_milliseconds r * millisecond), src_Config = so_config r,
      src_LastSignalAt = so_last_signal_at r, src_LastSignalOutcome = so_last_signal_outcome r,
      src_LastObservedAt = so_last_observed_at r\<rparr>"

text \<open>\<open>UPDATE ... RETURNING\<close> lists the updated rows in the order of the table.\<close>

definition ClaimDue :: "instant \<Rightarrow> string \<Rightarrow> nat \<Rightarrow> duration \<Rightarrow> db \<Rightarrow> Source list \<times> db" where
  "ClaimDue now owner limit lease s =
     (let due = due_sources limit s
      in (map claimed_source (filter (\<lambda>r. so_id r \<in> set due) (sources s)),
          s\<lparr>sources := update_where (\<lambda>r. so_id r \<in> set due)
             (\<lambda>r. r\<lparr>so_lease_owner := Some owner, so_lease_until := Some (now + lease)\<rparr>) (sources s)\<rparr>))"

subsection \<open>Completing (\<open>Complete\<close>)\<close>

definition leased_by :: "string \<Rightarrow> Source \<Rightarrow> source_row \<Rightarrow> bool" where
  "leased_by owner source r \<longleftrightarrow> so_id r = src_ID source \<and> so_lease_owner r = Some owner"

definition release_lease :: "string \<Rightarrow> Source \<Rightarrow> Observation \<Rightarrow> db \<Rightarrow> db" where
  "release_lease owner source ob s =
     s\<lparr>sources := update_where (leased_by owner source)
        (\<lambda>r. r\<lparr>so_next_run_at := clock s + so_interval_seconds r * second, so_lease_owner := None,
                so_lease_until := None, so_last_observed_at := Some (obs_ObservedAt ob)\<rparr>) (sources s)\<rparr>"

definition insert_observation :: "Source \<Rightarrow> Observation \<Rightarrow> db \<Rightarrow> db" where
  "insert_observation source ob s =
     s\<lparr>observations := observations s @
        [\<lparr>ob_source_id = src_ID source, ob_target_id = src_TargetID source, ob_observed_at = obs_ObservedAt ob,
          ob_outcome = obs_Outcome ob,
          ob_latency_milliseconds = max 0 (go_div (obs_Latency ob) millisecond),
          ob_reason = obs_Reason ob, ob_message = obs_Message ob, ob_details = obs_Details ob\<rparr>]\<rparr>"

definition native_observation :: "Source \<Rightarrow> Observation \<Rightarrow> NativeObservation" where
  "native_observation source ob =
     \<lparr>no_SourceID = src_ID source, no_TargetID = src_TargetID source, no_SourceName = src_Name source,
      no_Outcome = obs_Outcome ob, no_ObservedAt = obs_ObservedAt ob, no_Reason = obs_Reason ob,
      no_Message = obs_Message ob\<rparr>"

definition Complete :: "instant \<Rightarrow> string \<Rightarrow> Source \<Rightarrow> Observation \<Rightarrow> unit tx" where
  "Complete now owner source ob =
     commit_or_rollback
       (\<lambda>s. if length (filter (leased_by owner source) (sources s)) \<noteq> 1 then (Inl ErrLeaseLost, s)
            else thenT (execT (\<lambda>s. insert_observation source ob (release_lease owner source ob s)))
                   (ApplyNativeObservation now (native_observation source ob)) s)"

subsection \<open>A tick (\<open>Scheduler.tick\<close>)\<close>

text \<open>\<open>finish\<close> is the order in which the goroutines reach the store, a sublist of the claimed
  sources in any order: a cancelled context leaves out those still waiting for a slot. Each
  completion is a transaction of its own; the tick reports the first error.\<close>

fun complete_all ::
  "instant \<Rightarrow> string \<Rightarrow> (Source \<Rightarrow> Observation) \<Rightarrow> Source list \<Rightarrow> db \<Rightarrow> cycle_error list \<times> db" where
  "complete_all now owner check [] s = ([], s)"
| "complete_all now owner check (src # srcs) s =
     (case Complete now owner src (check src) s of
        (Inl e, s') \<Rightarrow> (let (es, s'') = complete_all now owner check srcs s' in (e # es, s''))
      | (Inr _, s') \<Rightarrow> complete_all now owner check srcs s')"

record Scheduler =
  sd_owner :: string
  sd_lease :: duration
  sd_batchSize :: nat

definition NewScheduler :: "string \<Rightarrow> Scheduler" where
  "NewScheduler owner = \<lparr>sd_owner = owner, sd_lease = 2 * minute, sd_batchSize = 32\<rparr>"

definition tick ::
  "instant \<Rightarrow> Scheduler \<Rightarrow> (Source \<Rightarrow> Observation) \<Rightarrow> (Source list \<Rightarrow> Source list) \<Rightarrow> unit tx" where
  "tick now sched check finish s =
     (let (claimed, s1) = ClaimDue now (sd_owner sched) (sd_batchSize sched) (sd_lease sched) s;
          (errs, s2) = complete_all now (sd_owner sched) check (finish claimed) s1
      in ((case errs of [] \<Rightarrow> Inr () | e # _ \<Rightarrow> Inl e), s2))"

subsection \<open>Claims\<close>

lemma ClaimDue_simps:
  "fst (ClaimDue now owner n l s) = map claimed_source (filter (\<lambda>r. so_id r \<in> set (due_sources n s)) (sources s))"
  "sources (snd (ClaimDue now owner n l s)) = update_where (\<lambda>r. so_id r \<in> set (due_sources n s))
     (\<lambda>r. r\<lparr>so_lease_owner := Some owner, so_lease_until := Some (now + l)\<rparr>) (sources s)"
  by (simp_all add: ClaimDue_def Let_def)

lemma due_in: "i \<in> set (due_sources n s) \<Longrightarrow> \<exists>r \<in> set (sources s). so_id r = i \<and> source_due s r"
  by (auto simp: due_sources_def dest!: in_set_takeD)

lemma claimed_ids: "src_ID ` set (fst (ClaimDue now owner n l s)) = set (due_sources n s)"
proof
  show "src_ID ` set (fst (ClaimDue now owner n l s)) \<subseteq> set (due_sources n s)"
    by (auto simp: ClaimDue_simps claimed_source_def)
  show "set (due_sources n s) \<subseteq> src_ID ` set (fst (ClaimDue now owner n l s))"
  proof
    fix i assume "i \<in> set (due_sources n s)"
    moreover from this obtain r where "r \<in> set (sources s)" "so_id r = i" by (blast dest: due_in)
    ultimately show "i \<in> src_ID ` set (fst (ClaimDue now owner n l s))"
      by (auto simp: ClaimDue_simps claimed_source_def image_image)
  qed
qed

text \<open>C12. A source claimed by one worker is not claimed by another before its lease expires,
  whatever the clock of the second claim up to that instant; a claim never returns more sources
  than its limit, and only sources that are due.\<close>

theorem claims_exclusive:
  assumes "distinct (map so_id (sources s))" and "ClaimDue now owner n lease s = (claimed, s1)"
    and "ClaimDue now' owner' n' lease' (s1\<lparr>clock := c\<rparr>) = (claimed', s2)" and "c \<le> now + lease"
  shows "src_ID ` set claimed \<inter> src_ID ` set claimed' = {} \<and> length claimed \<le> n \<and>
    (\<forall>src \<in> set claimed. \<exists>r \<in> set (sources s). source_due s r \<and> src = claimed_source r)"
proof (intro conjI)
  let ?due = "set (due_sources n s)"
  have s1: "s1 = snd (ClaimDue now owner n lease s)" and cl: "claimed = fst (ClaimDue now owner n lease s)" using assms(2) by simp_all
  have cl': "claimed' = fst (ClaimDue now' owner' n' lease' (s1\<lparr>clock := c\<rparr>))" using assms(3) by simp
  have "\<not> source_due (s1\<lparr>clock := c\<rparr>) r" if "r \<in> set (sources s1)" "so_id r \<in> ?due" for r
    using that assms(4) unfolding s1 ClaimDue_simps by (auto simp: source_due_def elim!: update_whereE)
  then have "i \<notin> set (due_sources n' (s1\<lparr>clock := c\<rparr>))" if "i \<in> ?due" for i
    using that due_in [of i n' "s1\<lparr>clock := c\<rparr>"] by auto
  then show "src_ID ` set claimed \<inter> src_ID ` set claimed' = {}" unfolding cl cl' claimed_ids by blast
  have ids: "inj_on so_id (set (sources s))" "distinct (sources s)" using assms(1) by (simp_all add: distinct_map)
  show "length claimed \<le> n"
  proof -
    have "length claimed = card (set (filter (\<lambda>r. so_id r \<in> ?due) (sources s)))"
      unfolding cl ClaimDue_simps using distinct_card [of "filter (\<lambda>r. so_id r \<in> ?due) (sources s)"] ids(2) by simp
    also have "\<dots> = card (so_id ` set (filter (\<lambda>r. so_id r \<in> ?due) (sources s)))"
      by (rule card_image [symmetric]) (rule inj_on_subset [OF ids(1)], auto)
    also have "\<dots> \<le> card ?due" by (rule card_mono) auto
    also have "\<dots> \<le> n" using card_length [of "due_sources n s"] by (simp add: due_sources_def)
    finally show ?thesis .
  qed
  show "\<forall>src \<in> set claimed. \<exists>r \<in> set (sources s). source_due s r \<and> src = claimed_source r"
  proof
    fix src assume "src \<in> set claimed"
    then obtain r where r: "r \<in> set (sources s)" "so_id r \<in> ?due" "src = claimed_source r" by (auto simp: cl ClaimDue_simps)
    then obtain q where "q \<in> set (sources s)" "so_id q = so_id r" "source_due s q" by (blast dest: due_in)
    then have "q = r" using ids(1) r(1) by (auto dest: inj_onD)
    then show "\<exists>r \<in> set (sources s). source_due s r \<and> src = claimed_source r" using r \<open>source_due s q\<close> by blast
  qed
qed

definition sample_source :: "string \<Rightarrow> source_row" where
  "sample_source name =
     \<lparr>so_id = name, so_target_id = ''t1'', so_name = name, so_kind = ''http'', so_origin = ''native'', so_enabled = True,
      so_measures_availability = True, so_interval_seconds = 60, so_timeout_milliseconds = 5000, so_config = ''{}'',
      so_failure_threshold = 1, so_recovery_threshold = 1, so_severity = SeverityMajor,
      so_consecutive_unhealthy = 0, so_consecutive_healthy = 0, so_next_run_at = 0, so_lease_owner = None,
      so_lease_until = None, so_last_signal_at = None, so_last_signal_outcome = None, so_last_observed_at = None,
      so_created_at = 0\<rparr>"

definition sample_monitored :: db where
  "sample_monitored =
     \<lparr>gen_random_uuid = (\<lambda>n. CHR ''u'' # replicate n (CHR ''0'')), uuids_drawn = 0,
      map_order = (\<lambda>xs. xs), clock = 1000 * second,
      targets = [\<lparr>tg_id = ''t1'', tg_name = ''web'', tg_archived_at = None\<rparr>],
      connectors = [], sources = [sample_source ''s1'', sample_source ''s2''], observations = [], incidents = [],
      impacts = [], evidence = [], activity = []\<rparr>"

theorem claims_exclusive_witness:
  "src_ID ` set (fst (ClaimDue 5 ''a'' 1 (2 * minute) sample_monitored)) \<inter>
   src_ID ` set (fst (ClaimDue 6 ''b'' 8 (2 * minute) ((snd (ClaimDue 5 ''a'' 1 (2 * minute) sample_monitored))\<lparr>clock := 6\<rparr>))) = {} \<and>
   map src_ID (fst (ClaimDue 5 ''a'' 1 (2 * minute) sample_monitored)) = [''s1'']"
proof
  have ids: "distinct (map so_id (sources sample_monitored))" by code_simp
  show "src_ID ` set (fst (ClaimDue 5 ''a'' 1 (2 * minute) sample_monitored)) \<inter>
   src_ID ` set (fst (ClaimDue 6 ''b'' 8 (2 * minute) ((snd (ClaimDue 5 ''a'' 1 (2 * minute) sample_monitored))\<lparr>clock := 6\<rparr>))) = {}"
    using claims_exclusive [OF ids prod.collapse [symmetric] prod.collapse [symmetric],
        where now = 5 and lease = "2 * minute" and c = 6 and owner = "''a''" and n = 1 and now' = 6 and owner' = "''b''"
          and n' = 8 and lease' = "2 * minute"] by simp
  show "map src_ID (fst (ClaimDue 5 ''a'' 1 (2 * minute) sample_monitored)) = [''s1'']" by code_simp
qed

subsection \<open>Fairness\<close>

lemma sorted_take_le:
  assumes "sorted (map f xs)" and "x \<in> set (take n xs)" and "y \<in> set xs" and "y \<notin> set (take n xs)"
  shows "f x \<le> f y"
proof -
  from assms(2) obtain i where i: "i < n" "i < length xs" "x = xs ! i" by (auto simp: in_set_conv_nth)
  from assms(3) obtain j where j: "j < length xs" "y = xs ! j" by (auto simp: in_set_conv_nth)
  have "\<not> j < n" using assms(4) j by (auto simp: in_set_conv_nth)
  then show ?thesis using assms(1) i j sorted_nth_mono [of "map f xs" i j] by simp
qed

text \<open>Claims are fair: a source that is due and left for a later claim was not due earlier
  than any source that was claimed, ties broken by identifier.\<close>

theorem claims_earliest_first:
  assumes "distinct (map so_id (sources s))" and "r \<in> set (sources s)" and "source_due s r"
    and "q \<in> set (sources s)" and "source_due s q"
    and "so_id r \<in> src_ID ` set (fst (ClaimDue now owner n lease s))"
    and "so_id q \<notin> src_ID ` set (fst (ClaimDue now owner n lease s))"
  shows "(so_next_run_at r, so_id r) \<le> (so_next_run_at q, so_id q)"
proof -
  let ?rows = "sort_key (\<lambda>r. (so_next_run_at r, so_id r)) (filter (source_due s) (sources s))"
  have due: "set (due_sources n s) = so_id ` set (take n ?rows)" by (simp add: due_sources_def)
  have "r \<in> set (take n ?rows)"
  proof -
    obtain r' where r': "r' \<in> set (take n ?rows)" "so_id r' = so_id r" using assms(6) unfolding claimed_ids due by auto
    then have "r' \<in> set (sources s)" by (auto dest: in_set_takeD)
    then have "r' = r" using r'(2) assms(1,2) by (auto simp: distinct_map dest: inj_onD)
    then show ?thesis using r'(1) by simp
  qed
  moreover have "q \<notin> set (take n ?rows)" using assms(7) unfolding claimed_ids due by blast
  moreover have "q \<in> set ?rows" using assms(4,5) by simp
  moreover have "sorted (map (\<lambda>r. (so_next_run_at r, so_id r)) ?rows)" by (rule sorted_sort_key)
  ultimately show ?thesis using sorted_take_le [of "\<lambda>r. (so_next_run_at r, so_id r)" ?rows r n q] by simp
qed

theorem claims_earliest_first_witness:
  "(so_next_run_at (sample_source ''s1''), so_id (sample_source ''s1'')) \<le> (so_next_run_at (sample_source ''s2''), so_id (sample_source ''s2''))"
proof (rule claims_earliest_first)
  show "distinct (map so_id (sources sample_monitored))" by code_simp
  show "sample_source ''s1'' \<in> set (sources sample_monitored)" "sample_source ''s2'' \<in> set (sources sample_monitored)"
    by (simp_all add: sample_monitored_def)
  show "source_due sample_monitored (sample_source ''s1'')" "source_due sample_monitored (sample_source ''s2'')" by code_simp+
  show "so_id (sample_source ''s1'') \<in> src_ID ` set (fst (ClaimDue 5 ''a'' 1 0 sample_monitored))" by code_simp
  show "so_id (sample_source ''s2'') \<notin> src_ID ` set (fst (ClaimDue 5 ''a'' 1 0 sample_monitored))" by code_simp
qed

subsection \<open>Completion\<close>

lemma Complete_rolls_back: "Complete now owner src ob s = (Inl e, s') \<Longrightarrow> s' = s"
  unfolding Complete_def commit_or_rollback_def by (auto split: prod.splits sum.splits)

lemma Complete_run:
  assumes "Complete now owner src ob s = (Inr (), s')"
  shows "length (filter (leased_by owner src) (sources s)) = 1"
    and "ApplyNativeObservation now (native_observation src ob) (insert_observation src ob (release_lease owner src ob s)) = (Inr (), s')"
  using assms by (auto simp: Complete_def commit_or_rollback_def thenT_def bindT_def execT_def split: if_splits prod.splits sum.splits)

lemma Complete_leased:
  assumes "Complete now owner src ob s = (Inr (), s')"
  shows "\<exists>l \<in> set (sources s). leased_by owner src l"
proof -
  have "filter (leased_by owner src) (sources s) \<noteq> []" using Complete_run(1) [OF assms] by auto
  then show ?thesis by (auto simp: filter_empty_conv)
qed

lemma Complete_sources:
  assumes "Complete now owner src ob s = (Inr (), s')"
  shows "map source_core (sources s') = map source_core (sources (release_lease owner src ob s))"
    and "observations s' = observations (insert_observation src ob s)"
    and "clock s' = clock s"
proof -
  let ?s1 = "insert_observation src ob (release_lease owner src ob s)"
  have "elsewhere_kept ?s1 s'" using elsewhere.kept_ApplyNativeObservation [of ?s1] Complete_run(2) [OF assms] by (metis snd_conv)
  then show "map source_core (sources s') = map source_core (sources (release_lease owner src ob s))"
    "observations s' = observations (insert_observation src ob s)" "clock s' = clock s"
    by (simp_all add: elsewhere_kept_def insert_observation_def) (simp_all add: release_lease_def)
qed

lemma source_core_simps:
  "so_id (source_core r) = so_id r" "so_lease_owner (source_core r) = so_lease_owner r" "so_lease_until (source_core r) = so_lease_until r"
  "so_next_run_at (source_core r) = so_next_run_at r" "so_interval_seconds (source_core r) = so_interval_seconds r"
  by (simp_all add: source_core_def)

lemma core_row:
  assumes "map source_core xs = map source_core ys" and "x \<in> set xs"
  shows "\<exists>y \<in> set ys. so_id y = so_id x \<and> so_lease_owner y = so_lease_owner x \<and> so_lease_until y = so_lease_until x \<and>
    so_next_run_at y = so_next_run_at x \<and> so_interval_seconds y = so_interval_seconds x"
proof -
  have "source_core x \<in> source_core ` set ys" using assms by (metis imageI list.set_map)
  then obtain y where "y \<in> set ys" and "source_core y = source_core x" by auto
  moreover from this(2) have "so_id y = so_id x" "so_lease_owner y = so_lease_owner x" "so_lease_until y = so_lease_until x"
      "so_next_run_at y = so_next_run_at x" "so_interval_seconds y = so_interval_seconds x"
    using source_core_simps by metis+
  ultimately show ?thesis by blast
qed

lemma released_row:
  assumes "distinct (map so_id (sources s))" and "Complete now owner src ob s = (Inr (), s')" and "r \<in> set (sources s')"
    and "so_id r = src_ID src"
  shows "so_lease_owner r = None \<and> so_lease_until r = None \<and> so_next_run_at r = clock s + so_interval_seconds r * second"
proof -
  from core_row [OF Complete_sources(1) [OF assms(2)] assms(3)] obtain q where q: "q \<in> set (sources (release_lease owner src ob s))"
      "so_id q = so_id r" "so_lease_owner q = so_lease_owner r" "so_lease_until q = so_lease_until r" "so_next_run_at q = so_next_run_at r"
      "so_interval_seconds q = so_interval_seconds r" by blast
  from Complete_leased [OF assms(2)] obtain l where l: "l \<in> set (sources s)" "leased_by owner src l" by blast
  have "so_lease_owner q = None \<and> so_lease_until q = None \<and> so_next_run_at q = clock s + so_interval_seconds q * second"
    using q(1) unfolding release_lease_def
  proof (simp, elim update_whereE)
    assume "q \<in> set (sources s)" and "\<not> leased_by owner src q"
    moreover from this(1) have "q = l"
      using l assms(1,4) q(2) inj_onD [of so_id "set (sources s)" q l] by (simp add: distinct_map leased_by_def)
    ultimately show ?thesis using l(2) by simp
  qed simp
  then show ?thesis using q by simp
qed

text \<open>C13. A leased check is completed at most once: completing succeeds only for the owner of
  the lease, records exactly one Observation, frees the source and plans its next run one
  interval later, and a second completion of the same source, by the same worker or by
  another, fails and changes nothing.\<close>

theorem complete_once:
  assumes "distinct (map so_id (sources s))" and "Complete now owner src ob s = (Inr (), s')"
  shows "Complete now' owner' src ob' s' = (Inl ErrLeaseLost, s') \<and>
    (\<exists>r \<in> set (sources s). so_id r = src_ID src \<and> so_lease_owner r = Some owner) \<and>
    (\<forall>r \<in> set (sources s'). so_id r = src_ID src \<longrightarrow>
       so_lease_owner r = None \<and> so_lease_until r = None \<and> so_next_run_at r = clock s + so_interval_seconds r * second) \<and>
    length (observations s') = length (observations s) + 1"
proof (intro conjI)
  show free: "\<forall>r \<in> set (sources s'). so_id r = src_ID src \<longrightarrow>
      so_lease_owner r = None \<and> so_lease_until r = None \<and> so_next_run_at r = clock s + so_interval_seconds r * second"
    using released_row [OF assms] by blast
  have "filter (leased_by owner' src) (sources s') = []"
    using free by (auto simp: filter_empty_conv leased_by_def)
  then show "Complete now' owner' src ob' s' = (Inl ErrLeaseLost, s')"
    by (simp add: Complete_def commit_or_rollback_def)
  show "\<exists>r \<in> set (sources s). so_id r = src_ID src \<and> so_lease_owner r = Some owner"
    using Complete_leased [OF assms(2)] by (simp add: leased_by_def)
  show "length (observations s') = length (observations s) + 1"
    using Complete_sources(2) [OF assms(2)] by (simp add: insert_observation_def)
qed

definition healthy_check :: "Source \<Rightarrow> Observation" where
  "healthy_check src = NewObservation src OutcomeHealthy 0 (1000 * second)"

definition sample_claimed :: db where
  "sample_claimed = snd (ClaimDue (1000 * second) ''a'' 1 (2 * minute) sample_monitored)"

theorem complete_once_witness:
  "Complete 1 ''b'' (claimed_source (sample_source ''s1'')) (healthy_check (claimed_source (sample_source ''s1'')))
     (snd (Complete 1 ''a'' (claimed_source (sample_source ''s1'')) (healthy_check (claimed_source (sample_source ''s1''))) sample_claimed)) =
   (Inl ErrLeaseLost,
     snd (Complete 1 ''a'' (claimed_source (sample_source ''s1'')) (healthy_check (claimed_source (sample_source ''s1''))) sample_claimed))"
proof -
  let ?src = "claimed_source (sample_source ''s1'')"
  have "fst (Complete 1 ''a'' ?src (healthy_check ?src) sample_claimed) = Inr ()" by code_simp
  then have "Complete 1 ''a'' ?src (healthy_check ?src) sample_claimed = (Inr (), snd (Complete 1 ''a'' ?src (healthy_check ?src) sample_claimed))"
    by (metis prod.collapse)
  moreover have "distinct (map so_id (sources sample_claimed))" by code_simp
  ultimately show ?thesis using complete_once by blast
qed

subsection \<open>Ticks and the Incident cycle\<close>

lemma keeps_Complete: "keeps_agreement (Complete now owner src ob)"
proof -
  have "invisible s (insert_observation src ob (release_lease owner src ob s))" for s
    by (rule invisible_cong) (simp_all add: insert_observation_def release_lease_def)
  moreover have "cycle_inv (insert_observation src ob (release_lease owner src ob s))" if "cycle_inv s" for s
    using rows_okD [OF that]
    by (intro cycle_inv_cong [OF that]) (simp_all add: insert_observation_def release_lease_def shape_of_def)
  ultimately have run: "keeps_agreement (thenT (execT (\<lambda>s. insert_observation src ob (release_lease owner src ob s)))
      (ApplyNativeObservation now (native_observation src ob)))"
    by (intro keeps_then keeps_exec keeps_ApplyNativeObservation)
  show ?thesis unfolding Complete_def
  proof (rule keeps_commit, rule keeps_agreementI)
    fix s u s' assume "tracked s {} {}"
      and "(if length (filter (leased_by owner src) (sources s)) \<noteq> 1 then (Inl ErrLeaseLost, s)
        else thenT (execT (\<lambda>s. insert_observation src ob (release_lease owner src ob s)))
          (ApplyNativeObservation now (native_observation src ob)) s) = (Inr u, s')"
    then show "tracked s' {} {}" using keeps_agreementD [OF run] by (auto split: if_splits)
  qed
qed

lemma agrees_complete_all: "agrees s \<Longrightarrow> agrees (snd (complete_all now owner check srcs s))"
proof (induction srcs arbitrary: s)
  case (Cons src srcs)
  have "agrees (snd (Complete now owner src (check src) s))"
    by (rule agrees_run [OF keeps_Complete Complete_rolls_back Cons.prems])
  then show ?case using Cons.IH by (auto simp: split_beta Let_def split: prod.split sum.split)
qed simp



end
