(* ===== verification/Go_Strconv.thy ===== *)
theory Go_Strconv
  imports Go_Json
begin

text \<open>
  Decimal numbers as \<^verbatim>\<open>strconv\<close> reads them: \<open>ParseUint\<close> and \<open>ParseInt\<close> in base 10 and 64 bits,
  which fail on an empty text, a foreign character and a value out of range.
\<close>

definition digit_value :: "char \<Rightarrow> int" where
  "digit_value c = int (of_char c) - 48"

definition number :: "string \<Rightarrow> int" where
  "number s = foldl (\<lambda>n c. n * 10 + digit_value c) 0 s"

definition ParseUint :: "string \<Rightarrow> int option" where
  "ParseUint s = (if s \<noteq> [] \<and> list_all is_digit s \<and> number s < 2 ^ 64 then Some (number s) else None)"

definition ParseInt :: "string \<Rightarrow> int option" where
  "ParseInt s =
     (let neg = (s \<noteq> [] \<and> hd s = CHR ''-''); signed = (s \<noteq> [] \<and> hd s \<in> {CHR ''+'', CHR ''-''});
          digits = (if signed then tl s else s)
      in if digits = [] \<or> \<not> list_all is_digit digits then None
         else let v = (if neg then - number digits else number digits)
              in if int64_range v then Some v else None)"

lemma digit_value_bounds: "is_digit c \<Longrightarrow> 0 \<le> digit_value c \<and> digit_value c \<le> 9"
  by (auto simp: is_digit_def in_range_def digit_value_def)

lemma number_snoc [simp]: "number (s @ [c]) = number s * 10 + digit_value c"
  by (simp add: number_def)

lemma number_Nil [simp]: "number [] = 0"
  by (simp add: number_def)

lemma number_nonneg: "list_all is_digit s \<Longrightarrow> 0 \<le> number s"
proof (induction s rule: rev_induct)
  case (snoc c s)
  then show ?case using digit_value_bounds [of c] by simp
qed simp

lemma ParseUint_bounds: "ParseUint s = Some v \<Longrightarrow> 0 \<le> v \<and> v < 2 ^ 64"
  using number_nonneg by (auto simp: ParseUint_def split: if_splits)

lemma digit_value_inj: "is_digit c \<Longrightarrow> is_digit d \<Longrightarrow> digit_value c = digit_value d \<Longrightarrow> c = d"
  by (simp add: digit_value_def)

lemma number_pos: "list_all is_digit s \<Longrightarrow> s \<noteq> [] \<Longrightarrow> hd s \<noteq> CHR ''0'' \<Longrightarrow> 0 < number s"
proof (induction s rule: rev_induct)
  case (snoc c s)
  show ?case
  proof (cases s)
    case Nil
    then have "digit_value c \<noteq> 0" using snoc.prems digit_value_inj [of c "CHR ''0''"]
      by (auto simp: digit_value_def is_digit_def in_range_def)
    then show ?thesis using Nil snoc.prems digit_value_bounds [of c] by (simp add: number_def)
  next
    case (Cons d ds)
    then have "0 < number s" using snoc by simp
    then show ?thesis using snoc.prems digit_value_bounds [of c] by simp
  qed
qed simp

text \<open>A number written without leading zeros is written in one way.\<close>

lemma number_inj:
  assumes "list_all is_digit s" and "list_all is_digit t" and "s \<noteq> [] \<longrightarrow> hd s \<noteq> CHR ''0''" and "t \<noteq> [] \<longrightarrow> hd t \<noteq> CHR ''0''"
    and "number s = number t"
  shows "s = t"
  using assms
proof (induction s arbitrary: t rule: rev_induct)
  case Nil
  then show ?case using number_pos [of t] by fastforce
next
  case (snoc c s)
  have "0 < number (s @ [c])" by (rule number_pos) (use snoc.prems in simp_all)
  then have "t \<noteq> []" using snoc.prems(5) by (metis less_irrefl number_Nil)
  then obtain t' d where t: "t = t' @ [d]" using rev_exhaust by blast
  have "is_digit c" "is_digit d" using snoc.prems(1,2) t by simp_all
  then have "number s = number t' \<and> digit_value c = digit_value d"
    using snoc.prems(5) t digit_value_bounds [of c] digit_value_bounds [of d] by simp presburger
  moreover from this have "s = t'" using snoc.IH [of t'] snoc.prems t by (cases s; cases t') auto
  ultimately show ?case using t digit_value_inj \<open>is_digit c\<close> \<open>is_digit d\<close> by blast
qed

end
