(* ===== verification/Maintenance.thy ===== *)
theory Maintenance
  imports Incident_Model Go_Strconv
begin

text \<open>
  Planned maintenance (\<^verbatim>\<open>internal/maintenance\<close>): validation of a request, the weekly recurrence
  in a time zone, and the store of windows with its optimistic extension. A time zone is a
  function from instants to an offset in seconds: the rules of the IANA database are a
  parameter.
\<close>

subsection \<open>Dates\<close>

type_synonym zone = "instant \<Rightarrow> int"

definition leap_year :: "int \<Rightarrow> bool" where
  "leap_year y \<longleftrightarrow> 4 dvd y \<and> (\<not> 100 dvd y \<or> 400 dvd y)"

definition days_in :: "int \<Rightarrow> int \<Rightarrow> int" where
  "days_in y m = (if m = 2 then if leap_year y then 29 else 28
                  else if m \<in> {4, 6, 9, 11} then 30 else 31)"

text \<open>\<open>time.Parse("2006-01-02", s)\<close>, as a number of days.\<close>

definition parse_date :: "string \<Rightarrow> int option" where
  "parse_date s =
     (if length s = 10 \<and> s ! 4 = CHR ''-'' \<and> s ! 7 = CHR ''-'' \<and>
         list_all is_digit (take 4 s @ take 2 (drop 5 s) @ drop 8 s)
      then let y = number (take 4 s); m = number (take 2 (drop 5 s)); d = number (drop 8 s)
           in if 1 \<le> m \<and> m \<le> 12 \<and> 1 \<le> d \<and> d \<le> days_in y m
              then Some (days_of_civil \<lparr>cv_year = y, cv_month = m, cv_day = d\<rparr>) else None
      else None)"

definition next_year :: "int \<Rightarrow> int" where
  "next_year n = (let c = civil_of_days n in days_of_civil (c\<lparr>cv_year := cv_year c + 1\<rparr>))"

subsection \<open>Recurrence (\<^verbatim>\<open>recurrence.go\<close>)\<close>

datatype maintenance_error = MInvalidInput | MNotFound | MConflict

record Recurrence =
  rc_Frequency :: string
  rc_Timezone :: string
  rc_Until :: string

record CreateInput =
  ci_Name :: string
  ci_Reason :: string
  ci_TargetIDs :: "string list"
  ci_StartsAt :: instant
  ci_EndsAt :: instant
  ci_Recurrence :: "Recurrence option"

definition deltas :: "duration list" where
  "deltas = [-48 * hour, -24 * hour, 0, 24 * hour, 48 * hour]"

definition zone_offsets :: "zone \<Rightarrow> instant \<Rightarrow> int list" where
  "zone_offsets z civil = remdups (map (\<lambda>delta. z (civil + delta)) deltas)"

text \<open>The civil fields of \<open>candidate.In(zone)\<close> down to the second are those of \<open>civil\<close>.\<close>

definition projects :: "zone \<Rightarrow> instant \<Rightarrow> instant \<Rightarrow> bool" where
  "projects z civil candidate \<longleftrightarrow> (candidate + z candidate * second) div second = civil div second"

definition keep_first :: "zone \<Rightarrow> instant \<Rightarrow> int \<Rightarrow> instant \<Rightarrow> instant" where
  "keep_first z civil offset first =
     (let candidate = civil - offset * second
      in if projects z civil candidate \<and> (first = 0 \<or> candidate < first) then candidate else first)"

definition localTime :: "zone \<Rightarrow> instant \<Rightarrow> instant option" where
  "localTime z civil =
     (let first = fold (keep_first z civil) (zone_offsets z civil) 0
      in if first = 0 then None else Some first)"

function weekly_days :: "int \<Rightarrow> int \<Rightarrow> int list" where
  "weekly_days d until = (if until < d then [] else d # weekly_days (d + 7) until)"
  by pat_completeness auto

termination weekly_days
  by (relation "measure (\<lambda>(d, until). nat (until + 7 - d))") auto

declare weekly_days.simps [simp del]

fun weekly_windows :: "zone \<Rightarrow> int \<Rightarrow> duration \<Rightarrow> int list \<Rightarrow> (instant \<times> instant) list" where
  "weekly_windows z tod len [] = []"
| "weekly_windows z tod len (d # ds) =
     (case localTime z (d * day + tod) of
        None \<Rightarrow> weekly_windows z tod len ds
      | Some start \<Rightarrow> (start, start + len) # weekly_windows z tod len ds)"

definition occurrences ::
  "(string \<Rightarrow> zone option) \<Rightarrow> CreateInput \<Rightarrow> maintenance_error + (instant \<times> instant) list" where
  "occurrences LoadLocation ci =
     (case ci_Recurrence ci of
        None \<Rightarrow> Inr [(ci_StartsAt ci, ci_EndsAt ci)]
      | Some rule \<Rightarrow>
          if rc_Frequency rule \<noteq> ''weekly'' then Inl MInvalidInput
          else if rc_Timezone rule = '''' \<or> rc_Timezone rule = ''Local'' then Inl MInvalidInput
          else case LoadLocation (rc_Timezone rule) of
            None \<Rightarrow> Inl MInvalidInput
          | Some z \<Rightarrow>
              (case parse_date (rc_Until rule) of
                 None \<Rightarrow> Inl MInvalidInput
               | Some until \<Rightarrow>
                   let wall = ci_StartsAt ci + z (ci_StartsAt ci) * second;
                       date = wall div day;
                       len = time_Sub (ci_EndsAt ci) (ci_StartsAt ci)
                   in if until < date + 7 \<or> next_year date < until then Inl MInvalidInput
                      else if len \<le> 0 \<or> 24 * hour < len then Inl MInvalidInput
                      else let items = (ci_StartsAt ci, ci_EndsAt ci) #
                                       weekly_windows z (wall mod day) len (weekly_days (date + 7) until)
                           in if length items < 2 then Inl MInvalidInput else Inr items))"

subsection \<open>Validation (\<open>Service\<close> of \<^verbatim>\<open>maintenance.go\<close>)\<close>

definition validUUID :: "string \<Rightarrow> bool" where
  "validUUID v \<longleftrightarrow> length v = 36 \<and> v ! 8 = CHR ''-'' \<and> v ! 13 = CHR ''-'' \<and> v ! 18 = CHR ''-'' \<and> v ! 23 = CHR ''-'' \<and>
     (let digits = filter (\<lambda>c. c \<noteq> CHR ''-'') v in list_all is_hex digits \<and> length digits = 32)"

fun distinct_targets :: "string list \<Rightarrow> string list \<Rightarrow> maintenance_error + string list" where
  "distinct_targets [] acc = Inr acc"
| "distinct_targets (t # ts) acc =
     (let targetID = TrimSpace t
      in if \<not> validUUID targetID then Inl MInvalidInput
         else if targetID \<in> set acc then distinct_targets ts acc
         else distinct_targets ts (acc @ [targetID]))"

definition Service_Create ::
  "(string \<Rightarrow> zone option) \<Rightarrow> instant \<Rightarrow> CreateInput \<Rightarrow> maintenance_error + CreateInput" where
  "Service_Create LoadLocation now input =
     (let name = TrimSpace (ci_Name input); reason = TrimSpace (ci_Reason input)
      in if rune_count name < 3 \<or> 160 < rune_count name then Inl MInvalidInput
         else if rune_count reason < 8 \<or> 500 < rune_count reason then Inl MInvalidInput
         else if ci_TargetIDs input = [] \<or> 200 < length (ci_TargetIDs input) then Inl MInvalidInput
         else bindE (distinct_targets (ci_TargetIDs input) [])
           (\<lambda>ids.
              let starts = (if ci_StartsAt input = 0 then now else ci_StartsAt input); ends = ci_EndsAt input;
                  checked = input\<lparr>ci_Name := name, ci_Reason := reason, ci_TargetIDs := ids, ci_StartsAt := starts\<rparr>
              in if ends = 0 \<or> \<not> starts < ends then Inl MInvalidInput
                 else if 31 * 24 * hour < time_Sub ends starts then Inl MInvalidInput
                 else if ends < now then Inl MInvalidInput
                 else bindE (occurrences LoadLocation checked) (\<lambda>_. Inr checked)))"

definition Service_List :: "int \<Rightarrow> maintenance_error + int" where
  "Service_List limit = (if limit < 1 \<or> 200 < limit then Inl MInvalidInput else Inr limit)"

subsection \<open>The store (\<^verbatim>\<open>store.go\<close>)\<close>

record maintenance_row =
  mt_id :: uuid
  mt_name :: string
  mt_reason :: string
  mt_starts_at :: instant
  mt_ends_at :: instant
  mt_cancelled_at :: "instant option"
  mt_cancelled_by :: "uuid option"
  mt_created_by :: uuid
  mt_created_at :: instant
  mt_series_id :: "uuid option"
  mt_extension_count :: int

record series_row =
  sr_id :: uuid
  sr_timezone :: string
  sr_until_date :: string

record extension_row =
  ex_maintenance_id :: uuid
  ex_actor_id :: uuid
  ex_previous_ends_at :: instant
  ex_ends_at :: instant

record mdb =
  m_gen :: "nat \<Rightarrow> uuid"
  m_drawn :: nat
  m_clock :: instant
  m_target_ids :: "uuid list"
  maintenances :: "maintenance_row list"
  m_links :: "(uuid \<times> uuid) list"
  m_series :: "series_row list"
  m_extensions :: "extension_row list"

definition lower_char :: "char \<Rightarrow> char" where
  "lower_char c = (if 65 \<le> (of_char c :: nat) \<and> (of_char c :: nat) \<le> 90 then char_of ((of_char c :: nat) + 32) else c)"

text \<open>A uuid text as PostgreSQL compares it.\<close>

definition uuid_cast :: "string \<Rightarrow> uuid" where
  "uuid_cast v = map lower_char v"

definition insert_series :: "Recurrence \<Rightarrow> mdb \<Rightarrow> uuid \<times> mdb" where
  "insert_series rule s =
     (m_gen s (m_drawn s),
      s\<lparr>m_drawn := Suc (m_drawn s), m_series := m_series s @
         [\<lparr>sr_id = m_gen s (m_drawn s), sr_timezone = rc_Timezone rule, sr_until_date = rc_Until rule\<rparr>]\<rparr>)"

definition insert_window :: "uuid \<Rightarrow> CreateInput \<Rightarrow> uuid option \<Rightarrow> instant \<times> instant \<Rightarrow> mdb \<Rightarrow> mdb" where
  "insert_window actorID ci series w s =
     s\<lparr>m_drawn := Suc (m_drawn s), maintenances := maintenances s @
        [\<lparr>mt_id = m_gen s (m_drawn s), mt_name = ci_Name ci, mt_reason = ci_Reason ci,
          mt_starts_at = fst w, mt_ends_at = snd w, mt_cancelled_at = None, mt_cancelled_by = None,
          mt_created_by = actorID, mt_created_at = m_clock s, mt_series_id = series,
          mt_extension_count = 0\<rparr>]\<rparr>"

definition attach_targets :: "uuid \<Rightarrow> string list \<Rightarrow> mdb \<Rightarrow> uuid list" where
  "attach_targets i ids s = filter (\<lambda>t. t \<in> set (map uuid_cast ids)) (m_target_ids s)"

fun create_windows ::
  "uuid \<Rightarrow> CreateInput \<Rightarrow> uuid option \<Rightarrow> (instant \<times> instant) list \<Rightarrow> mdb \<Rightarrow> maintenance_error + mdb" where
  "create_windows actorID ci series [] s = Inr s"
| "create_windows actorID ci series (w # ws) s =
     (let i = m_gen s (m_drawn s); s1 = insert_window actorID ci series w s;
          found = attach_targets i (ci_TargetIDs ci) s1
      in if length found \<noteq> length (ci_TargetIDs ci) then Inl MInvalidInput
         else create_windows actorID ci series ws (s1\<lparr>m_links := m_links s1 @ map (Pair i) found\<rparr>))"

text \<open>An error rolls back: the state it returns is the state before.\<close>

definition Store_Create ::
  "(string \<Rightarrow> zone option) \<Rightarrow> uuid \<Rightarrow> CreateInput \<Rightarrow> mdb \<Rightarrow> (maintenance_error + unit) \<times> mdb" where
  "Store_Create LoadLocation actorID ci s =
     (case occurrences LoadLocation ci of
        Inl e \<Rightarrow> (Inl e, s)
      | Inr windows \<Rightarrow>
          let (series, s1) = (case ci_Recurrence ci of None \<Rightarrow> (None, s)
                              | Some rule \<Rightarrow> (let (i, s1) = insert_series rule s in (Some i, s1)))
          in case create_windows actorID ci series windows s1 of
               Inl e \<Rightarrow> (Inl e, s) | Inr s' \<Rightarrow> (Inr (), s'))"

definition cancellable :: "mdb \<Rightarrow> maintenance_row \<Rightarrow> bool" where
  "cancellable s r \<longleftrightarrow> mt_cancelled_at r = None \<and> m_clock s < mt_ends_at r"

definition cancel_where :: "(maintenance_row \<Rightarrow> bool) \<Rightarrow> uuid \<Rightarrow> mdb \<Rightarrow> mdb" where
  "cancel_where P actorID s =
     s\<lparr>maintenances := update_where (\<lambda>r. P r \<and> cancellable s r)
        (\<lambda>r. r\<lparr>mt_cancelled_at := Some (m_clock s), mt_cancelled_by := Some actorID\<rparr>) (maintenances s)\<rparr>"

definition Cancel :: "uuid \<Rightarrow> uuid \<Rightarrow> mdb \<Rightarrow> (maintenance_error + unit) \<times> mdb" where
  "Cancel i actorID s =
     (if length (filter (\<lambda>r. mt_id r = i \<and> cancellable s r) (maintenances s)) \<noteq> 1
      then (Inl (if \<exists>r \<in> set (maintenances s). mt_id r = i then MConflict else MNotFound),
            cancel_where (\<lambda>r. mt_id r = i) actorID s)
      else (Inr (), cancel_where (\<lambda>r. mt_id r = i) actorID s))"

definition CancelSeries :: "uuid \<Rightarrow> uuid \<Rightarrow> mdb \<Rightarrow> (maintenance_error + unit) \<times> mdb" where
  "CancelSeries i actorID s =
     (case find (\<lambda>r. mt_id r = i) (maintenances s) of
        None \<Rightarrow> (Inl MNotFound, s)
      | Some row \<Rightarrow>
          (case mt_series_id row of
             None \<Rightarrow> (Inl MConflict, s)
           | Some series \<Rightarrow>
               if \<exists>r \<in> set (maintenances s). mt_series_id r = Some series \<and> cancellable s r
               then (Inr (), cancel_where (\<lambda>r. mt_series_id r = Some series) actorID s)
               else (Inl MConflict, s)))"

definition extendable :: "uuid \<Rightarrow> instant \<Rightarrow> mdb \<Rightarrow> maintenance_row \<Rightarrow> bool" where
  "extendable i expected s r \<longleftrightarrow>
     mt_id r = i \<and> mt_cancelled_at r = None \<and> mt_starts_at r \<le> m_clock s \<and> m_clock s < mt_ends_at r \<and>
     mt_ends_at r = expected \<and> mt_ends_at r + 30 * minute \<le> mt_starts_at r + 31 * day \<and>
     \<not> (\<exists>f \<in> set (maintenances s). mt_series_id f \<noteq> None \<and> mt_series_id f = mt_series_id r \<and>
          mt_cancelled_at f = None \<and> mt_starts_at r < mt_starts_at f \<and>
          mt_starts_at f < mt_ends_at r + 30 * minute)"

definition Store_Extend :: "uuid \<Rightarrow> uuid \<Rightarrow> instant \<Rightarrow> mdb \<Rightarrow> (maintenance_error + unit) \<times> mdb" where
  "Store_Extend i actorID expected s =
     (let extended = filter (extendable i expected s) (maintenances s)
      in if extended = [] then
           (Inl (if \<exists>r \<in> set (maintenances s). mt_id r = i then MConflict else MNotFound), s)
         else
           (Inr (), s\<lparr>maintenances := update_where (extendable i expected s)
                       (\<lambda>r. r\<lparr>mt_ends_at := mt_ends_at r + 30 * minute, mt_extension_count := mt_extension_count r + 1\<rparr>)
                       (maintenances s),
                     m_extensions := m_extensions s @
                       map (\<lambda>r. \<lparr>ex_maintenance_id = mt_id r, ex_actor_id = actorID,
                                  ex_previous_ends_at = mt_ends_at r, ex_ends_at = mt_ends_at r + 30 * minute\<rparr>) extended\<rparr>))"

definition Service_Extend :: "uuid \<Rightarrow> uuid \<Rightarrow> instant \<Rightarrow> mdb \<Rightarrow> (maintenance_error + unit) \<times> mdb" where
  "Service_Extend i actorID expected s =
     (if expected = 0 then (Inl MInvalidInput, s) else Store_Extend i actorID expected s)"

datatype window_state = Cancelled | Upcoming | Running | Ended

definition window_state :: "instant \<Rightarrow> maintenance_row \<Rightarrow> window_state" where
  "window_state now r =
     (if mt_cancelled_at r \<noteq> None then Cancelled else if now < mt_starts_at r then Upcoming
      else if now \<le> mt_ends_at r then Running else Ended)"

definition Store_List :: "nat \<Rightarrow> mdb \<Rightarrow> maintenance_row list" where
  "Store_List limit s =
     take limit (sort_key
       (\<lambda>r. (if mt_cancelled_at r = None \<and> mt_starts_at r \<le> m_clock s \<and> m_clock s \<le> mt_ends_at r then 0
              else if mt_cancelled_at r = None \<and> m_clock s < mt_starts_at r then 1 else (2 :: int),
             mt_starts_at r, mt_id r))
       (filter (\<lambda>r. m_clock s - 24 * hour \<le> mt_ends_at r) (maintenances s)))"

subsection \<open>The first instant of a civil time\<close>

lemma projects_iff: "projects z civil (civil - off * second) \<longleftrightarrow> z (civil - off * second) = off"
proof -
  define k where "k = z (civil - off * second) - off"
  have "civil - off * second + z (civil - off * second) * second = civil + k * second"
    by (simp add: k_def algebra_simps)
  moreover have "(civil + k * second) div second = civil div second + k" by simp
  ultimately show ?thesis unfolding projects_def by (simp only: k_def) simp
qed

lemma keep_first_fold:
  assumes "0 \<le> f" and "\<And>off. off \<in> set offs \<Longrightarrow> 0 < civil - off * second"
  shows "let r = fold (keep_first z civil) offs f in
    0 \<le> r \<and> (r = f \<or> (\<exists>off \<in> set offs. r = civil - off * second \<and> z r = off)) \<and> (f \<noteq> 0 \<longrightarrow> 0 < r \<and> r \<le> f) \<and>
    (\<forall>off \<in> set offs. z (civil - off * second) = off \<longrightarrow> 0 < r \<and> r \<le> civil - off * second)"
  using assms
proof (induction offs arbitrary: f)
  case (Cons off offs)
  define g where "g = keep_first z civil off f"
  have g: "0 \<le> g \<and> (g = f \<or> g = civil - off * second \<and> z g = off) \<and> (f \<noteq> 0 \<longrightarrow> 0 < g \<and> g \<le> f) \<and>
      (z (civil - off * second) = off \<longrightarrow> 0 < g \<and> g \<le> civil - off * second)"
    using Cons.prems(1) Cons.prems(2) [of off] by (auto simp: g_def keep_first_def Let_def projects_iff)
  define r where "r = fold (keep_first z civil) offs g"
  have "0 \<le> r \<and> (r = g \<or> (\<exists>off \<in> set offs. r = civil - off * second \<and> z r = off)) \<and> (g \<noteq> 0 \<longrightarrow> 0 < r \<and> r \<le> g) \<and>
      (\<forall>off \<in> set offs. z (civil - off * second) = off \<longrightarrow> 0 < r \<and> r \<le> civil - off * second)"
    using Cons.IH [of g] Cons.prems(2) g by (simp add: r_def Let_def)
  moreover have "fold (keep_first z civil) (off # offs) f = r" by (simp add: r_def g_def)
  ultimately show ?case using g unfolding Let_def by auto
qed simp

lemma zone_offsets_in: "set (zone_offsets z civil) = (\<lambda>delta. z (civil + delta)) ` set deltas"
  by (simp add: zone_offsets_def)

lemma localTime_cases:
  assumes "\<And>t. \<bar>z t\<bar> \<le> 86400" and "24 * hour < civil"
  shows "case localTime z civil of
      None \<Rightarrow> \<forall>off \<in> set (zone_offsets z civil). z (civil - off * second) \<noteq> off
    | Some t \<Rightarrow> t + z t * second = civil \<and>
        (\<forall>off \<in> set (zone_offsets z civil). z (civil - off * second) = off \<longrightarrow> t \<le> civil - off * second)"
proof -
  let ?offs = "zone_offsets z civil"
  have pos: "0 < civil - off * second" if "off \<in> set ?offs" for off
  proof -
    have "\<bar>off\<bar> \<le> 86400" using that assms(1) by (auto simp: zone_offsets_in)
    then show ?thesis using assms(2) by simp
  qed
  note r = keep_first_fold [of 0 ?offs civil z, OF order.refl pos, unfolded Let_def]
  show ?thesis
  proof (cases "fold (keep_first z civil) ?offs 0 = 0")
    case True
    then show ?thesis using r by (auto simp: localTime_def Let_def)
  next
    case False
    then show ?thesis using r by (auto simp: localTime_def Let_def)
  qed
qed

text \<open>C16. A civil time is resolved the way the recurrence promises, across at most one change of
  offset in the four days around it: when the clocks skip it, there is no occurrence; otherwise
  the occurrence is the first instant whose local reading is that civil time, also when the
  clocks show it twice.\<close>

theorem localTime_first_instant:
  assumes bound: "\<forall>t. \<bar>z t\<bar> \<le> 86400"
    and change: "\<forall>t. \<bar>t - civil\<bar> \<le> 48 * hour \<longrightarrow> z t = (if t < change then before else after)"
    and late: "24 * hour < civil"
  shows "case localTime z civil of
      None \<Rightarrow> \<forall>t. t + z t * second \<noteq> civil
    | Some t \<Rightarrow> t + z t * second = civil \<and> (\<forall>u. u + z u * second = civil \<longrightarrow> t \<le> u)"
proof -
  have complete: "\<exists>off \<in> set (zone_offsets z civil). u = civil - off * second \<and> z (civil - off * second) = off"
    if "u + z u * second = civil" for u
  proof -
    have u: "u = civil - z u * second" using that by simp
    have "\<bar>z u\<bar> \<le> 86400" using bound by blast
    then have near: "\<bar>u - civil\<bar> \<le> 24 * hour" using u by simp
    have "z u = z (civil + -48 * hour) \<or> z u = z (civil + 48 * hour)"
      using near change [rule_format, of u] change [rule_format, of "civil + -48 * hour"] change [rule_format, of "civil + 48 * hour"]
      by auto
    then have "z u \<in> set (zone_offsets z civil)" by (auto simp: zone_offsets_in deltas_def)
    then show ?thesis using u by metis
  qed
  have "case localTime z civil of
      None \<Rightarrow> \<forall>off \<in> set (zone_offsets z civil). z (civil - off * second) \<noteq> off
    | Some t \<Rightarrow> t + z t * second = civil \<and>
        (\<forall>off \<in> set (zone_offsets z civil). z (civil - off * second) = off \<longrightarrow> t \<le> civil - off * second)"
    by (rule localTime_cases) (use bound late in simp_all)
  then show ?thesis using complete by (cases "localTime z civil") (simp_all, metis+)
qed

definition summer_zone :: zone where
  "summer_zone t = (if t < 100 * day then 3600 else 7200)"

theorem localTime_first_instant_witness:
  "localTime summer_zone (100 * day + 90 * minute) = None \<and>
   localTime summer_zone (100 * day + 30 * minute) = Some (100 * day - 30 * minute)"
proof -
  have "case localTime summer_zone civil of
      None \<Rightarrow> \<forall>t. t + summer_zone t * second \<noteq> civil
    | Some t \<Rightarrow> t + summer_zone t * second = civil \<and> (\<forall>u. u + summer_zone u * second = civil \<longrightarrow> t \<le> u)"
    if "24 * hour < civil" for civil
    using that by (intro localTime_first_instant [where change = "100 * day" and before = 3600 and after = 7200])
      (simp_all add: summer_zone_def)
  from this [of "100 * day + 90 * minute"] this [of "100 * day + 30 * minute"] show ?thesis
    by (auto simp: summer_zone_def split: option.splits if_splits)
qed

subsection \<open>Weekly windows\<close>

abbreviation apart :: "(instant \<times> instant) list \<Rightarrow> bool" where
  "apart \<equiv> sorted_wrt (\<lambda>w v. snd w \<le> fst v)"

lemma weekly_days_ge: "d \<in> set (weekly_days a until) \<Longrightarrow> a \<le> d \<and> d \<le> until \<and> 7 dvd (d - a)"
proof (induction a until rule: weekly_days.induct)
  case (1 a until)
  show ?case
  proof (cases "until < a")
    case False
    then have "d = a \<or> d \<in> set (weekly_days (a + 7) until)" using "1.prems" by (simp add: weekly_days.simps [of a])
    then show ?thesis
    proof
      assume "d \<in> set (weekly_days (a + 7) until)"
      then have ih: "a + 7 \<le> d \<and> d \<le> until \<and> 7 dvd (d - (a + 7))" using "1.IH" False by simp
      then have "7 dvd (d - a)" by presburger
      then show ?thesis using ih by simp
    qed (use False in simp)
  qed (use "1.prems" in \<open>simp add: weekly_days.simps [of a]\<close>)
qed

lemma weekly_days_spaced: "sorted_wrt (\<lambda>d e. d + 7 \<le> e) (weekly_days a until)"
proof (induction a until rule: weekly_days.induct)
  case (1 a until)
  then show ?case using weekly_days_ge by (auto simp: weekly_days.simps [of a])
qed

text \<open>A window comes from a day, at the same local time.\<close>

definition on_day :: "zone \<Rightarrow> int \<Rightarrow> duration \<Rightarrow> int \<Rightarrow> instant \<times> instant \<Rightarrow> bool" where
  "on_day z tod len d w \<longleftrightarrow> fst w + z (fst w) * second = d * day + tod \<and> snd w = fst w + len"

lemma weekly_windows_days:
  assumes "\<And>t. \<bar>z t\<bar> \<le> 86400" and "\<And>d. d \<in> set ds \<Longrightarrow> 1 < d" and "0 \<le> tod"
    and "w \<in> set (weekly_windows z tod len ds)"
  shows "\<exists>d \<in> set ds. on_day z tod len d w"
  using assms(2,4)
proof (induction ds)
  case (Cons d ds)
  have late: "24 * hour < d * day + tod" using Cons.prems(1) [of d] assms(3) by simp
  show ?case
  proof (cases "localTime z (d * day + tod)")
    case None
    then show ?thesis using Cons by auto
  next
    case (Some t)
    then have "t + z t * second = d * day + tod" using localTime_cases [of z "d * day + tod"] assms(1) late by simp
    then show ?thesis using Cons Some by (auto simp: on_day_def)
  qed
qed simp

lemma on_day_apart:
  assumes "\<And>t. \<bar>z t\<bar> \<le> 86400" and "on_day z tod len d w" and "on_day z tod len e v" and "d + 7 \<le> e" and "len \<le> 24 * hour"
  shows "snd w \<le> fst v"
  using assms(1) [of "fst w"] assms(1) [of "fst v"] assms(2-5) unfolding on_day_def abs_le_iff by linarith

lemma weekly_windows_apart:
  assumes "\<And>t. \<bar>z t\<bar> \<le> 86400" and "\<And>d. d \<in> set ds \<Longrightarrow> 1 < d" and "0 \<le> tod" and "len \<le> 24 * hour"
    and "sorted_wrt (\<lambda>d e. d + 7 \<le> e) ds"
  shows "apart (weekly_windows z tod len ds)"
  using assms(2,5)
proof (induction ds)
  case (Cons d ds)
  show ?case
  proof (cases "localTime z (d * day + tod)")
    case None
    then show ?thesis using Cons by simp
  next
    case (Some t)
    have "24 * hour < d * day + tod" using Cons.prems(1) [of d] assms(3) by simp
    then have "on_day z tod len d (t, t + len)"
      using Some localTime_cases [of z "d * day + tod"] assms(1) by (simp add: on_day_def)
    then have "snd (t, t + len) \<le> fst v" if "v \<in> set (weekly_windows z tod len ds)" for v
    proof -
      have "\<exists>e \<in> set ds. on_day z tod len e v" using weekly_windows_days [OF assms(1) _ assms(3) that] Cons.prems(1) by simp
      then obtain e where "e \<in> set ds" "on_day z tod len e v" by blast
      moreover have "d + 7 \<le> e" using Cons.prems(2) \<open>e \<in> set ds\<close> by simp
      ultimately show ?thesis using on_day_apart [OF assms(1) \<open>on_day z tod len d (t, t + len)\<close> _ _ assms(4)] by blast
    qed
    then show ?thesis using Cons Some by simp
  qed
qed simp

lemma occurrences_recurring:
  assumes "occurrences LoadLocation ci = Inr items" and "ci_Recurrence ci = Some rule"
  obtains z until where "LoadLocation (rc_Timezone rule) = Some z" and "parse_date (rc_Until rule) = Some until"
    and "0 < ci_EndsAt ci - ci_StartsAt ci" and "ci_EndsAt ci - ci_StartsAt ci \<le> 24 * hour"
    and "items = (ci_StartsAt ci, ci_EndsAt ci) #
      weekly_windows z ((ci_StartsAt ci + z (ci_StartsAt ci) * second) mod day) (ci_EndsAt ci - ci_StartsAt ci)
        (weekly_days ((ci_StartsAt ci + z (ci_StartsAt ci) * second) div day + 7) until)"
    and "2 \<le> length items"
proof -
  from assms obtain z until where z: "LoadLocation (rc_Timezone rule) = Some z" "parse_date (rc_Until rule) = Some until"
    by (auto simp: occurrences_def split: if_splits option.splits)
  define len where "len = time_Sub (ci_EndsAt ci) (ci_StartsAt ci)"
  have len: "0 < len" "len \<le> 24 * hour"
    and items: "items = (ci_StartsAt ci, ci_EndsAt ci) #
      weekly_windows z ((ci_StartsAt ci + z (ci_StartsAt ci) * second) mod day) len
        (weekly_days ((ci_StartsAt ci + z (ci_StartsAt ci) * second) div day + 7) until)" and "2 \<le> length items"
    using assms z by (auto simp: occurrences_def len_def Let_def Suc_le_eq split: if_splits)
  have "ci_EndsAt ci - ci_StartsAt ci \<le> 24 * hour" using len(2) time_Sub_le_iff [of "24 * hour" "ci_EndsAt ci" "ci_StartsAt ci"] by (simp add: len_def)
  moreover have "1 \<le> ci_EndsAt ci - ci_StartsAt ci" using len(1) time_Sub_ge_iff [of 1 "ci_EndsAt ci" "ci_StartsAt ci"] by (simp add: len_def)
  ultimately have "len = ci_EndsAt ci - ci_StartsAt ci" unfolding len_def by (intro time_Sub_exact) (simp add: int64_range_def)
  then show thesis using that z items len \<open>2 \<le> length items\<close> by simp
qed

lemma series_windows:
  assumes "occurrences LoadLocation ci = Inr items" and "ci_Recurrence ci = Some rule"
    and "LoadLocation (rc_Timezone rule) = Some z" and "\<forall>t. \<bar>z t\<bar> \<le> 86400" and "day < ci_StartsAt ci"
  shows "apart items \<and> hd items = (ci_StartsAt ci, ci_EndsAt ci) \<and> 2 \<le> length items \<and>
    (\<forall>(starts, ends) \<in> set items. ends - starts = ci_EndsAt ci - ci_StartsAt ci \<and>
       (\<exists>weeks. 0 \<le> weeks \<and> starts + z starts * second = ci_StartsAt ci + z (ci_StartsAt ci) * second + weeks * (7 * day)))"
proof -
  from occurrences_recurring [OF assms(1,2)] obtain until where
    len: "0 < ci_EndsAt ci - ci_StartsAt ci" "ci_EndsAt ci - ci_StartsAt ci \<le> 24 * hour"
    and items: "items = (ci_StartsAt ci, ci_EndsAt ci) #
      weekly_windows z ((ci_StartsAt ci + z (ci_StartsAt ci) * second) mod day) (ci_EndsAt ci - ci_StartsAt ci)
        (weekly_days ((ci_StartsAt ci + z (ci_StartsAt ci) * second) div day + 7) until)" and two: "2 \<le> length items"
    using assms(3) by (metis option.inject)
  define wall where "wall = ci_StartsAt ci + z (ci_StartsAt ci) * second"
  define len where "len = ci_EndsAt ci - ci_StartsAt ci"
  define ds where "ds = weekly_days (wall div day + 7) until"
  have z: "\<bar>z t\<bar> \<le> 86400" for t using assms(4) by blast
  have "0 \<le> wall div day" using z [of "ci_StartsAt ci"] assms(5) by (simp add: wall_def)
  then have ds: "wall div day + 7 \<le> d \<and> 7 dvd (d - (wall div day + 7)) \<and> 1 < d" if "d \<in> set ds" for d
    using weekly_days_ge [of d "wall div day + 7" until] that by (simp add: ds_def)
  have first: "on_day z (wall mod day) len (wall div day) (ci_StartsAt ci, ci_EndsAt ci)"
    by (simp add: on_day_def wall_def len_def)
  have tod: "0 \<le> wall mod day" by simp
  have late: "1 < d" if "d \<in> set ds" for d using ds that by blast
  have days: "\<exists>d \<in> set ds. on_day z (wall mod day) len d v" if "v \<in> set (weekly_windows z (wall mod day) len ds)" for v
    by (rule weekly_windows_days [of z, OF z late tod that])
  have "snd (ci_StartsAt ci, ci_EndsAt ci) \<le> fst v" if "v \<in> set (weekly_windows z (wall mod day) len ds)" for v
  proof -
    obtain d where d: "d \<in> set ds" "on_day z (wall mod day) len d v" using days \<open>v \<in> _\<close> by blast
    show ?thesis by (rule on_day_apart [of z, OF z first d(2)]) (use ds [OF d(1)] len in \<open>simp_all add: len_def\<close>)
  qed
  moreover have "apart (weekly_windows z (wall mod day) len ds)"
    by (rule weekly_windows_apart [of z, OF z late tod]) (use len weekly_days_spaced in \<open>simp_all add: ds_def len_def\<close>)
  ultimately have "apart items" by (simp add: items wall_def [symmetric] len_def [symmetric] ds_def [symmetric])
  moreover have "snd w - fst w = len \<and> (\<exists>weeks. 0 \<le> weeks \<and> fst w + z (fst w) * second = wall + weeks * (7 * day))"
    if "w \<in> set items" for w
  proof -
    consider "w = (ci_StartsAt ci, ci_EndsAt ci)" | "w \<in> set (weekly_windows z (wall mod day) len ds)"
      using \<open>w \<in> set items\<close> by (auto simp: items wall_def len_def ds_def)
    then show ?thesis
    proof cases
      case 1
      then show ?thesis by (auto simp: len_def wall_def intro: exI [of _ 0])
    next
      case 2
      then obtain d where d: "d \<in> set ds" "on_day z (wall mod day) len d w" using days by blast
      then obtain k where k: "d = wall div day + 7 + 7 * k" using ds [of d] by (auto elim!: dvdE simp: algebra_simps)
      then have "0 \<le> k + 1" using ds [OF d(1)] by simp
      moreover have "d * day + wall mod day = wall + (k + 1) * (7 * day)"
        using div_mult_mod_eq [of wall day] by (simp add: k algebra_simps)
      ultimately show ?thesis using d(2) by (auto simp: on_day_def intro: exI [of _ "k + 1"])
    qed
  qed
  moreover have "hd items = (ci_StartsAt ci, ci_EndsAt ci)" by (simp add: items)
  ultimately show ?thesis using two unfolding wall_def len_def case_prod_beta by blast
qed

text \<open>Every window of a recurrence starts at the local time of the first one, a whole number
  of weeks later, and lasts as long; no two windows of a series overlap, whatever the changes of
  offset in between.\<close>

theorem recurrence_windows:
  assumes "occurrences LoadLocation ci = Inr items" and "ci_Recurrence ci = Some rule"
    and "LoadLocation (rc_Timezone rule) = Some z" and "\<forall>t. \<bar>z t\<bar> \<le> 86400" and "day < ci_StartsAt ci"
  shows "apart items \<and> hd items = (ci_StartsAt ci, ci_EndsAt ci) \<and> 2 \<le> length items \<and>
    (\<forall>(starts, ends) \<in> set items. ends - starts = ci_EndsAt ci - ci_StartsAt ci \<and>
       (\<exists>weeks. 0 \<le> weeks \<and> starts + z starts * second = ci_StartsAt ci + z (ci_StartsAt ci) * second + weeks * (7 * day)))"
  using series_windows [OF assms] by blast

definition sample_request :: CreateInput where
  "sample_request = \<lparr>ci_Name = ''backup'', ci_Reason = ''weekly backup'', ci_TargetIDs = [], ci_StartsAt = 735000 * day + 3600 * second,
     ci_EndsAt = 735000 * day + 7200 * second,
     ci_Recurrence = Some \<lparr>rc_Frequency = ''weekly'', rc_Timezone = ''Etc/GMT-1'', rc_Until = ''2013-06-20''\<rparr>\<rparr>"

theorem recurrence_windows_witness:
  "occurrences (\<lambda>_. Some (\<lambda>_. 3600)) sample_request \<noteq> Inl MInvalidInput \<and>
   apart (projr (occurrences (\<lambda>_. Some (\<lambda>_. 3600)) sample_request)) \<and>
   2 \<le> length (projr (occurrences (\<lambda>_. Some (\<lambda>_. 3600)) sample_request))"
proof -
  let ?items = "projr (occurrences (\<lambda>_. Some (\<lambda>_. 3600)) sample_request)"
  have "isl (occurrences (\<lambda>_. Some (\<lambda>_. 3600)) sample_request) = False" by code_simp
  then have run: "occurrences (\<lambda>_. Some (\<lambda>_. 3600)) sample_request = Inr ?items" by simp
  from recurrence_windows [OF this, of "the (ci_Recurrence sample_request)" "\<lambda>_. 3600"]
  have "apart ?items \<and> 2 \<le> length ?items" by (simp add: sample_request_def)
  then show ?thesis using run by (metis Inl_Inr_False)
qed

end
