(* ===== verification/Maintenance_Plan.thy ===== *)
theory Maintenance_Plan
  imports Maintenance Machines
begin

text \<open>
  The invariant of the maintenance tables under every sequence of operations, and the
  optimistic lock of an extension.
\<close>

subsection \<open>The invariant\<close>

definition m_ids :: "mdb \<Rightarrow> uuid list" where
  "m_ids s = map (m_gen s) [0..<m_drawn s]"

text \<open>Two windows of a series, in the order of the table: the first ends before the second
  starts, unless one of them is cancelled.\<close>

definition clear_of :: "maintenance_row \<Rightarrow> maintenance_row \<Rightarrow> bool" where
  "clear_of r q \<longleftrightarrow> mt_series_id r = None \<or> mt_series_id r \<noteq> mt_series_id q \<or> mt_cancelled_at r \<noteq> None \<or>
     mt_cancelled_at q \<noteq> None \<or> mt_ends_at r \<le> mt_starts_at q"

definition extensions_of :: "uuid \<Rightarrow> mdb \<Rightarrow> extension_row list" where
  "extensions_of i s = filter (\<lambda>e. ex_maintenance_id e = i) (m_extensions s)"

definition row_ok :: "mdb \<Rightarrow> maintenance_row \<Rightarrow> bool" where
  "row_ok s r \<longleftrightarrow> mt_id r \<in> set (m_ids s) \<and> pred_option (\<lambda>i. i \<in> set (m_ids s)) (mt_series_id r) \<and>
     mt_starts_at r < mt_ends_at r \<and> mt_ends_at r \<le> mt_starts_at r + 31 * day \<and>
     mt_extension_count r = int (length (extensions_of (mt_id r) s))"

definition plan_ok :: "mdb \<Rightarrow> bool" where
  "plan_ok s \<longleftrightarrow> list_all (row_ok s) (maintenances s) \<and> distinct (map mt_id (maintenances s)) \<and>
     sorted_wrt clear_of (maintenances s) \<and>
     list_all (\<lambda>e. ex_maintenance_id e \<in> mt_id ` set (maintenances s)) (m_extensions s)"

lemma m_ids_fresh: "inj (m_gen s) \<Longrightarrow> m_gen s (m_drawn s) \<notin> set (m_ids s)"
  by (auto simp: m_ids_def dest: injD)

lemma plan_okI:
  assumes "\<And>r. r \<in> set (maintenances s) \<Longrightarrow> row_ok s r" and "distinct (map mt_id (maintenances s))"
    and "sorted_wrt clear_of (maintenances s)"
    and "\<And>e. e \<in> set (m_extensions s) \<Longrightarrow> ex_maintenance_id e \<in> mt_id ` set (maintenances s)"
  shows "plan_ok s"
  using assms by (auto simp: plan_ok_def list_all_iff)

lemma plan_okD:
  assumes "plan_ok s"
  shows "r \<in> set (maintenances s) \<Longrightarrow> row_ok s r" and "distinct (map mt_id (maintenances s))"
    and "sorted_wrt clear_of (maintenances s)"
    and "e \<in> set (m_extensions s) \<Longrightarrow> ex_maintenance_id e \<in> mt_id ` set (maintenances s)"
  using assms by (auto simp: plan_ok_def list_all_iff)

subsection \<open>Creation\<close>

lemma insert_window_ok:
  assumes "plan_ok s" and "inj (m_gen s)" and "fst w < snd w" and "snd w \<le> fst w + 31 * day"
    and "pred_option (\<lambda>i. i \<in> set (m_ids s)) series"
    and "\<And>r. r \<in> set (maintenances s) \<Longrightarrow> series \<noteq> None \<Longrightarrow> mt_series_id r = series \<Longrightarrow> mt_ends_at r \<le> fst w"
  shows "plan_ok (insert_window actorID ci series w s)"
proof -
  have fresh: "m_gen s (m_drawn s) \<notin> mt_id ` set (maintenances s)"
    using m_ids_fresh [OF assms(2)] plan_okD(1) [OF assms(1)] by (auto simp: row_ok_def)
  then have none: "extensions_of (m_gen s (m_drawn s)) s = []"
    using plan_okD(4) [OF assms(1)] by (force simp: extensions_of_def filter_empty_conv)
  show ?thesis
  proof (rule plan_okI)
    fix r assume "r \<in> set (maintenances (insert_window actorID ci series w s))"
    then show "row_ok (insert_window actorID ci series w s) r"
      using plan_okD(1) [OF assms(1), of r] assms(3-5) none
      by (auto simp: insert_window_def row_ok_def m_ids_def extensions_of_def option.pred_set split: option.splits)
  next
    show "sorted_wrt clear_of (maintenances (insert_window actorID ci series w s))"
      using plan_okD(3) [OF assms(1)] assms(6) by (auto simp: insert_window_def sorted_wrt_append clear_of_def)
  qed (use plan_okD(2,4) [OF assms(1)] fresh in \<open>auto simp: insert_window_def\<close>)
qed

lemma plan_ok_links [simp]: "plan_ok (s\<lparr>m_links := l\<rparr>) = plan_ok s"
  by (simp add: plan_ok_def row_ok_def [abs_def] m_ids_def extensions_of_def)

lemma create_windows_ok:
  assumes "create_windows actorID ci series ws s = Inr s'" and "plan_ok s" and "inj (m_gen s)" and "apart ws"
    and "\<And>w. w \<in> set ws \<Longrightarrow> fst w < snd w \<and> snd w \<le> fst w + 31 * day"
    and "pred_option (\<lambda>i. i \<in> set (m_ids s)) series"
    and "\<And>r w. r \<in> set (maintenances s) \<Longrightarrow> w \<in> set ws \<Longrightarrow> series \<noteq> None \<Longrightarrow> mt_series_id r = series \<Longrightarrow> mt_ends_at r \<le> fst w"
    and "series = None \<Longrightarrow> length ws \<le> 1"
  shows "plan_ok s' \<and> m_gen s' = m_gen s"
  using assms
proof (induction ws arbitrary: s)
  case (Cons w ws)
  define s1 where "s1 = insert_window actorID ci series w s"
  define s2 where "s2 = s1\<lparr>m_links := m_links s1 @ map (Pair (m_gen s (m_drawn s))) (attach_targets (m_gen s (m_drawn s)) (ci_TargetIDs ci) s1)\<rparr>"
  have run: "create_windows actorID ci series ws s2 = Inr s'"
    using Cons.prems(1) by (auto simp: s2_def s1_def Let_def split: if_splits)
  have "plan_ok s1" unfolding s1_def by (rule insert_window_ok) (use Cons.prems in auto)
  then have "plan_ok s2" by (simp add: s2_def)
  moreover have "m_gen s2 = m_gen s" and ids: "set (m_ids s) \<subseteq> set (m_ids s2)"
    and rows: "set (maintenances s2) = insert (List.last (maintenances s2)) (set (maintenances s))"
    and new: "mt_ends_at (List.last (maintenances s2)) = snd w"
    by (auto simp: s2_def s1_def insert_window_def m_ids_def)
  moreover have "pred_option (\<lambda>i. i \<in> set (m_ids s2)) series" using Cons.prems(6) ids by (cases series) auto
  ultimately show ?case using Cons.IH [OF run] Cons.prems(3-8) by fastforce
qed simp

lemma insert_series_ok:
  assumes "plan_ok s"
  shows "plan_ok (snd (insert_series rule s))"
proof (rule plan_okI)
  fix r assume "r \<in> set (maintenances (snd (insert_series rule s)))"
  then show "row_ok (snd (insert_series rule s)) r"
    using plan_okD(1) [OF assms, of r]
    by (auto simp: insert_series_def row_ok_def m_ids_def extensions_of_def option.pred_set split: option.splits)
qed (use plan_okD(2-4) [OF assms] in \<open>auto simp: insert_series_def\<close>)

lemma Service_Create_window:
  assumes "Service_Create LoadLocation now input = Inr ci"
  shows "ci_StartsAt ci < ci_EndsAt ci \<and> ci_EndsAt ci \<le> ci_StartsAt ci + 31 * day \<and> now \<le> ci_EndsAt ci"
  using assms time_Sub_le_iff [of "31 * 24 * hour" "ci_EndsAt ci" "ci_StartsAt ci"]
  by (auto simp: Service_Create_def Let_def split: if_splits)

lemma occurrences_ok:
  assumes "occurrences LoadLocation ci = Inr items" and "\<forall>n z. LoadLocation n = Some z \<longrightarrow> (\<forall>t. \<bar>z t\<bar> \<le> 86400)"
    and "day < ci_StartsAt ci" and "ci_StartsAt ci < ci_EndsAt ci" and "ci_EndsAt ci \<le> ci_StartsAt ci + 31 * day"
  shows "apart items \<and> (\<forall>w \<in> set items. fst w < snd w \<and> snd w \<le> fst w + 31 * day) \<and>
    (ci_Recurrence ci = None \<longrightarrow> length items \<le> 1)"
proof (cases "ci_Recurrence ci")
  case None
  then show ?thesis using assms by (auto simp: occurrences_def)
next
  case (Some rule)
  then obtain z where z: "LoadLocation (rc_Timezone rule) = Some z"
    using assms(1) by (auto simp: occurrences_def split: if_splits option.splits)
  have "apart items" and len: "\<forall>(starts, ends) \<in> set items. ends - starts = ci_EndsAt ci - ci_StartsAt ci"
    using series_windows [OF assms(1) Some z _ assms(3)] assms(2) z by auto
  moreover have "fst w < snd w \<and> snd w \<le> fst w + 31 * day" if "w \<in> set items" for w
    using len that assms(4,5) by fastforce
  ultimately show ?thesis using Some by simp
qed

lemma Store_Create_ok:
  assumes "plan_ok s" and "inj (m_gen s)" and "Service_Create LoadLocation now input = Inr ci"
    and "\<forall>n z. LoadLocation n = Some z \<longrightarrow> (\<forall>t. \<bar>z t\<bar> \<le> 86400)" and "32 * day < now"
  shows "plan_ok (snd (Store_Create LoadLocation actorID ci s)) \<and> m_gen (snd (Store_Create LoadLocation actorID ci s)) = m_gen s"
proof -
  note window = Service_Create_window [OF assms(3)]
  obtain series s1 where opened: "(case ci_Recurrence ci of None \<Rightarrow> (None, s)
      | Some rule \<Rightarrow> (let (i, s1) = insert_series rule s in (Some i, s1))) = (series, s1)" by fastforce
  have s1: "plan_ok s1" "m_gen s1 = m_gen s" "maintenances s1 = maintenances s"
    "pred_option (\<lambda>i. i \<in> set (m_ids s1)) series" "series = None \<longleftrightarrow> ci_Recurrence ci = None"
    and new: "series \<noteq> None \<Longrightarrow> series = Some (m_gen s (m_drawn s))"
    using opened assms(1) insert_series_ok [OF assms(1)]
    by (auto simp: insert_series_def m_ids_def split: option.splits)
  have other: "mt_series_id r \<noteq> series" if "r \<in> set (maintenances s1)" "series \<noteq> None" for r
    using that new m_ids_fresh [OF assms(2)] plan_okD(1) [OF assms(1), of r] s1(3)
    by (cases "mt_series_id r") (auto simp: row_ok_def)
  show ?thesis
  proof (cases "occurrences LoadLocation ci")
    case (Inr items)
    note items = occurrences_ok [OF Inr assms(4)]
    show ?thesis
    proof (cases "create_windows actorID ci series items s1")
      case (Inr s')
      have "plan_ok s' \<and> m_gen s' = m_gen s1"
        by (rule create_windows_ok [OF Inr s1(1)]) (use items window assms(2,5) s1 other in \<open>auto\<close>)
      then show ?thesis using \<open>occurrences LoadLocation ci = Inr items\<close> Inr opened s1(2) by (simp add: Store_Create_def)
    qed (use Inr opened assms(1) in \<open>simp add: Store_Create_def\<close>)
  qed (use assms(1) in \<open>simp add: Store_Create_def\<close>)
qed

subsection \<open>Cancellation and extension\<close>

lemma cancel_where_ok:
  assumes "plan_ok s"
  shows "plan_ok (cancel_where P actorID s)"
proof (rule plan_okI)
  fix r assume "r \<in> set (maintenances (cancel_where P actorID s))"
  then show "row_ok (cancel_where P actorID s) r"
    using plan_okD(1) [OF assms] by (auto simp: cancel_where_def row_ok_def m_ids_def extensions_of_def elim!: update_whereE)
next
  show "sorted_wrt clear_of (maintenances (cancel_where P actorID s))"
    using sorted_wrt_update_where [OF plan_okD(3) [OF assms]] by (simp add: cancel_where_def clear_of_def)
qed (use plan_okD(2,4) [OF assms] in \<open>simp_all add: cancel_where_def map_update_where image_update_where\<close>)

lemma extendable_unique:
  assumes "plan_ok s" and "extendable i expected s r" and "r \<in> set (maintenances s)"
  shows "filter (extendable i expected s) (maintenances s) = [r]"
proof -
  have "extendable i expected s q \<longleftrightarrow> q = r" if "q \<in> set (maintenances s)" for q
    using that assms(2,3) plan_okD(2) [OF assms(1)] by (auto simp: extendable_def distinct_map inj_on_def)
  then have "filter (extendable i expected s) (maintenances s) = filter (\<lambda>q. q = r) (maintenances s)"
    by (intro filter_cong) auto
  moreover have "distinct (maintenances s)" using plan_okD(2) [OF assms(1)] by (simp add: distinct_map)
  ultimately show ?thesis using assms(3) by (simp add: filter_the_row)
qed

lemma Store_Extend_ok:
  assumes "plan_ok s"
  shows "plan_ok (snd (Store_Extend i actorID expected s))"
proof (cases "filter (extendable i expected s) (maintenances s) = []")
  case False
  then obtain r where r: "r \<in> set (maintenances s)" "extendable i expected s r" by (auto simp: filter_empty_conv)
  define s' where "s' = snd (Store_Extend i actorID expected s)"
  define f where "f = (\<lambda>r :: maintenance_row. r\<lparr>mt_ends_at := mt_ends_at r + 30 * minute, mt_extension_count := mt_extension_count r + 1\<rparr>)"
  have s': "maintenances s' = update_where (extendable i expected s) f (maintenances s)" "m_ids s' = m_ids s"
    "m_extensions s' = m_extensions s @ [\<lparr>ex_maintenance_id = i, ex_actor_id = actorID,
       ex_previous_ends_at = mt_ends_at r, ex_ends_at = mt_ends_at r + 30 * minute\<rparr>]"
    using False extendable_unique [OF assms r(2,1)] r(2)
    by (simp_all add: s'_def Store_Extend_def Let_def f_def m_ids_def extendable_def [of i expected s r])
  have same: "mt_id q = i \<longleftrightarrow> q = r" if "q \<in> set (maintenances s)" for q
    using that r plan_okD(2) [OF assms] by (auto simp: extendable_def distinct_map inj_on_def)
  have "plan_ok s'"
  proof (rule plan_okI)
    fix q assume "q \<in> set (maintenances s')"
    then obtain q0 where q0: "q0 \<in> set (maintenances s)" "q = (if extendable i expected s q0 then f q0 else q0)"
      by (auto simp: s' set_update_where)
    have ext: "extendable i expected s q0 \<longleftrightarrow> q0 = r" using same [OF q0(1)] r(2) by (auto simp: extendable_def)
    have count: "extensions_of (mt_id q0) s' = extensions_of (mt_id q0) s @
        (if q0 = r then drop (length (m_extensions s)) (m_extensions s') else [])"
      using same [OF q0(1)] same [OF r(1)] by (auto simp: extensions_of_def s')
    have fits: "mt_ends_at r + 30 * minute \<le> mt_starts_at r + 31 * day" using r(2) by (simp add: extendable_def)
    show "row_ok s' q"
    proof (cases "q0 = r")
      case True
      then have "q = f q0" using q0(2) ext by simp
      then show ?thesis using plan_okD(1) [OF assms q0(1)] count fits True by (simp add: row_ok_def s' f_def)
    next
      case False
      then have "q = q0" using q0(2) ext by simp
      then show ?thesis using plan_okD(1) [OF assms q0(1)] count False by (simp add: row_ok_def s')
    qed
  next
    have "clear_of (if extendable i expected s a then f a else a) (if extendable i expected s b then f b else b)"
      if "a \<in> set (maintenances s)" "b \<in> set (maintenances s)" "clear_of a b" for a b
      using that plan_okD(1) [OF assms that(1)] by (auto simp: clear_of_def f_def extendable_def row_ok_def)
    then show "sorted_wrt clear_of (maintenances s')" unfolding s' by (rule sorted_wrt_update_where [OF plan_okD(3) [OF assms]])
  next
    show "distinct (map mt_id (maintenances s'))" using plan_okD(2) [OF assms] by (simp add: s' map_update_where f_def)
  next
    fix e assume "e \<in> set (m_extensions s')"
    moreover have "i \<in> mt_id ` set (maintenances s)" using r(1) same [OF r(1)] by blast
    moreover have "mt_id ` set (maintenances s') = mt_id ` set (maintenances s)"
      by (simp add: s' image_update_where f_def)
    ultimately show "ex_maintenance_id e \<in> mt_id ` set (maintenances s')"
      using plan_okD(4) [OF assms, of e] by (auto simp: s')
  qed
  then show ?thesis by (simp add: s'_def)
qed (use assms in \<open>simp add: Store_Extend_def\<close>)

subsection \<open>Sequences of requests\<close>

text \<open>The requests of \<open>Service\<close> on the store; \<open>Clock\<close> is the passing of time. The zone rules are
  part of a request because the code reads them at each call.\<close>

datatype maintenance_op =
    MCreate "string \<Rightarrow> zone option" instant uuid CreateInput
  | MCancel uuid uuid
  | MCancelSeries uuid uuid
  | MExtend uuid uuid instant
  | MClock instant

fun maintenance_step :: "maintenance_op \<Rightarrow> mdb \<Rightarrow> mdb" where
  "maintenance_step (MCreate LoadLocation now actorID input) s =
     (case Service_Create LoadLocation now input of
        Inl _ \<Rightarrow> s | Inr checked \<Rightarrow> snd (Store_Create LoadLocation actorID checked s))"
| "maintenance_step (MCancel i actorID) s = snd (Cancel i actorID s)"
| "maintenance_step (MCancelSeries i actorID) s = snd (CancelSeries i actorID s)"
| "maintenance_step (MExtend i actorID expected) s = snd (Service_Extend i actorID expected s)"
| "maintenance_step (MClock now) s = s\<lparr>m_clock := now\<rparr>"

text \<open>The clock of a creation is past the first month of year 1, and no zone is more than a
  day away from UTC.\<close>

fun maintenance_request :: "maintenance_op \<Rightarrow> bool" where
  "maintenance_request (MCreate LoadLocation now _ _) \<longleftrightarrow>
     32 * day < now \<and> (\<forall>n z. LoadLocation n = Some z \<longrightarrow> (\<forall>t. \<bar>z t\<bar> \<le> 86400))"
| "maintenance_request _ \<longleftrightarrow> True"

lemma plan_ok_clock [simp]: "plan_ok (s\<lparr>m_clock := t\<rparr>) = plan_ok s"
  by (simp add: plan_ok_def row_ok_def [abs_def] m_ids_def extensions_of_def)

lemma m_gen_kept [simp]:
  "m_gen (cancel_where P actorID s) = m_gen s" "m_gen (snd (Store_Extend i actorID expected s)) = m_gen s"
  by (simp_all add: cancel_where_def Store_Extend_def Let_def)

interpretation plan: machine maintenance_step maintenance_request "\<lambda>s. plan_ok s \<and> inj (m_gen s)"
proof
  fix op s assume "maintenance_request op" and "plan_ok s \<and> inj (m_gen s)"
  then show "plan_ok (maintenance_step op s) \<and> inj (m_gen (maintenance_step op s))"
  proof (cases op)
    case (MCreate LoadLocation now actorID input)
    then show ?thesis
      using \<open>maintenance_request op\<close> \<open>plan_ok s \<and> inj (m_gen s)\<close> Store_Create_ok [of s LoadLocation now input _ actorID]
      by (cases "Service_Create LoadLocation now input") auto
  qed (auto simp: Cancel_def CancelSeries_def Service_Extend_def cancel_where_ok Store_Extend_ok split: option.splits)
qed

text \<open>C15. After any sequence of requests on empty tables, every window lasts at most 31 days and
  ends after it starts, no two windows of a series that are not cancelled overlap, and the
  journal holds as many extensions of a window as its counter says.\<close>

theorem maintenance_plan:
  assumes "list_all maintenance_request ops" and "inj (m_gen s)"
    and "maintenances s = []" and "m_extensions s = []"
  shows "plan_ok (fold maintenance_step ops s)"
proof -
  have "plan_ok s" using assms(3,4) by (simp add: plan_ok_def)
  then show ?thesis using plan.run_inv [OF assms(1)] assms(2) by blast
qed

definition tally :: "nat \<Rightarrow> uuid" where
  "tally n = replicate n (CHR ''i'')"

abbreviation backup_host :: uuid where "backup_host \<equiv> ''5f0c1a70-0000-4000-8000-000000000007''"

definition empty_plan :: mdb where
  "empty_plan = \<lparr>m_gen = tally, m_drawn = 0, m_clock = 735000 * day, m_target_ids = [backup_host],
     maintenances = [], m_links = [], m_series = [], m_extensions = []\<rparr>"

definition sample_ops :: "maintenance_op list" where
  "sample_ops = [MCreate (\<lambda>_. Some (\<lambda>_. 3600)) (735000 * day) ''operator'' (sample_request\<lparr>ci_TargetIDs := [backup_host]\<rparr>),
     MClock (735000 * day + hour), MExtend (tally 1) ''operator'' (735000 * day + 2 * hour),
     MCancel (tally 2) ''operator'']"

definition plan_sample :: "mdb \<Rightarrow> bool" where
  "plan_sample s \<longleftrightarrow> length (maintenances s) = 6 \<and> length (m_extensions s) = 1 \<and> mt_cancelled_at (maintenances s ! 1) \<noteq> None"

theorem maintenance_plan_witness:
  "plan_sample (fold maintenance_step sample_ops empty_plan) \<and> plan_ok (fold maintenance_step sample_ops empty_plan)"
proof
  show "plan_sample (fold maintenance_step sample_ops empty_plan)" by code_simp
  show "plan_ok (fold maintenance_step sample_ops empty_plan)"
    by (rule maintenance_plan) (auto simp: sample_ops_def empty_plan_def tally_def inj_def replicate_eq_replicate)
qed

text \<open>An extension is compared with the end the operator saw: when it succeeds, the window
  ends thirty minutes later and one extension is journalled; the same request repeated, by
  anyone and at any later time, is a conflict that changes nothing.\<close>

theorem extend_once:
  assumes "plan_ok s" and "Service_Extend i actorID expected s = (Inr (), s')"
  shows "(\<exists>r. find (\<lambda>r. mt_id r = i) (maintenances s) = Some r \<and> mt_ends_at r = expected \<and>
      find (\<lambda>r. mt_id r = i) (maintenances s') =
        Some (r\<lparr>mt_ends_at := expected + 30 * minute, mt_extension_count := mt_extension_count r + 1\<rparr>)) \<and>
    length (m_extensions s') = Suc (length (m_extensions s)) \<and>
    Service_Extend i other expected (s'\<lparr>m_clock := later\<rparr>) = (Inl MConflict, s'\<lparr>m_clock := later\<rparr>)"
proof -
  let ?f = "\<lambda>r :: maintenance_row. r\<lparr>mt_ends_at := mt_ends_at r + 30 * minute, mt_extension_count := mt_extension_count r + 1\<rparr>"
  from assms(2) obtain r where r: "r \<in> set (maintenances s)" "extendable i expected s r"
    by (auto simp: Service_Extend_def Store_Extend_def Let_def filter_empty_conv split: if_splits)
  then have row: "mt_id r = i" "mt_ends_at r = expected" by (simp_all add: extendable_def)
  have found: "find (\<lambda>r. mt_id r = i) (maintenances s) = Some r"
    using find_distinct_key [OF plan_okD(2) [OF assms(1)] r(1)] row by simp
  have s': "maintenances s' = update_where (extendable i expected s) ?f (maintenances s)"
    "length (m_extensions s') = Suc (length (m_extensions s))"
    using assms(2) extendable_unique [OF assms(1) r(2,1)]
    by (auto simp: Service_Extend_def Store_Extend_def Let_def split: if_splits)
  have new: "find (\<lambda>r. mt_id r = i) (maintenances s') = Some (?f r)"
    unfolding s'(1) using found r(2) by (subst find_update_where) simp_all
  have "\<not> extendable i expected (s'\<lparr>m_clock := later\<rparr>) q" if "q \<in> set (maintenances s')" for q
  proof
    assume ext: "extendable i expected (s'\<lparr>m_clock := later\<rparr>) q"
    have "distinct (map mt_id (maintenances s'))"
      using plan_okD(2) [OF assms(1)] by (simp add: s' map_update_where)
    then have "find (\<lambda>r. mt_id r = i) (maintenances s') = Some q"
      using find_distinct_key [of mt_id "maintenances s'" q] that ext by (simp add: extendable_def)
    then show False using new row ext by (auto simp: extendable_def)
  qed
  moreover have "\<exists>q \<in> set (maintenances s'). mt_id q = i" using find_SomeD [OF new] by blast
  moreover have "expected \<noteq> 0" using assms(2) by (auto simp: Service_Extend_def)
  ultimately have "Service_Extend i other expected (s'\<lparr>m_clock := later\<rparr>) = (Inl MConflict, s'\<lparr>m_clock := later\<rparr>)"
    by (simp add: Service_Extend_def Store_Extend_def filter_empty_conv)
  then show ?thesis using found new row s'(2) by simp
qed

definition running_plan :: mdb where
  "running_plan = fold maintenance_step (take 2 sample_ops) empty_plan"

definition extends_running :: "mdb \<Rightarrow> bool" where
  "extends_running s \<longleftrightarrow> fst (Service_Extend (tally 1) ''operator'' (735000 * day + 2 * hour) s) = Inr ()"

theorem extend_once_witness:
  "let s' = snd (Service_Extend (tally 1) ''operator'' (735000 * day + 2 * hour) running_plan)
   in fst (Service_Extend (tally 1) ''other'' (735000 * day + 2 * hour) (s'\<lparr>m_clock := 735000 * day + 2 * hour\<rparr>)) = Inl MConflict"
proof -
  define s' where "s' = snd (Service_Extend (tally 1) ''operator'' (735000 * day + 2 * hour) running_plan)"
  have "plan_ok empty_plan \<and> inj (m_gen empty_plan)"
    by (auto simp: empty_plan_def plan_ok_def tally_def inj_def replicate_eq_replicate)
  then have "plan_ok running_plan"
    using plan.run_inv [of "take 2 sample_ops" empty_plan] by (simp add: running_plan_def sample_ops_def)
  moreover have "extends_running running_plan" by code_simp
  then have "Service_Extend (tally 1) ''operator'' (735000 * day + 2 * hour) running_plan = (Inr (), s')"
    by (simp add: extends_running_def s'_def prod_eq_iff)
  ultimately show ?thesis
    using extend_once [where later = "735000 * day + 2 * hour" and other = "''other''"] by (simp add: s'_def Let_def)
qed

end
