(* ===== verification/Realtime.thy ===== *)
theory Realtime
  imports Go_Strconv Machines "HOL-Library.Sublist"
begin

text \<open>
  The event stream (\<^verbatim>\<open>internal/realtime\<close>): the table of events, and the hub that reads it once
  for the process and hands each event to the subscribed connections. Operations that hold the
  mutex of the hub are single steps; a pass of the loop of \<open>catchUp\<close> is one step, so that
  everything else may happen between two passes. The table lists the events in the order in which
  their transactions commit, which need not be the order of their versions: a version is drawn
  when the event is inserted.
\<close>

subsection \<open>The table (\<^verbatim>\<open>realtime.go\<close>)\<close>

record Event =
  e_Version :: int
  e_Kind :: string
  e_EntityType :: string
  e_EntityID :: string
  e_OccurredAt :: instant

definition LatestVersion :: "Event list \<Rightarrow> int" where
  "LatestVersion table = (if table = [] then 0 else Max (set (map e_Version table)))"

definition OldestVersion :: "Event list \<Rightarrow> int" where
  "OldestVersion table = (if table = [] then 0 else Min (set (map e_Version table)))"

definition ListAfter :: "Event list \<Rightarrow> int \<Rightarrow> nat \<Rightarrow> Event list" where
  "ListAfter table version limit = take limit (sort_key e_Version (filter (\<lambda>e. version < e_Version e) table))"

subsection \<open>The hub (\<^verbatim>\<open>hub.go\<close>)\<close>

datatype hub_error = ErrUnavailable | ErrLagging | ErrClosed

record HubOptions =
  BatchSize :: int
  BufferSize :: int
  FallbackInterval :: duration
  RetryDelay :: duration
  MaxRetryDelay :: duration

text \<open>A subscription is known by its place in the list of all that were ever made. Its channel
  is its buffer and whether it is closed.\<close>

record Subscription =
  sb_version :: int
  sb_events :: "Event list"
  sb_closed :: bool
  sb_err :: "hub_error option"

record Hub =
  hb_options :: HubOptions
  hb_wake :: bool
  hb_version :: int
  hb_ready :: bool
  hb_closed :: bool
  hb_subscriptions :: "Subscription list"
  hb_subscribers :: "nat list"

definition hub_options :: "HubOptions \<Rightarrow> HubOptions" where
  "hub_options o1 =
     (let o2 = (if BatchSize o1 \<le> 0 then o1\<lparr>BatchSize := 250\<rparr> else o1);
          o3 = (if BufferSize o2 \<le> 0 then o2\<lparr>BufferSize := 512\<rparr> else o2);
          o4 = (if FallbackInterval o3 \<le> 0 then o3\<lparr>FallbackInterval := 5 * second\<rparr> else o3);
          o5 = (if RetryDelay o4 \<le> 0 then o4\<lparr>RetryDelay := second\<rparr> else o4)
      in if MaxRetryDelay o5 < RetryDelay o5 then o5\<lparr>MaxRetryDelay := max (30 * second) (RetryDelay o5)\<rparr> else o5)"

definition NewHub :: "HubOptions \<Rightarrow> Hub" where
  "NewHub opts = \<lparr>hb_options = hub_options opts, hb_wake = False, hb_version = 0, hb_ready = False,
     hb_closed = False, hb_subscriptions = [], hb_subscribers = []\<rparr>"

text \<open>A successful read of the cursor ends \<open>initialize\<close>; a failed one is retried.\<close>

definition initialize :: "Event list \<Rightarrow> Hub \<Rightarrow> Hub" where
  "initialize table h = h\<lparr>hb_version := LatestVersion table, hb_ready := True\<rparr>"

text \<open>The delay before the next attempt.\<close>

definition next_delay :: "HubOptions \<Rightarrow> duration \<Rightarrow> duration" where
  "next_delay opts delay = min (wrap64 (delay * 2)) (MaxRetryDelay opts)"

definition Subscribe :: "Hub \<Rightarrow> (hub_error + nat) \<times> Hub" where
  "Subscribe h =
     (if hb_closed h then (Inl ErrClosed, h)
      else if \<not> hb_ready h then (Inl ErrUnavailable, h)
      else let i = length (hb_subscriptions h)
           in (Inr i, h\<lparr>hb_subscriptions := hb_subscriptions h @
                [\<lparr>sb_version = hb_version h, sb_events = [], sb_closed = False, sb_err = None\<rparr>],
                hb_subscribers := hb_subscribers h @ [i]\<rparr>))"

definition update_subscription :: "nat \<Rightarrow> (Subscription \<Rightarrow> Subscription) \<Rightarrow> Hub \<Rightarrow> Hub" where
  "update_subscription i f h = h\<lparr>hb_subscriptions := (hb_subscriptions h)[i := f (hb_subscriptions h ! i)]\<rparr>"

definition endLocked :: "nat \<Rightarrow> hub_error \<Rightarrow> Hub \<Rightarrow> Hub" where
  "endLocked i err h =
     (if i \<notin> set (hb_subscribers h) then h
      else update_subscription i (\<lambda>sb. sb\<lparr>sb_err := Some err, sb_closed := True\<rparr>)
             (h\<lparr>hb_subscribers := removeAll i (hb_subscribers h)\<rparr>))"

text \<open>The loop labelled \<open>delivery\<close>: a full buffer ends the subscription.\<close>

fun delivery :: "nat \<Rightarrow> Event list \<Rightarrow> Hub \<Rightarrow> Hub" where
  "delivery i [] h = h"
| "delivery i (e # es) h =
     (if int (length (sb_events (hb_subscriptions h ! i))) < BufferSize (hb_options h)
      then delivery i es (update_subscription i (\<lambda>sb. sb\<lparr>sb_events := sb_events sb @ [e]\<rparr>) h)
      else endLocked i ErrLagging h)"

definition broadcast :: "Event list \<Rightarrow> Hub \<Rightarrow> Hub" where
  "broadcast es h = (fold (\<lambda>i. delivery i es) (hb_subscribers h) h)\<lparr>hb_version := e_Version (List.last es)\<rparr>"

definition read_batch :: "Event list \<Rightarrow> Hub \<Rightarrow> Event list" where
  "read_batch table h = ListAfter table (hb_version h) (nat (BatchSize (hb_options h)))"

text \<open>One pass of the loop of \<open>catchUp\<close> whose read succeeds.\<close>

definition catchUp_pass :: "Event list \<Rightarrow> Hub \<Rightarrow> Hub" where
  "catchUp_pass table h = (let es = read_batch table h in if es \<noteq> [] then broadcast es h else h)"

definition shutdown :: "Hub \<Rightarrow> Hub" where
  "shutdown h = fold (\<lambda>i. endLocked i ErrClosed) (hb_subscribers h) (h\<lparr>hb_closed := True\<rparr>)"

definition signal :: "Hub \<Rightarrow> Hub" where
  "signal h = h\<lparr>hb_wake := True\<rparr>"

definition notified :: "string \<Rightarrow> Hub \<Rightarrow> Hub" where
  "notified payload h =
     (case ParseInt payload of
        Some version \<Rightarrow> if version \<le> hb_version h then h else signal h
      | None \<Rightarrow> signal h)"

definition Subscription_Close :: "nat \<Rightarrow> Hub \<Rightarrow> Hub" where
  "Subscription_Close i h =
     (if i \<notin> set (hb_subscribers h) then h
      else update_subscription i (\<lambda>sb. sb\<lparr>sb_closed := True\<rparr>)
             (h\<lparr>hb_subscribers := removeAll i (hb_subscribers h)\<rparr>))"

lemma hb_version_endLocked [simp]: "hb_version (endLocked i err h) = hb_version h" "hb_options (endLocked i err h) = hb_options h"
  by (simp_all add: endLocked_def update_subscription_def)

lemma hb_options_delivery [simp]: "hb_options (delivery i es h) = hb_options h"
  by (induction es arbitrary: h) (simp_all add: update_subscription_def)

lemma hb_options_deliveries [simp]: "hb_options (fold (\<lambda>i. delivery i es) js h) = hb_options h"
  by (induction js arbitrary: h) simp_all

lemma hb_broadcast [simp]: "hb_version (broadcast es h) = e_Version (List.last es)" "hb_options (broadcast es h) = hb_options h"
  by (simp_all add: broadcast_def)

lemma read_batch_later: "e \<in> set (read_batch table h) \<Longrightarrow> e \<in> set table \<and> hb_version h < e_Version e"
  by (auto simp: read_batch_def ListAfter_def dest!: in_set_takeD)

text \<open>\<open>NewHub\<close> makes the batch size positive, so that an empty batch is a short one and the
  loop ends.\<close>

function catchUp :: "Event list \<Rightarrow> Hub \<Rightarrow> Hub" where
  "catchUp table h =
     (let es = read_batch table h
      in if es = [] then h
         else if int (length es) < BatchSize (hb_options h) then broadcast es h
         else catchUp table (broadcast es h))"
  by pat_completeness auto

termination catchUp
proof (relation "measure (\<lambda>(table, h). length (filter (\<lambda>e. hb_version h < e_Version e) table))")
  fix table h and es :: "Event list"
  assume es: "es = read_batch table h" "es \<noteq> []"
  then have l: "List.last es \<in> set table" "hb_version h < e_Version (List.last es)" using read_batch_later by (metis last_in_set)+
  have "length (filter (\<lambda>e. e_Version (List.last es) < e_Version e) table) < length (filter (\<lambda>e. hb_version h < e_Version e) table)"
  proof -
    have "filter (\<lambda>e. e_Version (List.last es) < e_Version e) table =
        filter (\<lambda>e. e_Version (List.last es) < e_Version e) (filter (\<lambda>e. hb_version h < e_Version e) table)"
      using l(2) by (auto intro!: filter_cong)
    also have "length \<dots> < length (filter (\<lambda>e. hb_version h < e_Version e) table)"
      by (rule length_filter_less [of "List.last es"]) (use l in auto)
    finally show ?thesis .
  qed
  then show "((table, broadcast es h), (table, h)) \<in> measure (\<lambda>(table, h). length (filter (\<lambda>e. hb_version h < e_Version e) table))"
    by simp
qed simp

declare catchUp.simps [simp del]

subsection \<open>Events between two versions\<close>

definition ordered :: "Event list \<Rightarrow> bool" where
  "ordered table \<longleftrightarrow> sorted_wrt (<) (0 # map e_Version table)"

definition between :: "int \<Rightarrow> int \<Rightarrow> Event list \<Rightarrow> Event list" where
  "between a b table = filter (\<lambda>e. a < e_Version e \<and> e_Version e \<le> b) table"

lemma ordered_sort: "ordered table \<Longrightarrow> sort_key e_Version (filter P table) = filter P table"
  by (intro sort_key_id_if_sorted)
    (auto simp: ordered_def sorted_wrt_map intro!: sorted_wrt_filter elim: sorted_wrt_mono_rel [rotated])

lemma between_append:
  assumes "sorted_wrt (<) (map e_Version table)" and "a \<le> b" and "b \<le> c"
  shows "between a c table = between a b table @ between b c table"
  using assms
proof (induction table)
  case (Cons e table)
  show ?case
  proof (cases "b < e_Version e")
    case True
    then have "between a b table = []" using Cons.prems by (auto simp: between_def filter_empty_conv)
    then show ?thesis using Cons True by (auto simp: between_def)
  next
    case False
    then show ?thesis using Cons by (auto simp: between_def)
  qed
qed (simp add: between_def)

lemma sorted_last_ge: "sorted (map f xs) \<Longrightarrow> x \<in> set xs \<Longrightarrow> f x \<le> f (List.last xs)"
  by (induction xs) auto

lemma read_batch_between:
  assumes "ordered table" and "read_batch table h \<noteq> []"
  shows "between (hb_version h) (e_Version (List.last (read_batch table h))) table = read_batch table h"
proof -
  let ?F = "filter (\<lambda>e. hb_version h < e_Version e) table" and ?n = "nat (BatchSize (hb_options h))"
  have es: "read_batch table h = take ?n ?F" using assms(1) by (simp add: read_batch_def ListAfter_def ordered_sort)
  have sorted: "sorted_wrt (\<lambda>e f. e_Version e < e_Version f) (take ?n ?F @ drop ?n ?F)"
    using assms(1) by (simp add: ordered_def sorted_wrt_map sorted_wrt_filter)
  define l where "l = List.last (take ?n ?F)"
  have ne: "take ?n ?F \<noteq> []" using assms(2) es by simp
  have "sorted_wrt (\<lambda>e f. e_Version e < e_Version f) (take ?n ?F)" using sorted by (simp only: sorted_wrt_append)
  then have "sorted (map e_Version (take ?n ?F))" unfolding sorted_wrt_map by (rule sorted_wrt_mono_rel [rotated]) simp
  then have "e_Version e \<le> e_Version l" if "e \<in> set (take ?n ?F)" for e
    using that unfolding l_def by (rule sorted_last_ge)
  moreover have "e_Version l < e_Version e" if "e \<in> set (drop ?n ?F)" for e
    using sorted that ne last_in_set [of "take ?n ?F"] by (simp add: l_def sorted_wrt_append del: append_take_drop_id)
  ultimately have "filter (\<lambda>e. e_Version e \<le> e_Version l) (take ?n ?F @ drop ?n ?F) = take ?n ?F"
    unfolding filter_append by (subst filter_True, simp, subst filter_False, auto simp: not_le)
  then have "filter (\<lambda>e. e_Version e \<le> e_Version l) ?F = take ?n ?F" by simp
  then show ?thesis by (simp add: es l_def between_def conj_commute)
qed

subsection \<open>What a broadcast does to each subscription\<close>

definition sub :: "Hub \<Rightarrow> nat \<Rightarrow> Subscription" where
  "sub h i = hb_subscriptions h ! i"

text \<open>The fields a broadcast does not write.\<close>

definition same_frame :: "Hub \<Rightarrow> Hub \<Rightarrow> bool" where
  "same_frame h h' \<longleftrightarrow> hb_options h' = hb_options h \<and> hb_version h' = hb_version h \<and> hb_ready h' = hb_ready h \<and>
     hb_closed h' = hb_closed h \<and> length (hb_subscriptions h') = length (hb_subscriptions h) \<and>
     set (hb_subscribers h') \<subseteq> set (hb_subscribers h)"

definition handed :: "Event list \<Rightarrow> Hub \<Rightarrow> Hub \<Rightarrow> nat \<Rightarrow> bool" where
  "handed es h h' i \<longleftrightarrow> sb_version (sub h' i) = sb_version (sub h i) \<and>
     (\<exists>es'. prefix es' es \<and> sb_events (sub h' i) = sb_events (sub h i) @ es' \<and>
        (i \<in> set (hb_subscribers h') \<longrightarrow> es' = es \<and> sb_closed (sub h' i) = sb_closed (sub h i))) \<and>
     int (length (sb_events (sub h' i))) \<le> max (int (length (sb_events (sub h i)))) (BufferSize (hb_options h))"

definition untouched :: "Hub \<Rightarrow> Hub \<Rightarrow> nat \<Rightarrow> bool" where
  "untouched h h' i \<longleftrightarrow> sub h' i = sub h i \<and> (i \<in> set (hb_subscribers h') \<longleftrightarrow> i \<in> set (hb_subscribers h))"

lemma delivery_effect:
  assumes "i \<in> set (hb_subscribers h)" and "i < length (hb_subscriptions h)"
  shows "same_frame h (delivery i es h) \<and> handed es h (delivery i es h) i \<and> (\<forall>j. j \<noteq> i \<longrightarrow> untouched h (delivery i es h) j)"
  using assms
proof (induction es arbitrary: h)
  case Nil
  then show ?case by (simp add: same_frame_def handed_def untouched_def)
next
  case (Cons e es)
  show ?case
  proof (cases "int (length (sb_events (hb_subscriptions h ! i))) < BufferSize (hb_options h)")
    case True
    define h1 where "h1 = update_subscription i (\<lambda>sb. sb\<lparr>sb_events := sb_events sb @ [e]\<rparr>) h"
    have h1: "same_frame h h1" "hb_subscribers h1 = hb_subscribers h" "hb_options h1 = hb_options h"
      "sub h1 i = (sub h i)\<lparr>sb_events := sb_events (sub h i) @ [e]\<rparr>" "\<And>j. j \<noteq> i \<Longrightarrow> sub h1 j = sub h j"
      using Cons.prems by (auto simp: h1_def same_frame_def update_subscription_def sub_def)
    have ih: "same_frame h1 (delivery i es h1)" "handed es h1 (delivery i es h1) i" "\<And>j. j \<noteq> i \<Longrightarrow> untouched h1 (delivery i es h1) j"
      using Cons.IH [of h1] Cons.prems h1 by (simp_all add: same_frame_def)
    from ih(2) obtain es' where es': "prefix es' es" "sb_events (sub (delivery i es h1) i) = sb_events (sub h i) @ (e # es')"
        "i \<in> set (hb_subscribers (delivery i es h1)) \<longrightarrow> es' = es \<and> sb_closed (sub (delivery i es h1) i) = sb_closed (sub h i)"
      by (auto simp: handed_def h1)
    have "prefix (e # es') (e # es)" using es'(1) by simp
    then have "handed (e # es) h (delivery i es h1) i"
      using ih(2) es'(2,3) True by (fastforce simp: handed_def h1 sub_def [of h])
    moreover have "same_frame h (delivery i es h1)" using h1(1) ih(1) by (auto simp: same_frame_def)
    moreover have "untouched h (delivery i es h1) j" if "j \<noteq> i" for j using ih(3) [OF that] h1 that by (simp add: untouched_def)
    ultimately show ?thesis using True by (simp add: h1_def)
  next
    case False
    then show ?thesis using Cons.prems
      by (auto simp: same_frame_def handed_def untouched_def endLocked_def update_subscription_def sub_def)
  qed
qed

lemma deliveries_effect:
  assumes "distinct js" and "set js \<subseteq> set (hb_subscribers h)" and "\<And>i. i \<in> set js \<Longrightarrow> i < length (hb_subscriptions h)"
  shows "same_frame h (fold (\<lambda>i. delivery i es) js h) \<and>
    (\<forall>i. if i \<in> set js then handed es h (fold (\<lambda>i. delivery i es) js h) i else untouched h (fold (\<lambda>i. delivery i es) js h) i)"
  using assms
proof (induction js arbitrary: h)
  case Nil
  then show ?case by (simp add: same_frame_def untouched_def)
next
  case (Cons j js)
  define h1 where "h1 = delivery j es h"
  define h2 where "h2 = fold (\<lambda>i. delivery i es) js h1"
  have h1: "same_frame h h1" "handed es h h1 j" "\<And>i. i \<noteq> j \<Longrightarrow> untouched h h1 i"
    using delivery_effect [of j h es] Cons.prems by (auto simp: h1_def)
  have "set js \<subseteq> set (hb_subscribers h1)"
    using Cons.prems(1,2) h1(3) by (metis (no_types, lifting) distinct.simps(2) insert_subset list.simps(15) subset_eq untouched_def)
  then have h2: "same_frame h1 h2" "\<And>i. if i \<in> set js then handed es h1 h2 i else untouched h1 h2 i"
    using Cons.IH [of h1] Cons.prems(1,3) h1(1) by (auto simp: h2_def same_frame_def)
  have "same_frame h h2" using h1(1) h2(1) by (auto simp: same_frame_def)
  moreover have "if i \<in> set (j # js) then handed es h h2 i else untouched h h2 i" for i
  proof (cases "i = j")
    case True
    then show ?thesis using h1(2) h2(2) [of j] Cons.prems(1) by (auto simp: handed_def untouched_def)
  next
    case False
    then show ?thesis using h1(1) h1(3) [of i] h2(2) [of i] by (auto simp: handed_def untouched_def same_frame_def)
  qed
  moreover have eq: "fold (\<lambda>i. delivery i es) (j # js) h = h2" by (simp add: h2_def h1_def)
  ultimately show ?case unfolding eq by blast
qed

subsection \<open>The stream and its readers\<close>

text \<open>What each reader has taken from its channel is kept beside the hub.\<close>

record stream =
  s_table :: "Event list"
  s_hub :: Hub
  s_taken :: "nat \<Rightarrow> Event list"

datatype stream_op =
    Commit Event | Initialize | CatchUp | Notify string | Subscribe_op | Receive nat | Close nat | Shutdown

definition receive :: "nat \<Rightarrow> stream \<Rightarrow> stream" where
  "receive i w =
     (if i < length (hb_subscriptions (s_hub w)) \<and> sb_events (sub (s_hub w) i) \<noteq> []
      then w\<lparr>s_hub := update_subscription i (\<lambda>sb. sb\<lparr>sb_events := tl (sb_events sb)\<rparr>) (s_hub w),
             s_taken := (s_taken w)(i := s_taken w i @ [hd (sb_events (sub (s_hub w) i))])\<rparr>
      else w)"

text \<open>\<open>Run\<close> reads the cursor first, then catches up, and closes the subscriptions last.\<close>

fun stream_step :: "stream_op \<Rightarrow> stream \<Rightarrow> stream" where
  "stream_step (Commit e) w = w\<lparr>s_table := s_table w @ [e]\<rparr>"
| "stream_step Initialize w =
     (if hb_ready (s_hub w) \<or> hb_closed (s_hub w) then w else w\<lparr>s_hub := initialize (s_table w) (s_hub w)\<rparr>)"
| "stream_step CatchUp w =
     (if hb_ready (s_hub w) \<and> \<not> hb_closed (s_hub w) then w\<lparr>s_hub := catchUp_pass (s_table w) (s_hub w)\<rparr> else w)"
| "stream_step (Notify payload) w = w\<lparr>s_hub := notified payload (s_hub w)\<rparr>"
| "stream_step Subscribe_op w = w\<lparr>s_hub := snd (Subscribe (s_hub w))\<rparr>"
| "stream_step (Receive i) w = receive i w"
| "stream_step (Close i) w = w\<lparr>s_hub := Subscription_Close i (s_hub w)\<rparr>"
| "stream_step Shutdown w = w\<lparr>s_hub := shutdown (s_hub w)\<rparr>"

definition new_stream :: "HubOptions \<Rightarrow> stream" where
  "new_stream opts = \<lparr>s_table = [], s_hub = NewHub opts, s_taken = (\<lambda>_. [])\<rparr>"

definition received :: "stream \<Rightarrow> nat \<Rightarrow> Event list" where
  "received w i = s_taken w i @ sb_events (sub (s_hub w) i)"

definition owed :: "stream \<Rightarrow> nat \<Rightarrow> Event list" where
  "owed w i = between (sb_version (sub (s_hub w) i)) (hb_version (s_hub w)) (s_table w)"

text \<open>The channels: a registered subscription is open, no buffer overflows, and there are
  subscriptions only once the cursor is known.\<close>

definition channels_ok :: "Hub \<Rightarrow> bool" where
  "channels_ok h \<longleftrightarrow> distinct (hb_subscribers h) \<and> 0 < BufferSize (hb_options h) \<and>
     (hb_subscriptions h \<noteq> [] \<longrightarrow> hb_ready h) \<and>
     (\<forall>i. i \<in> set (hb_subscribers h) \<longrightarrow> i < length (hb_subscriptions h) \<and> \<not> sb_closed (sub h i)) \<and>
     (\<forall>i < length (hb_subscriptions h). int (length (sb_events (sub h i))) \<le> BufferSize (hb_options h))"

definition delivered :: "stream \<Rightarrow> bool" where
  "delivered w \<longleftrightarrow> hb_version (s_hub w) \<in> set (0 # map e_Version (s_table w)) \<and>
     (\<forall>i \<ge> length (hb_subscriptions (s_hub w)). s_taken w i = []) \<and>
     (\<forall>i < length (hb_subscriptions (s_hub w)). sb_version (sub (s_hub w) i) \<le> hb_version (s_hub w) \<and>
        prefix (received w i) (owed w i) \<and>
        (i \<in> set (hb_subscribers (s_hub w)) \<longrightarrow> received w i = owed w i))"

text \<open>A step of the hub that hands out nothing; it may end subscriptions.\<close>

definition quiet :: "Hub \<Rightarrow> Hub \<Rightarrow> bool" where
  "quiet h h' \<longleftrightarrow> hb_options h' = hb_options h \<and> hb_version h' = hb_version h \<and> hb_ready h' = hb_ready h \<and>
     length (hb_subscriptions h') = length (hb_subscriptions h) \<and>
     set (hb_subscribers h') \<subseteq> set (hb_subscribers h) \<and> (distinct (hb_subscribers h) \<longrightarrow> distinct (hb_subscribers h')) \<and>
     (\<forall>i. sb_events (sub h' i) = sb_events (sub h i) \<and> sb_version (sub h' i) = sb_version (sub h i) \<and>
        (i \<in> set (hb_subscribers h') \<longrightarrow> sub h' i = sub h i))"

lemma quiet_refl: "quiet h h"
  by (simp add: quiet_def)

lemma quiet_trans: "quiet h h1 \<Longrightarrow> quiet h1 h2 \<Longrightarrow> quiet h h2"
  unfolding quiet_def by (metis (no_types, lifting) subset_iff)

lemma quiet_update:
  assumes "\<And>sb. sb_events (f sb) = sb_events sb" and "\<And>sb. sb_version (f sb) = sb_version sb"
  shows "quiet h (update_subscription i f (h\<lparr>hb_subscribers := removeAll i (hb_subscribers h)\<rparr>))"
  using assms by (cases "i < length (hb_subscriptions h)")
    (auto simp: quiet_def update_subscription_def sub_def nth_list_update list_update_beyond distinct_removeAll)

lemma quiet_ops: "quiet h (endLocked i err h)" "quiet h (Subscription_Close i h)" "quiet h (notified payload h)"
  by (simp_all add: endLocked_def Subscription_Close_def quiet_update quiet_refl)
    (auto simp: notified_def signal_def quiet_def sub_def split: option.splits)

lemma quiet_ends: "quiet h (fold (\<lambda>i. endLocked i err) js h)"
proof (induction js arbitrary: h)
  case (Cons j js)
  then show ?case using quiet_trans [OF quiet_ops(1) [of h j err]] by simp
qed (simp add: quiet_refl)

lemma quiet_shutdown: "quiet h (shutdown h)"
proof -
  have "quiet h (h\<lparr>hb_closed := True\<rparr>)" by (simp add: quiet_def sub_def)
  then show ?thesis unfolding shutdown_def using quiet_ends quiet_trans by blast
qed

lemma channels_quiet: "channels_ok h \<Longrightarrow> quiet h h' \<Longrightarrow> channels_ok h'"
  unfolding channels_ok_def quiet_def by (metis (no_types, lifting) length_0_conv subset_iff)

lemma delivered_quiet: "delivered w \<Longrightarrow> quiet (s_hub w) h' \<Longrightarrow> delivered (w\<lparr>s_hub := h'\<rparr>)"
  unfolding delivered_def quiet_def received_def owed_def by (auto simp: subset_iff)

lemma channels_broadcast:
  assumes "channels_ok h"
  shows "channels_ok (broadcast es h)"
proof -
  let ?h = "fold (\<lambda>i. delivery i es) (hb_subscribers h) h"
  have eff: "same_frame h ?h" "\<And>i. if i \<in> set (hb_subscribers h) then handed es h ?h i else untouched h ?h i"
    using deliveries_effect [of "hb_subscribers h" h es] assms by (auto simp: channels_ok_def)
  have "int (length (sb_events (sub ?h i))) \<le> BufferSize (hb_options h)" if "i < length (hb_subscriptions h)" for i
    using eff(2) [of i] assms that by (cases "i \<in> set (hb_subscribers h)") (auto simp: handed_def untouched_def channels_ok_def)
  moreover have "\<not> sb_closed (sub ?h i)" if "i \<in> set (hb_subscribers ?h)" for i
    using eff(1) eff(2) [of i] assms that by (auto simp: handed_def same_frame_def channels_ok_def)
  moreover have "distinct (hb_subscribers ?h)"
  proof -
    have "distinct (hb_subscribers (delivery i es g))" if "distinct (hb_subscribers g)" for i g
      using that by (induction es arbitrary: g) (auto simp: endLocked_def update_subscription_def distinct_removeAll)
    then have "distinct (hb_subscribers (fold (\<lambda>i. delivery i es) js g))" if "distinct (hb_subscribers g)" for js g
      using that by (induction js arbitrary: g) auto
    then show ?thesis using assms by (simp add: channels_ok_def)
  qed
  ultimately show ?thesis using assms eff(1) by (auto simp: channels_ok_def same_frame_def broadcast_def sub_def)
qed

lemma broadcast_received:
  assumes "channels_ok h"
  shows "sb_version (sub (broadcast es h) i) = sb_version (sub h i) \<and>
    length (hb_subscriptions (broadcast es h)) = length (hb_subscriptions h) \<and>
    set (hb_subscribers (broadcast es h)) \<subseteq> set (hb_subscribers h) \<and>
    (\<exists>es'. prefix es' es \<and> sb_events (sub (broadcast es h) i) = sb_events (sub h i) @ es' \<and>
       (i \<in> set (hb_subscribers (broadcast es h)) \<longrightarrow> es' = es) \<and> (i \<notin> set (hb_subscribers h) \<longrightarrow> es' = []))"
proof -
  let ?h = "fold (\<lambda>i. delivery i es) (hb_subscribers h) h"
  have eff: "same_frame h ?h" "if i \<in> set (hb_subscribers h) then handed es h ?h i else untouched h ?h i"
    using deliveries_effect [of "hb_subscribers h" h es] assms by (auto simp: channels_ok_def)
  then show ?thesis
    by (cases "i \<in> set (hb_subscribers h)") (auto simp: broadcast_def sub_def handed_def untouched_def same_frame_def)
qed

lemma delivered_catchUp_pass:
  assumes "delivered w" and "ordered (s_table w)" and "channels_ok (s_hub w)"
  shows "delivered (w\<lparr>s_hub := catchUp_pass (s_table w) (s_hub w)\<rparr>)"
proof (cases "read_batch (s_table w) (s_hub w) = []")
  case False
  define es where "es = read_batch (s_table w) (s_hub w)"
  define h where "h = s_hub w"
  define v where "v = e_Version (List.last es)"
  have l: "List.last es \<in> set (s_table w)" "hb_version h < v"
    using read_batch_later [of "List.last es" "s_table w" h] False by (simp_all add: es_def h_def v_def)
  have more: "between a v (s_table w) = between a (hb_version h) (s_table w) @ es" if "a \<le> hb_version h" for a
    using between_append [of "s_table w" a "hb_version h" v] read_batch_between [OF assms(2) False] that l(2) assms(2)
    by (simp add: es_def h_def v_def ordered_def)
  have "sb_version (sub (broadcast es h) i) \<le> v \<and> prefix (s_taken w i @ sb_events (sub (broadcast es h) i)) (between (sb_version (sub h i)) v (s_table w)) \<and>
      (i \<in> set (hb_subscribers (broadcast es h)) \<longrightarrow>
         s_taken w i @ sb_events (sub (broadcast es h) i) = between (sb_version (sub h i)) v (s_table w))"
    if "i < length (hb_subscriptions h)" for i
  proof -
    have old: "sb_version (sub h i) \<le> hb_version h" "prefix (received w i) (owed w i)"
      "i \<in> set (hb_subscribers h) \<Longrightarrow> received w i = owed w i"
      using assms(1) that by (simp_all add: delivered_def h_def)
    obtain es' where es': "prefix es' es" "sb_events (sub (broadcast es h) i) = sb_events (sub h i) @ es'"
      "i \<in> set (hb_subscribers (broadcast es h)) \<longrightarrow> es' = es" "i \<notin> set (hb_subscribers h) \<longrightarrow> es' = []"
      using broadcast_received [of h es i] assms(3) by (auto simp: h_def)
    have b: "sb_version (sub (broadcast es h) i) = sb_version (sub h i)" "set (hb_subscribers (broadcast es h)) \<subseteq> set (hb_subscribers h)"
      using broadcast_received [of h es i] assms(3) by (auto simp: h_def)
    have sum: "between (sb_version (sub h i)) v (s_table w) = owed w i @ es" using more [OF old(1)] by (simp add: owed_def h_def)
    have "prefix (received w i @ es') (owed w i @ es)"
      by (cases "i \<in> set (hb_subscribers h)") (use old(2,3) es'(1,4) in \<open>simp_all add: prefix_append\<close>)
    moreover have "received w i = s_taken w i @ sb_events (sub h i)" by (simp add: received_def h_def)
    ultimately show ?thesis using b old es' l(2) by (auto simp: sum)
  qed
  moreover have "catchUp_pass (s_table w) (s_hub w) = broadcast es h"
    using False by (simp add: catchUp_pass_def es_def h_def)
  moreover have "length (hb_subscriptions (broadcast es h)) = length (hb_subscriptions h)"
    "sb_version (sub (broadcast es h) i) = sb_version (sub h i)" for i
    using broadcast_received [of h es] assms(3) by (auto simp: h_def)
  moreover have "hb_version (broadcast es h) = v" by (simp add: v_def)
  ultimately show ?thesis using l(1) assms(1) by (simp add: delivered_def received_def owed_def v_def h_def [symmetric])
qed (use assms(1) in \<open>simp add: catchUp_pass_def\<close>)

lemma between_commit:
  assumes "ordered (table @ [e])" and "b \<in> set (0 # map e_Version table)"
  shows "between a b (table @ [e]) = between a b table"
  using assms by (auto simp: ordered_def between_def sorted_wrt_append)

lemma delivered_step:
  assumes "delivered w" and "channels_ok (s_hub w)" and "ordered (s_table (stream_step op w))"
  shows "delivered (stream_step op w)"
proof (cases op)
  case (Commit e)
  then show ?thesis using assms between_commit [of "s_table w" e] by (auto simp: delivered_def received_def owed_def)
next
  case Initialize
  show ?thesis
  proof (cases "hb_ready (s_hub w) \<or> hb_closed (s_hub w)")
    case False
    then have "hb_subscriptions (s_hub w) = []" using assms(2) by (auto simp: channels_ok_def)
    moreover have "LatestVersion (s_table w) \<in> set (0 # map e_Version (s_table w))"
      using Max_in [of "set (map e_Version (s_table w))"] by (auto simp: LatestVersion_def)
    ultimately show ?thesis using False Initialize assms(1) by (auto simp: delivered_def initialize_def)
  qed (use assms(1) Initialize in auto)
next
  case CatchUp
  then show ?thesis using assms delivered_catchUp_pass [of w] by (auto split: if_splits)
next
  case Subscribe_op
  have "between a a t = []" for a t by (auto simp: between_def filter_empty_conv)
  then show ?thesis using assms(1,2) Subscribe_op
    by (auto simp: Subscribe_def Let_def delivered_def received_def owed_def sub_def nth_append less_Suc_eq channels_ok_def)
next
  case (Receive i)
  then show ?thesis using assms(1)
    by (auto simp: receive_def delivered_def received_def owed_def sub_def update_subscription_def nth_list_update split: if_splits)
qed (use assms(1) in \<open>simp_all add: delivered_quiet quiet_ops quiet_shutdown\<close>)

lemma channels_step:
  assumes "channels_ok (s_hub w)"
  shows "channels_ok (s_hub (stream_step op w))"
proof (cases op)
  case CatchUp
  then show ?thesis using assms channels_broadcast by (simp add: catchUp_pass_def Let_def)
next
  case Subscribe_op
  then show ?thesis using assms
    by (auto simp: Subscribe_def Let_def channels_ok_def sub_def nth_append less_Suc_eq)
next
  case (Receive i)
  have "int (length (tl es)) \<le> b" if "int (length es) \<le> b" for es :: "Event list" and b using that by (cases es) auto
  then show ?thesis using assms Receive
    by (auto simp: receive_def channels_ok_def sub_def update_subscription_def nth_list_update)
next
  case Initialize
  then show ?thesis using assms by (auto simp: initialize_def channels_ok_def sub_def)
qed (use assms in \<open>auto simp: quiet_ops quiet_shutdown intro: channels_quiet\<close>)

lemma ordered_prefix: "ordered (table @ rest) \<Longrightarrow> ordered table"
  by (simp add: ordered_def sorted_wrt_append)

lemma table_grows: "\<exists>rest. s_table (stream_step op w) = s_table w @ rest"
  by (cases op) (auto simp: receive_def)

interpretation event_stream: machine stream_step "\<lambda>_. True" "\<lambda>w. channels_ok (s_hub w) \<and> (ordered (s_table w) \<longrightarrow> delivered w)"
proof
  fix op w assume "channels_ok (s_hub w) \<and> (ordered (s_table w) \<longrightarrow> delivered w)"
  moreover have "ordered (s_table w)" if "ordered (s_table (stream_step op w))"
    using that table_grows [of op w] ordered_prefix by metis
  ultimately show "channels_ok (s_hub (stream_step op w)) \<and> (ordered (s_table (stream_step op w)) \<longrightarrow> delivered (stream_step op w))"
    using channels_step delivered_step by blast
qed

lemma hub_options_positive: "0 < BatchSize (hub_options opts) \<and> 0 < BufferSize (hub_options opts)"
  by (simp add: hub_options_def Let_def)

lemma new_stream_ok: "channels_ok (s_hub (new_stream opts)) \<and> delivered (new_stream opts)"
  using hub_options_positive [of opts] by (simp add: new_stream_def NewHub_def channels_ok_def delivered_def)

text \<open>C17. In every interleaving of commits, reads, subscriptions, receptions and ends of
  subscriptions, when events were committed in the order of their versions: what a subscription
  has been handed is, in order and without gap or repetition, a prefix of the events after the
  version it started from, and all those the hub has read as long as it is registered.\<close>

theorem stream_delivers:
  assumes "w = fold stream_step ops (new_stream opts)" and "ordered (s_table w)"
    and "i < length (hb_subscriptions (s_hub w))"
  shows "prefix (received w i) (between (sb_version (sub (s_hub w) i)) (hb_version (s_hub w)) (s_table w)) \<and>
    (i \<in> set (hb_subscribers (s_hub w)) \<longrightarrow>
       received w i = between (sb_version (sub (s_hub w) i)) (hb_version (s_hub w)) (s_table w))"
proof -
  have "delivered w"
    using event_stream.run_inv [of ops "new_stream opts"] new_stream_ok assms(1,2) by (simp add: list_all_iff)
  then show ?thesis using assms(3) by (simp add: delivered_def owed_def)
qed


subsection \<open>Catching up\<close>

definition sample_event :: "int \<Rightarrow> Event" where
  "sample_event v = \<lparr>e_Version = v, e_Kind = ''target.changed'', e_EntityType = ''target'', e_EntityID = ''t'', e_OccurredAt = v\<rparr>"

definition sample_options :: HubOptions where
  "sample_options = \<lparr>BatchSize = 2, BufferSize = 2, FallbackInterval = 0, RetryDelay = 0, MaxRetryDelay = 0\<rparr>"

definition sample_stream_ops :: "stream_op list" where
  "sample_stream_ops = [Commit (sample_event 1), Initialize, Subscribe_op, Commit (sample_event 2), Commit (sample_event 3),
     CatchUp, Receive 0, Commit (sample_event 4), Commit (sample_event 5), Subscribe_op, CatchUp]"

theorem stream_delivers_witness:
  "let w = fold stream_step sample_stream_ops (new_stream sample_options)
   in map e_Version (received w 0) = [2, 3, 4] \<and> sb_err (sub (s_hub w) 0) = Some ErrLagging \<and>
      received w 1 = between 3 5 (s_table w)"
proof -
  define w where "w = fold stream_step sample_stream_ops (new_stream sample_options)"
  have run: "map e_Version (received w 0) = [2, 3, 4] \<and> sb_err (sub (s_hub w) 0) = Some ErrLagging \<and> ordered (s_table w) \<and>
      hb_subscribers (s_hub w) = [1] \<and> length (hb_subscriptions (s_hub w)) = 2 \<and> sb_version (sub (s_hub w) 1) = 3 \<and> hb_version (s_hub w) = 5"
    unfolding w_def by code_simp
  then have "received w 1 = between 3 5 (s_table w)" using stream_delivers [OF w_def, of 1] by simp
  then show ?thesis using run by (simp add: w_def Let_def)
qed

lemma LatestVersion_ge: "e \<in> set table \<Longrightarrow> e_Version e \<le> LatestVersion table"
  by (auto simp: LatestVersion_def)

lemma read_batch_empty:
  assumes "0 < BatchSize (hb_options h)" and "read_batch table h = []"
  shows "\<forall>e \<in> set table. e_Version e \<le> hb_version h"
proof -
  have "filter (\<lambda>e. hb_version h < e_Version e) table = []"
    using assms by (simp add: read_batch_def ListAfter_def) (metis length_0_conv length_sort)
  then show ?thesis by (auto simp: filter_empty_conv not_less)
qed

lemma read_batch_short:
  assumes "int (length (read_batch table h)) < BatchSize (hb_options h)" and "read_batch table h \<noteq> []" and "e \<in> set table"
  shows "e_Version e \<le> e_Version (List.last (read_batch table h))"
proof (cases "hb_version h < e_Version e")
  case True
  let ?S = "sort_key e_Version (filter (\<lambda>e. hb_version h < e_Version e) table)"
  have "length (take (nat (BatchSize (hb_options h))) ?S) < nat (BatchSize (hb_options h))"
    using assms(1) by (simp add: read_batch_def ListAfter_def)
  then have all: "read_batch table h = ?S" by (simp add: read_batch_def ListAfter_def)
  have "e \<in> set ?S" using True assms(3) by simp
  then show ?thesis unfolding all by (intro sorted_last_ge) simp_all
next
  case False
  then show ?thesis using read_batch_later [of "List.last (read_batch table h)" table h] assms(2) by simp
qed

lemma catchUp_end:
  assumes "0 < BatchSize (hb_options h)"
  shows "\<forall>e \<in> set table. e_Version e \<le> hb_version (catchUp table h)"
  using assms
proof (induction table h rule: catchUp.induct)
  case (1 table h)
  then show ?case
    by (subst catchUp.simps) (auto simp: Let_def read_batch_empty intro: read_batch_short)
qed

text \<open>C19. Catching up ends, and reaches the last version of the table.\<close>

theorem catchUp_reaches_latest:
  assumes "hb_options h = hub_options opts" and "e \<in> set table"
  shows "e_Version e \<le> hb_version (catchUp table h) \<and>
    read_batch table (catchUp table h) = []"
proof -
  have "0 < BatchSize (hb_options h)" using assms(1) hub_options_positive by simp
  then have reached: "\<forall>e \<in> set table. e_Version e \<le> hb_version (catchUp table h)" by (rule catchUp_end)
  then have "read_batch table (catchUp table h) = []"
    by (auto simp: read_batch_def ListAfter_def filter_empty_conv not_less)
  then show ?thesis using reached assms(2) by blast
qed

theorem catchUp_reaches_latest_witness:
  "5 \<le> hb_version (catchUp (map sample_event [1, 2, 3, 4, 5]) (NewHub sample_options))"
  using catchUp_reaches_latest [of "NewHub sample_options" sample_options "sample_event 5" "map sample_event [1, 2, 3, 4, 5]"]
  by (simp add: sample_event_def NewHub_def)

text \<open>C20. An event whose transaction commits after the hub has read a later version is lost to
  every subscriber: its announcement is ignored, and catching up is as if it did not exist.\<close>

theorem late_commit_lost:
  assumes "e_Version e \<le> hb_version h" and "ParseInt payload = Some (e_Version e)"
  shows "catchUp (table @ [e]) h = catchUp table h \<and> notified payload h = h"
proof -
  have "catchUp (table @ [e]) h = catchUp table h"
    using assms(1)
  proof (induction table h rule: catchUp.induct)
    case (1 table h)
    have same: "read_batch (table @ [e]) h = read_batch table h" using "1.prems" by (simp add: read_batch_def ListAfter_def)
    have "e_Version e \<le> hb_version (broadcast (read_batch table h) h)" if "read_batch table h \<noteq> []"
      using "1.prems" read_batch_later [of "List.last (read_batch table h)" table h] that by simp
    then show ?case using "1.IH" same by (subst (1 2) catchUp.simps) (simp add: Let_def)
  qed
  then show ?thesis using assms by (simp add: notified_def)
qed

theorem late_commit_lost_witness:
  "let h = catchUp [sample_event 1, sample_event 3] (NewHub sample_options)
   in catchUp [sample_event 1, sample_event 3, sample_event 2] h = catchUp [sample_event 1, sample_event 3] h \<and> notified ''2'' h = h"
proof -
  define h where "h = catchUp [sample_event 1, sample_event 3] (NewHub sample_options)"
  have "3 \<le> hb_version h"
    using catchUp_end [of "NewHub sample_options" "[sample_event 1, sample_event 3]"]
    by (simp add: h_def sample_event_def NewHub_def sample_options_def hub_options_def Let_def)
  moreover have "ParseInt ''2'' = Some 2" by code_simp
  ultimately show ?thesis using late_commit_lost [of "sample_event 2" h "''2''" "[sample_event 1, sample_event 3]"]
    by (simp add: h_def sample_event_def Let_def)
qed

end
