(* ===== verification/Versions.thy ===== *)
theory Versions
  imports Go_Strconv
begin

text \<open>
  Software versions (\<^verbatim>\<open>internal/versions\<close>): the two regular expressions as the deterministic
  readers they are, the order of versions, and the assessment of the gap between an installed
  version and its target. The order is proved equal to a lexicographic one.
\<close>

subsection \<open>Reading a version\<close>

datatype VersionSituation = Current | Update | Prerelease | TargetOlder | Unordered

datatype Level = Major | Minor | Patch

record Assessment =
  as_Situation :: VersionSituation
  as_Level :: "Level option"

definition Actionable :: "Assessment \<Rightarrow> bool" where
  "Actionable a \<longleftrightarrow> as_Situation a = Update"

record parsed =
  pa_numbers :: "int list"
  pa_prerelease :: string

text \<open>The characters of a suffix, \<^verbatim>\<open>[0-9A-Za-z.-]\<close>.\<close>

definition is_suffix_char :: "char \<Rightarrow> bool" where
  "is_suffix_char c \<longleftrightarrow> is_digit c \<or> in_range 65 90 c \<or> in_range 97 122 c \<or> c = CHR ''.'' \<or> c = CHR ''-''"

definition skip_v :: "string \<Rightarrow> string" where
  "skip_v s = (case s of c # cs \<Rightarrow> if c = CHR ''v'' \<or> c = CHR ''V'' then cs else s | [] \<Rightarrow> s)"

text \<open>\<^verbatim>\<open>[0-9]+(?:\.[0-9]+){0,k}\<close>: the components and what follows them.\<close>

fun components :: "nat \<Rightarrow> string \<Rightarrow> (string list \<times> string) option" where
  "components k s =
     (let d = takeWhile is_digit s; rest = dropWhile is_digit s
      in if d = [] then None
         else case (k, rest) of
           (Suc m, c # cs) \<Rightarrow>
             if c = CHR ''.'' then
               (case components m cs of Some (ds, r) \<Rightarrow> Some (d # ds, r) | None \<Rightarrow> Some ([d], rest))
             else Some ([d], rest)
         | _ \<Rightarrow> Some ([d], rest))"

declare components.simps [simp del]

text \<open>\<^verbatim>\<open>(?:-([0-9A-Za-z.-]+))?(?:\+[0-9A-Za-z.-]+)?$\<close>: the suffix of a prerelease, empty
  when there is none.\<close>

definition build_end :: "string \<Rightarrow> bool" where
  "build_end s \<longleftrightarrow> s = [] \<or> (hd s = CHR ''+'' \<and> tl s \<noteq> [] \<and> list_all is_suffix_char (tl s))"

definition suffix_of :: "string \<Rightarrow> string option" where
  "suffix_of s =
     (if s \<noteq> [] \<and> hd s = CHR ''-'' \<and> takeWhile is_suffix_char (tl s) \<noteq> []
      then if build_end (dropWhile is_suffix_char (tl s)) then Some (takeWhile is_suffix_char (tl s)) else None
      else if build_end s then Some [] else None)"

text \<open>\<^verbatim>\<open>^g?[0-9a-f]{7,40}$\<close>\<close>

definition commitHash :: "string \<Rightarrow> bool" where
  "commitHash s \<longleftrightarrow>
     (let h = (if s \<noteq> [] \<and> hd s = CHR ''g'' then tl s else s)
      in 7 \<le> length h \<and> length h \<le> 40 \<and> list_all (\<lambda>c. is_digit c \<or> in_range 97 102 c) h)"

definition normalizedPrerelease :: "string \<Rightarrow> string" where
  "normalizedPrerelease v = (if commitHash v then [] else v)"

fun parse_numbers :: "string list \<Rightarrow> int list option" where
  "parse_numbers [] = Some []"
| "parse_numbers (p # ps) =
     (case ParseUint p of
        None \<Rightarrow> None
      | Some v \<Rightarrow> (case parse_numbers ps of None \<Rightarrow> None | Some vs \<Rightarrow> Some (v # vs)))"

definition parse :: "string \<Rightarrow> parsed option" where
  "parse raw =
     (case components 3 (skip_v (TrimSpace raw)) of
        None \<Rightarrow> None
      | Some (ds, rest) \<Rightarrow>
          (case suffix_of rest of
             None \<Rightarrow> None
           | Some suffix \<Rightarrow>
               (case parse_numbers ds of
                  None \<Rightarrow> None
                | Some ns \<Rightarrow> Some \<lparr>pa_numbers = ns, pa_prerelease = normalizedPrerelease suffix\<rparr>)))"

definition Valid :: "string \<Rightarrow> bool" where
  "Valid raw \<longleftrightarrow> parse raw \<noteq> None"

definition IsPrerelease :: "string \<Rightarrow> bool" where
  "IsPrerelease raw = (case parse raw of None \<Rightarrow> False | Some v \<Rightarrow> pa_prerelease v \<noteq> [])"

subsection \<open>Comparing two versions\<close>

definition first_or_0 :: "int list \<Rightarrow> int" where
  "first_or_0 ns = (case ns of [] \<Rightarrow> 0 | n # _ \<Rightarrow> n)"

function compareNumbers :: "int list \<Rightarrow> int list \<Rightarrow> int" where
  "compareNumbers left right =
     (if left = [] \<and> right = [] then 0
      else let l = first_or_0 left; r = first_or_0 right
           in if l \<noteq> r then if l < r then -1 else 1
              else compareNumbers (tl left) (tl right))"
  by pat_completeness auto

termination compareNumbers
  by (relation "measure (\<lambda>(left, right). length left + length right)") (auto simp: neq_Nil_conv)

declare compareNumbers.simps [simp del]

text \<open>\<open>strings.Split(s, ".")\<close>\<close>

fun split_dots :: "string \<Rightarrow> string list" where
  "split_dots [] = [[]]"
| "split_dots (c # cs) =
     (if c = CHR ''.'' then [] # split_dots cs
      else case split_dots cs of p # ps \<Rightarrow> (c # p) # ps | [] \<Rightarrow> [[c]])"

definition compare_identifiers :: "string \<Rightarrow> string \<Rightarrow> int" where
  "compare_identifiers a b =
     (case (ParseUint a, ParseUint b) of
        (Some l, Some r) \<Rightarrow> if l < r then -1 else 1
      | (Some _, None) \<Rightarrow> -1
      | (None, Some _) \<Rightarrow> 1
      | (None, None) \<Rightarrow> if a < b then -1 else 1)"

fun compare_lists :: "string list \<Rightarrow> string list \<Rightarrow> int" where
  "compare_lists (a # as) (b # bs) = (if a = b then compare_lists as bs else compare_identifiers a b)"
| "compare_lists [] (_ # _) = -1"
| "compare_lists (_ # _) [] = 1"
| "compare_lists [] [] = 0"

definition comparePrerelease :: "string \<Rightarrow> string \<Rightarrow> int" where
  "comparePrerelease left right =
     (if left = right then 0 else if left = [] then 1 else if right = [] then -1
      else compare_lists (split_dots left) (split_dots right))"

definition Compare :: "string \<Rightarrow> string \<Rightarrow> int \<times> bool" where
  "Compare left right =
     (case (parse left, parse right) of
        (Some a, Some b) \<Rightarrow>
          (let order = compareNumbers (pa_numbers a) (pa_numbers b)
           in if order \<noteq> 0 then (order, True)
              else (comparePrerelease (pa_prerelease a) (pa_prerelease b), True))
      | _ \<Rightarrow> (0, False))"

definition level :: "string \<Rightarrow> string \<Rightarrow> Level" where
  "level installed target =
     (let ns = (\<lambda>v. case parse v of None \<Rightarrow> [] | Some p \<Rightarrow> pa_numbers p);
          a = ns installed; b = ns target
      in if first_or_0 a \<noteq> first_or_0 b then Major
         else if first_or_0 (tl a) \<noteq> first_or_0 (tl b) then Minor else Patch)"

definition Assess :: "string \<Rightarrow> string \<Rightarrow> Assessment" where
  "Assess installed target =
     (let i = TrimSpace installed; t = TrimSpace target
      in if i = t then \<lparr>as_Situation = Current, as_Level = None\<rparr>
         else let (order, ok) = Compare i t
              in if \<not> ok then \<lparr>as_Situation = Unordered, as_Level = None\<rparr>
                 else if order = 0 then \<lparr>as_Situation = Current, as_Level = None\<rparr>
                 else if order > 0 then \<lparr>as_Situation = TargetOlder, as_Level = None\<rparr>
                 else if IsPrerelease t \<and> \<not> IsPrerelease i
                      then \<lparr>as_Situation = Prerelease, as_Level = Some (level i t)\<rparr>
                 else \<lparr>as_Situation = Update, as_Level = Some (level i t)\<rparr>)"

text \<open>\<open>inRange\<close> of \<^verbatim>\<open>internal/softwareupdates/versions.go\<close>.\<close>

definition inRange :: "string \<Rightarrow> string \<Rightarrow> string \<Rightarrow> bool" where
  "inRange v installed target =
     (let (a, ok) = Compare v installed; (b, ok2) = Compare v target
      in if \<not> ok \<or> \<not> ok2 \<or> a \<le> 0 \<or> 0 < b then False
         else \<not> IsPrerelease v \<or> IsPrerelease target)"

subsection \<open>The order of versions\<close>

text \<open>The sign of a comparison in a linear order, and the keys versions are compared by: the
  four components, absent ones being zero, then the suffix, a version without one coming after
  those with one; the identifiers of a suffix are numbers, which come first, or words.\<close>

definition cmp :: "'a::linorder \<Rightarrow> 'a \<Rightarrow> int" where
  "cmp a b = (if a < b then -1 else if b < a then 1 else 0)"

fun padded :: "nat \<Rightarrow> int list \<Rightarrow> int list" where
  "padded 0 ns = []"
| "padded (Suc k) ns = first_or_0 ns # padded k (tl ns)"

definition identifier_key :: "string \<Rightarrow> int \<times> int \<times> string" where
  "identifier_key s = (case ParseUint s of Some v \<Rightarrow> (0, v, []) | None \<Rightarrow> (1, 0, s))"

definition suffix_key :: "string \<Rightarrow> int \<times> (int \<times> int \<times> string) list" where
  "suffix_key s = (if s = [] then (1, []) else (0, map identifier_key (split_dots s)))"

definition version_key :: "parsed \<Rightarrow> int list \<times> int \<times> (int \<times> int \<times> string) list" where
  "version_key p = (padded 4 (pa_numbers p), suffix_key (pa_prerelease p))"

text \<open>SemVer's condition: a numeric identifier has no leading zero.\<close>

definition canonical_identifier :: "string \<Rightarrow> bool" where
  "canonical_identifier s \<longleftrightarrow> ParseUint s = None \<or> s = ''0'' \<or> hd s \<noteq> CHR ''0''"

definition canonical :: "parsed \<Rightarrow> bool" where
  "canonical p \<longleftrightarrow> list_all canonical_identifier (split_dots (pa_prerelease p))"

lemma identifier_key_inj:
  assumes "canonical_identifier a" and "canonical_identifier b" and "identifier_key a = identifier_key b"
  shows "a = b"
proof (cases "ParseUint a")
  case (Some v)
  then have "ParseUint b = Some v" using assms(3) by (auto simp: identifier_key_def split: option.splits)
  then have ab: "list_all is_digit a" "list_all is_digit b" "a \<noteq> []" "b \<noteq> []" "number a = number b"
    using Some by (auto simp: ParseUint_def split: if_splits)
  have zero: "number s = 0 \<Longrightarrow> s = ''0''" if "list_all is_digit s" "s \<noteq> []" "s = ''0'' \<or> hd s \<noteq> CHR ''0''" for s
    using number_pos [of s] that by auto
  have "number ''0'' = 0" by (simp add: number_def digit_value_def)
  then show ?thesis using assms(1,2) Some \<open>ParseUint b = Some v\<close> ab number_inj [of a b] zero [of a] zero [of b]
    by (auto simp: canonical_identifier_def)
next
  case None
  then show ?thesis using assms(3) by (auto simp: identifier_key_def split: option.splits)
qed

lemma compare_identifiers_cmp:
  assumes "canonical_identifier a" and "canonical_identifier b" and "a \<noteq> b"
  shows "compare_identifiers a b = cmp (identifier_key a) (identifier_key b)"
proof -
  have "identifier_key a \<noteq> identifier_key b" using assms identifier_key_inj by blast
  then show ?thesis
    by (auto simp: compare_identifiers_def identifier_key_def cmp_def less_prod_def' split: option.splits)
qed

lemma cmp_Cons: "cmp (x # xs) (y # ys) = (if x = y then cmp xs ys else cmp x y)"
  by (auto simp: cmp_def)

lemma cmp_Pair: "cmp (a, b) (c, d) = (if a = c then cmp b d else cmp a c)"
  by (auto simp: cmp_def less_prod_def')

lemma cmp_refl [simp]: "cmp a a = 0"
  by (simp add: cmp_def)

lemma cmp_zero_iff: "cmp a b = 0 \<longleftrightarrow> a = b"
  by (auto simp: cmp_def)

lemma compare_lists_cmp:
  assumes "list_all canonical_identifier xs" and "list_all canonical_identifier ys"
  shows "compare_lists xs ys = cmp (map identifier_key xs) (map identifier_key ys)"
  using assms
proof (induction xs ys rule: compare_lists.induct)
  case (1 a as b bs)
  then show ?case using identifier_key_inj [of a b] compare_identifiers_cmp [of a b] by (auto simp: cmp_Cons)
qed (simp_all add: cmp_def)

lemma compareNumbers_cmp:
  "length ms \<le> k \<Longrightarrow> length ns \<le> k \<Longrightarrow> compareNumbers ms ns = cmp (padded k ms) (padded k ns)"
proof (induction k arbitrary: ms ns)
  case 0
  then show ?case by (simp add: compareNumbers.simps)
next
  case (Suc k)
  have zero: "compareNumbers [] [] = 0" by (simp add: compareNumbers.simps)
  have "compareNumbers (tl ms) (tl ns) = cmp (padded k (tl ms)) (padded k (tl ns))" using Suc by simp
  then show ?case by (subst compareNumbers.simps) (auto simp: cmp_Cons Let_def zero cmp_def [of "first_or_0 _"])
qed

lemma comparePrerelease_cmp:
  assumes "list_all canonical_identifier (split_dots a)" and "list_all canonical_identifier (split_dots b)"
  shows "comparePrerelease a b = cmp (suffix_key a) (suffix_key b)"
  using assms compare_lists_cmp [of "split_dots a" "split_dots b"]
  by (auto simp: comparePrerelease_def suffix_key_def cmp_Pair) (auto simp: cmp_def)

lemma components_length: "components k s = Some (ds, rest) \<Longrightarrow> length ds \<le> Suc k"
proof (induction k arbitrary: s ds rest)
  case 0
  then show ?case by (auto simp: components.simps [of 0] Let_def split: if_splits)
next
  case (Suc k)
  then show ?case
    by (fastforce simp: components.simps [of "Suc k"] Let_def split: if_splits list.splits option.splits)
qed

lemma parse_numbers_length: "parse_numbers ps = Some ns \<Longrightarrow> length ns = length ps"
  by (induction ps arbitrary: ns) (auto split: option.splits)

lemma parse_length: "parse raw = Some p \<Longrightarrow> length (pa_numbers p) \<le> 4"
  using components_length [of 3] parse_numbers_length by (fastforce simp: parse_def split: option.splits)

lemma Compare_key:
  assumes "parse left = Some a" and "parse right = Some b" and "canonical a" and "canonical b"
  shows "Compare left right = (cmp (version_key a) (version_key b), True)"
  using assms compareNumbers_cmp [of "pa_numbers a" 4 "pa_numbers b"] parse_length
    comparePrerelease_cmp [of "pa_prerelease a" "pa_prerelease b"]
  by (auto simp: Compare_def Let_def version_key_def canonical_def cmp_Pair cmp_zero_iff)

text \<open>C21. On versions whose numeric identifiers have no leading zero, \<open>Compare\<close> is the
  comparison of their keys in a linear order: total, transitive and antisymmetric up to equal
  keys; other texts are reported as not comparable.\<close>

theorem Compare_reference:
  assumes "\<forall>p. parse left = Some p \<or> parse right = Some p \<longrightarrow> canonical p"
  shows "Compare left right =
    (case (parse left, parse right) of
       (Some a, Some b) \<Rightarrow> (cmp (version_key a) (version_key b), True)
     | _ \<Rightarrow> (0, False))"
  using assms Compare_key by (auto simp: Compare_def split: option.splits)

theorem Compare_reference_witness:
  "Compare ''1.0.0-beta.2'' ''v1.0-beta.11'' =
     (cmp (version_key (the (parse ''1.0.0-beta.2''))) (version_key (the (parse ''v1.0-beta.11''))), True)"
proof -
  have runs: "parse ''1.0.0-beta.2'' = Some \<lparr>pa_numbers = [1, 0, 0], pa_prerelease = ''beta.2''\<rparr>"
    "parse ''v1.0-beta.11'' = Some \<lparr>pa_numbers = [1, 0], pa_prerelease = ''beta.11''\<rparr>"
    by code_simp+
  have "canonical \<lparr>pa_numbers = [1, 0, 0], pa_prerelease = ''beta.2''\<rparr>" "canonical \<lparr>pa_numbers = [1, 0], pa_prerelease = ''beta.11''\<rparr>"
    by code_simp+
  then show ?thesis using Compare_reference [of "''1.0.0-beta.2''" "''v1.0-beta.11''"] runs by auto
qed

text \<open>C22. An update is announced exactly when both versions can be ordered, the target is
  strictly later, and it does not take a stable installation to a prerelease; the reverse
  assessment then says that the target is older.\<close>

theorem Assess_update:
  assumes "parse (TrimSpace installed) = Some a" and "parse (TrimSpace target) = Some b" and "canonical a" and "canonical b"
  shows "(Actionable (Assess installed target) \<longleftrightarrow>
      version_key a < version_key b \<and> (pa_prerelease b = [] \<or> pa_prerelease a \<noteq> [])) \<and>
    (Actionable (Assess installed target) \<longrightarrow> as_Situation (Assess target installed) = TargetOlder)"
proof -
  define i t x y where "i = TrimSpace installed" and "t = TrimSpace target" and "x = version_key a" and "y = version_key b"
  have order: "Compare i t = (cmp x y, True)" "Compare t i = (cmp y x, True)"
    using Compare_key [OF assms] Compare_key [OF assms(2,1,4,3)] by (simp_all add: i_def t_def x_def y_def)
  have same: "i = t \<Longrightarrow> x = y" using assms(1,2) by (simp add: i_def t_def x_def y_def)
  have pre: "IsPrerelease i \<longleftrightarrow> pa_prerelease a \<noteq> []" "IsPrerelease t \<longleftrightarrow> pa_prerelease b \<noteq> []"
    using assms(1,2) by (simp_all add: IsPrerelease_def i_def t_def)
  have "(Actionable (Assess installed target) \<longleftrightarrow> x < y \<and> (pa_prerelease b = [] \<or> pa_prerelease a \<noteq> [])) \<and>
      (Actionable (Assess installed target) \<longrightarrow> as_Situation (Assess target installed) = TargetOlder)"
    using same by (cases x y rule: linorder_cases)
      (auto simp: Assess_def i_def [symmetric] t_def [symmetric] order pre Actionable_def Let_def cmp_def)
  then show ?thesis by (simp add: x_def y_def)
qed

theorem Assess_update_witness:
  "Actionable (Assess ''2.14.0'' ''2.16.3'') \<and> as_Situation (Assess ''2.16.3'' ''2.14.0'') = TargetOlder"
proof -
  define a b where "a = \<lparr>pa_numbers = [2, 14, 0], pa_prerelease = []\<rparr>" and "b = \<lparr>pa_numbers = [2, 16, 3], pa_prerelease = []\<rparr>"
  have "parse (TrimSpace ''2.14.0'') = Some a" "parse (TrimSpace ''2.16.3'') = Some b" unfolding a_def b_def by code_simp+
  moreover have "canonical a" "canonical b" "version_key a < version_key b" unfolding a_def b_def by code_simp+
  ultimately show ?thesis using Assess_update [of "''2.14.0''" a "''2.16.3''" b] by (simp add: b_def)
qed


text \<open>C4. A release is in the range of an update exactly when it is later than the installed
  version, not later than the target, and stable unless the target is a prerelease.\<close>

theorem inRange_exact:
  assumes "parse v = Some p" and "parse installed = Some a" and "parse target = Some b"
    and "canonical p" and "canonical a" and "canonical b"
  shows "inRange v installed target \<longleftrightarrow>
    version_key a < version_key p \<and> version_key p \<le> version_key b \<and> (pa_prerelease p = [] \<or> pa_prerelease b \<noteq> [])"
proof -
  define x y z where "x = version_key a" and "y = version_key p" and "z = version_key b"
  have order: "Compare v installed = (cmp y x, True)" "Compare v target = (cmp y z, True)"
    using Compare_key [OF assms(1,2,4,5)] Compare_key [OF assms(1,3,4,6)] by (simp_all add: x_def y_def z_def)
  have "inRange v installed target \<longleftrightarrow> x < y \<and> y \<le> z \<and> (pa_prerelease p = [] \<or> pa_prerelease b \<noteq> [])"
    using assms(1,3) by (auto simp: inRange_def order IsPrerelease_def cmp_def Let_def)
  then show ?thesis by (simp add: x_def y_def z_def)
qed

theorem inRange_exact_witness:
  "inRange ''1.2.1'' ''1.2.0'' ''1.3.0''"
proof -
  define p a b where "p = \<lparr>pa_numbers = [1, 2, 1], pa_prerelease = []\<rparr>" and "a = \<lparr>pa_numbers = [1, 2, 0], pa_prerelease = []\<rparr>"
    and "b = \<lparr>pa_numbers = [1, 3, 0], pa_prerelease = []\<rparr>"
  have "parse ''1.2.1'' = Some p" "parse ''1.2.0'' = Some a" "parse ''1.3.0'' = Some b" unfolding p_def a_def b_def by code_simp+
  moreover have "canonical p" "canonical a" "canonical b" "version_key a < version_key p" "version_key p \<le> version_key b"
    unfolding p_def a_def b_def by code_simp+
  ultimately show ?thesis using inRange_exact [of "''1.2.1''" p "''1.2.0''" a "''1.3.0''" b] by (simp add: p_def)
qed

end
