(* ===== verification/Rate_Limiter.thy ===== *)
theory Rate_Limiter
  imports Cairn_Prelude
begin

text \<open>
  The rate limiter of the push relay (\<^verbatim>\<open>internal/pushrelay/limiter.go\<close>): one window per key,
  opened by the first call after the previous one has run out, and a table that forgets expired
  windows once it is large. The mutex makes a call one step.
\<close>

record rateWindow =
  rw_started :: instant
  rw_count :: int

record RateLimiter =
  rl_limit :: int
  rl_window :: duration
  rl_items :: "(string \<times> rateWindow) list"

definition NewRateLimiter :: "int \<Rightarrow> duration \<Rightarrow> RateLimiter" where
  "NewRateLimiter limit window = \<lparr>rl_limit = limit, rl_window = window, rl_items = []\<rparr>"

text \<open>The Go map as an association list without repeated keys.\<close>

definition put_item :: "string \<Rightarrow> rateWindow \<Rightarrow> RateLimiter \<Rightarrow> RateLimiter" where
  "put_item key item l = l\<lparr>rl_items := (key, item) # filter (\<lambda>p. fst p \<noteq> key) (rl_items l)\<rparr>"

definition prune :: "instant \<Rightarrow> RateLimiter \<Rightarrow> RateLimiter" where
  "prune now l =
     (if length (rl_items l) < 1024 then l
      else l\<lparr>rl_items := filter (\<lambda>p. \<not> rl_window l \<le> time_Sub now (rw_started (snd p))) (rl_items l)\<rparr>)"

definition Allow :: "instant \<Rightarrow> string \<Rightarrow> RateLimiter \<Rightarrow> bool \<times> RateLimiter" where
  "Allow now key l =
     (if rl_limit l \<le> 0 \<or> rl_window l \<le> 0 then (True, l)
      else case map_of (rl_items l) key of
        None \<Rightarrow> (True, prune now (put_item key \<lparr>rw_started = now, rw_count = 1\<rparr> l))
      | Some item \<Rightarrow>
          if rl_window l \<le> time_Sub now (rw_started item)
          then (True, prune now (put_item key \<lparr>rw_started = now, rw_count = 1\<rparr> l))
          else if rl_limit l \<le> rw_count item then (False, l)
          else (True, put_item key (item\<lparr>rw_count := rw_count item + 1\<rparr>) l))"

text \<open>A sequence of calls, each at its time, and the answers.\<close>

fun answers :: "(instant \<times> string) list \<Rightarrow> RateLimiter \<Rightarrow> (instant \<times> string \<times> bool) list" where
  "answers [] l = []"
| "answers ((now, key) # calls) l = (let (ok, l') = Allow now key l in (now, key, ok) # answers calls l')"

definition granted :: "string \<Rightarrow> instant \<Rightarrow> duration \<Rightarrow> (instant \<times> string \<times> bool) list \<Rightarrow> nat" where
  "granted key since len as = length (filter (\<lambda>(now, k, ok). k = key \<and> ok \<and> since \<le> now \<and> now < since + len) as)"

subsection \<open>The bound\<close>

lemma map_of_filter_key: "map_of (filter (\<lambda>p. fst p \<noteq> key) xs) k = (if k = key then None else map_of xs k)"
  by (induction xs) auto

lemma lookup_put [simp]: "map_of (rl_items (put_item key item l)) k = (if k = key then Some item else map_of (rl_items l) k)"
  by (simp add: put_item_def map_of_filter_key)

lemma params [simp]:
  "rl_limit (put_item key item l) = rl_limit l" "rl_window (put_item key item l) = rl_window l"
  "rl_limit (prune now l) = rl_limit l" "rl_window (prune now l) = rl_window l"
  by (simp_all add: put_item_def prune_def)

lemma params_Allow [simp]: "rl_limit (snd (Allow now key l)) = rl_limit l" "rl_window (snd (Allow now key l)) = rl_window l"
  by (auto simp: Allow_def split: option.splits)

lemma distinct_put: "distinct (map fst (rl_items l)) \<Longrightarrow> distinct (map fst (rl_items (put_item key item l)))"
  by (auto simp: put_item_def distinct_map_filter)

lemma distinct_prune: "distinct (map fst (rl_items l)) \<Longrightarrow> distinct (map fst (rl_items (prune now l)))"
  by (simp add: prune_def distinct_map_filter)

lemma distinct_Allow: "distinct (map fst (rl_items l)) \<Longrightarrow> distinct (map fst (rl_items (snd (Allow now key l))))"
  by (auto simp: Allow_def intro!: distinct_put distinct_prune split: option.splits)

lemma lookup_filter:
  assumes "distinct (map fst items)"
  shows "map_of (filter keep items) key = Option.bind (map_of items key) (\<lambda>item. if keep (key, item) then Some item else None)"
  using assms by (induction items) (auto simp: map_of_eq_None_iff rev_image_eqI split: Option.bind_splits)

text \<open>Pruning only forgets windows that have run out.\<close>

lemma lookup_prune:
  assumes "distinct (map fst (rl_items l))"
  shows "map_of (rl_items (prune now l)) k = map_of (rl_items l) k \<or>
    (\<exists>v. map_of (rl_items l) k = Some v \<and> rl_window l \<le> time_Sub now (rw_started v) \<and> map_of (rl_items (prune now l)) k = None)"
  using assms by (auto simp: prune_def lookup_filter split: option.splits Option.bind_splits)

text \<open>What the table says of a key while an interval is being counted.\<close>

definition counted :: "string \<Rightarrow> instant \<Rightarrow> nat \<Rightarrow> RateLimiter \<Rightarrow> bool" where
  "counted key since n l \<longleftrightarrow>
     (case map_of (rl_items l) key of
        None \<Rightarrow> int n \<le> rl_limit l
      | Some v \<Rightarrow> rw_count v \<le> rl_limit l \<and> (if rw_started v < since then int n \<le> rw_count v else int n \<le> rl_limit l + rw_count v))"

lemma lookup_opened:
  assumes "distinct (map fst (rl_items l))" and "0 < rl_window l"
  shows "map_of (rl_items (prune now (put_item key \<lparr>rw_started = now, rw_count = 1\<rparr> l))) key = Some \<lparr>rw_started = now, rw_count = 1\<rparr>"
  using lookup_prune [OF distinct_put [OF assms(1)], of now key "\<lparr>rw_started = now, rw_count = 1\<rparr>" key] assms(2)
  by (auto simp: time_Sub_def)

lemma counted_other:
  assumes "counted key since n l" and "k \<noteq> key" and "distinct (map fst (rl_items l))"
    and "0 < rl_limit l" and "0 < rl_window l" and "rl_window l < 2 ^ 63" and "now < since + rl_window l"
  shows "counted key since n (snd (Allow now k l))"
proof -
  have put: "counted key since n (put_item k v l)" for v using assms(1,2) by (auto simp: counted_def split: option.splits)
  have "counted key since n (prune now (put_item k v l))" for v
    using lookup_prune [OF distinct_put [OF assms(3)], of now k v key] put [of v] assms(1,2,5,6,7)
    by (cases "map_of (rl_items l) key") (auto simp: counted_def time_Sub_ge_iff split: if_splits)
  then show ?thesis using assms(1) put by (auto simp: Allow_def split: option.splits)
qed

lemma counted_own:
  assumes "counted key since n l" and "distinct (map fst (rl_items l))"
    and "0 < rl_limit l" and "0 < rl_window l" and "rl_window l < 2 ^ 63" and "now < since + rl_window l" and "now < since \<longrightarrow> n = 0"
  shows "counted key since (if fst (Allow now key l) \<and> since \<le> now then Suc n else n) (snd (Allow now key l))"
proof -
  have opened: "counted key since (if since \<le> now then Suc n else n) (prune now (put_item key \<lparr>rw_started = now, rw_count = 1\<rparr> l))"
    if "int n \<le> rl_limit l"
    using that lookup_opened [OF assms(2,4)] assms(3,7) by (auto simp: counted_def)
  show ?thesis
  proof (cases "map_of (rl_items l) key")
    case None
    then show ?thesis using opened assms(1,3,4) by (simp add: Allow_def counted_def)
  next
    case (Some v)
    consider "rl_window l \<le> now - rw_started v" | "now - rw_started v < rl_window l" "rl_limit l \<le> rw_count v"
      | "now - rw_started v < rl_window l" "rw_count v < rl_limit l" by linarith
    then show ?thesis
    proof cases
      case 1
      then have "int n \<le> rl_limit l" using assms(1,6) Some by (auto simp: counted_def split: if_splits)
      then show ?thesis using opened 1 Some assms(3-5) by (simp add: Allow_def time_Sub_ge_iff)
    next
      case 2
      then show ?thesis using Some assms(1,3-5) by (simp add: Allow_def time_Sub_ge_iff)
    next
      case 3
      then show ?thesis using Some assms(1,3-5,7) by (auto simp: Allow_def counted_def time_Sub_ge_iff split: if_splits)
    qed
  qed
qed

lemma granted_late: "(\<And>c. c \<in> set calls \<Longrightarrow> since + len \<le> fst c) \<Longrightarrow> granted key since len (answers calls l) = 0"
proof (induction calls arbitrary: l)
  case (Cons call calls)
  obtain now k where call: "call = (now, k)" by fastforce
  have "granted key since len (answers calls (snd (Allow now k l))) = 0" using Cons by simp
  moreover have "\<not> now < since + len" using Cons.prems [of call] call by simp
  ultimately show ?case by (simp add: call granted_def case_prod_beta)
qed (simp add: granted_def)

lemma granted_counted:
  assumes "sorted (map fst calls)" and "counted key since n l" and "distinct (map fst (rl_items l))"
    and "0 < rl_limit l" and "0 < rl_window l" and "rl_window l < 2 ^ 63"
    and "\<forall>c \<in> set calls. fst c < since \<longrightarrow> n = 0"
  shows "int (n + granted key since (rl_window l) (answers calls l)) \<le> 2 * rl_limit l"
  using assms
proof (induction calls arbitrary: n l)
  case Nil
  then show ?case by (auto simp: granted_def counted_def split: option.splits if_splits)
next
  case (Cons call calls)
  obtain now k where call: "call = (now, k)" by fastforce
  show ?case
  proof (cases "now < since + rl_window l")
    case True
    define l' where "l' = snd (Allow now k l)"
    define n' where "n' = (if k = key \<and> fst (Allow now k l) \<and> since \<le> now then Suc n else n)"
    have counted: "counted key since n' l'"
      using counted_other [OF Cons.prems(2) _ Cons.prems(3-6) True, of k] counted_own [OF Cons.prems(2-6) True] Cons.prems(7) call
      by (cases "k = key") (auto simp: n'_def l'_def)
    have later: "\<forall>c \<in> set calls. fst c < since \<longrightarrow> n' = 0"
      using Cons.prems(1,7) call by (auto simp: n'_def)
    have keep: "rl_limit l' = rl_limit l" "rl_window l' = rl_window l" "distinct (map fst (rl_items l'))"
      using Cons.prems(3) by (simp_all add: l'_def distinct_Allow)
    have "sorted (map fst calls)" using Cons.prems(1) by simp
    then have "int (n' + granted key since (rl_window l') (answers calls l')) \<le> 2 * rl_limit l'"
      using Cons.IH [of n' l'] counted later keep Cons.prems(4-6) by simp
    moreover have "granted key since (rl_window l) (answers (call # calls) l) = (n' - n) + granted key since (rl_window l) (answers calls l')"
      using True by (auto simp: granted_def call l'_def n'_def case_prod_beta Let_def)
    ultimately show ?thesis by (simp add: keep n'_def split: if_splits)
  next
    case False
    then have "granted key since (rl_window l) (answers (call # calls) l) = 0"
      using Cons.prems(1) call by (intro granted_late) auto
    moreover have "int n \<le> 2 * rl_limit l" using Cons.prems(2,4) by (auto simp: counted_def split: option.splits if_splits)
    ultimately show ?thesis by simp
  qed
qed

text \<open>C24. Whatever the calls of the other keys, and although the table is pruned, a key is
  granted at most twice the limit in any interval as long as the window, when the clock does not
  go back.\<close>

theorem Allow_bound:
  assumes "sorted (map fst calls)" and "0 < limit" and "0 < window" and "window < 2 ^ 63"
  shows "int (granted key since window (answers calls (NewRateLimiter limit window))) \<le> 2 * limit"
proof -
  let ?l = "NewRateLimiter limit window"
  have "counted key since 0 ?l" using assms(2) by (simp add: counted_def NewRateLimiter_def)
  then have "int (0 + granted key since (rl_window ?l) (answers calls ?l)) \<le> 2 * rl_limit ?l"
    using granted_counted [of calls key since 0 ?l] assms by (simp add: NewRateLimiter_def)
  then show ?thesis by (simp add: NewRateLimiter_def)
qed

definition sample_calls :: "(instant \<times> string) list" where
  "sample_calls = map (\<lambda>t. (t, ''device'')) [0, 9, 9, 9, 10, 11, 12, 19, 20]"

theorem Allow_bound_witness:
  "int (granted ''device'' 9 10 (answers sample_calls (NewRateLimiter 2 10))) \<le> 2 * 2 \<and>
   granted ''device'' 9 10 (answers sample_calls (NewRateLimiter 2 10)) = 3"
proof
  show "int (granted ''device'' 9 10 (answers sample_calls (NewRateLimiter 2 10))) \<le> 2 * 2"
    by (rule Allow_bound) (simp_all add: sample_calls_def)
  show "granted ''device'' 9 10 (answers sample_calls (NewRateLimiter 2 10)) = 3" by code_simp
qed

end
