(* ===== verification/Go_Base64.thy ===== *)
theory Go_Base64
  imports Go_Strings
begin

text \<open>
  Go's \<^verbatim>\<open>encoding/base64\<close> without padding: the URL and standard alphabets, encoding, and decoding
  in the tolerant and the strict mode. A decoder skips line ends, in both modes.
\<close>

record Encoding =
  en_alphabet :: string
  en_strict :: bool

definition RawURLEncoding :: Encoding where
  "RawURLEncoding = \<lparr>en_alphabet = ''ABCDEFGHIJKLMNOPQRSTUVWXYZabcdefghijklmnopqrstuvwxyz0123456789-_'', en_strict = False\<rparr>"

definition RawStdEncoding :: Encoding where
  "RawStdEncoding = \<lparr>en_alphabet = ''ABCDEFGHIJKLMNOPQRSTUVWXYZabcdefghijklmnopqrstuvwxyz0123456789+/'', en_strict = False\<rparr>"

definition Strict :: "Encoding \<Rightarrow> Encoding" where
  "Strict e = e\<lparr>en_strict := True\<rparr>"

subsection \<open>Bytes and digits of six bits\<close>

fun sextets :: "nat list \<Rightarrow> nat list" where
  "sextets [] = []"
| "sextets [a] = [a div 4, a mod 4 * 16]"
| "sextets [a, b] = [a div 4, a mod 4 * 16 + b div 16, b mod 16 * 4]"
| "sextets (a # b # c # r) = (a div 4) # (a mod 4 * 16 + b div 16) # (b mod 16 * 4 + c div 64) # (c mod 64) # sextets r"

fun octets :: "bool \<Rightarrow> nat list \<Rightarrow> nat list option" where
  "octets st [] = Some []"
| "octets st [a] = None"
| "octets st [a, b] = (if st \<and> b mod 16 \<noteq> 0 then None else Some [a * 4 + b div 16])"
| "octets st [a, b, c] = (if st \<and> c mod 4 \<noteq> 0 then None else Some [a * 4 + b div 16, b mod 16 * 16 + c div 4])"
| "octets st (a # b # c # d # r) =
     map_option (\<lambda>t. (a * 4 + b div 16) # (b mod 16 * 16 + c div 4) # (c mod 4 * 64 + d) # t) (octets st r)"

lemma octets_sextets: "list_all (\<lambda>b. b < 256) bs \<Longrightarrow> octets st (sextets bs) = Some bs"
proof (induction bs rule: sextets.induct)
  case (4 a b c r)
  then have "b div 16 mod 16 = b div 16" "c div 64 mod 4 = c div 64" by auto
  then show ?case using 4 by (simp add: mult.commute)
next
  case (3 a b)
  then have "b div 16 div 16 = 0" "b div 16 mod 16 = b div 16" by auto
  then show ?case using 3 by (simp add: mult.commute)
qed (simp_all add: mult.commute)

lemma sextets_octets: "octets True ds = Some bs \<Longrightarrow> list_all (\<lambda>d. d < 64) ds \<Longrightarrow> sextets bs = ds"
proof (induction True ds arbitrary: bs rule: octets.induct)
  case (5 a b c d r)
  then obtain t where t: "octets True r = Some t" "bs = (a * 4 + b div 16) # (b mod 16 * 16 + c div 4) # (c mod 4 * 64 + d) # t"
    by auto
  have "(b div 16) mod 4 = b div 16" "c div 4 < 16" "c div 4 mod 16 = c div 4" using 5(3) by auto
  then show ?case using 5 t by simp
qed (auto split: if_splits)

lemma sextets_small: "list_all (\<lambda>b. b < 256) bs \<Longrightarrow> list_all (\<lambda>d. d < 64) (sextets bs)"
proof (induction bs rule: sextets.induct)
  case (4 a b c r)
  have "a mod 4 < 4" "b mod 16 < 16" "c mod 64 < 64" by auto
  moreover have "b div 16 < 16" "c div 64 < 4" "a div 4 < 64" using 4(2) by auto
  ultimately have "a mod 4 * 16 + b div 16 < 64" "b mod 16 * 4 + c div 64 < 64" by linarith+
  then show ?case using 4 \<open>a div 4 < 64\<close> by simp
next
  case (3 a b)
  have "a mod 4 < 4" "b mod 16 < 16" by auto
  moreover have "b div 16 < 16" "a div 4 < 64" using 3 by auto
  ultimately have "a mod 4 * 16 + b div 16 < 64" "b mod 16 * 4 < 64" by linarith+
  then show ?case using 3 \<open>a div 4 < 64\<close> by simp
next
  case (2 a)
  have "a mod 4 < 4" by auto
  then have "a mod 4 * 16 < 64" by linarith
  then show ?case using 2 by simp
qed simp

lemma octets_small: "octets st ds = Some bs \<Longrightarrow> list_all (\<lambda>d. d < 64) ds \<Longrightarrow> list_all (\<lambda>b. b < 256) bs"
proof (induction st ds arbitrary: bs rule: octets.induct)
  case (5 st a b c d r)
  then obtain t where t: "octets st r = Some t" "bs = (a * 4 + b div 16) # (b mod 16 * 16 + c div 4) # (c mod 4 * 64 + d) # t"
    by auto
  have "b mod 16 < 16" "c mod 4 < 4" by auto
  moreover have "b div 16 < 4" "c div 4 < 16" using 5(3) by auto
  ultimately have "a * 4 + b div 16 < 256" "b mod 16 * 16 + c div 4 < 256" "c mod 4 * 64 + d < 256"
    using 5(3) by (simp_all, linarith)
  then show ?case using 5 t by simp
next
  case (4 st a b c)
  have "b mod 16 < 16" by auto
  moreover have "b div 16 < 4" "c div 4 < 16" using 4 by auto
  ultimately have "a * 4 + b div 16 < 256" "b mod 16 * 16 + c div 4 < 256" using 4 by simp_all
  then show ?case using 4 by (auto split: if_splits)
next
  case (3 st a b)
  have "b div 16 < 4" using 3 by auto
  then have "a * 4 + b div 16 < 256" using 3 by simp
  then show ?case using 3 by (auto split: if_splits)
qed auto

lemma length_sextets: "length (sextets bs) = (4 * length bs + 2) div 3"
  by (induction bs rule: sextets.induct) auto

subsection \<open>Encoding and decoding\<close>

definition EncodeToString :: "Encoding \<Rightarrow> string \<Rightarrow> string" where
  "EncodeToString e s = map (\<lambda>d. en_alphabet e ! d) (sextets (map of_char s))"

definition digit_of :: "Encoding \<Rightarrow> char \<Rightarrow> nat option" where
  "digit_of e c =
     (let i = length (takeWhile (\<lambda>x. x \<noteq> c) (en_alphabet e)) in if i < length (en_alphabet e) then Some i else None)"

definition line_end :: "char \<Rightarrow> bool" where
  "line_end c \<longleftrightarrow> c = CHR 0x0A \<or> c = CHR 0x0D"

definition DecodeString :: "Encoding \<Rightarrow> string \<Rightarrow> string option" where
  "DecodeString e s =
     Option.bind (those (map (digit_of e) (filter (\<lambda>c. \<not> line_end c) s)))
       (\<lambda>ds. map_option (map char_of) (octets (en_strict e) ds))"

definition proper :: "Encoding \<Rightarrow> bool" where
  "proper e \<longleftrightarrow> length (en_alphabet e) = 64 \<and> distinct (en_alphabet e) \<and> list_all (\<lambda>c. \<not> line_end c) (en_alphabet e)"

lemma proper_encodings [simp]: "proper RawURLEncoding" "proper RawStdEncoding"
  by code_simp+

lemma proper_Strict [simp]: "proper (Strict e) = proper e"
  by (simp add: proper_def Strict_def)

lemma EncodeToString_Strict [simp]: "EncodeToString (Strict e) s = EncodeToString e s"
  by (simp add: EncodeToString_def Strict_def)

lemma digit_of_Strict [simp]: "digit_of (Strict e) = digit_of e"
  by (simp add: digit_of_def Strict_def fun_eq_iff)

lemma digit_of_nth:
  assumes "proper e" and "d < 64"
  shows "digit_of e (en_alphabet e ! d) = Some d"
proof -
  have "takeWhile (\<lambda>x. x \<noteq> en_alphabet e ! d) (en_alphabet e) = take d (en_alphabet e)"
    using assms by (intro takeWhile_eq_take_P_nth) (auto simp: proper_def nth_eq_iff_index_eq)
  then show ?thesis using assms by (simp add: digit_of_def proper_def)
qed

lemma digit_of_Some: "digit_of e c = Some d \<Longrightarrow> d < length (en_alphabet e) \<and> en_alphabet e ! d = c"
  using nth_length_takeWhile [of "\<lambda>x. x \<noteq> c" "en_alphabet e"] by (auto simp: digit_of_def Let_def split: if_splits)

lemma those_map_Some: "(\<And>x. x \<in> set xs \<Longrightarrow> f x = Some (g x)) \<Longrightarrow> those (map f xs) = Some (map g xs)"
  by (induction xs) auto

lemma those_SomeD: "those ys = Some zs \<Longrightarrow> ys = map Some zs"
  by (induction ys arbitrary: zs) (auto split: option.splits)

lemma bytes_small: "list_all (\<lambda>b. b < 256) (map of_char s :: nat list)"
  by (simp add: list_all_iff)

lemma EncodeToString_set: "proper e \<Longrightarrow> c \<in> set (EncodeToString e s) \<Longrightarrow> c \<in> set (en_alphabet e)"
  using sextets_small [OF bytes_small [of s]] by (auto simp: EncodeToString_def proper_def list_all_iff)

lemma length_EncodeToString: "length (EncodeToString e s) = (4 * length s + 2) div 3"
  by (simp add: EncodeToString_def length_sextets)

theorem Decode_Encode:
  assumes "proper e"
  shows "DecodeString e (EncodeToString e s) = Some s"
proof -
  let ?ds = "sextets (map of_char s)"
  have small: "\<And>d. d \<in> set ?ds \<Longrightarrow> d < 64" using sextets_small [OF bytes_small [of s]] by (simp add: list_all_iff)
  have "filter (\<lambda>c. \<not> line_end c) (EncodeToString e s) = EncodeToString e s"
    using EncodeToString_set [OF assms] assms by (auto simp: filter_id_conv proper_def list_all_iff)
  moreover have "those (map (digit_of e) (EncodeToString e s)) = Some (map id ?ds)"
    unfolding EncodeToString_def map_map by (rule those_map_Some) (simp add: digit_of_nth [OF assms] small)
  ultimately show ?thesis by (simp add: DecodeString_def octets_sextets bytes_small comp_def)
qed

theorem Encode_Decode_Strict:
  assumes "proper e" and "DecodeString (Strict e) t = Some s"
  shows "EncodeToString e s = filter (\<lambda>c. \<not> line_end c) t"
proof -
  from assms(2) obtain ds bs where ds: "map (digit_of e) (filter (\<lambda>c. \<not> line_end c) t) = map Some ds"
      and bs: "octets True ds = Some bs" and s: "s = map char_of bs"
    unfolding DecodeString_def digit_of_Strict by (auto simp: Strict_def bind_eq_Some_conv dest!: those_SomeD)
  have len: "length ds = length (filter (\<lambda>c. \<not> line_end c) t)" using ds by (metis length_map)
  have nth: "digit_of e (filter (\<lambda>c. \<not> line_end c) t ! k) = Some (ds ! k)" if "k < length ds" for k
    using arg_cong [OF ds, of "\<lambda>xs. xs ! k"] that len by simp
  then have small: "list_all (\<lambda>d. d < 64) ds"
    using assms(1) digit_of_Some [OF nth] by (simp add: list_all_length proper_def)
  have "map of_char s = bs" using octets_small [OF bs small] by (simp add: s comp_def list_all_iff map_idI)
  then have "EncodeToString e s = map (\<lambda>d. en_alphabet e ! d) ds"
    using sextets_octets [OF bs small] by (simp add: EncodeToString_def)
  also have "\<dots> = filter (\<lambda>c. \<not> line_end c) t"
    by (rule nth_equalityI) (use len nth digit_of_Some in \<open>auto\<close>)
  finally show ?thesis .
qed

text \<open>What is encoded is a run of visible ASCII characters, which \<open>TrimSpace\<close> leaves alone.\<close>

definition visible :: "char \<Rightarrow> bool" where
  "visible c \<longleftrightarrow> in_range 33 126 c"

lemma visible_alphabet: "list_all visible (en_alphabet RawURLEncoding)" "list_all visible (en_alphabet RawStdEncoding)"
  by code_simp+

lemma TrimSpace_visible:
  assumes "list_all visible s"
  shows "TrimSpace s = s" and "TrimSpace (s @ [CHR 0x0A]) = s"
proof -
  have space: "\<not> is_space [c]" if "visible c" for c
    using that by (auto simp: visible_def in_range_def is_space_def)
  have ascii: "ascii (s @ [CHR 0x0A])" "ascii s"
    using assms by (auto simp: ascii_def list_all_iff visible_def in_range_def)
  have stop: "dropWhile is_space (map (\<lambda>c. [c]) t @ ts) = map (\<lambda>c. [c]) t @ ts" if "t \<noteq> []" "list_all visible t" for t ts
    using that space by (cases t) auto
  show "TrimSpace s = s"
    using assms stop [of s "[]"] stop [of "rev s" "[]"]
    by (cases "s = []") (simp_all add: TrimSpace_def trim_chunks_def rune_chunks_ascii ascii rev_map)
  show "TrimSpace (s @ [CHR 0x0A]) = s"
  proof (cases "s = []")
    case True
    have "TrimSpace [CHR 0x0A] = []" by code_simp
    then show ?thesis using True by simp
  next
    case False
    have "is_space [CHR 0x0A]" by (simp add: is_space_def)
    then show ?thesis using False assms stop [of s "[[CHR 0x0A]]"] stop [of "rev s" "[]"]
      by (simp add: TrimSpace_def trim_chunks_def rune_chunks_ascii ascii rev_map)
  qed
qed

lemma visible_encoding:
  "list_all visible (EncodeToString RawURLEncoding s)" "list_all visible (EncodeToString RawStdEncoding s)"
  using EncodeToString_set [OF proper_encodings(1)] EncodeToString_set [OF proper_encodings(2)] visible_alphabet
  unfolding list_all_iff by blast+

end
