(* ===== verification/Crypto.thy ===== *)
theory Crypto
  imports Go_Base64 Go_Strconv
begin

text \<open>
  Secrets at rest (\<^verbatim>\<open>internal/secretbox\<close>) and the tokens of sessions, devices and pairings. The
  cryptographic primitives are parameters: the random source, SHA-256, Argon2id, and the
  authenticated cipher behind the interface \<^verbatim>\<open>cipher.AEAD\<close>; so is the lower case of runes outside
  ASCII. What is used of them is \<open>crypto_ok\<close>.
\<close>

record AEAD =
  NonceSize :: nat
  Overhead :: nat
  aead_Seal :: "string \<Rightarrow> string \<Rightarrow> string \<Rightarrow> string"
  aead_Open :: "string \<Rightarrow> string \<Rightarrow> string \<Rightarrow> string option"

record crypto =
  random_bytes :: "nat \<Rightarrow> nat \<Rightarrow> string"
  Sum256 :: "string \<Rightarrow> string"
  IDKey :: "string \<Rightarrow> string \<Rightarrow> int \<Rightarrow> int \<Rightarrow> int \<Rightarrow> nat \<Rightarrow> string"
  NewGCM :: "string \<Rightarrow> AEAD"
  lower_rune :: "string \<Rightarrow> string"

definition aead_ok :: "AEAD \<Rightarrow> bool" where
  "aead_ok a \<longleftrightarrow> (\<forall>nonce plaintext purpose. length nonce = NonceSize a \<longrightarrow>
     aead_Open a nonce (aead_Seal a nonce plaintext purpose) purpose = Some plaintext \<and>
     length (aead_Seal a nonce plaintext purpose) = length plaintext + Overhead a)"

definition crypto_ok :: "crypto \<Rightarrow> bool" where
  "crypto_ok c \<longleftrightarrow> (\<forall>k n. length (random_bytes c k n) = n) \<and>
     (\<forall>p salt t m par n. length (IDKey c p salt t m par n) = n) \<and>
     (\<forall>key. length key = 32 \<longrightarrow> aead_ok (NewGCM c key))"

subsection \<open>The box\<close>

datatype secret_error = NotInitialized | InvalidSecret | AuthenticationFailed | InvalidKey | UnsafeKeyFile

type_synonym Box = "AEAD option"

definition keySize :: nat where "keySize = 32"

definition New :: "crypto \<Rightarrow> string \<Rightarrow> secret_error + Box" where
  "New c key = (if length key \<noteq> keySize then Inl InvalidKey else Inr (Some (NewGCM c key)))"

text \<open>The nonce is what \<open>rand.Read\<close> gave.\<close>

definition Seal :: "Box \<Rightarrow> string \<Rightarrow> string \<Rightarrow> string \<Rightarrow> secret_error + string" where
  "Seal box nonce plaintext purpose =
     (case box of None \<Rightarrow> Inl NotInitialized
      | Some a \<Rightarrow> Inr (EncodeToString RawURLEncoding (nonce @ aead_Seal a nonce plaintext purpose)))"

definition box_Open :: "Box \<Rightarrow> string \<Rightarrow> string \<Rightarrow> secret_error + string" where
  "box_Open box encoded purpose =
     (case box of None \<Rightarrow> Inl NotInitialized
      | Some a \<Rightarrow>
          (case DecodeString (Strict RawURLEncoding) encoded of
             None \<Rightarrow> Inl InvalidSecret
           | Some sealed \<Rightarrow>
               if length sealed < NonceSize a + Overhead a then Inl InvalidSecret
               else case aead_Open a (take (NonceSize a) sealed) (drop (NonceSize a) sealed) purpose of
                      None \<Rightarrow> Inl AuthenticationFailed
                    | Some plaintext \<Rightarrow> Inr plaintext))"

lemma Open_Seal:
  assumes "aead_ok a" and "length nonce = NonceSize a" and "Seal (Some a) nonce plaintext purpose = Inr sealed"
  shows "box_Open (Some a) sealed purpose = Inr plaintext"
proof -
  have "DecodeString (Strict RawURLEncoding) sealed = Some (nonce @ aead_Seal a nonce plaintext purpose)"
    using assms(3) Decode_Encode [of "Strict RawURLEncoding"] by (auto simp: Seal_def)
  then show ?thesis using assms(1,2) by (simp add: box_Open_def aead_ok_def)
qed

subsection \<open>The key file\<close>

record key_file =
  kf_regular :: bool
  kf_mode :: nat
  kf_content :: string

text \<open>A mode that gives the group or others no access, \<^verbatim>\<open>mode & 0o077 == 0\<close>.\<close>

definition private_mode :: "nat \<Rightarrow> bool" where
  "private_mode m \<longleftrightarrow> m mod 64 = 0"

definition readKey :: "key_file \<Rightarrow> secret_error + string" where
  "readKey f =
     (if \<not> kf_regular f \<or> \<not> private_mode (kf_mode f) then Inl UnsafeKeyFile
      else case DecodeString RawURLEncoding (TrimSpace (kf_content f)) of
             None \<Rightarrow> Inl InvalidKey
           | Some key \<Rightarrow> if length key \<noteq> keySize then Inl InvalidKey else Inr key)"

text \<open>\<open>LoadOrCreate\<close> when the directory can be written; the file is created with mode 0600.\<close>

definition LoadOrCreate :: "crypto \<Rightarrow> nat \<Rightarrow> key_file option \<Rightarrow> (secret_error + Box) \<times> key_file option" where
  "LoadOrCreate c draw file =
     (case file of
        Some f \<Rightarrow> (bindE (readKey f) (New c), file)
      | None \<Rightarrow>
          (let key = random_bytes c draw keySize
           in (New c key, Some \<lparr>kf_regular = True, kf_mode = 384, kf_content = EncodeToString RawURLEncoding key @ [CHR 0x0A]\<rparr>)))"

lemma readKey_created:
  "length key = keySize \<Longrightarrow> readKey \<lparr>kf_regular = True, kf_mode = 384, kf_content = EncodeToString RawURLEncoding key @ [CHR 0x0A]\<rparr> = Inr key"
  using TrimSpace_visible(2) [OF visible_encoding(1)] Decode_Encode [of RawURLEncoding]
  by (simp add: readKey_def private_mode_def)

subsection \<open>Tokens\<close>

definition tokenSize :: nat where "tokenSize = 32"

text \<open>\<open>newToken\<close> and \<open>newSessionToken\<close>: the token and its digest, from the bytes of \<open>rand.Read\<close>.\<close>

definition newToken :: "crypto \<Rightarrow> string \<Rightarrow> string \<times> string" where
  "newToken c secret = (let token = EncodeToString RawURLEncoding secret in (token, Sum256 c token))"

definition tokenDigest :: "crypto \<Rightarrow> string \<Rightarrow> string option" where
  "tokenDigest c token =
     (case DecodeString (Strict RawURLEncoding) (TrimSpace token) of
        None \<Rightarrow> None
      | Some raw \<Rightarrow> if length raw \<noteq> tokenSize then None else Some (Sum256 c (TrimSpace token)))"

definition sessionTokenDigest :: "crypto \<Rightarrow> string \<Rightarrow> string option" where
  "sessionTokenDigest c token =
     (case DecodeString (Strict RawURLEncoding) token of
        None \<Rightarrow> None
      | Some raw \<Rightarrow> if length raw \<noteq> tokenSize then None else Some (Sum256 c token))"

lemma digest_of_new:
  assumes "newToken c secret = (token, digest)" and "length secret = tokenSize"
  shows "tokenDigest c token = Some digest" and "sessionTokenDigest c token = Some digest"
  using assms Decode_Encode [of "Strict RawURLEncoding" secret] TrimSpace_visible(1) [OF visible_encoding(1)]
  by (auto simp: newToken_def tokenDigest_def sessionTokenDigest_def Let_def)

subsection \<open>Lower case\<close>

definition lower_byte :: "char \<Rightarrow> char" where
  "lower_byte b = (if in_range 65 90 b then char_of (of_char b + 32 :: nat) else b)"

definition ToLower :: "crypto \<Rightarrow> string \<Rightarrow> string" where
  "ToLower c s = concat (map (\<lambda>r. case r of [b] \<Rightarrow> if in_range 0 127 b then [lower_byte b] else lower_rune c r | _ \<Rightarrow> lower_rune c r) (rune_chunks s))"


subsection \<open>A sample instance of the primitives\<close>

text \<open>Not a cipher: it only satisfies \<open>crypto_ok\<close>, for the examples.\<close>

definition sample_tag :: "string \<Rightarrow> string" where
  "sample_tag purpose = take 16 (purpose @ replicate 16 (CHR 0x00))"

definition sample_aead :: AEAD where
  "sample_aead = \<lparr>NonceSize = 12, Overhead = 16, aead_Seal = (\<lambda>nonce plaintext purpose. plaintext @ sample_tag purpose),
     aead_Open = (\<lambda>nonce ciphertext purpose.
       let n = length ciphertext - 16
       in if drop n ciphertext = sample_tag purpose then Some (take n ciphertext) else None)\<rparr>"

definition sample_crypto :: crypto where
  "sample_crypto = \<lparr>random_bytes = (\<lambda>k n. replicate n (char_of (k mod 256))), Sum256 = (\<lambda>t. t),
     IDKey = (\<lambda>p salt t m par n. take n (p @ replicate n (CHR 0x00))), NewGCM = (\<lambda>key. sample_aead), lower_rune = (\<lambda>r. r)\<rparr>"

lemma sample_crypto_ok: "crypto_ok sample_crypto"
  by (simp add: crypto_ok_def sample_crypto_def aead_ok_def sample_aead_def sample_tag_def) (simp add: min_def)

subsection \<open>A secret survives a restart\<close>

text \<open>C35. The key created at the first start is read back at every later one, whatever the random source
  gives then, and what was sealed before under a purpose opens under it afterwards.\<close>

theorem secret_survives_restart:
  assumes "crypto_ok c" and "LoadOrCreate c k None = (Inr box, file)" and "box = Some a" and "length nonce = NonceSize a"
    and "Seal box nonce plaintext purpose = Inr sealed" and "LoadOrCreate c k' file = (restarted, file')"
  shows "restarted = Inr box \<and> file' = file \<and> box_Open box sealed purpose = Inr plaintext"
proof -
  let ?key = "random_bytes c k keySize"
  have key: "length ?key = keySize" "length ?key = 32" using assms(1) by (simp_all add: crypto_ok_def keySize_def)
  have created: "file = Some \<lparr>kf_regular = True, kf_mode = 384, kf_content = EncodeToString RawURLEncoding ?key @ [CHR 0x0A]\<rparr>"
      and box: "New c ?key = Inr box" using assms(2) by (simp_all add: LoadOrCreate_def Let_def)
  have "restarted = Inr box" "file' = file" using assms(6) readKey_created [OF key(1)] box by (simp_all add: created LoadOrCreate_def bindE_def)
  moreover have "aead_ok a" using assms(1,3) box key by (auto simp: New_def crypto_ok_def)
  ultimately show ?thesis using Open_Seal assms(3-5) by simp
qed

theorem secret_survives_restart_witness:
  "fst (LoadOrCreate sample_crypto 9 (snd (LoadOrCreate sample_crypto 7 None))) = Inr (Some sample_aead) \<and>
   box_Open (Some sample_aead) (EncodeToString RawURLEncoding (replicate 12 (CHR ''n'') @ ''secret'' @ sample_tag ''webhook'')) ''webhook'' =
     Inr ''secret''"
proof -
  have load: "LoadOrCreate sample_crypto 7 None = (Inr (Some sample_aead), snd (LoadOrCreate sample_crypto 7 None))"
    by (simp add: LoadOrCreate_def New_def keySize_def Let_def sample_crypto_def)
  have seal: "Seal (Some sample_aead) (replicate 12 (CHR ''n'')) ''secret'' ''webhook'' =
      Inr (EncodeToString RawURLEncoding (replicate 12 (CHR ''n'') @ ''secret'' @ sample_tag ''webhook''))"
    by (simp add: Seal_def sample_aead_def)
  have "length (replicate 12 (CHR ''n'')) = NonceSize sample_aead" by (simp add: sample_aead_def)
  from secret_survives_restart [OF sample_crypto_ok load refl this seal surjective_pairing]
  show ?thesis by blast
qed

end
