(* ===== verification/Passwords.thy ===== *)
theory Passwords
  imports Crypto
begin

text \<open>
  Passwords (\<^verbatim>\<open>internal/identity/password.go\<close>): the text a password is stored as, and the reading of
  that text when a password is checked, with what it uses of \<open>strings.Split\<close>, \<open>strconv.Atoi\<close> and
  \<open>fmt.Sscanf\<close>. The key derivation is a parameter.
\<close>

subsection \<open>Decimal integers\<close>

text \<open>\<open>show_int\<close> by arithmetic on integers, for evaluation.\<close>

function show_pos :: "int \<Rightarrow> string" where
  "show_pos i = (if i < 10 then [char_of (48 + i)] else show_pos (i div 10) @ [char_of (48 + i mod 10)])"
  by auto
termination by (relation "measure nat") auto

declare show_pos.simps [simp del]

lemma char_of_nat_int: "0 \<le> i \<Longrightarrow> char_of (nat i) = char_of i"
  by (metis char_of_nat nat_0_le)

lemma show_nat_pos: "0 \<le> i \<Longrightarrow> show_nat (nat i) = show_pos i"
proof (induction i rule: show_pos.induct)
  case (1 i)
  have "char_of (48 + nat j) = char_of (48 + j)" if "0 \<le> j" for j :: int
    using char_of_nat_int [of "48 + j"] that by (simp add: nat_add_distrib)
  from this [of "i mod 10"] this [of i] show ?case using 1
    by (simp add: show_nat.simps [of "nat i"] show_pos.simps [of i] nat_div_distrib nat_mod_distrib nat_less_iff)
qed

lemma show_int_code [code]: "show_int i = (if i < 0 then CHR ''-'' # show_pos (- i) else show_pos i)"
  by (simp add: show_int_def show_nat_pos)

subsection \<open>Splitting\<close>

fun Split :: "char \<Rightarrow> string \<Rightarrow> string list" where
  "Split sep [] = [[]]"
| "Split sep (c # cs) =
     (if c = sep then [] # Split sep cs
      else case Split sep cs of [] \<Rightarrow> [[c]] | p # ps \<Rightarrow> (c # p) # ps)"

lemma Split_piece: "sep \<notin> set p \<Longrightarrow> Split sep (p @ sep # s) = p # Split sep s"
  by (induction p) auto

lemma Split_last: "sep \<notin> set p \<Longrightarrow> Split sep p = [p]"
  by (induction p) auto

definition TrimPrefix :: "string \<Rightarrow> string \<Rightarrow> string" where
  "TrimPrefix s p = (if take (length p) s = p then drop (length p) s else s)"

subsection \<open>\<open>fmt.Sscanf\<close> with \<open>%d\<close> into an unsigned integer\<close>

text \<open>Spaces are skipped before a number, a line end is an error.\<close>

fun SkipSpace :: "string list \<Rightarrow> string list option" where
  "SkipSpace [] = Some []"
| "SkipSpace (r # rs) =
     (if r = [CHR 0x0D] \<and> rs \<noteq> [] \<and> hd rs = [CHR 0x0A] then SkipSpace rs
      else if r = [CHR 0x0A] then None
      else if is_space r then SkipSpace rs else Some (r # rs))"

definition digit_rune :: "string \<Rightarrow> bool" where
  "digit_rune r \<longleftrightarrow> (case r of [c] \<Rightarrow> is_digit c | _ \<Rightarrow> False)"

definition scan_uint :: "nat \<Rightarrow> string list \<Rightarrow> (int \<times> string list) option" where
  "scan_uint bits rs =
     (case SkipSpace rs of
        None \<Rightarrow> None
      | Some t \<Rightarrow>
          (case ParseUint (concat (takeWhile digit_rune t)) of
             None \<Rightarrow> None
           | Some v \<Rightarrow> if v < 2 ^ bits then Some (v, dropWhile digit_rune t) else None))"

definition literal :: "string \<Rightarrow> string list \<Rightarrow> string list option" where
  "literal s rs = (let n = length s in if take n rs = map (\<lambda>c. [c]) s then Some (drop n rs) else None)"

text \<open>\<^verbatim>\<open>fmt.Sscanf(s, "m=%d,t=%d,p=%d", &memory, &iterations, &parallelism)\<close>; what follows the last
  number is not looked at.\<close>

definition scan_parameters :: "string \<Rightarrow> (int \<times> int \<times> int) option" where
  "scan_parameters s =
     Option.bind (literal ''m='' (rune_chunks s)) (\<lambda>r1.
     Option.bind (scan_uint 32 r1) (\<lambda>(memory, r2).
     Option.bind (literal '',t='' r2) (\<lambda>r3.
     Option.bind (scan_uint 32 r3) (\<lambda>(iterations, r4).
     Option.bind (literal '',p='' r4) (\<lambda>r5.
     Option.bind (scan_uint 8 r5) (\<lambda>(parallelism, r6). Some (memory, iterations, parallelism)))))))"

subsection \<open>Hashing and checking\<close>

record passwordParameters =
  pp_memory :: int
  pp_iterations :: int
  pp_parallelism :: int
  pp_saltLength :: nat
  pp_keyLength :: nat

definition defaultPasswordParameters :: passwordParameters where
  "defaultPasswordParameters = \<lparr>pp_memory = 64 * 1024, pp_iterations = 3, pp_parallelism = 4, pp_saltLength = 16, pp_keyLength = 32\<rparr>"

text \<open>\<open>argon2.Version\<close>.\<close>

definition argon2_Version :: int where "argon2_Version = 19"

text \<open>The salt is what \<open>rand.Read\<close> gave.\<close>

definition hashPassword :: "crypto \<Rightarrow> string \<Rightarrow> string \<Rightarrow> string" where
  "hashPassword c salt password =
     (let p = defaultPasswordParameters;
          hash = IDKey c password salt (pp_iterations p) (pp_memory p) (pp_parallelism p) (pp_keyLength p)
      in ''$argon2id$v='' @ show_int argon2_Version @ ''$m='' @ show_int (pp_memory p) @ '',t='' @ show_int (pp_iterations p) @
         '',p='' @ show_int (pp_parallelism p) @ ''$'' @ EncodeToString RawStdEncoding salt @ ''$'' @
         EncodeToString RawStdEncoding hash)"

text \<open>\<open>None\<close> is \<open>errInvalidPasswordHash\<close>.\<close>

definition verifyPassword :: "crypto \<Rightarrow> string \<Rightarrow> string \<Rightarrow> bool option" where
  "verifyPassword c password encoded =
     (let parts = Split (CHR ''$'') encoded
      in if length parts \<noteq> 6 \<or> parts ! 0 \<noteq> '''' \<or> parts ! 1 \<noteq> ''argon2id'' then None
         else if ParseInt (TrimPrefix (parts ! 2) ''v='') \<noteq> Some argon2_Version then None
         else case scan_parameters (parts ! 3) of
           None \<Rightarrow> None
         | Some (memory, iterations, parallelism) \<Rightarrow>
             if memory < 8 * 1024 \<or> 1024 * 1024 < memory \<or> iterations < 1 \<or> 10 < iterations \<or> parallelism < 1 \<or> 16 < parallelism
             then None
             else case (DecodeString (Strict RawStdEncoding) (parts ! 4), DecodeString (Strict RawStdEncoding) (parts ! 5)) of
               (Some salt, Some expected) \<Rightarrow>
                 if length salt < 16 \<or> 64 < length salt \<or> length expected < 16 \<or> 64 < length expected then None
                 else Some (IDKey c password salt iterations memory parallelism (length expected) = expected)
             | _ \<Rightarrow> None)"

definition well_hashed :: "crypto \<Rightarrow> string \<Rightarrow> bool" where
  "well_hashed c encoded \<longleftrightarrow> (\<exists>salt password. length salt = 16 \<and> encoded = hashPassword c salt password)"

lemma scan_default: "scan_parameters ''m=65536,t=3,p=4'' = Some (65536, 3, 4)"
  by code_simp

lemma hashPassword_parts:
  "Split (CHR ''$'') (hashPassword c salt password) =
     ['''', ''argon2id'', ''v=19'', ''m=65536,t=3,p=4'', EncodeToString RawStdEncoding salt,
      EncodeToString RawStdEncoding (IDKey c password salt 3 65536 4 32)]"
proof -
  have shown: "show_int 19 = ''19''" "show_int 65536 = ''65536''" "show_int 3 = ''3''" "show_int 4 = ''4''"
    by (simp_all add: show_int_def show_nat.simps char_of_def bit_numeral_rec bit_0)
  have "CHR ''$'' \<notin> set (en_alphabet RawStdEncoding)" by code_simp
  then have no: "CHR ''$'' \<notin> set (EncodeToString RawStdEncoding s)" for s
    using EncodeToString_set [OF proper_encodings(2)] by blast
  have "hashPassword c salt password =
      [] @ CHR ''$'' # ''argon2id'' @ CHR ''$'' # ''v=19'' @ CHR ''$'' # ''m=65536,t=3,p=4'' @ CHR ''$'' #
      EncodeToString RawStdEncoding salt @ CHR ''$'' # EncodeToString RawStdEncoding (IDKey c password salt 3 65536 4 32)"
    by (simp add: hashPassword_def defaultPasswordParameters_def argon2_Version_def shown)
  then show ?thesis by (simp only:) (simp add: Split_piece Split_last no del: append_Cons append_Nil)
qed

theorem verify_hash:
  assumes "crypto_ok c" and "length salt = 16"
  shows "verifyPassword c other (hashPassword c salt password) =
    Some (IDKey c other salt 3 65536 4 32 = IDKey c password salt 3 65536 4 32)"
proof -
  have len: "length (IDKey c password salt 3 65536 4 32) = 32" using assms(1) by (simp add: crypto_ok_def)
  have dec: "DecodeString (Strict RawStdEncoding) (EncodeToString RawStdEncoding s) = Some s" for s
    using Decode_Encode [of "Strict RawStdEncoding"] by simp
  have version: "ParseInt (TrimPrefix ''v=19'' ''v='') = Some argon2_Version" by code_simp
  show ?thesis
    unfolding verifyPassword_def Let_def hashPassword_parts
    by (simp add: version scan_default dec len assms(2))
qed

end
