(* ===== verification/Accounts.thy ===== *)
theory Accounts
  imports Passwords
begin

text \<open>
  Accounts, sessions and passwords (\<^verbatim>\<open>internal/identity\<close>). A request that fails leaves the tables
  as they were; the draws of random bytes and identifiers advance in any case.
\<close>

subsection \<open>Tables\<close>

datatype account_error =
  AlreadyInitialized | BadInput | BadCredentials | BadSession | AccountConflict | NoAccount | BadHash | DatabaseError

record Principal =
  pr_ID :: string
  pr_Username :: string
  pr_DisplayName :: string
  pr_Role :: string
  pr_AuthorizationRegime :: string

record user_row =
  us_id :: string
  us_username :: string
  us_display_name :: string
  us_password_hash :: "string option"
  us_role :: string
  us_regime :: string
  us_created_at :: instant
  us_deactivated_at :: "instant option"
  us_suspended_at :: "instant option"
  us_suspension_reason :: string

record session_row =
  ss_user_id :: string
  ss_token_digest :: string
  ss_expires_at :: instant
  ss_last_seen_at :: instant
  ss_revoked_at :: "instant option"

record idb =
  id_crypto :: crypto
  id_draws :: nat
  id_uuid :: "nat \<Rightarrow> string"
  id_uuids :: nat
  id_now :: instant
  id_initialized_at :: "instant option"
  id_name :: string
  users :: "user_row list"
  sessions :: "session_row list"

definition sessionLifetime :: duration where "sessionLifetime = 12 * hour"
definition externalSessionLifetime :: duration where "externalSessionLifetime = 10 * 365 * 24 * hour"

definition principal_of :: "user_row \<Rightarrow> Principal" where
  "principal_of u = \<lparr>pr_ID = us_id u, pr_Username = us_username u, pr_DisplayName = us_display_name u,
     pr_Role = us_role u, pr_AuthorizationRegime = us_regime u\<rparr>"

definition rand_Read :: "nat \<Rightarrow> idb \<Rightarrow> string \<times> idb" where
  "rand_Read n s = (random_bytes (id_crypto s) (id_draws s) n, s\<lparr>id_draws := id_draws s + 1\<rparr>)"

subsection \<open>Validation\<close>

definition username_char :: "char \<Rightarrow> bool" where
  "username_char c \<longleftrightarrow> in_range 97 122 c \<or> is_digit c"

text \<open>\<^verbatim>\<open>^[a-z0-9][a-z0-9._-]{2,63}$\<close>\<close>

definition usernamePattern :: "string \<Rightarrow> bool" where
  "usernamePattern s \<longleftrightarrow> 3 \<le> length s \<and> length s \<le> 64 \<and> username_char (hd s) \<and>
     list_all (\<lambda>c. username_char c \<or> c \<in> set ''._-'') (tl s)"

definition ValidString :: "string \<Rightarrow> bool" where
  "ValidString s \<longleftrightarrow> list_all valid_rune (rune_chunks s)"

definition validateInstanceName :: "string \<Rightarrow> bool" where
  "validateInstanceName name \<longleftrightarrow> 1 \<le> rune_count name \<and> rune_count name \<le> 80"

definition validateDisplayName :: "string \<Rightarrow> bool" where
  "validateDisplayName name \<longleftrightarrow> 1 \<le> rune_count name \<and> rune_count name \<le> 100"

definition validatePassword :: "string \<Rightarrow> bool" where
  "validatePassword password \<longleftrightarrow> ValidString password \<and> 12 \<le> length password \<and> length password \<le> 128"

definition validateIdentityInput :: "string \<Rightarrow> string \<Rightarrow> string \<Rightarrow> bool" where
  "validateIdentityInput username displayName password \<longleftrightarrow>
     usernamePattern username \<and> validateDisplayName displayName \<and> validatePassword password"

definition roles :: "string list" where "roles = [''administrator'', ''operator'', ''observer'']"

definition validateRole :: "string \<Rightarrow> bool" where
  "validateRole role \<longleftrightarrow> role \<in> set roles"

definition normalizeUsername :: "crypto \<Rightarrow> string \<Rightarrow> string" where
  "normalizeUsername c username = ToLower c (TrimSpace username)"

subsection \<open>The instance\<close>

definition SetupStatus :: "idb \<Rightarrow> bool \<times> string" where
  "SetupStatus s = (id_initialized_at s \<noteq> None, id_name s)"

definition RenameInstance :: "string \<Rightarrow> idb \<Rightarrow> (account_error + (bool \<times> string)) \<times> idb" where
  "RenameInstance name s =
     (let name = TrimSpace name
      in if \<not> validateInstanceName name then (Inl BadInput, s)
         else let s' = s\<lparr>id_name := name\<rparr> in (Inr (SetupStatus s'), s'))"

text \<open>\<open>INSERT INTO cairnops_users\<close> under the primary key and the unique index of the usernames; \<open>None\<close>
  is a unique violation.\<close>

definition insert_user :: "string \<Rightarrow> string \<Rightarrow> string \<Rightarrow> string \<Rightarrow> idb \<Rightarrow> (user_row \<times> idb) option" where
  "insert_user username displayName passwordHash role s =
     (let u = \<lparr>us_id = id_uuid s (id_uuids s), us_username = username, us_display_name = displayName,
        us_password_hash = Some passwordHash, us_role = role, us_regime = ''local'', us_created_at = id_now s,
        us_deactivated_at = None, us_suspended_at = None, us_suspension_reason = ''''\<rparr>
      in if username \<in> us_username ` set (users s) \<or> us_id u \<in> us_id ` set (users s) then None
         else Some (u, s\<lparr>users := users s @ [u], id_uuids := id_uuids s + 1\<rparr>))"

definition insert_session :: "string \<Rightarrow> string \<Rightarrow> instant \<Rightarrow> idb \<Rightarrow> idb option" where
  "insert_session user digest expiresAt s =
     (if digest \<in> ss_token_digest ` set (sessions s) then None
      else Some (s\<lparr>sessions := sessions s @ [\<lparr>ss_user_id = user, ss_token_digest = digest, ss_expires_at = expiresAt,
        ss_last_seen_at = id_now s, ss_revoked_at = None\<rparr>]\<rparr>))"

record AuthenticatedSession =
  as_Principal :: Principal
  as_ExpiresAt :: instant
  as_Token :: string

definition Initialize :: "string \<Rightarrow> string \<Rightarrow> string \<Rightarrow> string \<Rightarrow> idb \<Rightarrow> (account_error + AuthenticatedSession) \<times> idb" where
  "Initialize instanceName username displayName password s =
     (let username = normalizeUsername (id_crypto s) username; displayName = TrimSpace displayName;
          instanceName = TrimSpace instanceName
      in if \<not> validateInstanceName instanceName \<or> \<not> validateIdentityInput username displayName password then (Inl BadInput, s)
         else
           let (salt, s) = rand_Read 16 s;
               passwordHash = hashPassword (id_crypto s) salt password;
               (secret, s) = rand_Read tokenSize s;
               (token, digest) = newToken (id_crypto s) secret;
               expiresAt = id_now s + sessionLifetime
           in if id_initialized_at s \<noteq> None then (Inl AlreadyInitialized, s)
              else case insert_user username displayName passwordHash ''administrator'' s of
                None \<Rightarrow> (Inl DatabaseError, s)
              | Some (u, s1) \<Rightarrow>
                  (case insert_session (us_id u) digest expiresAt s1 of
                     None \<Rightarrow> (Inl DatabaseError, s)
                   | Some s2 \<Rightarrow> (Inr \<lparr>as_Principal = principal_of u, as_ExpiresAt = expiresAt, as_Token = token\<rparr>,
                       s2\<lparr>id_initialized_at := Some (id_now s2), id_name := instanceName\<rparr>)))"

subsection \<open>Sessions\<close>

definition createSession :: "Principal \<Rightarrow> idb \<Rightarrow> (account_error + AuthenticatedSession) \<times> idb" where
  "createSession who s =
     (let (secret, s) = rand_Read tokenSize s;
          (token, digest) = newToken (id_crypto s) secret;
          lifetime = (if pr_AuthorizationRegime who = ''external'' then externalSessionLifetime else sessionLifetime);
          expiresAt = id_now s + lifetime
      in case insert_session (pr_ID who) digest expiresAt s of
           None \<Rightarrow> (Inl DatabaseError, s)
         | Some s' \<Rightarrow> (Inr \<lparr>as_Principal = who, as_ExpiresAt = expiresAt, as_Token = token\<rparr>, s'))"

definition Login :: "string \<Rightarrow> string \<Rightarrow> idb \<Rightarrow> (account_error + AuthenticatedSession) \<times> idb" where
  "Login username password s =
     (let username = normalizeUsername (id_crypto s) username
      in if \<not> usernamePattern username \<or> \<not> ValidString password \<or> length password < 1 \<or> 128 < length password
         then (Inl BadCredentials, s)
         else case find (\<lambda>u. us_username u = username \<and> us_deactivated_at u = None \<and> us_regime u = ''local'') (users s) of
           None \<Rightarrow> (Inl BadCredentials, s)
         | Some u \<Rightarrow>
             (case us_password_hash u of
                None \<Rightarrow> (Inl DatabaseError, s)
              | Some hash \<Rightarrow>
                  (case verifyPassword (id_crypto s) password hash of
                     None \<Rightarrow> (Inl BadHash, s)
                   | Some valid \<Rightarrow> if \<not> valid then (Inl BadCredentials, s) else createSession (principal_of u) s)))"

definition NewSession :: "string \<Rightarrow> idb \<Rightarrow> (account_error + AuthenticatedSession) \<times> idb" where
  "NewSession user s =
     (case find (\<lambda>u. us_id u = user \<and> us_regime u = ''external'' \<and> us_deactivated_at u = None \<and> us_suspended_at u = None) (users s) of
        None \<Rightarrow> (Inl BadCredentials, s)
      | Some u \<Rightarrow> createSession (principal_of u) s)"

definition live_session :: "idb \<Rightarrow> string \<Rightarrow> session_row \<Rightarrow> bool" where
  "live_session s digest r \<longleftrightarrow> ss_token_digest r = digest \<and> ss_revoked_at r = None \<and> id_now s < ss_expires_at r"

definition session_user :: "idb \<Rightarrow> session_row \<Rightarrow> user_row option" where
  "session_user s r =
     find (\<lambda>u. us_id u = ss_user_id r \<and> us_deactivated_at u = None \<and> us_suspended_at u = None) (users s)"

definition Authenticate :: "string \<Rightarrow> idb \<Rightarrow> (account_error + Principal) \<times> idb" where
  "Authenticate token s =
     (case sessionTokenDigest (id_crypto s) token of
        None \<Rightarrow> (Inl BadSession, s)
      | Some digest \<Rightarrow>
          (case find (\<lambda>r. live_session s digest r \<and> session_user s r \<noteq> None) (sessions s) of
             None \<Rightarrow> (Inl BadSession, s)
           | Some r \<Rightarrow>
               (case session_user s r of
                  None \<Rightarrow> (Inl BadSession, s)
                | Some u \<Rightarrow> (Inr (principal_of u),
                    s\<lparr>sessions := update_where (\<lambda>r. ss_token_digest r = digest \<and> ss_last_seen_at r < id_now s - 5 * minute)
                       (\<lambda>r. r\<lparr>ss_last_seen_at := id_now s\<rparr>) (sessions s)\<rparr>))))"

definition Logout :: "string \<Rightarrow> idb \<Rightarrow> (account_error + unit) \<times> idb" where
  "Logout token s =
     (case sessionTokenDigest (id_crypto s) token of
        None \<Rightarrow> (Inl BadSession, s)
      | Some digest \<Rightarrow>
          (let hit = (\<lambda>r. ss_token_digest r = digest \<and> ss_revoked_at r = None)
           in if filter hit (sessions s) = [] then (Inl BadSession, s)
              else (Inr (), s\<lparr>sessions := update_where hit (\<lambda>r. r\<lparr>ss_revoked_at := Some (id_now s)\<rparr>) (sessions s)\<rparr>)))"

definition revokeSessions :: "string \<Rightarrow> idb \<Rightarrow> idb" where
  "revokeSessions user s =
     s\<lparr>sessions := update_where (\<lambda>r. ss_user_id r = user \<and> ss_revoked_at r = None) (\<lambda>r. r\<lparr>ss_revoked_at := Some (id_now s)\<rparr>) (sessions s)\<rparr>"

subsection \<open>Administration of the accounts\<close>

record Account =
  ac_Principal :: Principal
  ac_CreatedAt :: instant
  ac_DeactivatedAt :: "instant option"
  ac_ExternalSuspendedAt :: "instant option"
  ac_ExternalSuspensionReason :: string
  ac_ActiveSessions :: int
  ac_LastSeenAt :: "instant option"

definition CountActiveSessions :: "string \<Rightarrow> idb \<Rightarrow> int" where
  "CountActiveSessions user s =
     int (length (filter (\<lambda>r. ss_user_id r = user \<and> ss_revoked_at r = None \<and> id_now s < ss_expires_at r) (sessions s)))"

definition account_of :: "idb \<Rightarrow> user_row \<Rightarrow> Account" where
  "account_of s u =
     (let seen = map ss_last_seen_at (filter (\<lambda>r. ss_user_id r = us_id u) (sessions s))
      in \<lparr>ac_Principal = principal_of u, ac_CreatedAt = us_created_at u, ac_DeactivatedAt = us_deactivated_at u,
          ac_ExternalSuspendedAt = us_suspended_at u, ac_ExternalSuspensionReason = us_suspension_reason u,
          ac_ActiveSessions = CountActiveSessions (us_id u) s,
          ac_LastSeenAt = (if seen = [] then None else Some (Max (set seen)))\<rparr>)"

definition ListAccounts :: "idb \<Rightarrow> Account list" where
  "ListAccounts s = map (account_of s) (sort_key (\<lambda>u. (if us_deactivated_at u = None then 0 else 1 :: int, us_created_at u)) (users s))"

definition CreateAccount :: "string \<Rightarrow> string \<Rightarrow> string \<Rightarrow> string \<Rightarrow> idb \<Rightarrow> (account_error + Account) \<times> idb" where
  "CreateAccount username displayName role password s =
     (let username = normalizeUsername (id_crypto s) username; displayName = TrimSpace displayName
      in if \<not> validateIdentityInput username displayName password \<or> \<not> validateRole role then (Inl BadInput, s)
         else
           let (salt, s) = rand_Read 16 s
           in case insert_user username displayName (hashPassword (id_crypto s) salt password) role s of
                None \<Rightarrow> (Inl AccountConflict, s)
              | Some (u, s') \<Rightarrow> (Inr (account_of (s'\<lparr>sessions := []\<rparr>) u), s'))"

definition administrator :: "user_row \<Rightarrow> bool" where
  "administrator u \<longleftrightarrow> us_role u = ''administrator'' \<and> us_deactivated_at u = None \<and> us_regime u = ''local'' \<and> us_password_hash u \<noteq> None"

text \<open>The frame of every change to an account: the change is applied, then the transaction
  rolls back when no administrator is left.\<close>

definition mutateAccount :: "string \<Rightarrow> (idb \<Rightarrow> account_error + idb) \<Rightarrow> idb \<Rightarrow> (account_error + Account) \<times> idb" where
  "mutateAccount user change s =
     (if user \<notin> us_id ` set (users s) then (Inl NoAccount, s)
      else case change s of
        Inl e \<Rightarrow> (Inl e, s)
      | Inr s' \<Rightarrow>
          if filter administrator (users s') = [] then (Inl AccountConflict, s)
          else (case find (\<lambda>u. us_id u = user) (users s') of
                  None \<Rightarrow> (Inl DatabaseError, s)
                | Some u \<Rightarrow> (Inr (account_of s' u), s')))"

definition set_account :: "string \<Rightarrow> (user_row \<Rightarrow> user_row) \<Rightarrow> idb \<Rightarrow> idb" where
  "set_account user f s = s\<lparr>users := update_where (\<lambda>u. us_id u = user) f (users s)\<rparr>"

definition change_account :: "string \<Rightarrow> string option \<Rightarrow> string option \<Rightarrow> idb \<Rightarrow> account_error + idb" where
  "change_account user displayName role s =
     (if role \<noteq> None \<and> list_ex (\<lambda>u. us_id u = user \<and> us_regime u = ''external'') (users s) then Inl AccountConflict
      else
        let s' = set_account user (\<lambda>u. u\<lparr>us_display_name := (case displayName of None \<Rightarrow> us_display_name u | Some d \<Rightarrow> d),
                   us_role := (case role of None \<Rightarrow> us_role u | Some r \<Rightarrow> r)\<rparr>) s
        in Inr (if role = None then s' else revokeSessions user s'))"

definition UpdateAccount :: "string \<Rightarrow> string \<Rightarrow> string option \<Rightarrow> string option \<Rightarrow> idb \<Rightarrow> (account_error + Account) \<times> idb" where
  "UpdateAccount actor user displayName role s =
     (let displayName = map_option TrimSpace displayName
      in if displayName = None \<and> role = None then (Inl BadInput, s)
         else if (case displayName of None \<Rightarrow> False | Some d \<Rightarrow> \<not> validateDisplayName d) then (Inl BadInput, s)
         else if (case role of None \<Rightarrow> False | Some r \<Rightarrow> \<not> validateRole r) then (Inl BadInput, s)
         else if role \<noteq> None \<and> actor = user then (Inl AccountConflict, s)
         else mutateAccount user (change_account user displayName role) s)"

definition activate_account :: "string \<Rightarrow> bool \<Rightarrow> idb \<Rightarrow> account_error + idb" where
  "activate_account user active s =
     (let s' = set_account user (\<lambda>u. u\<lparr>us_deactivated_at :=
                 (if active then None else case us_deactivated_at u of None \<Rightarrow> Some (id_now s) | Some t \<Rightarrow> Some t)\<rparr>) s
      in Inr (if active then s' else revokeSessions user s'))"

definition SetAccountActivation :: "string \<Rightarrow> string \<Rightarrow> bool \<Rightarrow> idb \<Rightarrow> (account_error + Account) \<times> idb" where
  "SetAccountActivation actor user active s =
     (if \<not> active \<and> actor = user then (Inl AccountConflict, s)
      else mutateAccount user (activate_account user active) s)"

subsection \<open>Replacing a password\<close>

definition writePassword :: "string \<Rightarrow> string \<Rightarrow> idb \<Rightarrow> idb" where
  "writePassword user password s =
     (let (salt, s) = rand_Read 16 s
      in set_account user (\<lambda>u. u\<lparr>us_password_hash := Some (hashPassword (id_crypto s) salt password)\<rparr>) s)"

definition ChangePassword :: "string \<Rightarrow> string \<Rightarrow> string \<Rightarrow> idb \<Rightarrow> (account_error + unit) \<times> idb" where
  "ChangePassword user current next s =
     (if \<not> validatePassword next \<or> current = next then (Inl BadInput, s)
      else case find (\<lambda>u. us_id u = user \<and> us_regime u = ''local'') (users s) of
        None \<Rightarrow> (Inl NoAccount, s)
      | Some u \<Rightarrow>
          (case us_password_hash u of
             None \<Rightarrow> (Inl DatabaseError, s)
           | Some hash \<Rightarrow>
               (case verifyPassword (id_crypto s) current hash of
                  None \<Rightarrow> (Inl BadHash, s)
                | Some valid \<Rightarrow> if \<not> valid then (Inl BadCredentials, s)
                    else (Inr (), revokeSessions user (writePassword user next s)))))"

definition replacePassword :: "(user_row \<Rightarrow> bool) \<Rightarrow> string \<Rightarrow> account_error \<Rightarrow> idb \<Rightarrow> (account_error + Principal) \<times> idb" where
  "replacePassword predicate next absent s =
     (if \<not> validatePassword next then (Inl BadInput, s)
      else case find predicate (users s) of
        None \<Rightarrow> (Inl absent, s)
      | Some u \<Rightarrow> (Inr (principal_of u), revokeSessions (us_id u) (writePassword (us_id u) next s)))"

definition SetPassword :: "string \<Rightarrow> string \<Rightarrow> idb \<Rightarrow> (account_error + Principal) \<times> idb" where
  "SetPassword user next = replacePassword (\<lambda>u. us_id u = user \<and> us_regime u = ''local'') next NoAccount"

definition RecoverPassword :: "string \<Rightarrow> string \<Rightarrow> idb \<Rightarrow> (account_error + Principal) \<times> idb" where
  "RecoverPassword username next s =
     (let name = normalizeUsername (id_crypto s) username
      in replacePassword (\<lambda>u. us_username u = name \<and> us_deactivated_at u = None \<and> us_regime u = ''local'') next BadCredentials s)"

end
