(* ===== verification/Notifications.thy ===== *)
theory Notifications
  imports Incident_Model Maintenance
begin

text \<open>
  The outbox of notifications (\<^verbatim>\<open>internal/notifications\<close>): \<open>Schedule\<close> turns the revisions of
  Incidents into deliveries per Channel, \<open>Claim\<close>, \<open>Complete\<close> and \<open>Fail\<close> carry them out. Each SQL
  statement is one definition that reads the tables as the statement does, and \<open>Schedule\<close>
  composes the eight statements of its transaction. Incidents and Impacts are those of the
  incident cycle, the windows those of planned maintenance.
\<close>

subsection \<open>Tables\<close>

datatype event_kind = Firing | IncidentUpdate | ResolvedEvent
datatype presentation = Alert | Silent
datatype delivery_status = DPending | DDelivered | DFailed | DCancelled

record channel_row =
  ch_id :: uuid
  ch_kind :: string
  ch_name :: string
  ch_endpoint :: string
  ch_credential_sealed :: string
  ch_severities :: "severity list"
  ch_enabled :: bool
  ch_status :: string
  ch_last_error :: string

record delivery_row =
  dl_id :: int
  dl_incident_id :: uuid
  dl_channel_id :: uuid
  dl_incident_revision :: int
  dl_event_kind :: event_kind
  dl_event_key :: string
  dl_presentation :: presentation
  dl_status :: delivery_status
  dl_target_name :: string
  dl_nature_label :: string
  dl_alert_kind :: kind
  dl_severity :: severity
  dl_opened_at :: instant
  dl_resolved_at :: "instant option"
  dl_impact_count :: int
  dl_affected_target_count :: int
  dl_max_affected_targets :: int
  dl_propagation_status :: propagation
  dl_extended :: bool
  dl_attempts :: int
  dl_next_attempt_at :: instant
  dl_lease_owner :: "string option"
  dl_lease_until :: "instant option"
  dl_delivered_at :: "instant option"
  dl_last_error :: string

record ndb =
  n_now :: instant
  n_stability_seconds :: int
  n_db :: db
  n_plan :: mdb
  n_channels :: "channel_row list"
  n_outbox :: "delivery_row list"
  n_next_id :: int

text \<open>\<open>NewPostgresStoreWithStabilityDelay\<close> and \<open>stabilityDelaySeconds\<close>.\<close>

definition stabilityDelaySeconds :: "duration \<Rightarrow> int" where
  "stabilityDelaySeconds delay = go_div (if delay < 0 then 0 else delay) second"

definition normalizeSeverities :: "severity list \<Rightarrow> cycle_error + severity list" where
  "normalizeSeverities values =
     (let vs = (if values = [] then [SeverityWarning, SeverityMajor, SeverityCritical] else values)
      in if \<exists>v \<in> set vs. \<not> validSeverity v then Inl ErrInvalidInput
         else Inr (sort_key severity_rank (rev (remdups (rev vs)))))"

subsection \<open>What the statements read\<close>

definition under_maintenance :: "ndb \<Rightarrow> uuid \<Rightarrow> bool" where
  "under_maintenance s target \<longleftrightarrow>
     (\<exists>(i, t) \<in> set (m_links (n_plan s)). t = target \<and>
        (\<exists>r \<in> set (maintenances (n_plan s)). mt_id r = i \<and> mt_cancelled_at r = None \<and>
           mt_starts_at r \<le> n_now s \<and> n_now s \<le> mt_ends_at r))"

definition notifiable :: "ndb \<Rightarrow> incident_row \<Rightarrow> bool" where
  "notifiable s i \<longleftrightarrow>
     (\<exists>m \<in> set (impacts (n_db s)). im_incident_id m = in_id i \<and> im_status m = Active \<and>
        \<not> under_maintenance s (im_target_id m))"

definition open_lease :: "ndb \<Rightarrow> delivery_row \<Rightarrow> bool" where
  "open_lease s d \<longleftrightarrow> (case dl_lease_until d of None \<Rightarrow> True | Some t \<Rightarrow> t < n_now s)"

definition unsent :: "delivery_row \<Rightarrow> bool" where
  "unsent d \<longleftrightarrow> dl_status d = DPending \<or> dl_status d = DFailed"

definition channel_open :: "channel_row \<Rightarrow> bool" where
  "channel_open c \<longleftrightarrow> ch_enabled c \<and> ch_status c \<noteq> ''disabled''"

definition incident_of :: "ndb \<Rightarrow> delivery_row \<Rightarrow> incident_row option" where
  "incident_of s d = find (\<lambda>i. in_id i = dl_incident_id d) (incidents (n_db s))"

definition channel_of :: "ndb \<Rightarrow> delivery_row \<Rightarrow> channel_row option" where
  "channel_of s d = find (\<lambda>c. ch_id c = dl_channel_id d) (n_channels s)"

definition target_name_of :: "ndb \<Rightarrow> impact_row \<Rightarrow> string option" where
  "target_name_of s m = map_option tg_name (find (\<lambda>t. tg_id t = im_target_id m) (targets (n_db s)))"

text \<open>The name of the first resource of an Incident, among the active Impacts or among all.\<close>

definition first_target :: "ndb \<Rightarrow> bool \<Rightarrow> incident_row \<Rightarrow> string option" where
  "first_target s only_active i =
     Option.bind (first_min (\<lambda>m. (im_opened_at m, im_id m))
         (filter (\<lambda>m. im_incident_id m = in_id i \<and> (only_active \<longrightarrow> im_status m = Active) \<and> target_name_of s m \<noteq> None)
           (impacts (n_db s))))
       (target_name_of s)"

definition coalesce :: "'a option \<Rightarrow> 'a \<Rightarrow> 'a" where
  "coalesce a d = (case a of None \<Rightarrow> d | Some v \<Rightarrow> v)"

definition active_name :: "ndb \<Rightarrow> incident_row \<Rightarrow> string \<Rightarrow> string" where
  "active_name s i otherwise =
     (if 1 < in_affected_target_count i then show_int (in_affected_target_count i) @ ('' Cibles affect'' @ [CHR 0xC3, CHR 0xA9] @ ''es'')
      else coalesce (first_target s True i) otherwise)"

definition resolved_name :: "ndb \<Rightarrow> incident_row \<Rightarrow> string \<Rightarrow> string" where
  "resolved_name s i otherwise =
     (if in_max_affected_targets i = 1 then coalesce (first_target s False i) otherwise
      else show_int (in_max_affected_targets i) @ ('' Cibles affect'' @ [CHR 0xC3, CHR 0xA9] @ ''es au maximum''))"

text \<open>When the opening of an Incident is due: at once when critical, after the stability delay
  otherwise.\<close>

definition due_at :: "ndb \<Rightarrow> incident_row \<Rightarrow> instant" where
  "due_at s i =
     (if in_severity i = SeverityCritical then n_now s
      else coalesce (in_resumed_at i) (in_created_at i) + n_stability_seconds s * second)"

subsection \<open>Writing deliveries\<close>

definition delivery_of :: "ndb \<Rightarrow> incident_row \<Rightarrow> uuid \<Rightarrow> delivery_row" where
  "delivery_of s i channel =
     \<lparr>dl_id = 0, dl_incident_id = in_id i, dl_channel_id = channel, dl_incident_revision = in_revision i,
      dl_event_kind = Firing, dl_event_key = '''', dl_presentation = Alert, dl_status = DPending,
      dl_target_name = '''', dl_nature_label = in_nature_label i, dl_alert_kind = in_alert_kind i,
      dl_severity = in_severity i, dl_opened_at = in_opened_at i, dl_resolved_at = None,
      dl_impact_count = in_impact_count i, dl_affected_target_count = in_affected_target_count i,
      dl_max_affected_targets = max (in_max_affected_targets i) 1,
      dl_propagation_status = in_propagation_status i, dl_extended = in_extended i,
      dl_attempts = 0, dl_next_attempt_at = n_now s, dl_lease_owner = None, dl_lease_until = None,
      dl_delivered_at = None, dl_last_error = ''''\<rparr>"

definition same_key :: "delivery_row \<Rightarrow> delivery_row \<Rightarrow> bool" where
  "same_key a b \<longleftrightarrow> dl_incident_id a = dl_incident_id b \<and> dl_channel_id a = dl_channel_id b \<and>
     dl_event_key a = dl_event_key b"

text \<open>\<open>INSERT ... ON CONFLICT (incident_id, channel_id, event_key) DO UPDATE SET f WHERE status
  = 'cancelled'\<close>; with \<open>f\<close> the identity, \<open>ON CONFLICT DO NOTHING\<close>. A conflict uses up an
  identity value too.\<close>

definition upsert :: "(delivery_row \<Rightarrow> delivery_row \<Rightarrow> delivery_row) \<Rightarrow> delivery_row \<Rightarrow> ndb \<Rightarrow> ndb" where
  "upsert f row s =
     s\<lparr>n_next_id := n_next_id s + 1,
       n_outbox := (if \<exists>d \<in> set (n_outbox s). same_key d row
                    then update_where (\<lambda>d. same_key d row \<and> dl_status d = DCancelled) (f row) (n_outbox s)
                    else n_outbox s @ [row\<lparr>dl_id := n_next_id s\<rparr>])\<rparr>"

definition rearm_opening :: "delivery_row \<Rightarrow> delivery_row \<Rightarrow> delivery_row" where
  "rearm_opening excluded d =
     d\<lparr>dl_status := DPending, dl_next_attempt_at := dl_next_attempt_at excluded, dl_last_error := '''',
       dl_lease_owner := None, dl_lease_until := None\<rparr>"

definition rearm_resumption :: "delivery_row \<Rightarrow> delivery_row \<Rightarrow> delivery_row" where
  "rearm_resumption excluded d =
     (rearm_opening excluded d)\<lparr>dl_incident_revision := dl_incident_revision excluded, dl_opened_at := dl_opened_at excluded\<rparr>"

definition keep_row :: "delivery_row \<Rightarrow> delivery_row \<Rightarrow> delivery_row" where
  "keep_row excluded d = d"

definition cancel_row :: "string \<Rightarrow> delivery_row \<Rightarrow> delivery_row" where
  "cancel_row reason d =
     d\<lparr>dl_status := DCancelled, dl_last_error := reason, dl_lease_owner := None, dl_lease_until := None\<rparr>"

definition cancel_deliveries :: "string \<Rightarrow> (delivery_row \<Rightarrow> bool) \<Rightarrow> ndb \<Rightarrow> ndb" where
  "cancel_deliveries reason P s =
     s\<lparr>n_outbox := update_where (\<lambda>d. unsent d \<and> open_lease s d \<and> P d) (cancel_row reason) (n_outbox s)\<rparr>"

subsection \<open>The statements of \<open>Schedule\<close>\<close>

definition obsolete :: "ndb \<Rightarrow> incident_row \<Rightarrow> bool" where
  "obsolete s i \<longleftrightarrow> in_status i = Resolved \<or> in_acknowledged_at i \<noteq> None \<or> \<not> notifiable s i"

definition cancel_obsolete :: "ndb \<Rightarrow> ndb" where
  "cancel_obsolete s =
     cancel_deliveries (''Incident acquitt'' @ [CHR 0xC3, CHR 0xA9] @ '', r'' @ [CHR 0xC3, CHR 0xA9] @ ''solu ou enti'' @ [CHR 0xC3, CHR 0xA8] @ ''rement Sous maintenance'')
       (\<lambda>d. dl_event_kind d = Firing \<and> (case incident_of s d of None \<Rightarrow> False | Some i \<Rightarrow> obsolete s i)) s"

definition announced :: "ndb \<Rightarrow> incident_row \<Rightarrow> bool" where
  "announced s i \<longleftrightarrow> in_status i = Active \<and> in_acknowledged_at i = None \<and> 0 < in_active_impact_count i \<and> notifiable s i"

definition openings :: "ndb \<Rightarrow> delivery_row list" where
  "openings s =
     concat (map (\<lambda>i. map (\<lambda>c. (delivery_of s i (ch_id c))\<lparr>dl_event_key := ''firing'',
           dl_target_name := active_name s i (''Cible affect'' @ [CHR 0xC3, CHR 0xA9] @ ''e''), dl_next_attempt_at := due_at s i\<rparr>)
         (filter (\<lambda>c. channel_open c \<and> in_severity i \<in> set (ch_severities c)) (n_channels s)))
       (filter (announced s) (incidents (n_db s))))"

definition schedule_openings :: "ndb \<Rightarrow> ndb" where
  "schedule_openings s = fold (upsert rearm_opening) (openings s) s"

definition delivered_openings :: "ndb \<Rightarrow> incident_row \<Rightarrow> (delivery_row \<times> channel_row) list" where
  "delivered_openings s i =
     concat (map (\<lambda>d. map (Pair d) (filter (\<lambda>c. ch_id c = dl_channel_id d \<and> channel_open c) (n_channels s)))
       (filter (\<lambda>d. dl_incident_id d = in_id i \<and> dl_event_key d = ''firing'' \<and> dl_status d = DDelivered) (n_outbox s)))"

definition resumptions :: "ndb \<Rightarrow> delivery_row list" where
  "resumptions s =
     concat (map (\<lambda>i. map (\<lambda>(opening, c). (delivery_of s i (ch_id c))\<lparr>dl_event_key := ''resumed'',
           dl_target_name := dl_target_name opening, dl_opened_at := coalesce (in_resumed_at i) 0,
           dl_next_attempt_at := due_at s i\<rparr>)
         (filter (\<lambda>(opening, c). in_severity i \<in> set (ch_severities c)) (delivered_openings s i)))
       (filter (\<lambda>i. announced s i \<and> 0 < in_resumption_count i \<and> in_resumed_at i \<noteq> None) (incidents (n_db s))))"

definition schedule_resumptions :: "ndb \<Rightarrow> ndb" where
  "schedule_resumptions s = fold (upsert rearm_resumption) (resumptions s) s"

definition refreshed :: "ndb \<Rightarrow> incident_row \<Rightarrow> delivery_row \<Rightarrow> delivery_row" where
  "refreshed s i d =
     d\<lparr>dl_incident_revision := in_revision i,
       dl_next_attempt_at := (if dl_status d = DFailed then dl_next_attempt_at d else due_at s i),
       dl_opened_at := (if dl_event_key d = ''resumed'' then coalesce (in_resumed_at i) (dl_opened_at d) else dl_opened_at d),
       dl_target_name := active_name s i (dl_target_name d),
       dl_nature_label := in_nature_label i, dl_alert_kind := in_alert_kind i, dl_severity := in_severity i,
       dl_impact_count := in_impact_count i, dl_affected_target_count := in_affected_target_count i,
       dl_max_affected_targets := max (in_max_affected_targets i) 1,
       dl_propagation_status := in_propagation_status i, dl_extended := in_extended i\<rparr>"

definition refresh_pending :: "ndb \<Rightarrow> ndb" where
  "refresh_pending s =
     s\<lparr>n_outbox := update_where
         (\<lambda>d. dl_event_key d \<in> {''firing'', ''resumed''} \<and> unsent d \<and> open_lease s d \<and> incident_of s d \<noteq> None)
         (\<lambda>d. case incident_of s d of None \<Rightarrow> d | Some i \<Rightarrow> refreshed s i d) (n_outbox s)\<rparr>"

text \<open>The deliveries already made as alerts on a Channel, the strongest severity among them, and
  the last revision a Channel knows or will know.\<close>

definition delivered_alerts :: "ndb \<Rightarrow> uuid \<Rightarrow> uuid \<Rightarrow> delivery_row list" where
  "delivered_alerts s incident channel =
     filter (\<lambda>d. dl_incident_id d = incident \<and> dl_channel_id d = channel \<and> dl_status d = DDelivered \<and> dl_presentation d = Alert)
       (n_outbox s)"

definition strongest :: "delivery_row list \<Rightarrow> int" where
  "strongest ds = foldr max (map (\<lambda>d. severity_rank (dl_severity d)) ds) 0"

definition known_revision :: "ndb \<Rightarrow> uuid \<Rightarrow> uuid \<Rightarrow> int" where
  "known_revision s incident channel =
     foldr max (map dl_incident_revision
       (filter (\<lambda>d. dl_incident_id d = incident \<and> dl_channel_id d = channel \<and> dl_status d \<noteq> DCancelled) (n_outbox s))) (-1)"

definition revision_presentation :: "ndb \<Rightarrow> incident_row \<Rightarrow> uuid \<Rightarrow> presentation" where
  "revision_presentation s i channel =
     (let alerts = delivered_alerts s (in_id i) channel
      in if in_status i = Resolved \<or> \<not> notifiable s i then Silent
         else if strongest alerts < severity_rank (in_severity i) \<or> (in_extended i \<and> \<not> (\<exists>d \<in> set alerts. dl_extended d))
              then Alert
         else Silent)"

text \<open>The revisions that are still being retried: when the next attempt is, and how many were
  made.\<close>

definition retried :: "ndb \<Rightarrow> uuid \<Rightarrow> uuid \<Rightarrow> delivery_row list" where
  "retried s incident channel =
     filter (\<lambda>d. dl_incident_id d = incident \<and> dl_channel_id d = channel \<and> dl_event_kind d = IncidentUpdate \<and>
       unsent d \<and> 0 < dl_attempts d) (n_outbox s)"

definition revision_row :: "ndb \<Rightarrow> incident_row \<Rightarrow> delivery_row \<Rightarrow> delivery_row" where
  "revision_row s i opening =
     (let earlier = retried s (in_id i) (dl_channel_id opening)
      in (delivery_of s i (dl_channel_id opening))
           \<lparr>dl_event_kind := IncidentUpdate, dl_event_key := ''revision:'' @ show_int (in_revision i),
            dl_presentation := revision_presentation s i (dl_channel_id opening),
            dl_target_name := (if in_status i = Resolved then resolved_name s i (dl_target_name opening)
                               else active_name s i (dl_target_name opening)),
            dl_resolved_at := in_resolved_at i,
            dl_next_attempt_at := (if earlier = [] then n_now s else Max (set (map dl_next_attempt_at earlier))),
            dl_attempts := foldr max (map dl_attempts earlier) 0\<rparr>)"

definition updates :: "ndb \<Rightarrow> delivery_row list" where
  "updates s =
     concat (map (\<lambda>i. map (\<lambda>(opening, c). revision_row s i opening)
         (filter (\<lambda>(opening, c).
             (notifiable s i \<or> in_status i = Resolved \<or> in_active_impact_count i = 0) \<and>
             known_revision s (in_id i) (dl_channel_id opening) < in_revision i \<and>
             (ch_kind c = ''in_app'' \<or>
              revision_presentation s i (dl_channel_id opening) = Alert \<and> in_severity i \<in> set (ch_severities c)))
           (delivered_openings s i)))
       (incidents (n_db s)))"

definition schedule_updates :: "ndb \<Rightarrow> ndb" where
  "schedule_updates s = fold (upsert keep_row) (updates s) s"

definition replace_stale :: "ndb \<Rightarrow> ndb" where
  "replace_stale s =
     cancel_deliveries (''r'' @ [CHR 0xC3, CHR 0xA9] @ ''vision d'' @ [CHR 0xE2, CHR 0x80, CHR 0x99] @ ''Incident remplac'' @ [CHR 0xC3, CHR 0xA9] @ ''e'')
       (\<lambda>d. dl_event_kind d = IncidentUpdate \<and>
          (case incident_of s d of None \<Rightarrow> False | Some i \<Rightarrow> dl_incident_revision d < in_revision i)) s"

text \<open>What the last delivered alert of a Channel announced.\<close>

definition last_alert :: "ndb \<Rightarrow> uuid \<Rightarrow> uuid \<Rightarrow> event_kind option" where
  "last_alert s incident channel =
     map_option dl_event_kind
       (first_max (\<lambda>d. (case dl_delivered_at d of None \<Rightarrow> (0 :: int, 0 :: int) | Some t \<Rightarrow> (1, t), dl_id d))
         (delivered_alerts s incident channel))"

definition resolution_key :: "incident_row \<Rightarrow> string" where
  "resolution_key i =
     (if in_resumption_count i = 0 then ''resolved'' else ''resolved:'' @ show_int (in_resumption_count i))"

definition resolutions :: "ndb \<Rightarrow> delivery_row list" where
  "resolutions s =
     concat (map (\<lambda>i. map (\<lambda>(opening, c). (delivery_of s i (dl_channel_id opening))
           \<lparr>dl_event_kind := ResolvedEvent, dl_event_key := resolution_key i,
            dl_target_name := resolved_name s i (dl_target_name opening),
            dl_resolved_at := in_resolved_at i, dl_affected_target_count := 0\<rparr>)
         (filter (\<lambda>(opening, c). ch_kind c = ''mattermost'' \<and>
             coalesce (last_alert s (in_id i) (dl_channel_id opening)) ResolvedEvent \<noteq> ResolvedEvent)
           (delivered_openings s i)))
       (filter (\<lambda>i. in_status i = Resolved \<and> in_resolved_at i \<noteq> None) (incidents (n_db s))))"

definition schedule_resolutions :: "ndb \<Rightarrow> ndb" where
  "schedule_resolutions s = fold (upsert keep_row) (resolutions s) s"

definition cancel_disabled :: "ndb \<Rightarrow> ndb" where
  "cancel_disabled s =
     cancel_deliveries (''canal d'' @ [CHR 0xC3, CHR 0xA9] @ ''sactiv'' @ [CHR 0xC3, CHR 0xA9])
       (\<lambda>d. case channel_of s d of None \<Rightarrow> False | Some c \<Rightarrow> \<not> channel_open c) s"

definition Schedule :: "ndb \<Rightarrow> ndb" where
  "Schedule s =
     cancel_disabled (schedule_resolutions (replace_stale (schedule_updates
       (refresh_pending (schedule_resumptions (schedule_openings (cancel_obsolete s)))))))"

subsection \<open>Carrying out a delivery\<close>

record Delivery =
  dv_ID :: int
  dv_IncidentID :: uuid
  dv_IncidentRevision :: int
  dv_ChannelID :: uuid
  dv_ChannelKind :: string
  dv_EventKind :: event_kind
  dv_Presentation :: presentation
  dv_TargetName :: string
  dv_NatureKey :: string
  dv_NatureScope :: string
  dv_NatureLabel :: string
  dv_AlertKind :: kind
  dv_Severity :: severity
  dv_ImpactCount :: int
  dv_AffectedTargets :: int
  dv_MaxAffected :: int
  dv_PropagationStatus :: propagation
  dv_Extended :: bool
  dv_OpenedAt :: instant
  dv_ResolvedAt :: "instant option"
  dv_CredentialSealed :: string
  dv_Context :: Context

definition claimable :: "ndb \<Rightarrow> delivery_row \<Rightarrow> bool" where
  "claimable s d \<longleftrightarrow> unsent d \<and> dl_next_attempt_at d \<le> n_now s \<and> open_lease s d \<and>
     (case (channel_of s d, incident_of s d) of
        (Some c, Some i) \<Rightarrow> channel_open c \<and>
          (dl_event_kind d \<noteq> Firing \<or> in_status i = Active \<and> in_acknowledged_at i = None)
      | _ \<Rightarrow> False)"

definition context_fact :: "ndb \<Rightarrow> delivery_row \<Rightarrow> Fact option" where
  "context_fact s d =
     (let proofs = filter (\<lambda>e. ev_incident_id e = dl_incident_id d \<and> ev_invalidated_at e = None) (evidence (n_db s));
          shown = (if dl_resolved_at d \<noteq> None \<or> \<not> (\<exists>e \<in> set proofs. ev_active e) then proofs else filter ev_active proofs)
      in case remdups (map ev_alert_facts shown) of [f] \<Rightarrow> if f \<noteq> no_fact then Some f else None | _ \<Rightarrow> None)"

definition context_names :: "ndb \<Rightarrow> delivery_row \<Rightarrow> string list" where
  "context_names s d =
     take 3 (map (\<lambda>m. coalesce (target_name_of s m) '''')
       (sort_key (\<lambda>m. (im_opened_at m, im_id m))
         (filter (\<lambda>m. im_incident_id m = dl_incident_id d \<and> (dl_resolved_at d \<noteq> None \<or> im_status m = Active) \<and>
             target_name_of s m \<noteq> None) (impacts (n_db s)))))"

definition previous_severity :: "ndb \<Rightarrow> delivery_row \<Rightarrow> severity" where
  "previous_severity s d =
     (case first_max (\<lambda>p. severity_rank (dl_severity p))
         (filter (\<lambda>p. dl_id p \<noteq> dl_id d) (delivered_alerts s (dl_incident_id d) (dl_channel_id d))) of
        None \<Rightarrow> ''''
      | Some p \<Rightarrow>
          if dl_presentation d = Alert \<and> dl_resolved_at d = None \<and> severity_rank (dl_severity p) < severity_rank (dl_severity d)
          then dl_severity p else '''')"

definition duration_seconds :: "incident_row \<Rightarrow> delivery_row \<Rightarrow> int" where
  "duration_seconds i d =
     (case dl_resolved_at d of
        None \<Rightarrow> 0
      | Some r \<Rightarrow>
          (let start = (case in_resumed_at i of Some t \<Rightarrow> if t \<le> r then t else dl_opened_at d | None \<Rightarrow> dl_opened_at d)
           in max ((r - start) div second) 0))"

definition claimed_delivery :: "ndb \<Rightarrow> incident_row \<Rightarrow> channel_row \<Rightarrow> delivery_row \<Rightarrow> Delivery" where
  "claimed_delivery s i c d =
     \<lparr>dv_ID = dl_id d, dv_IncidentID = dl_incident_id d, dv_IncidentRevision = dl_incident_revision d,
      dv_ChannelID = dl_channel_id d, dv_ChannelKind = ch_kind c, dv_EventKind = dl_event_kind d,
      dv_Presentation = dl_presentation d, dv_TargetName = dl_target_name d,
      dv_NatureKey = in_nature_key i, dv_NatureScope = in_nature_scope i,
      dv_NatureLabel = dl_nature_label d, dv_AlertKind = dl_alert_kind d, dv_Severity = dl_severity d,
      dv_ImpactCount = dl_impact_count d, dv_AffectedTargets = dl_affected_target_count d,
      dv_MaxAffected = dl_max_affected_targets d, dv_PropagationStatus = dl_propagation_status d,
      dv_Extended = dl_extended d, dv_OpenedAt = dl_opened_at d, dv_ResolvedAt = dl_resolved_at d,
      dv_CredentialSealed = ch_credential_sealed c,
      dv_Context = \<lparr>cx_Fact = context_fact s d, cx_TargetNames = context_names s d,
        cx_PreviousSeverity = previous_severity s d, cx_DurationSeconds = duration_seconds i d,
        cx_Resumptions = in_resumption_count i\<rparr>\<rparr>"

definition lease_row :: "ndb \<Rightarrow> string \<Rightarrow> delivery_row \<Rightarrow> delivery_row" where
  "lease_row s worker d =
     d\<lparr>dl_lease_owner := Some (TrimSpace worker), dl_lease_until := Some (n_now s + 30 * second)\<rparr>"

text \<open>\<open>None\<close> is \<open>ErrNoDelivery\<close>.\<close>

definition Claim :: "string \<Rightarrow> ndb \<Rightarrow> Delivery option \<times> ndb" where
  "Claim worker s =
     (case first_min (\<lambda>d. (dl_next_attempt_at d, dl_id d)) (filter (claimable s) (n_outbox s)) of
        None \<Rightarrow> (None, s)
      | Some d \<Rightarrow>
          (case (incident_of s d, channel_of s d) of
             (Some i, Some c) \<Rightarrow>
               (Some (claimed_delivery s i c d),
                s\<lparr>n_outbox := update_where (\<lambda>r. dl_id r = dl_id d) (lease_row s worker) (n_outbox s)\<rparr>)
           | _ \<Rightarrow> (None, s)))"

definition held_by :: "int \<Rightarrow> string \<Rightarrow> delivery_row \<Rightarrow> bool" where
  "held_by delivery worker d \<longleftrightarrow> dl_id d = delivery \<and> dl_lease_owner d = Some (TrimSpace worker)"

text \<open>The second half of the statements of \<open>Complete\<close> and \<open>Fail\<close>: the Channels of the rows just
  written; the result is whether exactly one Channel was.\<close>

definition mark_channels :: "string \<Rightarrow> string \<Rightarrow> (delivery_row \<Rightarrow> bool) \<Rightarrow> ndb \<Rightarrow> ndb \<Rightarrow> bool \<times> ndb" where
  "mark_channels status err P earlier s =
     (let hit = (\<lambda>c. \<exists>d \<in> set (n_outbox earlier). P d \<and> dl_channel_id d = ch_id c)
      in (length (filter hit (n_channels s)) = 1,
          s\<lparr>n_channels := update_where hit (\<lambda>c. c\<lparr>ch_status := status, ch_last_error := err\<rparr>) (n_channels s)\<rparr>))"

definition complete_delivery :: "ndb \<Rightarrow> delivery_row \<Rightarrow> delivery_row" where
  "complete_delivery s d =
     d\<lparr>dl_status := DDelivered, dl_delivered_at := Some (n_now s), dl_last_error := '''',
       dl_lease_owner := None, dl_lease_until := None\<rparr>"

definition Delivery_Complete :: "int \<Rightarrow> string \<Rightarrow> ndb \<Rightarrow> bool \<times> ndb" where
  "Delivery_Complete delivery worker s =
     mark_channels ''connected'' '''' (held_by delivery worker) s
       (s\<lparr>n_outbox := update_where (held_by delivery worker) (complete_delivery s) (n_outbox s)\<rparr>)"

text \<open>The delay before the next attempt: five seconds doubled at each failure, at most ten
  minutes.\<close>

definition retry_delay :: "int \<Rightarrow> duration" where
  "retry_delay attempts = min (10 * minute) (5 * second * 2 ^ nat (min attempts 7))"

definition delivery_error :: "string \<Rightarrow> string" where
  "delivery_error err = take 500 (TrimSpace err)"

definition fail_delivery :: "ndb \<Rightarrow> string \<Rightarrow> delivery_row \<Rightarrow> delivery_row" where
  "fail_delivery s err d =
     d\<lparr>dl_status := DFailed, dl_attempts := dl_attempts d + 1,
       dl_next_attempt_at := n_now s + retry_delay (dl_attempts d), dl_last_error := err,
       dl_lease_owner := None, dl_lease_until := None\<rparr>"

definition Delivery_Fail :: "int \<Rightarrow> string \<Rightarrow> string \<Rightarrow> ndb \<Rightarrow> bool \<times> ndb" where
  "Delivery_Fail delivery worker err s =
     mark_channels ''degraded'' (delivery_error err) (held_by delivery worker) s
       (s\<lparr>n_outbox := update_where (held_by delivery worker) (fail_delivery s (delivery_error err)) (n_outbox s)\<rparr>)"

end
