(* ===== verification/Devices.thy ===== *)
theory Devices
  imports Accounts Notifications
begin

text \<open>
  The companion devices (\<^verbatim>\<open>internal/devices\<close>): a pairing is offered to a user, claimed with the code
  of the QR, confirmed by the user, and its credential is handed out once. Devices carry the
  push notifications, whose outbox is one of the tables here. The check of a point of the curve
  (\<^verbatim>\<open>x/crypto\<close>) is a parameter of the state.
\<close>

subsection \<open>Tables\<close>

datatype device_error =
  DeviceInput | DeviceNotFound | DeviceConflict | PairingExpired | CredentialConsumed | InvalidDevice
| DeviceSecret secret_error | DeviceDatabase

record normalizedClaim =
  nc_Name :: string
  nc_Platform :: string
  nc_AppVersion :: string
  nc_Locale :: string
  nc_NotificationContent :: string
  nc_EncryptionPublicKey :: string
  nc_PushRecipient :: string

record ClaimInput =
  ci_Name :: string
  ci_Platform :: string
  ci_AppVersion :: string
  ci_Locale :: string
  ci_NotificationContent :: string
  ci_EncryptionPublicKey :: string
  ci_PushRecipient :: string

record UpdateInput =
  ui_Name :: "string option"
  ui_AppVersion :: "string option"
  ui_Locale :: "string option"
  ui_NotificationContent :: "string option"
  ui_EncryptionPublicKey :: "string option"
  ui_PushRecipient :: "string option"

record device_row =
  de_id :: string
  de_user_id :: string
  de_name :: string
  de_platform :: string
  de_app_version :: string
  de_locale :: string
  de_content :: string
  de_public_key :: string
  de_recipient_sealed :: "string option"
  de_token_digest :: string
  de_last_seen_at :: "instant option"
  de_push_disabled_at :: "instant option"
  de_revoked_at :: "instant option"
  de_created_at :: instant
  de_updated_at :: instant

text \<open>The \<open>claimed\<close> columns are written together; the recipient among them is sealed, or absent.\<close>

record pairing_row =
  pa_id :: string
  pa_user_id :: string
  pa_token_digest :: string
  pa_expires_at :: instant
  pa_claim :: "(normalizedClaim \<times> string option) option"
  pa_claimed_at :: "instant option"
  pa_confirmed_at :: "instant option"
  pa_cancelled_at :: "instant option"
  pa_consumed_at :: "instant option"
  pa_device_id :: "string option"
  pa_token_sealed :: string
  pa_created_at :: instant

record push_row =
  pu_id :: int
  pu_device_id :: string
  pu_inbox_id :: int
  pu_revision :: int
  pu_presentation :: presentation
  pu_event_kind :: "event_kind option"
  pu_status :: delivery_status
  pu_attempts :: int
  pu_next_attempt_at :: instant
  pu_lease_owner :: "string option"
  pu_lease_until :: "instant option"
  pu_delivered_at :: "instant option"
  pu_last_error :: string

record ddb =
  dd_ids :: idb
  dd_box :: Box
  dd_url :: string
  dd_valid_point :: "string \<Rightarrow> bool"
  devices :: "device_row list"
  pairings :: "pairing_row list"
  pushes :: "push_row list"

definition pairingLifetime :: duration where "pairingLifetime = 10 * minute"
definition pairingSecretPurpose :: string where "pairingSecretPurpose = ''device-pairing-token-v1''"
definition PushRecipientPurpose :: string where "PushRecipientPurpose = ''device-push-recipient-v1''"

abbreviation now_of :: "ddb \<Rightarrow> instant" where "now_of s \<equiv> id_now (dd_ids s)"
abbreviation crypto_of :: "ddb \<Rightarrow> crypto" where "crypto_of s \<equiv> id_crypto (dd_ids s)"

definition read_random :: "nat \<Rightarrow> ddb \<Rightarrow> string \<times> ddb" where
  "read_random n s = (let (b, i) = rand_Read n (dd_ids s) in (b, s\<lparr>dd_ids := i\<rparr>))"

text \<open>\<open>secrets.Seal\<close> with a nonce drawn from the random source.\<close>

definition seal_secret :: "string \<Rightarrow> string \<Rightarrow> ddb \<Rightarrow> (device_error + string) \<times> ddb" where
  "seal_secret plaintext purpose s =
     (case dd_box s of
        None \<Rightarrow> (Inl (DeviceSecret NotInitialized), s)
      | Some a \<Rightarrow>
          (let (nonce, s') = read_random (NonceSize a) s
           in case Seal (dd_box s) nonce plaintext purpose of
                Inl e \<Rightarrow> (Inl (DeviceSecret e), s')
              | Inr sealed \<Rightarrow> (Inr sealed, s')))"

subsection \<open>Validation\<close>

definition IsControl :: "string \<Rightarrow> bool" where
  "IsControl r \<longleftrightarrow> (case r of [b] \<Rightarrow> in_range 0 31 b \<or> b = CHR 0x7F | [a, b] \<Rightarrow> a = CHR 0xC2 \<and> in_range 128 159 b | _ \<Rightarrow> False)"

definition validOpaqueRecipient :: "string \<Rightarrow> bool" where
  "validOpaqueRecipient v \<longleftrightarrow> ValidString v \<and> 16 \<le> length v \<and> length v \<le> 1024 \<and>
     list_all (\<lambda>r. \<not> IsControl r \<and> \<not> is_space r) (rune_chunks v)"

definition validNotificationContent :: "string \<Rightarrow> bool" where
  "validNotificationContent v \<longleftrightarrow> v \<in> {''complete'', ''discreet'', ''masked''}"

definition normalizeClaim :: "crypto \<Rightarrow> (string \<Rightarrow> bool) \<Rightarrow> ClaimInput \<Rightarrow> normalizedClaim option" where
  "normalizeClaim c validPoint input =
     (let name = TrimSpace (ci_Name input);
          platform = ToLower c (TrimSpace (ci_Platform input));
          appVersion = TrimSpace (ci_AppVersion input);
          locale0 = ToLower c (TrimSpace (ci_Locale input));
          lang = (if locale0 = '''' then ''fr'' else locale0);
          content0 = ToLower c (TrimSpace (ci_NotificationContent input));
          content = (if content0 = '''' then ''complete'' else content0);
          recipient = TrimSpace (ci_PushRecipient input)
      in if \<not> ValidString name \<or> rune_count name < 1 \<or> 100 < rune_count name then None
         else if platform \<noteq> ''ios'' \<and> platform \<noteq> ''android'' then None
         else if \<not> ValidString appVersion \<or> 64 < rune_count appVersion then None
         else if lang \<noteq> ''fr'' \<and> lang \<noteq> ''en'' then None
         else if \<not> validNotificationContent content then None
         else case DecodeString (Strict RawURLEncoding) (TrimSpace (ci_EncryptionPublicKey input)) of
           None \<Rightarrow> None
         | Some publicKey \<Rightarrow>
             if length publicKey \<noteq> 32 \<or> \<not> validPoint publicKey then None
             else if recipient \<noteq> '''' \<and> \<not> validOpaqueRecipient recipient then None
             else Some \<lparr>nc_Name = name, nc_Platform = platform, nc_AppVersion = appVersion, nc_Locale = lang,
               nc_NotificationContent = content, nc_EncryptionPublicKey = publicKey, nc_PushRecipient = recipient\<rparr>)"

definition hex_digit :: "nat \<Rightarrow> char" where
  "hex_digit d = ''0123456789ABCDEF'' ! d"

definition unreserved :: "char \<Rightarrow> bool" where
  "unreserved b \<longleftrightarrow> is_digit b \<or> in_range 65 90 b \<or> in_range 97 122 b \<or> b \<in> set ''-_.~''"

definition QueryEscape :: "string \<Rightarrow> string" where
  "QueryEscape s = concat (map (\<lambda>b. if unreserved b then [b] else if b = CHR '' '' then ''+''
     else CHR ''%'' # [hex_digit (of_char b div 16), hex_digit (of_char b mod 16)]) s)"

definition TrimSuffix :: "string \<Rightarrow> string \<Rightarrow> string" where
  "TrimSuffix s x = (let n = length s - length x in if length x \<le> length s \<and> drop n s = x then take n s else s)"

definition pairingPayload :: "string \<Rightarrow> string \<Rightarrow> string" where
  "pairingPayload instanceURL token =
     ''cairnops://pair?instance='' @ QueryEscape (TrimSuffix instanceURL ''/'') @ ''&token='' @ QueryEscape token"

text \<open>\<open>pairingStatus\<close> on the row it is read from.\<close>

definition pairingStatus :: "instant \<Rightarrow> pairing_row \<Rightarrow> string" where
  "pairingStatus now p =
     (if pa_cancelled_at p \<noteq> None then ''cancelled''
      else if \<not> now < pa_expires_at p \<and> pa_confirmed_at p = None then ''expired''
      else if pa_consumed_at p \<noteq> None then ''credential_consumed''
      else if pa_confirmed_at p \<noteq> None then ''confirmed''
      else if pa_claimed_at p \<noteq> None then ''awaiting_confirmation''
      else ''awaiting_scan'')"

subsection \<open>Pairing\<close>

record Invitation =
  iv_Pairing :: pairing_row
  iv_Status :: string
  iv_Instance :: string
  iv_Token :: string
  iv_QRPayload :: string

definition active_user :: "user_row \<Rightarrow> bool" where
  "active_user u \<longleftrightarrow> us_deactivated_at u = None \<and> us_suspended_at u = None"

definition next_uuid :: "ddb \<Rightarrow> string \<times> ddb" where
  "next_uuid s = (let i = dd_ids s in (id_uuid i (id_uuids i), s\<lparr>dd_ids := i\<lparr>id_uuids := id_uuids i + 1\<rparr>\<rparr>))"

text \<open>Inserts under the primary key and the unique index of the digests; \<open>None\<close> is a unique violation.\<close>

definition insert_pairing :: "pairing_row \<Rightarrow> ddb \<Rightarrow> ddb option" where
  "insert_pairing p s =
     (if pa_id p \<in> pa_id ` set (pairings s) \<or> pa_token_digest p \<in> pa_token_digest ` set (pairings s) then None
      else Some (s\<lparr>pairings := pairings s @ [p]\<rparr>))"

definition insert_device :: "device_row \<Rightarrow> ddb \<Rightarrow> ddb option" where
  "insert_device d s =
     (if de_id d \<in> de_id ` set (devices s) \<or> de_token_digest d \<in> de_token_digest ` set (devices s) then None
      else Some (s\<lparr>devices := devices s @ [d]\<rparr>))"

definition CreatePairing :: "string \<Rightarrow> ddb \<Rightarrow> (device_error + Invitation) \<times> ddb" where
  "CreatePairing user s =
     (let (secret, s) = read_random tokenSize s;
          (token, digest) = newToken (crypto_of s) secret
      in if find (\<lambda>u. us_id u = user \<and> active_user u) (users (dd_ids s)) = None then (Inl DeviceNotFound, s)
         else
           let (new, s) = next_uuid s;
               p = \<lparr>pa_id = new, pa_user_id = user, pa_token_digest = digest, pa_expires_at = now_of s + pairingLifetime,
                 pa_claim = None, pa_claimed_at = None, pa_confirmed_at = None, pa_cancelled_at = None, pa_consumed_at = None,
                 pa_device_id = None, pa_token_sealed = '''', pa_created_at = now_of s\<rparr>
           in case insert_pairing p s of
                None \<Rightarrow> (Inl DeviceDatabase, s)
              | Some s' \<Rightarrow> (Inr \<lparr>iv_Pairing = p, iv_Status = ''awaiting_scan'', iv_Instance = dd_url s, iv_Token = token,
                  iv_QRPayload = pairingPayload (dd_url s) token\<rparr>, s'))"

definition owned_pairing :: "string \<Rightarrow> string \<Rightarrow> pairing_row \<Rightarrow> bool" where
  "owned_pairing user pairing p \<longleftrightarrow> pa_id p = pairing \<and> pa_user_id p = user"

definition GetPairing :: "string \<Rightarrow> string \<Rightarrow> ddb \<Rightarrow> device_error + (pairing_row \<times> string)" where
  "GetPairing user pairing s =
     (case find (owned_pairing user pairing) (pairings s) of
        None \<Rightarrow> Inl DeviceNotFound
      | Some p \<Rightarrow> Inr (p, pairingStatus (now_of s) p))"

definition claimable_pairing :: "instant \<Rightarrow> string \<Rightarrow> pairing_row \<Rightarrow> bool" where
  "claimable_pairing now digest p \<longleftrightarrow> pa_token_digest p = digest \<and> pa_claimed_at p = None \<and> pa_confirmed_at p = None \<and>
     pa_cancelled_at p = None \<and> now < pa_expires_at p"

definition pairingTokenError :: "string \<Rightarrow> ddb \<Rightarrow> device_error" where
  "pairingTokenError digest s =
     (case find (\<lambda>p. pa_token_digest p = digest) (pairings s) of
        None \<Rightarrow> DeviceNotFound
      | Some p \<Rightarrow>
          if pa_cancelled_at p \<noteq> None \<or> pa_claimed_at p \<noteq> None \<or> pa_confirmed_at p \<noteq> None then DeviceConflict
          else if \<not> now_of s < pa_expires_at p then PairingExpired else DeviceConflict)"

text \<open>The result of a claim and of a retrieval: the status, and a device with its token.\<close>

type_synonym pairing_result = "string \<times> (string \<times> string) option"

definition ClaimPairing :: "string \<Rightarrow> ClaimInput \<Rightarrow> ddb \<Rightarrow> (device_error + pairing_result) \<times> ddb" where
  "ClaimPairing token input s =
     (case tokenDigest (crypto_of s) token of
        None \<Rightarrow> (Inl DeviceNotFound, s)
      | Some digest \<Rightarrow>
          (case normalizeClaim (crypto_of s) (dd_valid_point s) input of
             None \<Rightarrow> (Inl DeviceInput, s)
           | Some claim \<Rightarrow>
               (let (sealed, s1) = (if nc_PushRecipient claim = '''' then (Inr None, s)
                                    else case seal_secret (nc_PushRecipient claim) PushRecipientPurpose s of
                                      (Inl e, s1) \<Rightarrow> (Inl e, s1) | (Inr v, s1) \<Rightarrow> (Inr (Some v), s1))
                in case sealed of
                     Inl e \<Rightarrow> (Inl e, s1)
                   | Inr recipient \<Rightarrow>
                       if filter (claimable_pairing (now_of s1) digest) (pairings s1) = [] then (Inl (pairingTokenError digest s1), s1)
                       else (Inr (''awaiting_confirmation'', None),
                         s1\<lparr>pairings := update_where (claimable_pairing (now_of s1) digest)
                              (\<lambda>p. p\<lparr>pa_claim := Some (claim, recipient), pa_claimed_at := Some (now_of s1)\<rparr>) (pairings s1)\<rparr>))))"

definition device_of :: "ddb \<Rightarrow> string \<Rightarrow> string \<Rightarrow> string \<Rightarrow> normalizedClaim \<times> string option \<Rightarrow> device_row" where
  "device_of s new user digest claim =
     \<lparr>de_id = new, de_user_id = user, de_name = nc_Name (fst claim), de_platform = nc_Platform (fst claim),
      de_app_version = nc_AppVersion (fst claim), de_locale = nc_Locale (fst claim), de_content = nc_NotificationContent (fst claim),
      de_public_key = nc_EncryptionPublicKey (fst claim), de_recipient_sealed = snd claim, de_token_digest = digest,
      de_last_seen_at = None, de_push_disabled_at = None, de_revoked_at = None, de_created_at = now_of s, de_updated_at = now_of s\<rparr>"

text \<open>The transaction of \<open>ConfirmPairing\<close>, once the credential is drawn and sealed.\<close>

definition confirm_transaction :: "string \<Rightarrow> string \<Rightarrow> string \<Rightarrow> string \<Rightarrow> ddb \<Rightarrow> (device_error + pairing_row) \<times> ddb" where
  "confirm_transaction user pairing digest sealed s =
     (case find (owned_pairing user pairing) (pairings s) of
        None \<Rightarrow> (Inl DeviceNotFound, s)
      | Some p \<Rightarrow>
          if pa_cancelled_at p \<noteq> None \<or> pa_confirmed_at p \<noteq> None then (Inl DeviceConflict, s)
          else if \<not> now_of s < pa_expires_at p then (Inl PairingExpired, s)
          else case (pa_claimed_at p, pa_claim p) of
            (Some _, Some claim) \<Rightarrow>
              (let (new, s) = next_uuid s
               in case insert_device (device_of s new user digest claim) s of
                    None \<Rightarrow> (Inl DeviceDatabase, s)
                  | Some s' \<Rightarrow>
                      (let confirm = (\<lambda>p. p\<lparr>pa_confirmed_at := Some (now_of s), pa_device_id := Some new, pa_token_sealed := sealed\<rparr>)
                       in (Inr (confirm p), s'\<lparr>pairings := update_where (\<lambda>q. pa_id q = pa_id p) confirm (pairings s')\<rparr>)))
          | _ \<Rightarrow> (Inl DeviceConflict, s))"

definition ConfirmPairing :: "string \<Rightarrow> string \<Rightarrow> ddb \<Rightarrow> (device_error + pairing_row) \<times> ddb" where
  "ConfirmPairing user pairing s =
     (let (secret, s) = read_random tokenSize s;
          (token, digest) = newToken (crypto_of s) secret
      in case seal_secret token pairingSecretPurpose s of
           (Inl e, s) \<Rightarrow> (Inl e, s)
         | (Inr sealed, s) \<Rightarrow> confirm_transaction user pairing digest sealed s)"
definition PairingResult :: "string \<Rightarrow> ddb \<Rightarrow> (device_error + pairing_result) \<times> ddb" where
  "PairingResult token s =
     (case tokenDigest (crypto_of s) token of
        None \<Rightarrow> (Inl DeviceNotFound, s)
      | Some digest \<Rightarrow>
          (case find (\<lambda>p. pa_token_digest p = digest) (pairings s) of
             None \<Rightarrow> (Inl DeviceNotFound, s)
           | Some p \<Rightarrow>
               if pa_cancelled_at p \<noteq> None then (Inl DeviceConflict, s)
               else if pa_confirmed_at p = None \<and> \<not> now_of s < pa_expires_at p then (Inl PairingExpired, s)
               else if pa_consumed_at p \<noteq> None \<or> pa_confirmed_at p \<noteq> None \<and> pa_token_sealed p = '''' then (Inl CredentialConsumed, s)
               else if pa_confirmed_at p = None
               then (Inr (if pa_claimed_at p \<noteq> None then ''awaiting_confirmation'' else ''awaiting_scan'', None), s)
               else case box_Open (dd_box s) (pa_token_sealed p) pairingSecretPurpose of
                 Inl e \<Rightarrow> (Inl (DeviceSecret e), s)
               | Inr plaintext \<Rightarrow>
                   (Inr (''confirmed'', Some (coalesce (pa_device_id p) '''', plaintext)),
                    s\<lparr>pairings := update_where (\<lambda>q. pa_token_digest q = digest)
                         (\<lambda>q. q\<lparr>pa_consumed_at := Some (now_of s), pa_token_sealed := ''''\<rparr>) (pairings s)\<rparr>)))"

definition CancelPairing :: "string \<Rightarrow> string \<Rightarrow> ddb \<Rightarrow> (device_error + unit) \<times> ddb" where
  "CancelPairing user pairing s =
     (let hit = (\<lambda>p. owned_pairing user pairing p \<and> pa_confirmed_at p = None \<and> pa_cancelled_at p = None)
      in if length (filter hit (pairings s)) \<noteq> 1 then (Inl DeviceNotFound, s)
         else (Inr (), s\<lparr>pairings := update_where hit (\<lambda>p. p\<lparr>pa_cancelled_at := Some (now_of s)\<rparr>) (pairings s)\<rparr>))"

subsection \<open>Devices\<close>

definition device_owner :: "ddb \<Rightarrow> device_row \<Rightarrow> user_row option" where
  "device_owner s d = find (\<lambda>u. us_id u = de_user_id d \<and> active_user u) (users (dd_ids s))"

definition Device_Authenticate :: "string \<Rightarrow> ddb \<Rightarrow> (device_error + (string \<times> Principal)) \<times> ddb" where
  "Device_Authenticate token s =
     (case tokenDigest (crypto_of s) token of
        None \<Rightarrow> (Inl InvalidDevice, s)
      | Some digest \<Rightarrow>
          (case find (\<lambda>d. de_token_digest d = digest \<and> de_revoked_at d = None \<and> device_owner s d \<noteq> None) (devices s) of
             None \<Rightarrow> (Inl InvalidDevice, s)
           | Some d \<Rightarrow>
               (case device_owner s d of
                  None \<Rightarrow> (Inl InvalidDevice, s)
                | Some u \<Rightarrow>
                    (Inr (de_id d, principal_of u),
                     s\<lparr>devices := update_where
                          (\<lambda>d. de_token_digest d = digest \<and> (case de_last_seen_at d of None \<Rightarrow> True | Some t \<Rightarrow> t < now_of s - 5 * minute))
                          (\<lambda>d. d\<lparr>de_last_seen_at := Some (now_of s), de_updated_at := now_of s\<rparr>) (devices s)\<rparr>))))"

definition push_enabled :: "device_row \<Rightarrow> bool" where
  "push_enabled d \<longleftrightarrow> de_recipient_sealed d \<noteq> None \<and> de_push_disabled_at d = None"

definition Device_List :: "Principal \<Rightarrow> ddb \<Rightarrow> (device_row \<times> string \<times> bool) list" where
  "Device_List actor s =
     concat (map (\<lambda>d. case find (\<lambda>u. us_id u = de_user_id d) (users (dd_ids s)) of
           None \<Rightarrow> [] | Some u \<Rightarrow> [(d, us_display_name u, push_enabled d)])
       (sort_key (\<lambda>d. (case de_revoked_at d of None \<Rightarrow> (0 :: int, 0 :: int) | Some t \<Rightarrow> (1, t), - de_created_at d, de_id d))
         (filter (\<lambda>d. pr_Role actor = ''administrator'' \<or> de_user_id d = pr_ID actor) (devices s))))"

definition cancel_pushes :: "string \<Rightarrow> string \<Rightarrow> ddb \<Rightarrow> ddb" where
  "cancel_pushes reason device s =
     s\<lparr>pushes := update_where (\<lambda>p. pu_device_id p = device \<and> (pu_status p = DPending \<or> pu_status p = DFailed))
        (\<lambda>p. p\<lparr>pu_status := DCancelled, pu_last_error := reason, pu_lease_owner := None, pu_lease_until := None\<rparr>) (pushes s)\<rparr>"

definition claim_of :: "device_row \<Rightarrow> UpdateInput \<Rightarrow> ClaimInput" where
  "claim_of d input =
     \<lparr>ci_Name = coalesce (ui_Name input) (de_name d), ci_Platform = de_platform d,
      ci_AppVersion = coalesce (ui_AppVersion input) (de_app_version d),
      ci_Locale = coalesce (ui_Locale input) (de_locale d),
      ci_NotificationContent = coalesce (ui_NotificationContent input) (de_content d),
      ci_EncryptionPublicKey = coalesce (ui_EncryptionPublicKey input) (EncodeToString RawURLEncoding (de_public_key d)),
      ci_PushRecipient = coalesce (ui_PushRecipient input) ''''\<rparr>"

definition nullableText :: "string \<Rightarrow> string option" where
  "nullableText v = (if v = '''' then None else Some v)"

definition updated_device :: "ddb \<Rightarrow> UpdateInput \<Rightarrow> normalizedClaim \<Rightarrow> string \<Rightarrow> device_row \<Rightarrow> device_row" where
  "updated_device s input n recipientSealed d =
     d\<lparr>de_name := nc_Name n, de_app_version := nc_AppVersion n, de_locale := nc_Locale n, de_content := nc_NotificationContent n,
       de_public_key := nc_EncryptionPublicKey n, de_recipient_sealed := nullableText recipientSealed,
       de_push_disabled_at := (if ui_PushRecipient input \<noteq> None then None else de_push_disabled_at d),
       de_updated_at := now_of s\<rparr>"

text \<open>The reason written on a cancelled push, in UTF-8: push switched off.\<close>

definition push_off :: string where
  "push_off = ''Push d'' @ [CHR 0xC3, CHR 0xA9] @ ''sactiv'' @ [CHR 0xC3, CHR 0xA9]"

definition Device_Update :: "Principal \<Rightarrow> string \<Rightarrow> UpdateInput \<Rightarrow> ddb \<Rightarrow> (device_error + device_row) \<times> ddb" where
  "Device_Update actor device input s =
     (case find (\<lambda>d. de_id d = device \<and> (de_user_id d = pr_ID actor \<or> pr_Role actor = ''administrator'')) (devices s) of
        None \<Rightarrow> (Inl DeviceNotFound, s)
      | Some d \<Rightarrow>
          if de_revoked_at d \<noteq> None then (Inl DeviceConflict, s)
          else case normalizeClaim (crypto_of s) (dd_valid_point s) (claim_of d input) of
            None \<Rightarrow> (Inl DeviceInput, s)
          | Some n \<Rightarrow>
              (let (sealed, s1) = (if ui_PushRecipient input = None then (Inr (coalesce (de_recipient_sealed d) ''''), s)
                                   else if nc_PushRecipient n = '''' then (Inr '''', s)
                                   else seal_secret (nc_PushRecipient n) PushRecipientPurpose s)
               in case sealed of
                    Inl e \<Rightarrow> (Inl e, s1)
                  | Inr recipientSealed \<Rightarrow>
                      (let s2 = s1\<lparr>devices := update_where (\<lambda>r. de_id r = de_id d) (updated_device s1 input n recipientSealed) (devices s1)\<rparr>;
                           s3 = (if ui_PushRecipient input \<noteq> None \<and> nc_PushRecipient n = '''' then cancel_pushes push_off (de_id d) s2 else s2)
                       in (Inr (updated_device s1 input n recipientSealed d), s3))))"

text \<open>The reason written when a device is revoked.\<close>

definition device_revoked :: string where
  "device_revoked = ''appareil r'' @ [CHR 0xC3, CHR 0xA9] @ ''voqu'' @ [CHR 0xC3, CHR 0xA9]"

definition revoke_where :: "(device_row \<Rightarrow> bool) \<Rightarrow> string \<Rightarrow> ddb \<Rightarrow> (device_error + unit) \<times> ddb" where
  "revoke_where allowed device s =
     (let hit = (\<lambda>d. de_id d = device \<and> de_revoked_at d = None \<and> allowed d)
      in if length (filter hit (devices s)) \<noteq> 1 then (Inl DeviceNotFound, s)
         else (Inr (), cancel_pushes device_revoked device
           (s\<lparr>devices := update_where hit (\<lambda>d. d\<lparr>de_revoked_at := Some (now_of s), de_updated_at := now_of s\<rparr>) (devices s)\<rparr>)))"

definition Device_Revoke :: "Principal \<Rightarrow> string \<Rightarrow> ddb \<Rightarrow> (device_error + unit) \<times> ddb" where
  "Device_Revoke actor = revoke_where (\<lambda>d. de_user_id d = pr_ID actor \<or> pr_Role actor = ''administrator'')"

definition RevokeSelf :: "string \<Rightarrow> ddb \<Rightarrow> (device_error + unit) \<times> ddb" where
  "RevokeSelf = revoke_where (\<lambda>d. True)"

end
