(* ===== verification/Inbox.thy ===== *)
theory Inbox
  imports Devices
begin

text \<open>
  The inbox of each person and the push outbox of their devices
  (\<^verbatim>\<open>internal/notifications/store.go\<close> from \<open>Deliver\<close>, \<^verbatim>\<open>inbox.go\<close>): a delivery on the Channel of the
  instance writes one entry per person, and one push per device of that person.

  The state has the notification tables, the tables of accounts and devices, the inbox and the
  status of the relay; it has one clock, that of the accounts. The event that announces a change
  (\<open>cairnops_append_event\<close>) belongs to the event table, modelled apart.
\<close>

subsection \<open>Tables\<close>

record inbox_row =
  ib_id :: int
  ib_user_id :: string
  ib_incident_id :: uuid
  ib_target_id :: "uuid option"
  ib_revision :: int
  ib_event_kind :: event_kind
  ib_target_name :: string
  ib_nature_label :: string
  ib_alert_kind :: kind
  ib_severity :: severity
  ib_occurred_at :: instant
  ib_impact_count :: int
  ib_affected_target_count :: int
  ib_max_affected_targets :: int
  ib_propagation_status :: propagation
  ib_extended :: bool
  ib_context :: Context
  ib_read_at :: "instant option"
  ib_dismissed_at :: "instant option"

record relay_row =
  rl_configured :: bool
  rl_status :: string
  rl_last_checked_at :: "instant option"
  rl_last_success_at :: "instant option"
  rl_last_error :: string

record pdb =
  p_notes :: ndb
  p_devs :: ddb
  p_inbox :: "inbox_row list"
  p_inbox_next :: int
  p_push_next :: int
  p_relay :: relay_row

abbreviation p_now :: "pdb \<Rightarrow> instant" where "p_now s \<equiv> now_of (p_devs s)"
abbreviation p_pushes :: "pdb \<Rightarrow> push_row list" where "p_pushes s \<equiv> pushes (p_devs s)"

definition notes_of :: "pdb \<Rightarrow> ndb" where
  "notes_of s = (p_notes s)\<lparr>n_now := p_now s\<rparr>"

definition set_pushes :: "(push_row list \<Rightarrow> push_row list) \<Rightarrow> pdb \<Rightarrow> pdb" where
  "set_pushes f s = s\<lparr>p_devs := (p_devs s)\<lparr>pushes := f (p_pushes s)\<rparr>\<rparr>"

definition live :: "push_row \<Rightarrow> bool" where
  "live p \<longleftrightarrow> pu_status p = DPending \<or> pu_status p = DFailed"

definition cancel_push :: "string \<Rightarrow> push_row \<Rightarrow> push_row" where
  "cancel_push reason p = p\<lparr>pu_status := DCancelled, pu_last_error := reason, pu_lease_owner := None, pu_lease_until := None\<rparr>"

text \<open>Whether push can reach a device, in the queries of \<open>Deliver\<close> and of the push outbox.\<close>

definition reachable :: "pdb \<Rightarrow> device_row \<Rightarrow> bool" where
  "reachable s d \<longleftrightarrow> de_revoked_at d = None \<and> push_enabled d \<and> device_owner (p_devs s) d \<noteq> None"

subsection \<open>The entries\<close>

text \<open>The resource of an entry about a single one: that of the first Impact.\<close>

definition entry_target :: "pdb \<Rightarrow> bool \<Rightarrow> Delivery \<Rightarrow> uuid option" where
  "entry_target s active d =
     (if dv_AffectedTargets d = 1
      then map_option im_target_id
             (first_min (\<lambda>m. (im_opened_at m, im_id m))
                (filter (\<lambda>m. im_incident_id m = dv_IncidentID d \<and> (active \<longrightarrow> im_status m = Active)) (impacts (n_db (p_notes s)))))
      else None)"

definition opening_entry :: "pdb \<Rightarrow> Delivery \<Rightarrow> string \<Rightarrow> inbox_row" where
  "opening_entry s d user =
     \<lparr>ib_id = 0, ib_user_id = user, ib_incident_id = dv_IncidentID d, ib_target_id = entry_target s False d,
      ib_revision = dv_IncidentRevision d, ib_event_kind = Firing, ib_target_name = dv_TargetName d,
      ib_nature_label = dv_NatureLabel d, ib_alert_kind = dv_AlertKind d, ib_severity = dv_Severity d,
      ib_occurred_at = dv_OpenedAt d, ib_impact_count = dv_ImpactCount d,
      ib_affected_target_count = dv_AffectedTargets d, ib_max_affected_targets = dv_MaxAffected d,
      ib_propagation_status = dv_PropagationStatus d, ib_extended = dv_Extended d, ib_context = dv_Context d,
      ib_read_at = None, ib_dismissed_at = None\<rparr>"

text \<open>\<open>ON CONFLICT DO UPDATE\<close>: the entry takes everything of the new one but its resource.\<close>

definition reopened_entry :: "inbox_row \<Rightarrow> inbox_row \<Rightarrow> inbox_row" where
  "reopened_entry fresh row =
     fresh\<lparr>ib_id := ib_id row, ib_user_id := ib_user_id row, ib_incident_id := ib_incident_id row, ib_target_id := ib_target_id row\<rparr>"

definition deposit :: "inbox_row \<Rightarrow> pdb \<Rightarrow> pdb" where
  "deposit fresh s =
     (let same = (\<lambda>r. ib_user_id r = ib_user_id fresh \<and> ib_incident_id r = ib_incident_id fresh)
      in if list_ex same (p_inbox s) then s\<lparr>p_inbox := update_where same (reopened_entry fresh) (p_inbox s)\<rparr>
         else s\<lparr>p_inbox := p_inbox s @ [fresh\<lparr>ib_id := p_inbox_next s\<rparr>], p_inbox_next := p_inbox_next s + 1\<rparr>)"

definition deposit_opening :: "Delivery \<Rightarrow> pdb \<Rightarrow> int \<times> pdb" where
  "deposit_opening d s =
     (let entries = map (opening_entry s d) (map us_id (filter active_user (users (dd_ids (p_devs s)))))
      in (int (length entries), fold deposit entries s))"

definition revised_entry :: "pdb \<Rightarrow> Delivery \<Rightarrow> inbox_row \<Rightarrow> inbox_row" where
  "revised_entry s d row =
     row\<lparr>ib_revision := dv_IncidentRevision d, ib_event_kind := (if dv_ResolvedAt d = None then Firing else ResolvedEvent),
       ib_target_id := entry_target s True d, ib_target_name := dv_TargetName d, ib_nature_label := dv_NatureLabel d,
       ib_alert_kind := dv_AlertKind d, ib_severity := dv_Severity d, ib_occurred_at := coalesce (dv_ResolvedAt d) (p_now s),
       ib_impact_count := dv_ImpactCount d, ib_affected_target_count := dv_AffectedTargets d,
       ib_max_affected_targets := dv_MaxAffected d, ib_propagation_status := dv_PropagationStatus d,
       ib_extended := dv_Extended d, ib_context := dv_Context d,
       ib_read_at := (if dv_Presentation d = Alert then None else ib_read_at row),
       ib_dismissed_at := (if dv_Presentation d = Alert then None else ib_dismissed_at row)\<rparr>"

definition revise_entries :: "Delivery \<Rightarrow> pdb \<Rightarrow> int \<times> pdb" where
  "revise_entries d s =
     (let hit = (\<lambda>r. ib_incident_id r = dv_IncidentID d \<and> ib_revision r < dv_IncidentRevision d)
      in (int (length (filter hit (p_inbox s))), s\<lparr>p_inbox := update_where hit (revised_entry s d) (p_inbox s)\<rparr>))"

subsection \<open>The pushes of a delivery\<close>

definition of_incident :: "pdb \<Rightarrow> uuid \<Rightarrow> push_row \<Rightarrow> bool" where
  "of_incident s incident p \<longleftrightarrow> list_ex (\<lambda>r. ib_id r = pu_inbox_id p \<and> ib_incident_id r = incident) (p_inbox s)"

definition outdated :: "pdb \<Rightarrow> Delivery \<Rightarrow> push_row \<Rightarrow> bool" where
  "outdated s d p \<longleftrightarrow> of_incident s (dv_IncidentID d) p \<and> live p \<and> pu_revision p < dv_IncidentRevision d"

definition in_flight :: "pdb \<Rightarrow> Delivery \<Rightarrow> bool" where
  "in_flight s d \<longleftrightarrow> list_ex (\<lambda>p. outdated s d p \<and> (case pu_lease_until p of None \<Rightarrow> False | Some t \<Rightarrow> p_now s < t)) (p_pushes s)"

definition pushes_for :: "pdb \<Rightarrow> device_row \<Rightarrow> inbox_row \<Rightarrow> push_row list" where
  "pushes_for s dev entry = filter (\<lambda>p. pu_device_id p = de_id dev \<and> pu_inbox_id p = ib_id entry) (p_pushes s)"

text \<open>What the device was last told by an alert; a row older than the column counts for an opening.\<close>

definition last_told :: "pdb \<Rightarrow> device_row \<Rightarrow> inbox_row \<Rightarrow> event_kind option" where
  "last_told s dev entry =
     map_option (\<lambda>p. coalesce (pu_event_kind p) Firing)
       (first_max (\<lambda>p. (pu_revision p, pu_id p))
          (filter (\<lambda>p. pu_status p = DDelivered \<and> pu_presentation p = Alert) (pushes_for s dev entry)))"

definition push_of :: "pdb \<Rightarrow> Delivery \<Rightarrow> device_row \<Rightarrow> inbox_row \<Rightarrow> push_row" where
  "push_of s d dev entry =
     (let previous = filter (\<lambda>p. live p \<and> pu_revision p < dv_IncidentRevision d) (pushes_for s dev entry);
          tried = filter (\<lambda>p. 0 < pu_attempts p) previous
      in \<lparr>pu_id = 0, pu_device_id = de_id dev, pu_inbox_id = ib_id entry, pu_revision = dv_IncidentRevision d,
          pu_presentation =
            (if ib_event_kind entry = ResolvedEvent
             then if coalesce (last_told s dev entry) ResolvedEvent \<noteq> ResolvedEvent then Alert else Silent
             else if dv_Presentation d = Alert \<or> list_ex (\<lambda>p. pu_presentation p = Alert) previous then Alert else Silent),
          pu_event_kind = Some (ib_event_kind entry), pu_status = DPending,
          pu_attempts = (if previous = [] then 0 else Max (pu_attempts ` set previous)),
          pu_next_attempt_at = (if tried = [] then p_now s else Max (pu_next_attempt_at ` set tried)),
          pu_lease_owner = None, pu_lease_until = None, pu_delivered_at = None, pu_last_error = ''''\<rparr>)"

definition numbered :: "int \<Rightarrow> push_row list \<Rightarrow> push_row list" where
  "numbered next rows = map2 (\<lambda>n p. p\<lparr>pu_id := next + int n\<rparr>) [0..<length rows] rows"

definition same_push :: "push_row \<Rightarrow> push_row \<Rightarrow> bool" where
  "same_push p q \<longleftrightarrow> pu_device_id q = pu_device_id p \<and> pu_inbox_id q = pu_inbox_id p \<and> pu_revision q = pu_revision p"

text \<open>\<open>ON CONFLICT DO NOTHING\<close>.\<close>

definition schedule_pushes :: "Delivery \<Rightarrow> pdb \<Rightarrow> pdb" where
  "schedule_pushes d s =
     (let wanted = concat (map (\<lambda>entry. map (\<lambda>dev. push_of s d dev entry)
              (filter (\<lambda>dev. de_user_id dev = ib_user_id entry \<and> reachable s dev) (devices (p_devs s))))
            (filter (\<lambda>entry. ib_incident_id entry = dv_IncidentID d) (p_inbox s)));
          fresh = filter (\<lambda>p. \<not> list_ex (same_push p) (p_pushes s)) wanted
      in set_pushes (\<lambda>rows. rows @ numbered (p_push_next s) fresh) s\<lparr>p_push_next := p_push_next s + int (length fresh)\<rparr>)"

text \<open>The reason written on an outdated push: the revision has been replaced.\<close>

definition revision_replaced :: string where
  "revision_replaced = ''r'' @ [CHR 0xC3, CHR 0xA9] @ ''vision d'' @ [CHR 0xE2, CHR 0x80, CHR 0x99] @ ''Incident remplac'' @ [CHR 0xC3, CHR 0xA9] @ ''e''"

definition drop_outdated :: "Delivery \<Rightarrow> pdb \<Rightarrow> pdb" where
  "drop_outdated d s = set_pushes (update_where (outdated s d) (cancel_push revision_replaced)) s"

text \<open>The error of a delivery put off because a push is in flight.\<close>

definition put_off :: string where
  "put_off = ''une livraison Push est en cours ; r'' @ [CHR 0xC3, CHR 0xA9] @ ''vision diff'' @ [CHR 0xC3, CHR 0xA9] @ ''r'' @ [CHR 0xC3, CHR 0xA9] @ ''e''"

definition Deliver :: "Delivery \<Rightarrow> pdb \<Rightarrow> (string + int) \<times> pdb" where
  "Deliver d s =
     (let (affected, s') = (if dv_EventKind d = Firing then deposit_opening d s else revise_entries d s)
      in if affected = 0 then (Inr 0, s')
         else if in_flight s' d then (Inl put_off, s)
         else (Inr affected, drop_outdated d (schedule_pushes d s')))"

subsection \<open>Reading the inbox\<close>

definition InboxLimit :: int where "InboxLimit = 50"

definition unread :: "string \<Rightarrow> inbox_row \<Rightarrow> bool" where
  "unread user r \<longleftrightarrow> ib_user_id r = user \<and> ib_read_at r = None \<and> ib_dismissed_at r = None"

text \<open>The name a summary uses: an old resolution kept a French counter for a name.\<close>

definition one_at_most :: string where
  "one_at_most = ''1 Cibles affect'' @ [CHR 0xC3, CHR 0xA9] @ ''es au maximum''"

definition summary_name :: "pdb \<Rightarrow> inbox_row \<Rightarrow> string" where
  "summary_name s r =
     (if ib_event_kind r = ResolvedEvent \<and> ib_max_affected_targets r = 1 \<and> ib_target_id r = None \<and> ib_target_name r = one_at_most
      then (let of_it = filter (\<lambda>m. im_incident_id m = ib_incident_id r \<and> target_name_of (p_notes s) m \<noteq> None) (impacts (n_db (p_notes s)))
            in case remdups (map im_target_id of_it) of
                 [t] \<Rightarrow> coalesce (target_name_of (p_notes s) (hd of_it)) ''''
               | _ \<Rightarrow> '''')
      else ib_target_name r)"

record InboxEntry =
  ie_row :: inbox_row
  ie_NatureKey :: string
  ie_NatureScope :: string
  ie_IncidentStatus :: row_status
  ie_AcknowledgedAt :: "instant option"
  ie_Summary :: SynthesisLocalized

definition inbox_entry :: "pdb \<Rightarrow> inbox_row \<Rightarrow> incident_row \<Rightarrow> InboxEntry" where
  "inbox_entry s r i =
     \<lparr>ie_row = r, ie_NatureKey = in_nature_key i, ie_NatureScope = in_nature_scope i, ie_IncidentStatus = in_status i,
      ie_AcknowledgedAt = in_acknowledged_at i,
      ie_Summary = LocalizeNotification
        \<lparr>s_AlertKind = ib_alert_kind r, s_NatureKey = in_nature_key i, s_NatureScope = in_nature_scope i,
         s_NatureLabel = ib_nature_label r, s_Severity = ib_severity r, s_TargetName = summary_name s r,
         s_AffectedTargets = ib_affected_target_count r, s_MaxAffected = ib_max_affected_targets r,
         s_TotalTargets = ib_impact_count r, s_Resolved = (ib_event_kind r = ResolvedEvent), s_Extended = ib_extended r,
         s_Context = ib_context r\<rparr>\<rparr>"

definition Inbox :: "string \<Rightarrow> int \<Rightarrow> pdb \<Rightarrow> InboxEntry list \<times> int" where
  "Inbox user limit s =
     (let n = (if limit \<le> 0 \<or> InboxLimit < limit then InboxLimit else limit);
          joined = concat (map (\<lambda>r. case find (\<lambda>i. in_id i = ib_incident_id r) (db.incidents (n_db (p_notes s))) of
                       None \<Rightarrow> [] | Some i \<Rightarrow> [(r, i)])
                     (filter (\<lambda>r. ib_user_id r = user \<and> ib_dismissed_at r = None) (p_inbox s)))
      in (map (\<lambda>(r, i). inbox_entry s r i)
            (take (nat n) (sort_key (\<lambda>(r, i). (- ib_occurred_at r, - ib_id r)) joined)),
          int (length (filter (unread user) (p_inbox s)))))"

definition MarkRead :: "string \<Rightarrow> int list \<Rightarrow> pdb \<Rightarrow> int \<times> pdb" where
  "MarkRead user ids s =
     (let hit = (\<lambda>r. unread user r \<and> (ids \<noteq> [] \<longrightarrow> ib_id r \<in> set ids))
      in (int (length (filter hit (p_inbox s))),
          s\<lparr>p_inbox := update_where hit (\<lambda>r. r\<lparr>ib_read_at := Some (p_now s)\<rparr>) (p_inbox s)\<rparr>))"

definition Dismiss :: "string \<Rightarrow> pdb \<Rightarrow> int \<times> pdb" where
  "Dismiss user s =
     (let hit = (\<lambda>r. ib_user_id r = user \<and> ib_dismissed_at r = None)
      in (int (length (filter hit (p_inbox s))),
          s\<lparr>p_inbox := update_where hit
               (\<lambda>r. r\<lparr>ib_dismissed_at := Some (p_now s), ib_read_at := Some (coalesce (ib_read_at r) (p_now s))\<rparr>) (p_inbox s)\<rparr>))"

end
