(* ===== verification/Push.thy ===== *)
theory Push
  imports Inbox
begin

text \<open>
  The push notifications (\<^verbatim>\<open>internal/push\<close>): the outbox a dispatcher claims from, the message a device
  shows, its encryption for the device, the call of the relay, and both dispatchers of the worker
  (\<^verbatim>\<open>notifications.go\<close>, \<^verbatim>\<open>mattermost.go\<close>). The curve, HKDF and the cipher of \<^verbatim>\<open>x/crypto\<close>, the HTTP client
  and the encoding of payloads as JSON are parameters.
\<close>

subsection \<open>The outbox\<close>

record PushDelivery =
  pd_AlertKind :: kind
  pd_ID :: int
  pd_DeviceID :: string
  pd_RecipientSealed :: string
  pd_EncryptionPublicKey :: string
  pd_Locale :: string
  pd_NotificationContent :: string
  pd_EventKind :: event_kind
  pd_IncidentID :: uuid
  pd_Revision :: int
  pd_PresentationMode :: presentation
  pd_TargetName :: string
  pd_NatureKey :: string
  pd_NatureScope :: string
  pd_NatureLabel :: string
  pd_Severity :: severity
  pd_ImpactCount :: int
  pd_AffectedTargets :: int
  pd_MaxAffected :: int
  pd_PropagationStatus :: propagation
  pd_Extended :: bool
  pd_OccurredAt :: instant
  pd_Acknowledged :: bool
  pd_UnreadCount :: int
  pd_Context :: Context

definition push_claimable :: "pdb \<Rightarrow> push_row \<Rightarrow> bool" where
  "push_claimable s p \<longleftrightarrow> live p \<and> pu_next_attempt_at p \<le> p_now s \<and>
     (case pu_lease_until p of None \<Rightarrow> True | Some t \<Rightarrow> t < p_now s) \<and>
     list_ex (\<lambda>d. de_id d = pu_device_id p \<and> reachable s d) (devices (p_devs s))"

definition push_delivery :: "pdb \<Rightarrow> push_row \<Rightarrow> device_row \<Rightarrow> inbox_row \<Rightarrow> incident_row \<Rightarrow> PushDelivery" where
  "push_delivery s p d r i =
     \<lparr>pd_AlertKind = ib_alert_kind r, pd_ID = pu_id p, pd_DeviceID = de_id d,
      pd_RecipientSealed = coalesce (de_recipient_sealed d) '''', pd_EncryptionPublicKey = de_public_key d,
      pd_Locale = de_locale d, pd_NotificationContent = de_content d, pd_EventKind = ib_event_kind r,
      pd_IncidentID = ib_incident_id r, pd_Revision = pu_revision p, pd_PresentationMode = pu_presentation p,
      pd_TargetName = ib_target_name r, pd_NatureKey = in_nature_key i, pd_NatureScope = in_nature_scope i,
      pd_NatureLabel = ib_nature_label r, pd_Severity = ib_severity r, pd_ImpactCount = ib_impact_count r,
      pd_AffectedTargets = ib_affected_target_count r, pd_MaxAffected = ib_max_affected_targets r,
      pd_PropagationStatus = ib_propagation_status r, pd_Extended = ib_extended r, pd_OccurredAt = ib_occurred_at r,
      pd_Acknowledged = (in_status i = Active \<and> in_acknowledged_at i \<noteq> None),
      pd_UnreadCount = int (length (filter (unread (de_user_id d)) (p_inbox s))), pd_Context = ib_context r\<rparr>"

definition lease_push :: "pdb \<Rightarrow> string \<Rightarrow> push_row \<Rightarrow> push_row" where
  "lease_push s worker p = p\<lparr>pu_lease_owner := Some (TrimSpace worker), pu_lease_until := Some (p_now s + 30 * second)\<rparr>"

text \<open>\<open>None\<close> is \<open>ErrNoDelivery\<close>. The update of the statement runs whatever its joins find.\<close>

definition Push_Claim :: "string \<Rightarrow> pdb \<Rightarrow> PushDelivery option \<times> pdb" where
  "Push_Claim worker s =
     (case first_min (\<lambda>p. (pu_next_attempt_at p, pu_id p)) (filter (push_claimable s) (p_pushes s)) of
        None \<Rightarrow> (None, s)
      | Some p \<Rightarrow>
          (case (find (\<lambda>d. de_id d = pu_device_id p) (devices (p_devs s)), find (\<lambda>r. ib_id r = pu_inbox_id p) (p_inbox s)) of
             (Some d, Some r) \<Rightarrow> map_option (push_delivery s p d r) (find (\<lambda>i. in_id i = ib_incident_id r) (db.incidents (n_db (p_notes s))))
           | _ \<Rightarrow> None,
           set_pushes (update_where (\<lambda>q. pu_id q = pu_id p) (lease_push s worker)) s))"

definition push_held :: "int \<Rightarrow> string \<Rightarrow> push_row \<Rightarrow> bool" where
  "push_held delivery worker p \<longleftrightarrow> pu_id p = delivery \<and> pu_lease_owner p = Some (TrimSpace worker)"

definition one_held :: "int \<Rightarrow> string \<Rightarrow> pdb \<Rightarrow> bool" where
  "one_held delivery worker s \<longleftrightarrow> length (filter (push_held delivery worker) (p_pushes s)) = 1"

definition complete_push :: "pdb \<Rightarrow> push_row \<Rightarrow> push_row" where
  "complete_push s p =
     p\<lparr>pu_status := DDelivered, pu_delivered_at := Some (p_now s), pu_last_error := '''', pu_lease_owner := None, pu_lease_until := None\<rparr>"

definition Push_Complete :: "int \<Rightarrow> string \<Rightarrow> pdb \<Rightarrow> bool \<times> pdb" where
  "Push_Complete delivery worker s =
     (one_held delivery worker s, set_pushes (update_where (push_held delivery worker) (complete_push s)) s)"

definition fail_push :: "pdb \<Rightarrow> string \<Rightarrow> push_row \<Rightarrow> push_row" where
  "fail_push s err p =
     p\<lparr>pu_status := DFailed, pu_attempts := pu_attempts p + 1, pu_next_attempt_at := p_now s + retry_delay (pu_attempts p),
       pu_last_error := err, pu_lease_owner := None, pu_lease_until := None\<rparr>"

definition Push_Fail :: "int \<Rightarrow> string \<Rightarrow> string \<Rightarrow> pdb \<Rightarrow> bool \<times> pdb" where
  "Push_Fail delivery worker err s =
     (one_held delivery worker s, set_pushes (update_where (push_held delivery worker) (fail_push s (delivery_error err))) s)"

definition DisableDevice :: "int \<Rightarrow> string \<Rightarrow> string \<Rightarrow> pdb \<Rightarrow> bool \<times> pdb" where
  "DisableDevice delivery worker err s =
     (case find (push_held delivery worker) (p_pushes s) of
        None \<Rightarrow> (False, s)
      | Some p \<Rightarrow>
          (True,
           s\<lparr>p_devs := (p_devs s)\<lparr>
               devices := update_where (\<lambda>d. de_id d = pu_device_id p \<and> de_revoked_at d = None)
                 (\<lambda>d. d\<lparr>de_push_disabled_at := Some (p_now s), de_updated_at := p_now s\<rparr>) (devices (p_devs s)),
               pushes := update_where (\<lambda>q. pu_device_id q = pu_device_id p \<and> live q) (cancel_push (delivery_error err))
                 (update_where (push_held delivery worker) (cancel_push (delivery_error err)) (p_pushes s))\<rparr>\<rparr>))"

definition SetRelayStatus :: "bool \<Rightarrow> string option \<Rightarrow> pdb \<Rightarrow> pdb" where
  "SetRelayStatus configured err s =
     (let ok = configured \<and> err = None
      in s\<lparr>p_relay := \<lparr>rl_configured = configured, rl_status = (if ok then ''operational'' else ''unavailable''),
             rl_last_checked_at = Some (p_now s),
             rl_last_success_at = (if ok then Some (p_now s) else rl_last_success_at (p_relay s)),
             rl_last_error = take 500 (coalesce err '''')\<rparr>\<rparr>)"

subsection \<open>The message\<close>

record PushPresentation =
  pp_Title :: string
  pp_Body :: string

record Message =
  m_Version :: int
  m_EventKind :: event_kind
  m_IncidentID :: uuid
  m_Revision :: int
  m_PresentationMode :: presentation
  m_Severity :: severity
  m_ImpactCount :: int
  m_AffectedTargets :: int
  m_MaxAffected :: int
  m_PropagationStatus :: propagation
  m_Extended :: bool
  m_Acknowledged :: bool
  m_UnreadCount :: int
  m_OccurredAt :: instant
  m_InstanceURL :: string
  m_Presentation :: PushPresentation

definition situation_of :: "PushDelivery \<Rightarrow> Situation" where
  "situation_of d =
     \<lparr>s_AlertKind = pd_AlertKind d, s_NatureKey = pd_NatureKey d, s_NatureScope = pd_NatureScope d, s_NatureLabel = pd_NatureLabel d,
      s_Severity = pd_Severity d, s_TargetName = pd_TargetName d, s_AffectedTargets = pd_AffectedTargets d,
      s_MaxAffected = pd_MaxAffected d, s_TotalTargets = pd_ImpactCount d, s_Resolved = (pd_EventKind d = ResolvedEvent),
      s_Extended = pd_Extended d, s_Context = pd_Context d\<rparr>"

text \<open>A marker in front of a title.\<close>

definition marked :: "string \<Rightarrow> string \<Rightarrow> string" where
  "marked marker title = (if marker \<noteq> '''' then marker @ '' '' @ title else title)"

definition presentationFor :: "PushDelivery \<Rightarrow> PushPresentation" where
  "presentationFor d =
     (let english = (pd_Locale d = ''en'') in
      if pd_NotificationContent d = ''masked''
      then \<lparr>pp_Title = ''CairnOps'',
            pp_Body = (if english then ''Open CairnOps to view the update.''
                       else ''Ouvrez CairnOps pour consulter la mise '' @ [CHR 0xC3, CHR 0xA0] @ '' jour.'')\<rparr>
      else if pd_NotificationContent d = ''discreet''
      then \<lparr>pp_Title = ''CairnOps'',
            pp_Body = (if pd_EventKind d = ResolvedEvent
                       then (if english then ''An incident has been resolved.'' else ''Un Incident est r'' @ [CHR 0xC3, CHR 0xA9] @ ''solu.'')
                       else if english then ''An incident requires attention.'' else ''Un Incident demande votre attention.'')\<rparr>
      else (let text = RenderNotification (situation_of d) (pd_Locale d)
            in \<lparr>pp_Title = marked (NotificationMarker (pd_Severity d) (pd_EventKind d = ResolvedEvent)) (st_Title text),
                pp_Body = st_Body text\<rparr>))"

definition messageFor :: "PushDelivery \<Rightarrow> string \<Rightarrow> Message" where
  "messageFor d url =
     \<lparr>m_Version = 1, m_EventKind = pd_EventKind d, m_IncidentID = pd_IncidentID d, m_Revision = pd_Revision d,
      m_PresentationMode = pd_PresentationMode d, m_Severity = pd_Severity d, m_ImpactCount = pd_ImpactCount d,
      m_AffectedTargets = pd_AffectedTargets d, m_MaxAffected = pd_MaxAffected d, m_PropagationStatus = pd_PropagationStatus d,
      m_Extended = pd_Extended d, m_Acknowledged = pd_Acknowledged d, m_UnreadCount = pd_UnreadCount d,
      m_OccurredAt = pd_OccurredAt d, m_InstanceURL = TrimSuffix url ''/'', m_Presentation = presentationFor d\<rparr>"

definition collapseKey :: "crypto \<Rightarrow> uuid \<Rightarrow> string" where
  "collapseKey c incident = EncodeToString RawURLEncoding (take 16 (Sum256 c incident))"

subsection \<open>Encryption\<close>

record curve =
  X25519 :: "string \<Rightarrow> string \<Rightarrow> string + string"
  Basepoint :: string
  hkdf_key :: "string \<Rightarrow> string \<Rightarrow> string"
  NewX :: "string \<Rightarrow> AEAD"

definition envelopeContext :: string where "envelopeContext = ''cairnops-push-envelope-v1''"

record Envelope =
  ev_Version :: int
  ev_EphemeralPublicKey :: string
  ev_Nonce :: string
  ev_Ciphertext :: string

text \<open>The payload is already encoded; the random source is that of the accounts.\<close>

definition Encrypt :: "curve \<Rightarrow> string \<Rightarrow> string \<Rightarrow> ddb \<Rightarrow> (string + Envelope) \<times> ddb" where
  "Encrypt k publicKey plaintext s =
     (if length publicKey \<noteq> 32 then (Inl ''invalid device encryption public key'', s)
      else
        let (ephemeralPrivate, s) = read_random 32 s
        in case X25519 k ephemeralPrivate (Basepoint k) of
             Inl e \<Rightarrow> (Inl (''derive ephemeral push public key: '' @ e), s)
           | Inr ephemeralPublic \<Rightarrow>
               (case X25519 k ephemeralPrivate publicKey of
                  Inl e \<Rightarrow> (Inl (''derive push shared secret: '' @ e), s)
                | Inr sharedSecret \<Rightarrow>
                    (let a = NewX k (hkdf_key k sharedSecret envelopeContext);
                         (nonce, s) = read_random (NonceSize a) s
                     in (Inr \<lparr>ev_Version = 1, ev_EphemeralPublicKey = EncodeToString RawURLEncoding ephemeralPublic,
                              ev_Nonce = EncodeToString RawURLEncoding nonce,
                              ev_Ciphertext = EncodeToString RawURLEncoding (aead_Seal a nonce plaintext envelopeContext)\<rparr>, s))))"

subsection \<open>The relay and its dispatcher\<close>

datatype push_error = HTTPError int | PushError string

definition push_error_text :: "push_error \<Rightarrow> string" where
  "push_error_text e = (case e of HTTPError n \<Rightarrow> ''push relay returned HTTP '' @ show_int n | PushError t \<Rightarrow> t)"

definition RecipientExpired :: "push_error \<Rightarrow> bool" where
  "RecipientExpired e \<longleftrightarrow> e = HTTPError 404 \<or> e = HTTPError 410"

record DeliveryRequest =
  rq_Recipient :: string
  rq_Envelope :: Envelope
  rq_CollapseKey :: string
  rq_Priority :: string
  rq_ExpiresAt :: instant

text \<open>An exchange with an HTTP server: the failure of the transport, or the status of the answer.\<close>

definition relay_do :: "string + int \<Rightarrow> push_error option" where
  "relay_do answer =
     (case answer of
        Inl e \<Rightarrow> Some (PushError (''contact push relay: '' @ e))
      | Inr code \<Rightarrow> if code < 200 \<or> 300 \<le> code then Some (HTTPError code) else None)"

text \<open>What surrounds a dispatcher: the answers of the relay to its calls, numbered, the curve, the
  encoding of messages and the texts of the errors of the box.\<close>

record relay_env =
  re_worker :: string
  re_url :: string
  re_curve :: curve
  re_marshal :: "Message \<Rightarrow> string"
  re_answer :: "nat \<Rightarrow> DeliveryRequest \<Rightarrow> string + int"

definition secret_error_text :: "secret_error \<Rightarrow> string" where
  "secret_error_text e =
     (case e of
        NotInitialized \<Rightarrow> ''secret box is not initialized''
      | AuthenticationFailed \<Rightarrow> ''open sealed secret: authentication failed''
      | _ \<Rightarrow> ''invalid sealed secret'')"

definition push_deliver :: "relay_env \<Rightarrow> nat \<Rightarrow> PushDelivery \<Rightarrow> pdb \<Rightarrow> push_error option \<times> pdb" where
  "push_deliver env n d s =
     (case box_Open (dd_box (p_devs s)) (pd_RecipientSealed d) PushRecipientPurpose of
        Inl e \<Rightarrow> (Some (PushError (''open push recipient: '' @ secret_error_text e)), s)
      | Inr recipient \<Rightarrow>
          (case Encrypt (re_curve env) (pd_EncryptionPublicKey d) (re_marshal env (messageFor d (re_url env))) (p_devs s) of
             (Inl e, devs) \<Rightarrow> (Some (PushError e), s\<lparr>p_devs := devs\<rparr>)
           | (Inr envelope, devs) \<Rightarrow>
               (relay_do (re_answer env n
                  \<lparr>rq_Recipient = recipient, rq_Envelope = envelope, rq_CollapseKey = collapseKey (crypto_of (p_devs s)) (pd_IncidentID d),
                   rq_Priority = (if pd_PresentationMode d = Alert then ''high'' else ''normal''), rq_ExpiresAt = p_now s + hour\<rparr>),
                s\<lparr>p_devs := devs\<rparr>)))"

datatype dispatch_error = PushLeaseLost | NotificationLeaseLost

text \<open>One turn of the loop of \<open>Process\<close>: the error that ends it, or whether there is another turn.\<close>

definition push_turn :: "relay_env \<Rightarrow> nat \<Rightarrow> pdb \<Rightarrow> (dispatch_error + bool) \<times> pdb" where
  "push_turn env n s =
     (case Push_Claim (re_worker env) s of
        (None, s1) \<Rightarrow> (Inr False, s1)
      | (Some d, s1) \<Rightarrow>
          (case push_deliver env n d s1 of
             (Some e, s2) \<Rightarrow>
               if RecipientExpired e
               then (case DisableDevice (pd_ID d) (re_worker env) (push_error_text e) s2 of
                       (False, s3) \<Rightarrow> (Inl PushLeaseLost, s3)
                     | (True, s3) \<Rightarrow> (Inr True, s3))
               else (case Push_Fail (pd_ID d) (re_worker env) (push_error_text e) s2 of
                       (False, s3) \<Rightarrow> (Inl PushLeaseLost, s3)
                     | (True, s3) \<Rightarrow> (Inr True, SetRelayStatus True (Some (push_error_text e)) s3))
           | (None, s2) \<Rightarrow>
               (case Push_Complete (pd_ID d) (re_worker env) s2 of
                  (False, s3) \<Rightarrow> (Inl PushLeaseLost, s3)
                | (True, s3) \<Rightarrow> (Inr True, SetRelayStatus True None s3))))"

fun turns :: "(nat \<Rightarrow> 's \<Rightarrow> ('e + bool) \<times> 's) \<Rightarrow> nat \<Rightarrow> nat \<Rightarrow> 's \<Rightarrow> 'e option \<times> 's" where
  "turns turn n 0 s = (None, s)"
| "turns turn n (Suc left) s =
     (case turn n s of
        (Inl e, s') \<Rightarrow> (Some e, s')
      | (Inr again, s') \<Rightarrow> if again then turns turn (n + 1) left s' else (None, s'))"

text \<open>The relay may not be configured.\<close>

definition Push_Process :: "relay_env option \<Rightarrow> pdb \<Rightarrow> dispatch_error option \<times> pdb" where
  "Push_Process relay s = (case relay of None \<Rightarrow> (None, s) | Some env \<Rightarrow> turns (push_turn env) 0 20 s)"

definition Probe :: "(string + int) option \<Rightarrow> pdb \<Rightarrow> pdb" where
  "Probe ping s =
     (case ping of
        None \<Rightarrow> SetRelayStatus False (Some ''push relay is not configured'') s
      | Some answer \<Rightarrow> SetRelayStatus True (map_option push_error_text (relay_do answer)) s)"

subsection \<open>The dispatcher of notifications\<close>

definition mattermostSecretPurpose :: string where "mattermostSecretPurpose = ''mattermost-webhook-v1''"

record attachment =
  at_color :: string
  at_title :: string
  at_text :: string
  at_footer :: string

definition severityColor :: "severity \<Rightarrow> string" where
  "severityColor severity =
     (if severity = ''critical'' then ''#ff5d5d'' else if severity = ''major'' then ''#ff8a3d''
      else if severity = ''warning'' then ''#e9b949'' else ''#7aa2f7'')"

definition mattermost_attachment :: "string \<Rightarrow> Delivery \<Rightarrow> attachment" where
  "mattermost_attachment url d =
     (let resolved = (dv_EventKind d = ResolvedEvent \<or> dv_ResolvedAt d \<noteq> None);
          summary = RenderNotification
            \<lparr>s_AlertKind = dv_AlertKind d, s_NatureKey = dv_NatureKey d, s_NatureScope = dv_NatureScope d,
             s_NatureLabel = dv_NatureLabel d, s_Severity = dv_Severity d, s_TargetName = dv_TargetName d,
             s_AffectedTargets = dv_AffectedTargets d, s_MaxAffected = dv_MaxAffected d, s_TotalTargets = dv_ImpactCount d,
             s_Resolved = resolved, s_Extended = dv_Extended d, s_Context = dv_Context d\<rparr> ''fr''
      in \<lparr>at_color = (if resolved then ''#39d98a'' else severityColor (dv_Severity d)),
          at_title = marked (NotificationMarker (dv_Severity d) resolved) (st_Title summary),
          at_text = st_Body summary @
            (if url \<noteq> '''' then [CHR 0x0A] @ ''[Ouvrir CairnOps]('' @ url @ ''/incidents?incident='' @ QueryEscape (dv_IncidentID d) @ '')''
             else ''''),
          at_footer = ''Incident '' @ dv_IncidentID d\<rparr>)"

text \<open>\<open>post\<close>: the answer has a status and a body, cut at 64 KiB and one byte by the reader.\<close>

definition mattermost_post :: "string + int \<times> string \<Rightarrow> string option" where
  "mattermost_post answer =
     (case answer of
        Inl e \<Rightarrow> Some (''contact Mattermost: '' @ e)
      | Inr (code, body) \<Rightarrow>
          if code < 200 \<or> 300 \<le> code
          then (let detail = take 240 (TrimSpace (take (64 * 1024 + 1) body))
                in Some (''Mattermost returned HTTP '' @ show_int code @ (if detail \<noteq> '''' then '': '' @ detail else '''')))
          else None)"

record sender_env =
  se_worker :: string
  se_url :: string
  se_answer :: "nat \<Rightarrow> string \<Rightarrow> attachment \<Rightarrow> string + int \<times> string"

definition KindInApp :: string where "KindInApp = ''in_app''"

definition notification_deliver :: "sender_env \<Rightarrow> nat \<Rightarrow> Delivery \<Rightarrow> pdb \<Rightarrow> string option \<times> pdb" where
  "notification_deliver env n d s =
     (if dv_ChannelKind d = KindInApp
      then (case Deliver d s of (Inl e, s') \<Rightarrow> (Some e, s') | (Inr k, s') \<Rightarrow> (None, s'))
      else case box_Open (dd_box (p_devs s)) (dv_CredentialSealed d) mattermostSecretPurpose of
        Inl e \<Rightarrow> (Some (secret_error_text e), s)
      | Inr webhook \<Rightarrow> (mattermost_post (se_answer env n webhook (mattermost_attachment (TrimSuffix (se_url env) ''/'') d)), s))"

definition on_notes :: "(ndb \<Rightarrow> 'a \<times> ndb) \<Rightarrow> pdb \<Rightarrow> 'a \<times> pdb" where
  "on_notes f s = (let (a, n) = f (notes_of s) in (a, s\<lparr>p_notes := n\<rparr>))"

definition notification_turn :: "sender_env \<Rightarrow> nat \<Rightarrow> pdb \<Rightarrow> (dispatch_error + bool) \<times> pdb" where
  "notification_turn env n s =
     (case on_notes (Claim (se_worker env)) s of
        (None, s1) \<Rightarrow> (Inr False, s1)
      | (Some d, s1) \<Rightarrow>
          (case notification_deliver env n d s1 of
             (Some e, s2) \<Rightarrow>
               (case on_notes (Delivery_Fail (dv_ID d) (se_worker env) e) s2 of
                  (False, s3) \<Rightarrow> (Inl NotificationLeaseLost, s3)
                | (True, s3) \<Rightarrow> (Inr True, s3))
           | (None, s2) \<Rightarrow>
               (case on_notes (Delivery_Complete (dv_ID d) (se_worker env)) s2 of
                  (False, s3) \<Rightarrow> (Inl NotificationLeaseLost, s3)
                | (True, s3) \<Rightarrow> (Inr True, s3))))"

definition Notification_Process :: "sender_env \<Rightarrow> pdb \<Rightarrow> dispatch_error option \<times> pdb" where
  "Notification_Process env s =
     turns (notification_turn env) 0 20 (s\<lparr>p_notes := Schedule (notes_of s)\<rparr>)"

end
