(* ===== verification/Account_Machine.thy ===== *)
theory Account_Machine
  imports Accounts Machines
begin

text \<open>
  The accounts under every sequence of requests: the constraints of the tables, the last
  administrator, the sessions a gesture ends, and what a password opens.
\<close>

subsection \<open>Requests\<close>

text \<open>\<open>OProvision\<close> and \<open>ODirectory\<close> are what the synchronisation with the identity provider does to
  external accounts; \<open>OClock\<close> is the passing of time.\<close>

datatype account_op =
  OInitialize string string string string
| ORename string
| OLogin string string
| OExternal string
| OAuthenticate string
| OLogout string
| OCreate string string string string
| OUpdate string string "string option" "string option"
| OActivate string string bool
| OChange string string string
| OSet string string
| ORecover string string
| OClock instant
| OProvision user_row
| ODirectory string string "instant option" string

definition provision :: "user_row \<Rightarrow> idb \<Rightarrow> idb" where
  "provision u s =
     (if us_id u \<in> us_id ` set (users s) \<or> us_username u \<in> us_username ` set (users s) then s
      else s\<lparr>users := users s @ [u]\<rparr>)"

definition directory :: "string \<Rightarrow> string \<Rightarrow> instant option \<Rightarrow> string \<Rightarrow> idb \<Rightarrow> idb" where
  "directory user role suspended reason s =
     s\<lparr>users := update_where (\<lambda>u. us_id u = user \<and> us_regime u = ''external'')
        (\<lambda>u. u\<lparr>us_role := role, us_suspended_at := suspended, us_suspension_reason := reason\<rparr>) (users s)\<rparr>"

fun account_step :: "account_op \<Rightarrow> idb \<Rightarrow> idb" where
  "account_step (OInitialize i n d p) s = snd (Initialize i n d p s)"
| "account_step (ORename n) s = snd (RenameInstance n s)"
| "account_step (OLogin n p) s = snd (Login n p s)"
| "account_step (OExternal u) s = snd (NewSession u s)"
| "account_step (OAuthenticate t) s = snd (Authenticate t s)"
| "account_step (OLogout t) s = snd (Logout t s)"
| "account_step (OCreate n d r p) s = snd (CreateAccount n d r p s)"
| "account_step (OUpdate a u d r) s = snd (UpdateAccount a u d r s)"
| "account_step (OActivate a u b) s = snd (SetAccountActivation a u b s)"
| "account_step (OChange u c n) s = snd (ChangePassword u c n s)"
| "account_step (OSet u n) s = snd (SetPassword u n s)"
| "account_step (ORecover n p) s = snd (RecoverPassword n p s)"
| "account_step (OClock t) s = s\<lparr>id_now := t\<rparr>"
| "account_step (OProvision u) s = provision u s"
| "account_step (ODirectory u r t w) s = directory u r t w s"

subsection \<open>The constraints of the tables\<close>

definition user_typed :: "crypto \<Rightarrow> user_row \<Rightarrow> bool" where
  "user_typed c u \<longleftrightarrow> usernamePattern (us_username u) \<and> validateDisplayName (us_display_name u) \<and> validateRole (us_role u) \<and>
     (us_regime u = ''local'' \<and> (\<exists>h. us_password_hash u = Some h \<and> well_hashed c h) \<and> us_suspended_at u = None \<or>
      us_regime u = ''external'' \<and> us_password_hash u = None)"

definition rows_ok :: "idb \<Rightarrow> bool" where
  "rows_ok s \<longleftrightarrow> distinct (map us_id (users s)) \<and> distinct (map us_username (users s)) \<and>
     distinct (map ss_token_digest (sessions s)) \<and> list_all (user_typed (id_crypto s)) (users s) \<and>
     ss_user_id ` set (sessions s) \<subseteq> us_id ` set (users s)"

text \<open>An initialised instance has an administrator that can sign in.\<close>

definition governed :: "idb \<Rightarrow> bool" where
  "governed s \<longleftrightarrow> (id_initialized_at s \<noteq> None \<longrightarrow> list_ex administrator (users s))"

definition accounts_ok :: "idb \<Rightarrow> bool" where
  "accounts_ok s \<longleftrightarrow> rows_ok s \<and> governed s"

lemmas ok_defs = accounts_ok_def rows_ok_def governed_def

text \<open>The provider only brings external accounts.\<close>

fun account_admissible :: "crypto \<Rightarrow> account_op \<Rightarrow> bool" where
  "account_admissible c (OProvision u) \<longleftrightarrow> user_typed c u \<and> us_regime u = ''external''"
| "account_admissible c (ODirectory u r t w) \<longleftrightarrow> validateRole r"
| "account_admissible c op \<longleftrightarrow> True"

lemma accounts_ok_draws [simp]: "accounts_ok (s\<lparr>id_draws := k\<rparr>) = accounts_ok s"
  "accounts_ok (s\<lparr>id_now := t\<rparr>) = accounts_ok s" "accounts_ok (s\<lparr>id_name := n\<rparr>) = accounts_ok s"
  by (simp_all add: ok_defs)

lemma map_sessions_ok:
  assumes "accounts_ok s" and "\<And>r. ss_user_id (f r) = ss_user_id r" and "\<And>r. ss_token_digest (f r) = ss_token_digest r"
  shows "accounts_ok (s\<lparr>sessions := update_where P f (sessions s)\<rparr>)"
  using assms by (simp add: ok_defs map_update_where image_update_where)

lemma revokeSessions_ok: "accounts_ok s \<Longrightarrow> accounts_ok (revokeSessions u s)"
  unfolding revokeSessions_def by (rule map_sessions_ok) simp_all

lemma insert_session_ok:
  "accounts_ok s \<Longrightarrow> insert_session u d e s = Some s' \<Longrightarrow> u \<in> us_id ` set (users s) \<Longrightarrow> accounts_ok s'"
  unfolding insert_session_def ok_defs
  by (simp split: if_splits) (clarsimp simp: image_Un)

lemma insert_user_ok:
  assumes "accounts_ok s" and "insert_user n d h r s = Some (u, s')" and "usernamePattern n" and "validateDisplayName d"
    and "validateRole r" and "well_hashed (id_crypto s) h"
  shows "accounts_ok s'" and "u \<in> set (users s')" and "id_crypto s' = id_crypto s"
    and "us_role u = r" and "administrator u \<longleftrightarrow> r = ''administrator''"
proof -
  have u: "user_typed (id_crypto s) u" "s' = s\<lparr>users := users s @ [u], id_uuids := id_uuids s + 1\<rparr>"
      "us_username u \<notin> us_username ` set (users s)" "us_id u \<notin> us_id ` set (users s)"
    using assms(2-) by (auto simp: insert_user_def user_typed_def Let_def split: if_splits)
  then show "accounts_ok s'" using assms(1) by (auto simp: ok_defs)
  show "u \<in> set (users s')" "id_crypto s' = id_crypto s" using u(2) by simp_all
  show "us_role u = r" "administrator u \<longleftrightarrow> r = ''administrator''"
    using assms(2) by (auto simp: insert_user_def administrator_def Let_def split: if_splits)
qed

lemma set_account_rows:
  assumes "rows_ok s" and "\<And>u. us_id (f u) = us_id u" and "\<And>u. us_username (f u) = us_username u"
    and "\<And>u. u \<in> set (users s) \<Longrightarrow> us_id u = user \<Longrightarrow> user_typed (id_crypto s) u \<Longrightarrow> user_typed (id_crypto s) (f u)"
  shows "rows_ok (set_account user f s)"
proof -
  have "list_all (user_typed (id_crypto s)) (update_where (\<lambda>u. us_id u = user) f (users s))"
    using assms(1,4) by (auto simp: rows_ok_def list_all_iff update_where_def)
  then show ?thesis using assms by (simp add: rows_ok_def set_account_def map_update_where image_update_where)
qed

lemma revokeSessions_rows: "rows_ok s \<Longrightarrow> rows_ok (revokeSessions u s)"
  by (simp add: rows_ok_def revokeSessions_def map_update_where image_update_where)

subsection \<open>Every request keeps the constraints\<close>

lemma rand_Read_eq: "rand_Read n s = (random_bytes (id_crypto s) (id_draws s) n, s\<lparr>id_draws := id_draws s + 1\<rparr>)"
  by (simp add: rand_Read_def)

lemma find_user: "find P (users s) = Some u \<Longrightarrow> P u \<and> us_id u \<in> us_id ` set (users s)"
  by (auto simp: find_Some_iff)

lemma createSession_ok:
  assumes "accounts_ok s" and "pr_ID who \<in> us_id ` set (users s)"
  shows "accounts_ok (snd (createSession who s))"
proof -
  have "accounts_ok (s\<lparr>id_draws := id_draws s + 1\<rparr>)" using assms by simp
  from insert_session_ok [OF this] show ?thesis
    using assms by (auto simp: createSession_def rand_Read_eq Let_def split: option.splits prod.splits)
qed

lemma Login_ok: "accounts_ok s \<Longrightarrow> accounts_ok (snd (Login n p s))"
  unfolding Login_def Let_def
  by (auto simp: principal_of_def intro!: createSession_ok dest!: find_user split: option.splits)

lemma NewSession_ok: "accounts_ok s \<Longrightarrow> accounts_ok (snd (NewSession u s))"
  unfolding NewSession_def
  by (auto simp: principal_of_def intro!: createSession_ok dest!: find_user split: option.splits)

lemma Authenticate_ok: "accounts_ok s \<Longrightarrow> accounts_ok (snd (Authenticate t s))"
  unfolding Authenticate_def by (auto intro!: map_sessions_ok split: option.splits)

lemma Logout_ok: "accounts_ok s \<Longrightarrow> accounts_ok (snd (Logout t s))"
  unfolding Logout_def Let_def by (auto intro!: map_sessions_ok split: option.splits)

lemma RenameInstance_ok: "accounts_ok s \<Longrightarrow> accounts_ok (snd (RenameInstance n s))"
  by (simp add: RenameInstance_def Let_def)

lemma Initialize_ok:
  assumes "accounts_ok s" and "crypto_ok (id_crypto s)"
  shows "accounts_ok (snd (Initialize i n d p s))"
proof -
  have len: "length (random_bytes (id_crypto s) k 16) = 16" for k using assms(2) by (simp add: crypto_ok_def)
  have "accounts_ok (s2\<lparr>id_initialized_at := Some t, id_name := m\<rparr>)"
    if ins: "insert_user n' d' (hashPassword (id_crypto s) (random_bytes (id_crypto s) k 16) p) ''administrator'' (s\<lparr>id_draws := j\<rparr>) = Some (u, s1)"
      and ses: "insert_session (us_id u) dig e s1 = Some s2"
      and valid: "usernamePattern n'" "validateDisplayName d'" for n' d' u s1 s2 dig e k j t m
  proof -
    have hashed: "well_hashed (id_crypto (s\<lparr>id_draws := j\<rparr>)) (hashPassword (id_crypto s) (random_bytes (id_crypto s) k 16) p)"
      using len by (auto simp: well_hashed_def)
    have role: "validateRole ''administrator''" by (simp add: validateRole_def roles_def)
    have "accounts_ok (s\<lparr>id_draws := j\<rparr>)" using assms(1) by simp
    note u = insert_user_ok [OF this ins valid role hashed]
    have "accounts_ok s2" by (rule insert_session_ok [OF u(1) ses]) (use u(2) in simp)
    moreover have "users s2 = users s1" using ses by (auto simp: insert_session_def split: if_splits)
    ultimately show ?thesis using u by (auto simp: ok_defs list_ex_iff)
  qed
  then show ?thesis using assms(1)
    by (auto simp: Initialize_def rand_Read_eq Let_def validateIdentityInput_def split: option.splits prod.splits)
qed

lemma CreateAccount_ok:
  assumes "accounts_ok s" and "crypto_ok (id_crypto s)"
  shows "accounts_ok (snd (CreateAccount n d r p s))"
proof -
  have len: "length (random_bytes (id_crypto s) k 16) = 16" for k using assms(2) by (simp add: crypto_ok_def)
  have "accounts_ok s1"
    if ins: "insert_user n' d' (hashPassword (id_crypto s) (random_bytes (id_crypto s) k 16) p) r (s\<lparr>id_draws := j\<rparr>) = Some (u, s1)"
      and valid: "usernamePattern n'" "validateDisplayName d'" "validateRole r" for n' d' u s1 k j
  proof -
    have hashed: "well_hashed (id_crypto (s\<lparr>id_draws := j\<rparr>)) (hashPassword (id_crypto s) (random_bytes (id_crypto s) k 16) p)"
      using len by (auto simp: well_hashed_def)
    have "accounts_ok (s\<lparr>id_draws := j\<rparr>)" using assms(1) by simp
    from insert_user_ok(1) [OF this ins valid hashed] show ?thesis .
  qed
  then show ?thesis using assms(1)
    by (auto simp: CreateAccount_def rand_Read_eq Let_def validateIdentityInput_def split: option.splits prod.splits)
qed

lemma mutateAccount_ok:
  assumes "accounts_ok s" and "\<And>s'. change s = Inr s' \<Longrightarrow> rows_ok s'"
  shows "accounts_ok (snd (mutateAccount user change s))"
  using assms
  by (auto simp: mutateAccount_def accounts_ok_def governed_def list_ex_iff filter_empty_conv split: sum.splits option.splits)

lemma UpdateAccount_ok:
  assumes "accounts_ok s"
  shows "accounts_ok (snd (UpdateAccount actor user displayName role s))"
proof -
  have rows: "rows_ok s" using assms by (simp add: accounts_ok_def)
  have "rows_ok s'" if valid: "\<And>d. dn = Some d \<Longrightarrow> validateDisplayName d" "\<And>r. role = Some r \<Longrightarrow> validateRole r"
      and c: "change_account user dn role s = Inr s'" for dn s'
  proof -
    let ?f = "\<lambda>u. u\<lparr>us_display_name := (case dn of None \<Rightarrow> us_display_name u | Some d \<Rightarrow> d),
                   us_role := (case role of None \<Rightarrow> us_role u | Some r \<Rightarrow> r)\<rparr>"
    have "rows_ok (set_account user ?f s)"
      by (rule set_account_rows [OF rows]) (use valid in \<open>auto simp: user_typed_def split: option.splits\<close>)
    then show ?thesis using c revokeSessions_rows by (auto simp: change_account_def Let_def split: if_splits)
  qed
  then show ?thesis using assms
    by (auto simp: UpdateAccount_def Let_def intro!: mutateAccount_ok split: option.splits)
qed

lemma SetAccountActivation_ok:
  assumes "accounts_ok s"
  shows "accounts_ok (snd (SetAccountActivation actor user active s))"
proof -
  have "rows_ok s" using assms by (simp add: accounts_ok_def)
  then have "rows_ok (set_account user (\<lambda>u. u\<lparr>us_deactivated_at := g u\<rparr>) s)" for g
    by (rule set_account_rows) (auto simp: user_typed_def)
  then show ?thesis using assms revokeSessions_rows
    by (auto simp: SetAccountActivation_def activate_account_def Let_def intro!: mutateAccount_ok)
qed

lemma list_ex_update_where:
  "list_ex Q rows \<Longrightarrow> (\<And>r. Q r \<Longrightarrow> P r \<Longrightarrow> Q (f r)) \<Longrightarrow> list_ex Q (update_where P f rows)"
  by (induction rows) auto

lemma governed_set_account:
  "governed s \<Longrightarrow> (\<And>u. administrator u \<Longrightarrow> administrator (f u)) \<Longrightarrow> governed (set_account user f s)"
  unfolding governed_def set_account_def by (simp add: list_ex_update_where)

text \<open>A new password keeps a local account what it was, apart from its hash.\<close>

lemma writePassword_ok:
  assumes "accounts_ok s" and "crypto_ok (id_crypto s)" and "\<And>u. u \<in> set (users s) \<Longrightarrow> us_id u = user \<Longrightarrow> us_regime u = ''local''"
  shows "accounts_ok (writePassword user p s)"
proof -
  let ?salt = "random_bytes (id_crypto s) (id_draws s) 16" and ?s = "s\<lparr>id_draws := id_draws s + 1\<rparr>"
  let ?f = "\<lambda>u. u\<lparr>us_password_hash := Some (hashPassword (id_crypto s) ?salt p)\<rparr>"
  have "length ?salt = 16" using assms(2) by (simp add: crypto_ok_def)
  then have hashed: "well_hashed (id_crypto s) (hashPassword (id_crypto s) ?salt p)" by (auto simp: well_hashed_def)
  have stored: "writePassword user p s = set_account user ?f ?s" by (simp add: writePassword_def rand_Read_eq)
  have "rows_ok ?s" using assms(1) by (simp add: ok_defs)
  then have "rows_ok (writePassword user p s)" unfolding stored
    by (rule set_account_rows) (use hashed assms(3) in \<open>auto simp: user_typed_def\<close>)
  moreover have "governed (writePassword user p s)"
    unfolding stored by (rule governed_set_account) (use assms(1) in \<open>simp_all add: accounts_ok_def governed_def administrator_def\<close>)
  ultimately show ?thesis by (simp add: accounts_ok_def)
qed

lemma local_user:
  assumes "accounts_ok s" and "find P (users s) = Some u" and "us_regime u = ''local''" and "v \<in> set (users s)" and "us_id v = us_id u"
  shows "us_regime v = ''local''"
proof -
  have "u \<in> set (users s)" using assms(2) by (auto simp: find_Some_iff)
  moreover have "inj_on us_id (set (users s))" using assms(1) by (simp add: accounts_ok_def rows_ok_def distinct_map)
  ultimately show ?thesis using assms(3-5) by (metis inj_onD)
qed

lemma ChangePassword_ok:
  assumes "accounts_ok s" and "crypto_ok (id_crypto s)"
  shows "accounts_ok (snd (ChangePassword user current new s))"
proof (cases "find (\<lambda>u. us_id u = user \<and> us_regime u = ''local'') (users s)")
  case (Some u)
  then have "us_id u = user" "us_regime u = ''local''" by (auto simp: find_Some_iff)
  then have "accounts_ok (writePassword user new s)"
    using writePassword_ok [OF assms] local_user [OF assms(1) Some] by blast
  then show ?thesis using assms(1) revokeSessions_ok
    by (auto simp: ChangePassword_def Some split: option.splits)
qed (use assms in \<open>simp add: ChangePassword_def\<close>)

lemma replacePassword_ok:
  assumes "accounts_ok s" and "crypto_ok (id_crypto s)" and "\<And>u. P u \<Longrightarrow> us_regime u = ''local''"
  shows "accounts_ok (snd (replacePassword P new absent s))"
proof (cases "find P (users s)")
  case (Some u)
  then have "us_regime u = ''local''" using assms(3) by (auto simp: find_Some_iff)
  then have "accounts_ok (writePassword (us_id u) new s)"
    using writePassword_ok [OF assms(1,2)] local_user [OF assms(1) Some] by blast
  then show ?thesis using assms(1) revokeSessions_ok by (simp add: replacePassword_def Some)
qed (use assms in \<open>simp add: replacePassword_def\<close>)

lemma SetPassword_ok: "accounts_ok s \<Longrightarrow> crypto_ok (id_crypto s) \<Longrightarrow> accounts_ok (snd (SetPassword u new s))"
  unfolding SetPassword_def by (rule replacePassword_ok) simp_all

lemma RecoverPassword_ok: "accounts_ok s \<Longrightarrow> crypto_ok (id_crypto s) \<Longrightarrow> accounts_ok (snd (RecoverPassword n new s))"
  unfolding RecoverPassword_def Let_def by (rule replacePassword_ok) simp_all

lemma provision_ok:
  "accounts_ok s \<Longrightarrow> user_typed (id_crypto s) u \<Longrightarrow> accounts_ok (provision u s)"
  unfolding provision_def ok_defs by (auto simp: list_ex_iff)

lemma directory_ok:
  assumes "accounts_ok s" and "validateRole role"
  shows "accounts_ok (directory user role suspended reason s)"
proof -
  let ?f = "\<lambda>u. u\<lparr>us_role := role, us_suspended_at := suspended, us_suspension_reason := reason\<rparr>"
  let ?P = "\<lambda>u. us_id u = user \<and> us_regime u = ''external''"
  have "list_all (user_typed (id_crypto s)) (update_where ?P ?f (users s))"
    using assms by (auto simp: ok_defs list_all_iff update_where_def user_typed_def)
  moreover have "list_ex administrator (update_where ?P ?f (users s))" if "list_ex administrator (users s)"
    by (rule list_ex_update_where [OF that]) (simp add: administrator_def)
  ultimately show ?thesis using assms(1) by (simp add: ok_defs directory_def map_update_where image_update_where)
qed


subsection \<open>The machine\<close>

text \<open>What a request never changes of a session: whose it is, its digest, its end, and that it is revoked.\<close>

definition kept_session :: "session_row \<Rightarrow> session_row \<Rightarrow> bool" where
  "kept_session r r' \<longleftrightarrow> ss_user_id r' = ss_user_id r \<and> ss_token_digest r' = ss_token_digest r \<and>
     ss_expires_at r' = ss_expires_at r \<and> (ss_revoked_at r \<noteq> None \<longrightarrow> ss_revoked_at r' = ss_revoked_at r)"

definition follows :: "idb \<Rightarrow> idb \<Rightarrow> bool" where
  "follows s s' \<longleftrightarrow> id_crypto s' = id_crypto s \<and> grows kept_session (sessions s) (sessions s')"

lemma kept_session_refl: "kept_session r r"
  by (simp add: kept_session_def)

lemma follows_refl [simp]: "follows s s"
  by (simp add: follows_def grows_refl kept_session_refl)

lemma follows_trans: "follows s t \<Longrightarrow> follows t u \<Longrightarrow> follows s u"
  unfolding follows_def
  by (metis (mono_tags, lifting) grows_trans [where Q = kept_session] kept_session_def)

lemma follows_sessions: "id_crypto s' = id_crypto s \<Longrightarrow> sessions s' = sessions s \<Longrightarrow> follows s s'"
  by (simp add: follows_def grows_refl kept_session_refl)

lemma follows_update:
  "id_crypto s' = id_crypto s \<Longrightarrow> sessions s' = update_where P f (sessions s) \<Longrightarrow> (\<And>r. P r \<Longrightarrow> kept_session r (f r)) \<Longrightarrow> follows s s'"
  by (simp add: follows_def grows_update kept_session_refl)

lemma follows_append: "id_crypto s' = id_crypto s \<Longrightarrow> sessions s' = sessions s @ xs \<Longrightarrow> follows s s'"
  by (simp add: follows_def grows_append kept_session_refl)

lemma revokeSessions_follows: "sessions s' = sessions s \<Longrightarrow> id_crypto s' = id_crypto s \<Longrightarrow> follows s (revokeSessions u s')"
  unfolding revokeSessions_def
  by (rule follows_update [where P = "\<lambda>r. ss_user_id r = u \<and> ss_revoked_at r = None" and f = "\<lambda>r. r\<lparr>ss_revoked_at := Some (id_now s')\<rparr>"])
    (simp_all add: kept_session_def)

lemma insert_session_follows: "insert_session u d e s1 = Some s2 \<Longrightarrow> sessions s1 = sessions s \<Longrightarrow> id_crypto s1 = id_crypto s \<Longrightarrow> follows s s2"
  by (rule follows_append) (auto simp: insert_session_def split: if_splits)

lemma insert_user_frame: "insert_user n d h r s = Some (u, s') \<Longrightarrow> sessions s' = sessions s \<and> id_crypto s' = id_crypto s \<and> users s' = users s @ [u]"
  by (auto simp: insert_user_def Let_def split: if_splits)

lemma insert_session_frame: "insert_session u d e s = Some s' \<Longrightarrow> id_crypto s' = id_crypto s \<and> users s' = users s"
  by (auto simp: insert_session_def split: if_splits)

lemma createSession_follows: "follows s (snd (createSession who s))"
  by (auto simp: createSession_def rand_Read_eq Let_def intro: follows_sessions insert_session_follows split: option.splits prod.splits)

lemma Initialize_follows: "follows s (snd (Initialize i n d p s))"
proof -
  have "follows s (s2\<lparr>id_initialized_at := t, id_name := m\<rparr>)"
    if "insert_user n' d' h r (s\<lparr>id_draws := j\<rparr>) = Some (u, s1)" and "insert_session k dig e s1 = Some s2" for n' d' h r j u s1 k dig e s2 t m
  proof -
    have "follows s s2" using insert_session_follows [OF that(2)] insert_user_frame [OF that(1)] by simp
    then show ?thesis by (simp add: follows_def)
  qed
  then show ?thesis
    by (auto simp: Initialize_def rand_Read_eq Let_def intro: follows_sessions split: option.splits prod.splits)
qed

lemma CreateAccount_follows: "follows s (snd (CreateAccount n d r p s))"
  by (auto simp: CreateAccount_def rand_Read_eq Let_def intro!: follows_sessions dest!: insert_user_frame split: option.splits prod.splits)

lemma mutateAccount_follows: "(\<And>s'. change s = Inr s' \<Longrightarrow> follows s s') \<Longrightarrow> follows s (snd (mutateAccount user change s))"
  by (auto simp: mutateAccount_def split: sum.splits option.splits)

lemma set_account_frame [simp]: "sessions (set_account user f s) = sessions s" "id_crypto (set_account user f s) = id_crypto s"
    "id_initialized_at (set_account user f s) = id_initialized_at s"
  by (simp_all add: set_account_def)

lemma set_account_follows [simp]: "follows s (set_account user f s)"
  by (rule follows_sessions) simp_all

lemma UpdateAccount_follows: "follows s (snd (UpdateAccount a u d r s))"
  by (auto simp: UpdateAccount_def change_account_def Let_def intro!: mutateAccount_follows revokeSessions_follows
      intro: follows_sessions split: option.splits if_splits)

lemma SetAccountActivation_follows: "follows s (snd (SetAccountActivation a u b s))"
  by (auto simp: SetAccountActivation_def activate_account_def Let_def intro!: mutateAccount_follows revokeSessions_follows
      intro: follows_sessions split: if_splits)

lemma writePassword_frame [simp]: "sessions (writePassword u p s) = sessions s" "id_crypto (writePassword u p s) = id_crypto s"
  by (simp_all add: writePassword_def rand_Read_eq)

lemma account_step_follows: "follows s (account_step op s)"
proof (cases op)
  case (OLogin n p)
  then show ?thesis by (auto simp: Login_def Let_def createSession_follows split: option.splits)
next
  case (OExternal u)
  then show ?thesis by (auto simp: NewSession_def createSession_follows split: option.splits)
next
  case (OAuthenticate t)
  have "follows s (s\<lparr>sessions := update_where P (\<lambda>r. r\<lparr>ss_last_seen_at := id_now s\<rparr>) (sessions s)\<rparr>)" for P
    by (rule follows_update [where P = P and f = "\<lambda>r. r\<lparr>ss_last_seen_at := id_now s\<rparr>"]) (simp_all add: kept_session_def)
  then show ?thesis by (simp add: OAuthenticate Authenticate_def split: option.splits)
next
  case (OLogout t)
  have "follows s (s\<lparr>sessions := update_where (\<lambda>r. ss_token_digest r = d \<and> ss_revoked_at r = None) (\<lambda>r. r\<lparr>ss_revoked_at := Some (id_now s)\<rparr>) (sessions s)\<rparr>)" for d
    by (rule follows_update [where P = "\<lambda>r. ss_token_digest r = d \<and> ss_revoked_at r = None" and f = "\<lambda>r. r\<lparr>ss_revoked_at := Some (id_now s)\<rparr>"])
      (simp_all add: kept_session_def)
  then show ?thesis by (simp add: OLogout Logout_def Let_def split: option.splits)
next
  case (OChange u c n)
  then show ?thesis by (simp add: ChangePassword_def revokeSessions_follows split: option.splits)
next
  case (OSet u n)
  then show ?thesis by (simp add: SetPassword_def replacePassword_def revokeSessions_follows split: option.splits)
next
  case (ORecover u n)
  then show ?thesis by (simp add: RecoverPassword_def Let_def replacePassword_def revokeSessions_follows split: option.splits)
qed (simp_all add: Initialize_follows CreateAccount_follows UpdateAccount_follows SetAccountActivation_follows RenameInstance_def Let_def
  provision_def directory_def follows_sessions)

lemma account_run_follows: "follows s (fold account_step ops s)"
  by (induction ops arbitrary: s) (auto intro: follows_trans account_step_follows)

definition accounts_inv :: "crypto \<Rightarrow> idb \<Rightarrow> bool" where
  "accounts_inv c s \<longleftrightarrow> accounts_ok s \<and> id_crypto s = c \<and> crypto_ok c"

lemma account_step_inv:
  assumes "account_admissible c op" and "accounts_inv c s"
  shows "accounts_inv c (account_step op s)"
proof -
  have ok: "accounts_ok s" "crypto_ok (id_crypto s)" and c: "id_crypto s = c" using assms(2) by (auto simp: accounts_inv_def)
  have "accounts_ok (account_step op s)"
    using assms(1) ok c
    by (cases op) (simp_all add: Initialize_ok RenameInstance_ok Login_ok NewSession_ok Authenticate_ok Logout_ok CreateAccount_ok
      UpdateAccount_ok SetAccountActivation_ok ChangePassword_ok SetPassword_ok RecoverPassword_ok provision_ok directory_ok)
  then show ?thesis using account_step_follows [of s op] ok(2) c by (simp add: accounts_inv_def follows_def)
qed

interpretation accounts: machine account_step "account_admissible c" "accounts_inv c" for c
  by unfold_locales (rule account_step_inv)

end
