(* ===== verification/Device_Machine.thy ===== *)
theory Device_Machine
  imports Devices Account_Machine
begin

text \<open>
  Pairings and devices under every sequence of requests, together with those of the accounts: the
  life of a pairing, the credential that is handed out once, and the device it opens.
\<close>

subsection \<open>Requests\<close>

datatype device_op =
  DAccount account_op
| DCreate string
| DClaim string ClaimInput
| DConfirm string string
| DResult string
| DCancel string string
| DAuthenticate string
| DUpdate Principal string UpdateInput
| DRevoke Principal string
| DRevokeSelf string

fun device_step :: "device_op \<Rightarrow> ddb \<Rightarrow> ddb" where
  "device_step (DAccount op) s = s\<lparr>dd_ids := account_step op (dd_ids s)\<rparr>"
| "device_step (DCreate u) s = snd (CreatePairing u s)"
| "device_step (DClaim t i) s = snd (ClaimPairing t i s)"
| "device_step (DConfirm u p) s = snd (ConfirmPairing u p s)"
| "device_step (DResult t) s = snd (PairingResult t s)"
| "device_step (DCancel u p) s = snd (CancelPairing u p s)"
| "device_step (DAuthenticate t) s = snd (Device_Authenticate t s)"
| "device_step (DUpdate a d i) s = snd (Device_Update a d i s)"
| "device_step (DRevoke a d) s = snd (Device_Revoke a d s)"
| "device_step (DRevokeSelf d) s = snd (RevokeSelf d s)"

fun device_admissible :: "crypto \<Rightarrow> device_op \<Rightarrow> bool" where
  "device_admissible c (DAccount op) = account_admissible c op"
| "device_admissible c op = True"

subsection \<open>The constraints\<close>

text \<open>A confirmed pairing has a device of its user; what it keeps sealed is the token of that device.\<close>

definition pairing_ok :: "ddb \<Rightarrow> pairing_row \<Rightarrow> bool" where
  "pairing_ok s p \<longleftrightarrow> (pa_consumed_at p \<noteq> None \<longrightarrow> pa_confirmed_at p \<noteq> None \<and> pa_token_sealed p = '''') \<and>
     (pa_confirmed_at p \<noteq> None \<longrightarrow> pa_cancelled_at p = None \<and> pa_claimed_at p \<noteq> None \<and>
        (\<exists>d \<in> set (devices s). pa_device_id p = Some (de_id d) \<and> de_user_id d = pa_user_id p \<and>
           (pa_token_sealed p = '''' \<or>
            (\<exists>token. box_Open (dd_box s) (pa_token_sealed p) pairingSecretPurpose = Inr token \<and>
               tokenDigest (crypto_of s) token = Some (de_token_digest d)))))"

definition devices_ok :: "ddb \<Rightarrow> bool" where
  "devices_ok s \<longleftrightarrow> (\<exists>a. dd_box s = Some a \<and> aead_ok a) \<and>
     distinct (map pa_id (pairings s)) \<and> distinct (map pa_token_digest (pairings s)) \<and>
     distinct (map de_id (devices s)) \<and> distinct (map de_token_digest (devices s)) \<and>
     list_all (pairing_ok s) (pairings s) \<and>
     list_all (\<lambda>d. list_ex (\<lambda>p. pa_confirmed_at p \<noteq> None \<and> pa_device_id p = Some (de_id d) \<and> pa_user_id p = de_user_id d) (pairings s)) (devices s)"

definition devices_inv :: "crypto \<Rightarrow> ddb \<Rightarrow> bool" where
  "devices_inv c s \<longleftrightarrow> accounts_inv c (dd_ids s) \<and> devices_ok s"

subsection \<open>What a request keeps\<close>

definition kept_pairing :: "pairing_row \<Rightarrow> pairing_row \<Rightarrow> bool" where
  "kept_pairing p q \<longleftrightarrow> pa_id q = pa_id p \<and> pa_user_id q = pa_user_id p \<and> pa_token_digest q = pa_token_digest p \<and>
     pa_expires_at q = pa_expires_at p \<and>
     (pa_claimed_at p \<noteq> None \<longrightarrow> pa_claimed_at q = pa_claimed_at p \<and> pa_claim q = pa_claim p) \<and>
     (pa_confirmed_at p \<noteq> None \<longrightarrow> pa_confirmed_at q = pa_confirmed_at p \<and> pa_device_id q = pa_device_id p) \<and>
     (pa_cancelled_at p \<noteq> None \<longrightarrow> pa_cancelled_at q = pa_cancelled_at p) \<and>
     (pa_consumed_at p \<noteq> None \<longrightarrow> pa_consumed_at q = pa_consumed_at p)"

definition kept_device :: "device_row \<Rightarrow> device_row \<Rightarrow> bool" where
  "kept_device d e \<longleftrightarrow> de_id e = de_id d \<and> de_user_id e = de_user_id d \<and> de_token_digest e = de_token_digest d \<and>
     (de_revoked_at d \<noteq> None \<longrightarrow> de_revoked_at e = de_revoked_at d)"

text \<open>The frame of the requests that neither add nor confirm: rows keep what identifies them, and what is
  sealed is kept or erased.\<close>

definition quiet_pairing :: "pairing_row \<Rightarrow> pairing_row \<Rightarrow> bool" where
  "quiet_pairing p q \<longleftrightarrow> kept_pairing p q \<and> pa_confirmed_at q = pa_confirmed_at p \<and>
     (pa_confirmed_at p \<noteq> None \<longrightarrow> pa_cancelled_at q = pa_cancelled_at p) \<and>
     (pa_token_sealed q = pa_token_sealed p \<and> pa_consumed_at q = pa_consumed_at p \<or>
      pa_confirmed_at p \<noteq> None \<and> pa_token_sealed q = '''')"

definition quiet :: "ddb \<Rightarrow> ddb \<Rightarrow> bool" where
  "quiet s t \<longleftrightarrow> dd_box t = dd_box s \<and> crypto_of t = crypto_of s \<and>
     length (devices t) = length (devices s) \<and> grows kept_device (devices s) (devices t) \<and>
     length (pairings t) = length (pairings s) \<and> grows quiet_pairing (pairings s) (pairings t)"

lemma grows_same: "grows Q xs ys \<Longrightarrow> length ys = length xs \<Longrightarrow> (\<And>a b. Q a b \<Longrightarrow> k b = k a) \<Longrightarrow> map k ys = map k xs"
  by (rule nth_equalityI) (auto simp: grows_def)

lemma grows_back: "grows Q xs ys \<Longrightarrow> length ys = length xs \<Longrightarrow> y \<in> set ys \<Longrightarrow> \<exists>x \<in> set xs. Q x y"
  unfolding grows_def in_set_conv_nth by (metis nth_mem)

lemma quiet_ok:
  assumes "devices_ok s" and "quiet s t"
  shows "devices_ok t"
proof -
  have keys: "map de_id (devices t) = map de_id (devices s)" "map de_token_digest (devices t) = map de_token_digest (devices s)"
      "map pa_id (pairings t) = map pa_id (pairings s)" "map pa_token_digest (pairings t) = map pa_token_digest (pairings s)"
    using assms(2) unfolding quiet_def by (auto intro!: grows_same simp: kept_device_def kept_pairing_def quiet_pairing_def)
  have pairs: "pairing_ok t q" if "q \<in> set (pairings t)" for q
  proof -
    have "grows quiet_pairing (pairings s) (pairings t)" "length (pairings t) = length (pairings s)" using assms(2) by (simp_all add: quiet_def)
    from grows_back [OF this that] obtain p where p: "p \<in> set (pairings s)" and k: "kept_pairing p q" "pa_confirmed_at q = pa_confirmed_at p"
        "pa_confirmed_at p \<noteq> None \<longrightarrow> pa_cancelled_at q = pa_cancelled_at p"
        "pa_token_sealed q = pa_token_sealed p \<and> pa_consumed_at q = pa_consumed_at p \<or> pa_confirmed_at p \<noteq> None \<and> pa_token_sealed q = ''''"
      unfolding quiet_pairing_def by blast
    have ok: "pairing_ok s p" using assms(1) p by (simp add: devices_ok_def list_all_iff)
    have frame: "dd_box t = dd_box s" "crypto_of t = crypto_of s" using assms(2) by (simp_all add: quiet_def)
    show ?thesis
    proof (cases "pa_confirmed_at p = None")
      case True
      then show ?thesis using ok k by (auto simp: pairing_ok_def)
    next
      case False
      then obtain d where d: "d \<in> set (devices s)" "pa_device_id p = Some (de_id d)" "de_user_id d = pa_user_id p" and
          sealed: "pa_token_sealed p = '''' \<or> (\<exists>token. box_Open (dd_box s) (pa_token_sealed p) pairingSecretPurpose = Inr token \<and>
            tokenDigest (crypto_of s) token = Some (de_token_digest d))" and rest: "pa_cancelled_at p = None" "pa_claimed_at p \<noteq> None"
        using ok unfolding pairing_ok_def by blast
      from assms(2) d(1) obtain e where e: "e \<in> set (devices t)" "kept_device d e"
        unfolding quiet_def by (metis grows_mem)
      have "pa_device_id q = Some (de_id e)" "de_user_id e = pa_user_id q" "de_token_digest e = de_token_digest d"
          "pa_cancelled_at q = None" "pa_claimed_at q \<noteq> None"
        using d e(2) k False rest by (auto simp: kept_pairing_def kept_device_def)
      moreover have "pa_token_sealed q = ''''" if "pa_consumed_at q \<noteq> None" using that ok k(4) by (auto simp: pairing_ok_def)
      moreover have "pa_confirmed_at q \<noteq> None" using k(2) False by simp
      ultimately show ?thesis using e(1) sealed k(4) unfolding pairing_ok_def frame by metis
    qed
  qed
  have devs: "list_ex (\<lambda>p. pa_confirmed_at p \<noteq> None \<and> pa_device_id p = Some (de_id e) \<and> pa_user_id p = de_user_id e) (pairings t)"
    if "e \<in> set (devices t)" for e
  proof -
    from that assms(2) obtain d where d: "d \<in> set (devices s)" "kept_device d e" unfolding quiet_def by (metis grows_back)
    then have "list_ex (\<lambda>p. pa_confirmed_at p \<noteq> None \<and> pa_device_id p = Some (de_id d) \<and> pa_user_id p = de_user_id d) (pairings s)"
      using assms(1) by (simp add: devices_ok_def list_all_iff)
    then obtain p where p: "p \<in> set (pairings s)" "pa_confirmed_at p \<noteq> None" "pa_device_id p = Some (de_id d)" "pa_user_id p = de_user_id d"
      unfolding list_ex_iff by blast
    have "grows quiet_pairing (pairings s) (pairings t)" using assms(2) by (simp add: quiet_def)
    from grows_mem [OF this p(1)] obtain q where q: "q \<in> set (pairings t)" "kept_pairing p q"
      unfolding quiet_pairing_def by blast
    then have "pa_confirmed_at q \<noteq> None \<and> pa_device_id q = Some (de_id e) \<and> pa_user_id q = de_user_id e"
      using p d(2) by (auto simp: kept_pairing_def kept_device_def)
    then show ?thesis using q(1) unfolding list_ex_iff by blast
  qed
  show ?thesis using assms pairs devs unfolding devices_ok_def list_all_iff keys by (simp add: quiet_def)
qed


subsection \<open>Request by request\<close>

lemma kept_refl [simp]: "kept_pairing p p" "kept_device d d" "quiet_pairing p p"
  by (simp_all add: kept_pairing_def kept_device_def quiet_pairing_def)

lemma grows_kept [simp]: "grows kept_device xs xs" "grows quiet_pairing ys ys" "grows kept_pairing ys ys"
  by (simp_all add: grows_refl)

lemma quiet_ids: "id_crypto i = crypto_of s \<Longrightarrow> quiet s (s\<lparr>dd_ids := i\<rparr>)"
  by (simp add: quiet_def)

lemma quiet_devices:
  assumes "\<And>d. P d \<Longrightarrow> kept_device d (f d)"
  shows "quiet s (s\<lparr>devices := update_where P f (devices s)\<rparr>)"
  using assms by (simp add: quiet_def grows_update)

lemma quiet_pairings:
  assumes "\<And>p. p \<in> set (pairings s) \<Longrightarrow> P p \<Longrightarrow> quiet_pairing p (f p)"
  shows "quiet s (s\<lparr>pairings := update_where P f (pairings s)\<rparr>)"
  using assms by (simp add: quiet_def grows_update)

lemma kept_pairing_trans: "kept_pairing a b \<Longrightarrow> kept_pairing b c \<Longrightarrow> kept_pairing a c"
  unfolding kept_pairing_def by (intro conjI impI) (simp_all)

lemma kept_device_trans: "kept_device a b \<Longrightarrow> kept_device b c \<Longrightarrow> kept_device a c"
  by (simp add: kept_device_def)

lemma quiet_rows_trans:
  assumes "quiet s t" and "quiet t u"
  shows "quiet s u"
proof -
  have "quiet_pairing a c" if "quiet_pairing a b" "quiet_pairing b c" for a b c
    using that kept_pairing_trans [of a b c] unfolding quiet_pairing_def by auto
  then have "grows quiet_pairing (pairings s) (pairings u)"
    using assms unfolding quiet_def by (blast intro: grows_trans [of quiet_pairing])
  moreover have "grows kept_device (devices s) (devices u)"
    using assms unfolding quiet_def by (blast intro: grows_trans [of kept_device] kept_device_trans)
  ultimately show ?thesis using assms by (simp add: quiet_def)
qed

text \<open>The draws of a request leave the tables of the accounts alone.\<close>

definition drawn :: "ddb \<Rightarrow> ddb \<Rightarrow> bool" where
  "drawn s t \<longleftrightarrow> (dd_ids t)\<lparr>id_draws := 0, id_uuids := 0\<rparr> = (dd_ids s)\<lparr>id_draws := 0, id_uuids := 0\<rparr>"

lemma drawn_refl [simp]: "drawn s s"
  by (simp add: drawn_def)

lemma drawn_inv:
  assumes "drawn s t" and "accounts_inv c (dd_ids s)"
  shows "accounts_inv c (dd_ids t)"
proof -
  have "accounts_inv c (i\<lparr>id_draws := 0, id_uuids := 0\<rparr>) = accounts_inv c i" for i
    by (simp add: accounts_inv_def ok_defs)
  then show ?thesis using assms unfolding drawn_def by metis
qed
lemma seal_secret_frame:
  assumes "seal_secret plaintext purpose s = (r, t)"
  obtains k where "t = s\<lparr>dd_ids := (dd_ids s)\<lparr>id_draws := k\<rparr>\<rparr>"
proof (cases "dd_box s")
  case None
  then have "t = s\<lparr>dd_ids := (dd_ids s)\<lparr>id_draws := id_draws (dd_ids s)\<rparr>\<rparr>" using assms by (simp add: seal_secret_def)
  then show thesis by (rule that)
next
  case (Some a)
  then have "t = s\<lparr>dd_ids := (dd_ids s)\<lparr>id_draws := id_draws (dd_ids s) + 1\<rparr>\<rparr>"
    using assms by (auto simp: seal_secret_def read_random_def rand_Read_eq Let_def split: sum.splits)
  then show thesis by (rule that)
qed

lemma seal_secret_opens:
  assumes "seal_secret plaintext purpose s = (Inr sealed, t)" and "dd_box s = Some a" and "aead_ok a" and "crypto_ok (crypto_of s)"
  shows "box_Open (dd_box s) sealed purpose = Inr plaintext"
proof -
  let ?nonce = "random_bytes (crypto_of s) (id_draws (dd_ids s)) (NonceSize a)"
  have "Seal (Some a) ?nonce plaintext purpose = Inr sealed"
    using assms(1,2) by (auto simp: seal_secret_def read_random_def rand_Read_eq Let_def split: sum.splits)
  moreover have "length ?nonce = NonceSize a" using assms(4) by (simp add: crypto_ok_def)
  ultimately show ?thesis using Open_Seal [OF assms(3)] assms(2) by simp
qed

lemma ids_draws_same: "(dd_ids s)\<lparr>id_draws := id_draws (dd_ids s)\<rparr> = dd_ids s"
  by simp

lemma seal_secret_quiet:
  assumes "seal_secret v purpose s = (r, s1)"
  shows "quiet s s1 \<and> drawn s s1"
proof -
  from seal_secret_frame [OF assms] obtain k where "s1 = s\<lparr>dd_ids := (dd_ids s)\<lparr>id_draws := k\<rparr>\<rparr>" .
  then show ?thesis using quiet_ids [of "(dd_ids s)\<lparr>id_draws := k\<rparr>" s] by (simp add: drawn_def)
qed

lemma ClaimPairing_quiet: "quiet s (snd (ClaimPairing token input s)) \<and> drawn s (snd (ClaimPairing token input s))"
proof -
  have step: "quiet s (s1\<lparr>pairings := update_where (claimable_pairing (now_of s1) digest)
        (\<lambda>p. p\<lparr>pa_claim := Some v, pa_claimed_at := Some (now_of s1)\<rparr>) (pairings s1)\<rparr>)" if "quiet s s1" for s1 digest v
    by (rule quiet_rows_trans [OF that quiet_pairings]) (simp add: claimable_pairing_def quiet_pairing_def kept_pairing_def)
  have same: "quiet s s" "drawn s s" by (simp_all add: quiet_def)

  show ?thesis using same seal_secret_quiet step
    by (auto simp: ClaimPairing_def Let_def drawn_def split: option.splits prod.splits sum.splits if_splits)
qed


lemma key_unique: "distinct (map k rows) \<Longrightarrow> r \<in> set rows \<Longrightarrow> q \<in> set rows \<Longrightarrow> k r = k q \<Longrightarrow> r = q"
  by (metis distinct_map inj_onD)

text \<open>What a retrieval that hands out the credential reads and writes.\<close>

lemma PairingResult_confirmed:
  assumes "PairingResult token s = (Inr (status, Some (device, credential)), t)"
  obtains digest p where "tokenDigest (crypto_of s) token = Some digest" "p \<in> set (pairings s)" "pa_token_digest p = digest"
    "pa_cancelled_at p = None" "pa_consumed_at p = None" "pa_confirmed_at p \<noteq> None" "pa_token_sealed p \<noteq> ''''"
    "box_Open (dd_box s) (pa_token_sealed p) pairingSecretPurpose = Inr credential" "device = coalesce (pa_device_id p) ''''" "status = ''confirmed''"
    "t = s\<lparr>pairings := update_where (\<lambda>q. pa_token_digest q = digest)
         (\<lambda>q. q\<lparr>pa_consumed_at := Some (now_of s), pa_token_sealed := ''''\<rparr>) (pairings s)\<rparr>"
proof -
  from assms obtain digest p where d: "tokenDigest (crypto_of s) token = Some digest"
      and p: "find (\<lambda>p. pa_token_digest p = digest) (pairings s) = Some p"
    by (auto simp: PairingResult_def split: option.splits)
  then have mem: "p \<in> set (pairings s)" "pa_token_digest p = digest" by (auto simp: find_Some_iff)
  have "pa_cancelled_at p = None \<and> pa_consumed_at p = None \<and> pa_confirmed_at p \<noteq> None \<and> pa_token_sealed p \<noteq> '''' \<and>
      box_Open (dd_box s) (pa_token_sealed p) pairingSecretPurpose = Inr credential \<and> device = coalesce (pa_device_id p) '''' \<and>
      status = ''confirmed'' \<and> t = s\<lparr>pairings := update_where (\<lambda>q. pa_token_digest q = digest)
         (\<lambda>q. q\<lparr>pa_consumed_at := Some (now_of s), pa_token_sealed := ''''\<rparr>) (pairings s)\<rparr>"
    using assms by (simp add: PairingResult_def d p split: if_splits sum.splits)
  then show thesis using that [OF d mem] by blast
qed

lemma PairingResult_other:
  assumes "\<And>status x t. PairingResult token s \<noteq> (Inr (status, Some x), t)"
  shows "snd (PairingResult token s) = s"
proof (cases "PairingResult token s")
  case (Pair r t)
  have "t = s \<or> (\<exists>status x. r = Inr (status, Some x))"
    using Pair by (auto simp: PairingResult_def split: option.splits if_splits sum.splits)
  then show ?thesis using assms Pair by auto
qed

lemma PairingResult_quiet:
  assumes "distinct (map pa_token_digest (pairings s))"
  shows "quiet s (snd (PairingResult token s)) \<and> drawn s (snd (PairingResult token s))"
proof (cases "\<exists>status x t. PairingResult token s = (Inr (status, Some x), t)")
  case True
  then obtain status x y t where r: "PairingResult token s = (Inr (status, Some (x, y)), t)" by (metis surj_pair)
  obtain digest p where "tokenDigest (crypto_of s) token = Some digest" and p: "p \<in> set (pairings s)" "pa_token_digest p = digest"
      "pa_cancelled_at p = None" "pa_consumed_at p = None" "pa_confirmed_at p \<noteq> None" "pa_token_sealed p \<noteq> ''''"
      "box_Open (dd_box s) (pa_token_sealed p) pairingSecretPurpose = Inr y" "x = coalesce (pa_device_id p) ''''" "status = ''confirmed''"
      and t: "t = s\<lparr>pairings := update_where (\<lambda>q. pa_token_digest q = digest)
         (\<lambda>q. q\<lparr>pa_consumed_at := Some (now_of s), pa_token_sealed := ''''\<rparr>) (pairings s)\<rparr>"
    by (rule PairingResult_confirmed [OF r])
  have "quiet_pairing q (q\<lparr>pa_consumed_at := Some (now_of s), pa_token_sealed := ''''\<rparr>)"
    if "q \<in> set (pairings s)" "pa_token_digest q = digest" for q
  proof -
    have "q = p" using key_unique [OF assms that(1) p(1)] that(2) p(2) by simp
    then show ?thesis using p by (simp add: quiet_pairing_def kept_pairing_def)
  qed
  then have "quiet s t" unfolding t by (rule quiet_pairings)
  then show ?thesis using r t by (simp add: drawn_def)
next
  case False
  then have "snd (PairingResult token s) = s" by (intro PairingResult_other) auto
  then show ?thesis by (simp add: quiet_def)
qed

lemma CancelPairing_quiet: "quiet s (snd (CancelPairing user pairing s)) \<and> drawn s (snd (CancelPairing user pairing s))"
  using quiet_pairings [of s "\<lambda>p. owned_pairing user pairing p \<and> pa_confirmed_at p = None \<and> pa_cancelled_at p = None"
      "\<lambda>p. p\<lparr>pa_cancelled_at := Some (now_of s)\<rparr>"]
  by (simp add: CancelPairing_def Let_def quiet_pairing_def kept_pairing_def quiet_def drawn_def)

lemma Device_Authenticate_quiet: "quiet s (snd (Device_Authenticate token s)) \<and> drawn s (snd (Device_Authenticate token s))"
proof -
  have "quiet s (s\<lparr>devices := update_where P (\<lambda>d. d\<lparr>de_last_seen_at := Some (now_of s), de_updated_at := now_of s\<rparr>) (devices s)\<rparr>)" for P
    by (rule quiet_devices) (simp add: kept_device_def)
  then show ?thesis by (simp add: Device_Authenticate_def quiet_def drawn_def split: option.splits)
qed

lemma cancel_pushes_quiet: "quiet s t \<Longrightarrow> drawn s t \<Longrightarrow> quiet s (cancel_pushes r d t) \<and> drawn s (cancel_pushes r d t)"
  by (simp add: quiet_def drawn_def cancel_pushes_def)

lemma revoke_where_quiet: "quiet s (snd (revoke_where A device s)) \<and> drawn s (snd (revoke_where A device s))"
proof -
  have "quiet s (s\<lparr>devices := update_where (\<lambda>d. de_id d = device \<and> de_revoked_at d = None \<and> A d)
      (\<lambda>d. d\<lparr>de_revoked_at := Some (now_of s), de_updated_at := now_of s\<rparr>) (devices s)\<rparr>)"
    by (rule quiet_devices) (simp add: kept_device_def)
  from cancel_pushes_quiet [OF this] show ?thesis
    by (simp add: revoke_where_def Let_def drawn_def) (simp add: quiet_def)
qed

lemma Device_Update_quiet: "quiet s (snd (Device_Update actor device input s)) \<and> drawn s (snd (Device_Update actor device input s))"
proof -
  have step: "quiet s (s1\<lparr>devices := update_where P (updated_device s1 input n sealed) (devices s1)\<rparr>)"
    if "quiet s s1" for s1 P n sealed
    by (rule quiet_rows_trans [OF that quiet_devices]) (simp add: kept_device_def updated_device_def)
  have same: "quiet s s" "drawn s s" by (simp_all add: quiet_def)
  note seal = seal_secret_quiet
  show ?thesis using same seal step cancel_pushes_quiet
    by (auto simp: Device_Update_def Let_def drawn_def split: option.splits prod.splits sum.splits if_splits)
qed


lemma insert_pairing_ok:
  assumes "devices_ok s" and "insert_pairing p s = Some t" and "pa_confirmed_at p = None" and "pa_consumed_at p = None"
  shows "devices_ok t"
proof -
  have t: "t = s\<lparr>pairings := pairings s @ [p]\<rparr>" and new: "pa_id p \<notin> pa_id ` set (pairings s)" "pa_token_digest p \<notin> pa_token_digest ` set (pairings s)"
    using assms(2) by (auto simp: insert_pairing_def split: if_splits)
  have "pairing_ok t q = pairing_ok s q" for q by (simp add: pairing_ok_def t)
  moreover have "pairing_ok s p" using assms(3,4) by (simp add: pairing_ok_def)
  ultimately show ?thesis using assms(1) new unfolding devices_ok_def by (auto simp: t list_all_iff)
qed

lemma quiet_draw: "quiet s (s\<lparr>dd_ids := (dd_ids s)\<lparr>id_draws := k, id_uuids := j\<rparr>\<rparr>) \<and> drawn s (s\<lparr>dd_ids := (dd_ids s)\<lparr>id_draws := k, id_uuids := j\<rparr>\<rparr>)"
  by (simp add: quiet_def drawn_def)

lemma CreatePairing_ok:
  assumes "devices_ok s"
  shows "devices_ok (snd (CreatePairing user s)) \<and> drawn s (snd (CreatePairing user s))"
proof -
  have ok: "devices_ok (s\<lparr>dd_ids := i\<rparr>)" if "id_crypto i = crypto_of s" for i
    using quiet_ok [OF assms quiet_ids [OF that]] .
  have "devices_ok t \<and> drawn s t" if "insert_pairing p (s\<lparr>dd_ids := (dd_ids s)\<lparr>id_draws := k, id_uuids := j\<rparr>\<rparr>) = Some t"
      and "pa_confirmed_at p = None" "pa_consumed_at p = None" for p k j t
    using insert_pairing_ok [OF ok that(1)] that by (auto simp: insert_pairing_def drawn_def split: if_splits)
  then show ?thesis using ok
    by (auto simp: CreatePairing_def read_random_def rand_Read_eq next_uuid_def Let_def drawn_def split: option.splits prod.splits)
qed


lemma confirm_ok:
  assumes "devices_ok s" and "insert_device d s = Some s'" and p: "p \<in> set (pairings s)" "pa_confirmed_at p = None" "pa_cancelled_at p = None"
      "pa_claimed_at p \<noteq> None" "pa_user_id p = de_user_id d"
    and opens: "box_Open (dd_box s) sealed pairingSecretPurpose = Inr token" "tokenDigest (crypto_of s) token = Some (de_token_digest d)"
    and confirm: "confirm = (\<lambda>q :: pairing_row. q\<lparr>pa_confirmed_at := Some now, pa_device_id := Some (de_id d), pa_token_sealed := sealed\<rparr>)"
    and t: "t = s'\<lparr>pairings := update_where (\<lambda>q. pa_id q = pa_id p) confirm (pairings s')\<rparr>"
  shows "devices_ok t"
proof -
  have s': "s' = s\<lparr>devices := devices s @ [d]\<rparr>" and new: "de_id d \<notin> de_id ` set (devices s)" "de_token_digest d \<notin> de_token_digest ` set (devices s)"
    using assms(2) by (auto simp: insert_device_def split: if_splits)
  have frame: "dd_box t = dd_box s" "crypto_of t = crypto_of s" "devices t = devices s @ [d]"
      "pairings t = update_where (\<lambda>q. pa_id q = pa_id p) confirm (pairings s)" by (simp_all add: t s')
  have ids: "distinct (map pa_id (pairings s))" using assms(1) by (simp add: devices_ok_def)
  have keys: "map pa_id (pairings t) = map pa_id (pairings s)" "map pa_token_digest (pairings t) = map pa_token_digest (pairings s)"
    unfolding frame by (simp_all add: map_update_where confirm)
  have "pairing_ok s p" using assms(1) p(1) by (simp add: devices_ok_def list_all_iff)
  then have unconsumed: "pa_consumed_at p = None" using p(2) by (auto simp: pairing_ok_def)
  have pairs: "pairing_ok t q" if "q \<in> set (pairings t)" for q
  proof -
    from that have "q \<in> set (update_where (\<lambda>q. pa_id q = pa_id p) confirm (pairings s))" by (simp only: frame)
    then show ?thesis
    proof (cases rule: update_whereE)
      case (updated r)
      then have "r = p" using key_unique [OF ids updated(1) p(1)] by simp
      then show ?thesis using updated(3) p unconsumed opens by (simp add: pairing_ok_def confirm frame)
    next
      case kept
      then have "pairing_ok s q" using assms(1) by (simp add: devices_ok_def list_all_iff)
      then show ?thesis unfolding pairing_ok_def frame by auto
    qed
  qed
  have "confirm p \<in> set (pairings t)" using p(1) by (auto simp: frame set_update_where)
  then have fresh: "list_ex (\<lambda>q. pa_confirmed_at q \<noteq> None \<and> pa_device_id q = Some (de_id d) \<and> pa_user_id q = de_user_id d) (pairings t)"
    unfolding list_ex_iff using p(5) by (intro bexI [of _ "confirm p"]) (simp_all add: confirm)
  have old: "list_ex (\<lambda>q. pa_confirmed_at q \<noteq> None \<and> pa_device_id q = Some (de_id e) \<and> pa_user_id q = de_user_id e) (pairings t)"
    if "e \<in> set (devices s)" for e
  proof -
    have "list_ex (\<lambda>q. pa_confirmed_at q \<noteq> None \<and> pa_device_id q = Some (de_id e) \<and> pa_user_id q = de_user_id e) (pairings s)"
      using assms(1) that by (simp add: devices_ok_def list_all_iff)
    then obtain q where q: "q \<in> set (pairings s)" "pa_confirmed_at q \<noteq> None" "pa_device_id q = Some (de_id e)" "pa_user_id q = de_user_id e"
      unfolding list_ex_iff by blast
    then have "pa_id q \<noteq> pa_id p" using key_unique [OF ids q(1) p(1)] p(2) by auto
    then have "q \<in> set (pairings t)" using q(1) unfolding frame set_update_where by (force intro: image_eqI [of _ _ q])
    then show ?thesis using q unfolding list_ex_iff by blast
  qed
  show ?thesis
    using assms(1) new pairs fresh old unfolding devices_ok_def list_all_iff keys frame(1,3) by auto
qed

lemma confirm_transaction_ok:
  assumes "devices_ok s" and "box_Open (dd_box s) sealed pairingSecretPurpose = Inr token" and "tokenDigest (crypto_of s) token = Some digest"
  shows "devices_ok (snd (confirm_transaction user pairing digest sealed s)) \<and> drawn s (snd (confirm_transaction user pairing digest sealed s))"
proof -
  obtain id s1 where uuid: "next_uuid s = (id, s1)" by (cases "next_uuid s")
  then have s1: "quiet s s1" "drawn s s1" "pairings s1 = pairings s" by (auto simp: next_uuid_def Let_def quiet_ids drawn_def)
  have ok1: "devices_ok s1" using quiet_ok [OF assms(1) s1(1)] .
  let ?confirm = "\<lambda>p. p\<lparr>pa_confirmed_at := Some (now_of s1), pa_device_id := Some id, pa_token_sealed := sealed\<rparr>"
  have "devices_ok (s'\<lparr>pairings := update_where (\<lambda>q. pa_id q = pa_id p) ?confirm (pairings s')\<rparr>) \<and>
      drawn s (s'\<lparr>pairings := update_where (\<lambda>q. pa_id q = pa_id p) ?confirm (pairings s')\<rparr>)"
    if "find (owned_pairing user pairing) (pairings s) = Some p" "pa_cancelled_at p = None" "pa_confirmed_at p = None" "pa_claimed_at p \<noteq> None"
      and ins: "insert_device (device_of s1 id user digest claim) s1 = Some s'" for p claim s'
  proof
    have p: "p \<in> set (pairings s1)" "pa_user_id p = user" using that(1) s1(3) by (auto simp: find_Some_iff owned_pairing_def)
    have "box_Open (dd_box s1) sealed pairingSecretPurpose = Inr token" "tokenDigest (crypto_of s1) token = Some digest"
      using assms(2,3) s1(1) by (simp_all add: quiet_def)
    then show "devices_ok (s'\<lparr>pairings := update_where (\<lambda>q. pa_id q = pa_id p) ?confirm (pairings s')\<rparr>)"
      by (intro confirm_ok [OF ok1 ins p(1) that(3,2,4) _ _ _ _ refl]) (use p in \<open>simp_all add: device_of_def\<close>)
    show "drawn s (s'\<lparr>pairings := update_where (\<lambda>q. pa_id q = pa_id p) ?confirm (pairings s')\<rparr>)"
      using s1(2) ins by (auto simp: drawn_def insert_device_def split: if_splits)
  qed
  then show ?thesis using assms(1) ok1 s1(2)
    by (simp add: confirm_transaction_def uuid Let_def split: option.splits)
qed

lemma ConfirmPairing_ok:
  assumes "devices_ok s" and "crypto_ok (crypto_of s)"
  shows "devices_ok (snd (ConfirmPairing user pairing s)) \<and> drawn s (snd (ConfirmPairing user pairing s))"
proof -
  let ?secret = "random_bytes (crypto_of s) (id_draws (dd_ids s)) tokenSize"
  obtain token digest where new: "newToken (crypto_of s) ?secret = (token, digest)" by (cases "newToken (crypto_of s) ?secret")
  have digest: "tokenDigest (crypto_of s) token = Some digest"
    using digest_of_new(1) [OF new] assms(2) by (simp add: crypto_ok_def)
  define s1 where "s1 = s\<lparr>dd_ids := (dd_ids s)\<lparr>id_draws := id_draws (dd_ids s) + 1\<rparr>\<rparr>"
  have s1: "quiet s s1" "drawn s s1" by (simp_all add: s1_def quiet_ids drawn_def)
  obtain r s2 where seal: "seal_secret token pairingSecretPurpose s1 = (r, s2)" by (cases "seal_secret token pairingSecretPurpose s1")
  have s2: "quiet s s2" "drawn s s2" using quiet_rows_trans [OF s1(1)] s1(2) seal_secret_quiet [OF seal] by (auto simp: drawn_def)
  have op: "ConfirmPairing user pairing s = (case r of Inl e \<Rightarrow> (Inl e, s2) | Inr sealed \<Rightarrow> confirm_transaction user pairing digest sealed s2)"
  proof -
    have "read_random tokenSize s = (?secret, s1)" "crypto_of s1 = crypto_of s"
      by (simp_all add: read_random_def rand_Read_eq s1_def)
    then show ?thesis by (simp add: ConfirmPairing_def new seal split: sum.splits)
  qed
  have ok2: "devices_ok s2" using quiet_ok [OF assms(1) s2(1)] .
  have frame: "dd_box s2 = dd_box s" "crypto_of s2 = crypto_of s" "dd_box s1 = dd_box s" "crypto_of s1 = crypto_of s"
    using s2(1) s1(1) by (simp_all add: quiet_def)
  show ?thesis
  proof (cases r)
    case (Inr sealed)
    obtain a where a: "dd_box s1 = Some a" "aead_ok a" using assms(1) frame by (auto simp: devices_ok_def)
    have "box_Open (dd_box s2) sealed pairingSecretPurpose = Inr token"
      using seal_secret_opens [OF seal [unfolded Inr] a] assms(2) frame by simp
    from confirm_transaction_ok [OF ok2 this] show ?thesis using digest frame s2(2) by (auto simp: op Inr drawn_def)
  qed (use ok2 s2(2) in \<open>simp add: op\<close>)
qed

subsection \<open>The machine\<close>

lemma device_step_inv:
  assumes "device_admissible c op" and "devices_inv c s"
  shows "devices_inv c (device_step op s)"
proof -
  have ids: "accounts_inv c (dd_ids s)" and ok: "devices_ok s" using assms(2) by (auto simp: devices_inv_def)
  then have c: "crypto_of s = c" "crypto_ok (crypto_of s)" by (auto simp: accounts_inv_def)
  have pairs: "distinct (map pa_token_digest (pairings s))" using ok by (simp add: devices_ok_def)
  have still: "devices_inv c t" if "quiet s t \<and> drawn s t" for t
    using quiet_ok [OF ok] drawn_inv [OF _ ids] that by (simp add: devices_inv_def)
  have new: "devices_inv c t" if "devices_ok t \<and> drawn s t" for t
    using drawn_inv [OF _ ids] that by (simp add: devices_inv_def)
  show ?thesis
  proof (cases op)
    case (DAccount a)
    have "accounts_inv c (account_step a (dd_ids s))" using account_step_inv [OF _ ids] assms(1) by (simp add: DAccount)
    moreover from this have "quiet s (s\<lparr>dd_ids := account_step a (dd_ids s)\<rparr>)"
      using c by (intro quiet_ids) (simp add: accounts_inv_def)
    ultimately show ?thesis using quiet_ok [OF ok] by (simp add: DAccount devices_inv_def)
  qed (simp_all add: still new PairingResult_quiet [OF pairs] ClaimPairing_quiet CancelPairing_quiet Device_Authenticate_quiet
    Device_Update_quiet Device_Revoke_def RevokeSelf_def revoke_where_quiet CreatePairing_ok [OF ok] ConfirmPairing_ok [OF ok c(2)])
qed

interpretation companions: machine device_step "device_admissible c" "devices_inv c" for c
  by unfold_locales (rule device_step_inv)

subsection \<open>Histories\<close>

definition device_follows :: "ddb \<Rightarrow> ddb \<Rightarrow> bool" where
  "device_follows s t \<longleftrightarrow> dd_box t = dd_box s \<and> crypto_of t = crypto_of s \<and>
     grows kept_device (devices s) (devices t) \<and> grows kept_pairing (pairings s) (pairings t)"

lemma device_follows_refl [simp]: "device_follows s s"
  by (simp add: device_follows_def)

lemma device_follows_trans: "device_follows s t \<Longrightarrow> device_follows t u \<Longrightarrow> device_follows s u"
  unfolding device_follows_def
  by (auto intro: grows_trans [of kept_device] grows_trans [of kept_pairing] kept_device_trans kept_pairing_trans)

lemma quiet_follows: "quiet s t \<Longrightarrow> device_follows s t"
  unfolding quiet_def device_follows_def grows_def quiet_pairing_def by blast

lemma CreatePairing_follows: "device_follows s (snd (CreatePairing user s))"
proof -
  have "device_follows s t" if "insert_pairing p (s\<lparr>dd_ids := (dd_ids s)\<lparr>id_draws := k, id_uuids := j\<rparr>\<rparr>) = Some t" for p k j t
    using that by (auto simp: insert_pairing_def device_follows_def grows_append split: if_splits)
  then show ?thesis
    by (auto simp: CreatePairing_def read_random_def rand_Read_eq next_uuid_def Let_def device_follows_def split: option.splits prod.splits)
qed

lemma confirm_transaction_follows:
  assumes "distinct (map pa_id (pairings s))"
  shows "device_follows s (snd (confirm_transaction user pairing digest sealed s))"
proof -
  obtain id s1 where uuid: "next_uuid s = (id, s1)" by (cases "next_uuid s")
  then have s1: "dd_box s1 = dd_box s" "crypto_of s1 = crypto_of s" "devices s1 = devices s" "pairings s1 = pairings s"
    by (auto simp: next_uuid_def Let_def)
  let ?confirm = "\<lambda>p. p\<lparr>pa_confirmed_at := Some (now_of s1), pa_device_id := Some id, pa_token_sealed := sealed\<rparr>"
  have "device_follows s (s'\<lparr>pairings := update_where (\<lambda>q. pa_id q = pa_id p) ?confirm (pairings s')\<rparr>)"
    if ins: "insert_device d s1 = Some s'" and p: "find (owned_pairing user pairing) (pairings s) = Some p" "pa_confirmed_at p = None" for d s' p
  proof -
    have s': "s' = s1\<lparr>devices := devices s @ [d]\<rparr>" using ins s1(3) by (auto simp: insert_device_def split: if_splits)
    have mem: "p \<in> set (pairings s)" using p(1) by (auto simp: find_Some_iff)
    have "kept_pairing q (?confirm q)" if "q \<in> set (pairings s)" "pa_id q = pa_id p" for q
      using key_unique [OF assms that(1) mem that(2)] p(2) by (simp add: kept_pairing_def)
    then have "grows kept_pairing (pairings s) (update_where (\<lambda>q. pa_id q = pa_id p) ?confirm (pairings s))"
      by (intro grows_update) simp_all
    then show ?thesis by (simp add: s' s1 device_follows_def grows_append)
  qed
  then show ?thesis using s1
    by (simp add: confirm_transaction_def uuid Let_def device_follows_def split: option.splits)
qed

lemma ConfirmPairing_follows:
  assumes "devices_ok s"
  shows "device_follows s (snd (ConfirmPairing user pairing s))"
proof -
  obtain secret s1 where read: "read_random tokenSize s = (secret, s1)" by (cases "read_random tokenSize s")
  then have "s1 = s\<lparr>dd_ids := (dd_ids s)\<lparr>id_draws := id_draws (dd_ids s) + 1\<rparr>\<rparr>" by (simp add: read_random_def rand_Read_eq)
  then have s1: "quiet s s1" by (simp add: quiet_ids)
  obtain token digest where new: "newToken (crypto_of s1) secret = (token, digest)" by (cases "newToken (crypto_of s1) secret")
  obtain r s2 where seal: "seal_secret token pairingSecretPurpose s1 = (r, s2)" by (cases "seal_secret token pairingSecretPurpose s1")
  have s2: "quiet s s2" using quiet_rows_trans [OF s1] seal_secret_quiet [OF seal] by blast
  have "distinct (map pa_id (pairings s2))" using quiet_ok [OF assms s2] by (simp add: devices_ok_def)
  from device_follows_trans [OF quiet_follows [OF s2] confirm_transaction_follows [OF this]] quiet_follows [OF s2]
  show ?thesis by (simp add: ConfirmPairing_def read new seal split: sum.splits)
qed

lemma device_step_follows:
  assumes "devices_ok s"
  shows "device_follows s (device_step op s)"
proof (cases op)
  case (DAccount a)
  have "id_crypto (account_step a (dd_ids s)) = crypto_of s" using account_step_follows [of "dd_ids s" a] by (simp add: follows_def)
  then show ?thesis by (simp add: DAccount quiet_follows quiet_ids)
next
  case (DResult t)
  have "distinct (map pa_token_digest (pairings s))" using assms by (simp add: devices_ok_def)
  then show ?thesis by (simp add: DResult PairingResult_quiet quiet_follows)
qed (simp_all add: quiet_follows ClaimPairing_quiet CancelPairing_quiet Device_Authenticate_quiet
    Device_Update_quiet Device_Revoke_def RevokeSelf_def revoke_where_quiet CreatePairing_follows ConfirmPairing_follows [OF assms])

lemma device_run_follows:
  "devices_inv c s \<Longrightarrow> list_all (device_admissible c) ops \<Longrightarrow> device_follows s (fold device_step ops s)"
proof (induction ops arbitrary: s)
  case (Cons op ops)
  have "device_follows s (device_step op s)" using Cons.prems(1) by (simp add: devices_inv_def device_step_follows)
  moreover have "devices_inv c (device_step op s)" using Cons.prems by (simp add: device_step_inv)
  ultimately show ?case using Cons.IH Cons.prems(2) device_follows_trans by auto
qed simp
end
