(* ===== verification/Push_Rows.thy ===== *)
theory Push_Rows
  imports Push Device_Machine
begin

text \<open>
  What the push outbox remembers of each device and entry, and what its statements keep of it.
\<close>

subsection \<open>What a device has been told\<close>

text \<open>The alerts delivered to a device about an entry, in the order they were written.\<close>

definition told :: "string \<Rightarrow> int \<Rightarrow> push_row list \<Rightarrow> event_kind list" where
  "told dev entry rows =
     map (\<lambda>p. coalesce (pu_event_kind p) Firing)
       (filter (\<lambda>p. pu_device_id p = dev \<and> pu_inbox_id p = entry \<and> pu_status p = DDelivered \<and> pu_presentation p = Alert) rows)"

text \<open>No end without a beginning, nor two ends in a row.\<close>

fun well_told :: "bool \<Rightarrow> event_kind list \<Rightarrow> bool" where
  "well_told started [] = True"
| "well_told started (e # es) = ((e = ResolvedEvent \<longrightarrow> started) \<and> well_told (e \<noteq> ResolvedEvent) es)"

lemma well_told_append:
  "well_told started (xs @ ys) \<longleftrightarrow> well_told started xs \<and> well_told (if xs = [] then started else last xs \<noteq> ResolvedEvent) ys"
  by (induction xs arbitrary: started) auto

definition same_place :: "push_row \<Rightarrow> push_row \<Rightarrow> bool" where
  "same_place p q \<longleftrightarrow> pu_device_id p = pu_device_id q \<and> pu_inbox_id p = pu_inbox_id q"

definition told_of :: "push_row list \<Rightarrow> push_row \<Rightarrow> event_kind list" where
  "told_of rows p = told (pu_device_id p) (pu_inbox_id p) rows"

text \<open>The rows of a device and an entry come in the order of the revisions, only the last one can still
  leave, and an end waits only behind a beginning.\<close>

definition in_order :: "push_row \<Rightarrow> push_row \<Rightarrow> bool" where
  "in_order p q \<longleftrightarrow> pu_id p < pu_id q \<and> (same_place p q \<longrightarrow> pu_revision p < pu_revision q \<and> \<not> live p)"

definition awaits :: "push_row list \<Rightarrow> push_row \<Rightarrow> bool" where
  "awaits rows p \<longleftrightarrow> live p \<and> pu_presentation p = Alert \<and> pu_event_kind p = Some ResolvedEvent \<longrightarrow>
     told_of rows p \<noteq> [] \<and> last (told_of rows p) \<noteq> ResolvedEvent"

definition outgoing_ok :: "push_row list \<Rightarrow> bool" where
  "outgoing_ok rows \<longleftrightarrow> sorted_wrt in_order rows \<and> list_all (\<lambda>p. \<not> live p \<longrightarrow> pu_lease_owner p = None) rows \<and>
     (\<forall>dev entry. well_told False (told dev entry rows)) \<and> list_all (awaits rows) rows"

subsection \<open>Statements that deliver nothing\<close>

definition harmless :: "push_row \<Rightarrow> push_row \<Rightarrow> bool" where
  "harmless p q \<longleftrightarrow> pu_id q = pu_id p \<and> pu_device_id q = pu_device_id p \<and> pu_inbox_id q = pu_inbox_id p \<and>
     pu_revision q = pu_revision p \<and> pu_presentation q = pu_presentation p \<and> pu_event_kind q = pu_event_kind p \<and>
     (pu_status q = DDelivered \<longleftrightarrow> pu_status p = DDelivered) \<and> (live q \<longrightarrow> live p) \<and> (\<not> live q \<longrightarrow> pu_lease_owner q = None)"

lemma told_harmless:
  assumes "\<And>p. p \<in> set rows \<Longrightarrow> P p \<Longrightarrow> harmless p (f p)"
  shows "told dev entry (update_where P f rows) = told dev entry rows"
  using assms by (induction rows) (auto simp: told_def harmless_def)

lemma outgoing_ok_update:
  assumes "outgoing_ok rows" and h: "\<And>p. p \<in> set rows \<Longrightarrow> P p \<Longrightarrow> harmless p (f p)"
  shows "outgoing_ok (update_where P f rows)"
proof -
  have t: "told dev entry (update_where P f rows) = told dev entry rows" for dev entry by (rule told_harmless [OF h])
  let ?g = "\<lambda>p. if P p then f p else p"
  have g: "pu_id (?g p) = pu_id p" "pu_device_id (?g p) = pu_device_id p" "pu_inbox_id (?g p) = pu_inbox_id p"
      "pu_revision (?g p) = pu_revision p" "pu_presentation (?g p) = pu_presentation p" "pu_event_kind (?g p) = pu_event_kind p"
      "live (?g p) \<Longrightarrow> live p" if "p \<in> set rows" for p
    using h [OF that] by (auto simp: harmless_def split: if_splits)
  have "sorted_wrt in_order (update_where P f rows)"
    by (rule sorted_wrt_update_where) (use assms(1) g in \<open>auto simp: outgoing_ok_def in_order_def same_place_def split: if_splits\<close>)
  moreover have "list_all (\<lambda>p. \<not> live p \<longrightarrow> pu_lease_owner p = None) (update_where P f rows)"
    using assms(1) h by (auto simp: outgoing_ok_def list_all_iff set_update_where harmless_def)
  moreover have "list_all (awaits (update_where P f rows)) (update_where P f rows)"
    unfolding list_all_iff
  proof
    fix q assume "q \<in> set (update_where P f rows)"
    then obtain p where p: "p \<in> set rows" "q = ?g p" by (auto simp: set_update_where)
    have "awaits rows p" using assms(1) p(1) by (simp add: outgoing_ok_def list_all_iff)
    then show "awaits (update_where P f rows) q" using g [OF p(1)] unfolding awaits_def told_of_def t p(2) by auto
  qed
  ultimately show ?thesis using assms(1) by (simp add: outgoing_ok_def t)
qed

lemma harmless_cancel: "live p \<Longrightarrow> harmless p (cancel_push reason p)"
  by (auto simp: harmless_def cancel_push_def live_def)

lemma harmless_lease: "live p \<Longrightarrow> harmless p (lease_push s worker p)"
  by (auto simp: harmless_def lease_push_def live_def)

lemma harmless_fail: "live p \<Longrightarrow> harmless p (fail_push s err p)"
  by (auto simp: harmless_def fail_push_def live_def)

lemma held_live: "outgoing_ok rows \<Longrightarrow> p \<in> set rows \<Longrightarrow> push_held delivery worker p \<Longrightarrow> live p"
  by (auto simp: outgoing_ok_def list_all_iff push_held_def)

subsection \<open>A delivery\<close>

text \<open>The row of a lease is the last of its place, so that its delivery ends what the device is told.\<close>

lemma outgoing_ok_split:
  assumes "outgoing_ok (xs @ p # ys)" and "live p"
  shows "\<And>q. q \<in> set ys \<Longrightarrow> \<not> same_place p q" and "\<And>q. q \<in> set xs \<union> set ys \<Longrightarrow> pu_id q \<noteq> pu_id p"
  using assms by (auto simp: outgoing_ok_def sorted_wrt_append in_order_def)

lemma told_append: "told dev entry (xs @ ys) = told dev entry xs @ told dev entry ys"
  by (simp add: told_def)

lemma told_elsewhere: "(\<And>q. q \<in> set ys \<Longrightarrow> \<not> (pu_device_id q = dev \<and> pu_inbox_id q = entry)) \<Longrightarrow> told dev entry ys = []"
  by (auto simp: told_def filter_empty_conv)

lemma outgoing_ok_complete:
  assumes ok: "outgoing_ok rows"
  shows "outgoing_ok (update_where (push_held delivery worker) (complete_push s) rows)"
proof (cases "\<exists>p \<in> set rows. push_held delivery worker p")
  case False
  then show ?thesis using ok by (simp add: update_where_none)
next
  case True
  then obtain p where p: "p \<in> set rows" "push_held delivery worker p" by blast
  have live: "live p" by (rule held_live [OF ok p])
  obtain xs ys where rows: "rows = xs @ p # ys" using split_list [OF p(1)] by blast
  note last_place = outgoing_ok_split [OF ok [unfolded rows] live]
  let ?q = "complete_push s p"
  have others: "\<not> push_held delivery worker r" if "r \<in> set xs \<union> set ys" for r
    using last_place(2) [OF that] p(2) by (auto simp: push_held_def)
  have new: "update_where (push_held delivery worker) (complete_push s) rows = xs @ ?q # ys"
    using others p(2) by (simp add: rows update_where_def map_idI)
  have same: "pu_id ?q = pu_id p" "pu_device_id ?q = pu_device_id p" "pu_inbox_id ?q = pu_inbox_id p" "pu_revision ?q = pu_revision p"
      "pu_presentation ?q = pu_presentation p" "pu_event_kind ?q = pu_event_kind p" "\<not> live ?q" "pu_lease_owner ?q = None" "pu_status ?q = DDelivered"
    by (simp_all add: complete_push_def live_def)
  have undelivered: "pu_status p \<noteq> DDelivered" using live by (auto simp: live_def)
  have here: "told_of (xs @ ?q # ys) p =
      told_of rows p @ (if pu_presentation p = Alert then [coalesce (pu_event_kind p) Firing] else [])"
  proof -
    have "told (pu_device_id p) (pu_inbox_id p) ys = []" using last_place(1) by (intro told_elsewhere) (metis same_place_def)
    then show ?thesis using undelivered told_append [of _ _ "[p]" ys] told_append [of _ _ "[?q]" ys]
      by (simp add: told_of_def rows told_append) (simp add: told_def same)
  qed
  have elsewhere: "told dev entry (xs @ ?q # ys) = told dev entry rows" if "\<not> (pu_device_id p = dev \<and> pu_inbox_id p = entry)" for dev entry
    using that by (auto simp: told_def rows same)
  have story: "well_told False (told dev entry (xs @ ?q # ys))" for dev entry
  proof (cases "pu_device_id p = dev \<and> pu_inbox_id p = entry")
    case False
    then show ?thesis using ok by (simp add: elsewhere outgoing_ok_def)
  next
    case True
    have "well_told False (told_of rows p)" "awaits rows p" using ok p(1) by (simp_all add: outgoing_ok_def told_of_def list_all_iff)
    then have "well_told False (told_of (xs @ ?q # ys) p)"
      unfolding here using live by (auto simp: well_told_append awaits_def coalesce_def split: option.splits)
    then show ?thesis using True by (simp add: told_of_def)
  qed
  have waits: "awaits (xs @ ?q # ys) r" if r: "r \<in> set xs \<union> set ys" for r
  proof (cases "same_place p r \<and> live r")
    case True
    have "\<not> live r" if "r \<in> set xs" using ok that True by (auto simp: rows outgoing_ok_def sorted_wrt_append in_order_def same_place_def)
    then show ?thesis using r True last_place(1) by auto
  next
    case False
    have "awaits rows r" using ok r by (auto simp: rows outgoing_ok_def list_all_iff)
    then show ?thesis using False elsewhere by (auto simp: awaits_def told_of_def same_place_def)
  qed
  have "sorted_wrt in_order (xs @ ?q # ys)"
    using ok by (auto simp: rows outgoing_ok_def sorted_wrt_append in_order_def same same_place_def)
  moreover have "list_all (\<lambda>p. \<not> live p \<longrightarrow> pu_lease_owner p = None) (xs @ ?q # ys)"
    using ok by (simp add: rows outgoing_ok_def same)
  moreover have "awaits (xs @ ?q # ys) ?q" using same(7) by (simp add: awaits_def)
  ultimately show ?thesis unfolding new outgoing_ok_def using story waits by (auto simp: list_all_iff)
qed


subsection \<open>New rows\<close>

lemma first_max_last:
  assumes "sorted_wrt (\<lambda>a b. k a < k b) xs" and "xs \<noteq> []"
  shows "first_max k xs = Some (last xs)"
  using assms
proof (induction xs)
  case (Cons x xs)
  then show ?case by (cases "xs = []") (auto dest: last_in_set)
qed simp

lemma last_told_eq:
  assumes "sorted_wrt in_order rows"
  shows "map_option (\<lambda>p. coalesce (pu_event_kind p) Firing)
      (first_max (\<lambda>p. (pu_revision p, pu_id p)) (filter (\<lambda>p. pu_status p = DDelivered \<and> pu_presentation p = Alert)
         (filter (\<lambda>p. pu_device_id p = dev \<and> pu_inbox_id p = entry) rows))) =
    (if told dev entry rows = [] then None else Some (last (told dev entry rows)))"
proof -
  let ?xs = "filter (\<lambda>p. pu_status p = DDelivered \<and> pu_presentation p = Alert) (filter (\<lambda>p. pu_device_id p = dev \<and> pu_inbox_id p = entry) rows)"
  have told: "told dev entry rows = map (\<lambda>p. coalesce (pu_event_kind p) Firing) ?xs" by (simp add: told_def conj_ac)
  have "sorted_wrt in_order ?xs" using assms by (simp add: sorted_wrt_filter)
  then have "sorted_wrt (\<lambda>p q. (pu_revision p, pu_id p) < (pu_revision q, pu_id q)) ?xs"
    by (rule sorted_wrt_mono_rel [rotated]) (auto simp: in_order_def same_place_def)
  from first_max_last [OF this] show ?thesis unfolding told by (cases "?xs = []") (auto simp: last_map)
qed

lemma outgoing_ok_append:
  assumes ok: "outgoing_ok rows" and sorted: "sorted_wrt in_order fresh"
    and between: "\<And>p q. p \<in> set rows \<Longrightarrow> q \<in> set fresh \<Longrightarrow> in_order p q"
    and fresh: "\<And>q. q \<in> set fresh \<Longrightarrow> pu_status q = DPending \<and> awaits rows q"
  shows "outgoing_ok (rows @ fresh)"
proof -
  have silent: "told dev entry fresh = []" for dev entry using fresh by (force simp: told_def filter_empty_conv)
  then have told: "told dev entry (rows @ fresh) = told dev entry rows" for dev entry by (simp add: told_append)
  then have waits: "awaits (rows @ fresh) p = awaits rows p" for p by (simp add: awaits_def told_of_def)
  have "live q" if "q \<in> set fresh" for q using fresh [OF that] by (simp add: live_def)
  then show ?thesis using ok sorted between fresh
    by (auto simp: outgoing_ok_def told waits sorted_wrt_append list_all_iff)
qed

end
