(* ===== verification/Push_Machine.thy ===== *)
theory Push_Machine
  imports Push_Rows
begin

text \<open>
  The push outbox under any sequence of requests, deliveries and turns of the dispatcher.
\<close>

subsection \<open>Runs whose operations depend on the state\<close>

fun orderly :: "('op \<Rightarrow> 's \<Rightarrow> bool) \<Rightarrow> ('op \<Rightarrow> 's \<Rightarrow> 's) \<Rightarrow> 'op list \<Rightarrow> 's \<Rightarrow> bool" where
  "orderly ok step [] s = True"
| "orderly ok step (op # ops) s = (ok op s \<and> orderly ok step ops (step op s))"

locale orderly_machine =
  fixes step :: "'op \<Rightarrow> 's \<Rightarrow> 's" and ok :: "'op \<Rightarrow> 's \<Rightarrow> bool" and inv :: "'s \<Rightarrow> bool"
  assumes orderly_inv: "ok op s \<Longrightarrow> inv s \<Longrightarrow> inv (step op s)"
begin

lemma orderly_run: "orderly ok step ops s \<Longrightarrow> inv s \<Longrightarrow> inv (fold step ops s)"
  by (induction ops arbitrary: s) (simp_all add: orderly_inv)

end

sublocale machine \<subseteq> orderly_machine step "\<lambda>op s. admissible op" inv
  by unfold_locales (rule step_inv)

subsection \<open>Operations\<close>

text \<open>\<open>PNotes\<close> is any change of the tables of Incidents and notifications, \<open>PProcess\<close> a call of the
  dispatcher of pushes.\<close>

datatype push_op =
  PDevice device_op
| PNotes ndb
| PDeliver Delivery
| PProcess "relay_env option"
| PClaim string
| PComplete int string
| PFail int string string
| PDisable int string string
| PRead string "int list"
| PDismiss string

fun push_step :: "push_op \<Rightarrow> pdb \<Rightarrow> pdb" where
  "push_step (PDevice op) s = s\<lparr>p_devs := device_step op (p_devs s)\<rparr>"
| "push_step (PNotes n) s = s\<lparr>p_notes := n\<rparr>"
| "push_step (PDeliver d) s = snd (Deliver d s)"
| "push_step (PProcess relay) s = snd (Push_Process relay s)"
| "push_step (PClaim w) s = snd (Push_Claim w s)"
| "push_step (PComplete i w) s = snd (Push_Complete i w s)"
| "push_step (PFail i w e) s = snd (Push_Fail i w e s)"
| "push_step (PDisable i w e) s = snd (DisableDevice i w e s)"
| "push_step (PRead u ids) s = snd (MarkRead u ids s)"
| "push_step (PDismiss u) s = snd (Dismiss u s)"

text \<open>The deliveries of an Incident come in the order of its revisions: none is older than a push
  already written about it.\<close>

definition current_delivery :: "Delivery \<Rightarrow> pdb \<Rightarrow> bool" where
  "current_delivery d s \<longleftrightarrow> list_all (\<lambda>p. of_incident s (dv_IncidentID d) p \<longrightarrow> pu_revision p \<le> dv_IncidentRevision d) (p_pushes s)"

fun push_admissible :: "crypto \<Rightarrow> push_op \<Rightarrow> pdb \<Rightarrow> bool" where
  "push_admissible c (PDevice op) s = device_admissible c op"
| "push_admissible c (PDeliver d) s = current_delivery d s"
| "push_admissible c op s = True"

subsection \<open>The constraints\<close>

definition entries_ok :: "pdb \<Rightarrow> bool" where
  "entries_ok s \<longleftrightarrow> distinct (map ib_id (p_inbox s)) \<and> list_all (\<lambda>r. ib_id r < p_inbox_next s) (p_inbox s) \<and>
     list_all (\<lambda>p. pu_inbox_id p < p_inbox_next s \<and> pu_id p < p_push_next s) (p_pushes s)"

definition push_inv :: "crypto \<Rightarrow> pdb \<Rightarrow> bool" where
  "push_inv c s \<longleftrightarrow> devices_inv c (p_devs s) \<and> outgoing_ok (p_pushes s) \<and> entries_ok s"

subsection \<open>The requests of devices\<close>

text \<open>A request touches the outbox only to cancel what waits for a device.\<close>

definition cancelled_for :: "push_row list \<Rightarrow> push_row list \<Rightarrow> bool" where
  "cancelled_for rows rows' \<longleftrightarrow> rows' = rows \<or>
     (\<exists>device reason. rows' = update_where (\<lambda>p. pu_device_id p = device \<and> live p) (cancel_push reason) rows)"

lemma cancel_pushes_eq:
  "pushes (cancel_pushes reason device s) = update_where (\<lambda>p. pu_device_id p = device \<and> live p) (cancel_push reason) (pushes s)"
  by (simp add: cancel_pushes_def live_def cancel_push_def [abs_def])

lemma cancelled_refl [simp]: "cancelled_for rows rows"
  by (simp add: cancelled_for_def)

lemma cancelled_cancel [simp]: "cancelled_for (pushes s) (pushes (cancel_pushes reason device s))"
  unfolding cancelled_for_def cancel_pushes_eq by blast

lemma seal_secret_pushes: "pushes (snd (seal_secret v purpose s)) = pushes s"
  by (cases "seal_secret v purpose s") (auto elim: seal_secret_frame)

lemma pushes_CreatePairing: "pushes (snd (CreatePairing u s)) = pushes s"
  by (auto simp: CreatePairing_def read_random_def next_uuid_def insert_pairing_def Let_def split: option.splits prod.splits)

lemma pushes_ClaimPairing: "pushes (snd (ClaimPairing t i s)) = pushes s"
proof -
  have "pushes s' = pushes s" if "seal_secret v p s = (r, s')" for v p r s' using seal_secret_pushes [of v p s] that by simp
  then show ?thesis by (auto simp: ClaimPairing_def Let_def split: option.splits prod.splits sum.splits if_splits)
qed

lemma pushes_ConfirmPairing: "pushes (snd (ConfirmPairing u p s)) = pushes s"
proof -
  obtain secret s1 where read: "read_random tokenSize s = (secret, s1)" by (cases "read_random tokenSize s")
  then have s1: "pushes s1 = pushes s" by (auto simp: read_random_def split: prod.splits)
  obtain token digest where new: "newToken (crypto_of s1) secret = (token, digest)" by (cases "newToken (crypto_of s1) secret")
  obtain r s2 where seal: "seal_secret token pairingSecretPurpose s1 = (r, s2)" by (cases "seal_secret token pairingSecretPurpose s1")
  have s2: "pushes s2 = pushes s" using seal_secret_pushes [of token pairingSecretPurpose s1] seal s1 by simp
  have "pushes (snd (confirm_transaction user pairing d sealed s2)) = pushes s2" for user pairing d sealed
    by (auto simp: confirm_transaction_def next_uuid_def insert_device_def Let_def split: option.splits)
  then show ?thesis using s2 by (simp add: ConfirmPairing_def read new seal split: sum.splits)
qed

lemma pushes_Device_Update: "cancelled_for (pushes s) (pushes (snd (Device_Update a d i s)))"
proof -
  have "pushes s' = pushes s" if "seal_secret v p s = (r, s')" for v p r s' using seal_secret_pushes [of v p s] that by simp
  then show ?thesis
    by (auto simp: Device_Update_def Let_def cancelled_for_def cancel_pushes_eq split: option.splits prod.splits sum.splits if_splits)
qed

lemma device_step_pushes: "cancelled_for (pushes s) (pushes (device_step op s))"
proof (cases op)
  case (DResult t)
  then show ?thesis by (simp add: PairingResult_def Let_def split: option.splits sum.splits)
next
  case (DCancel u p)
  then show ?thesis by (simp add: CancelPairing_def Let_def)
next
  case (DAuthenticate t)
  then show ?thesis by (simp add: Device_Authenticate_def split: option.splits)
next
  case (DRevoke a d)
  then show ?thesis by (auto simp: Device_Revoke_def revoke_where_def Let_def cancelled_for_def cancel_pushes_eq)
next
  case (DRevokeSelf d)
  then show ?thesis by (auto simp: RevokeSelf_def revoke_where_def Let_def cancelled_for_def cancel_pushes_eq)
qed (simp_all add: pushes_CreatePairing pushes_ClaimPairing pushes_ConfirmPairing pushes_Device_Update)

lemma cancelled_ok: "outgoing_ok rows \<Longrightarrow> cancelled_for rows rows' \<Longrightarrow> outgoing_ok rows'"
  unfolding cancelled_for_def by (auto intro!: outgoing_ok_update harmless_cancel)


subsection \<open>The statements of the outbox\<close>

lemma devices_inv_pushes [simp]: "devices_inv c (d\<lparr>pushes := rows\<rparr>) = devices_inv c d"
  by (simp add: devices_inv_def devices_ok_def pairing_ok_def [abs_def])

lemma devices_inv_pushes_devices [simp]: "devices_inv c (d\<lparr>pushes := rows, devices := ds\<rparr>) = devices_inv c (d\<lparr>devices := ds\<rparr>)"
  by (simp add: devices_inv_def devices_ok_def pairing_ok_def [abs_def])

lemma quiet_drawn_inv: "quiet s t \<Longrightarrow> drawn s t \<Longrightarrow> devices_inv c s \<Longrightarrow> devices_inv c t"
  unfolding devices_inv_def by (blast intro: quiet_ok drawn_inv)

lemma entries_update:
  assumes "entries_ok s" and "\<And>p. p \<in> set (p_pushes s) \<Longrightarrow> P p \<Longrightarrow> pu_id (f p) = pu_id p \<and> pu_inbox_id (f p) = pu_inbox_id p"
  shows "entries_ok (set_pushes (update_where P f) s)"
  using assms by (auto simp: entries_ok_def set_pushes_def list_all_iff set_update_where)

lemma push_inv_update:
  assumes "push_inv c s" and "\<And>p. p \<in> set (p_pushes s) \<Longrightarrow> P p \<Longrightarrow> harmless p (f p)"
  shows "push_inv c (set_pushes (update_where P f) s)"
proof -
  have "entries_ok (set_pushes (update_where P f) s)"
    by (rule entries_update) (use assms in \<open>auto simp: push_inv_def harmless_def\<close>)
  then show ?thesis using assms outgoing_ok_update [of "p_pushes s" P f] by (simp add: push_inv_def set_pushes_def)
qed

lemma push_inv_relay [simp]: "push_inv c (SetRelayStatus configured err s) = push_inv c s"
  by (simp add: SetRelayStatus_def push_inv_def entries_ok_def Let_def)

lemma outgoing_ids: "outgoing_ok rows \<Longrightarrow> p \<in> set rows \<Longrightarrow> q \<in> set rows \<Longrightarrow> pu_id q = pu_id p \<Longrightarrow> q = p"
proof -
  assume ok: "outgoing_ok rows" and rest: "p \<in> set rows" "q \<in> set rows" "pu_id q = pu_id p"
  have "sorted_wrt (\<lambda>p q. pu_id p < pu_id q) rows"
    by (rule sorted_wrt_mono_rel [of rows in_order]) (use ok in \<open>simp_all add: outgoing_ok_def in_order_def\<close>)
  then have "distinct (map pu_id rows)" by (induction rows) auto
  then show ?thesis using rest by (auto dest: key_unique)
qed

lemma Push_Claim_inv:
  assumes "push_inv c s"
  shows "push_inv c (snd (Push_Claim worker s))"
proof (cases "first_min (\<lambda>p. (pu_next_attempt_at p, pu_id p)) (filter (push_claimable s) (p_pushes s))")
  case (Some p)
  from first_min_in [OF Some] have p: "p \<in> set (p_pushes s)" "live p" by (simp_all add: push_claimable_def)
  have "push_inv c (set_pushes (update_where (\<lambda>q. pu_id q = pu_id p) (lease_push s worker)) s)"
  proof (rule push_inv_update [OF assms])
    fix q assume "q \<in> set (p_pushes s)" and "pu_id q = pu_id p"
    then have "q = p" using outgoing_ids p(1) assms unfolding push_inv_def by blast
    then show "harmless q (lease_push s worker q)" using harmless_lease [OF p(2)] by simp
  qed
  then show ?thesis using Some by (simp add: Push_Claim_def)
qed (simp add: Push_Claim_def assms)

lemma Push_Fail_inv: "push_inv c s \<Longrightarrow> push_inv c (snd (Push_Fail delivery worker err s))"
  unfolding Push_Fail_def snd_conv
  by (rule push_inv_update) (auto intro: harmless_fail held_live simp: push_inv_def)

lemma Push_Complete_inv: "push_inv c s \<Longrightarrow> push_inv c (snd (Push_Complete delivery worker s))"
proof -
  assume inv: "push_inv c s"
  have "entries_ok (set_pushes (update_where (push_held delivery worker) (complete_push s)) s)"
    by (rule entries_update) (use inv in \<open>simp_all add: push_inv_def complete_push_def\<close>)
  then show ?thesis using inv outgoing_ok_complete [of "p_pushes s"] by (simp add: Push_Complete_def push_inv_def set_pushes_def)
qed

lemma DisableDevice_inv:
  assumes inv: "push_inv c s"
  shows "push_inv c (snd (DisableDevice delivery worker err s))"
proof (cases "find (push_held delivery worker) (p_pushes s)")
  case None
  then show ?thesis by (simp add: DisableDevice_def inv)
next
  case (Some p)
  let ?cancel = "cancel_push (delivery_error err)"
  let ?here = "\<lambda>q. pu_device_id q = pu_device_id p \<and> live q"
  let ?s1 = "set_pushes (update_where (push_held delivery worker) ?cancel) s"
  let ?s2 = "set_pushes (update_where ?here ?cancel) ?s1"
  let ?off = "update_where (\<lambda>d. de_id d = pu_device_id p \<and> de_revoked_at d = None)
      (\<lambda>d. d\<lparr>de_push_disabled_at := Some (p_now s), de_updated_at := p_now s\<rparr>)"
  have "push_inv c ?s1" by (rule push_inv_update) (use inv in \<open>auto intro: harmless_cancel held_live simp: push_inv_def\<close>)
  then have inv2: "push_inv c ?s2" by (rule push_inv_update) (auto intro: harmless_cancel)
  have "devices_inv c ((p_devs s)\<lparr>devices := ?off (devices (p_devs s))\<rparr>)"
    by (rule quiet_drawn_inv [of "p_devs s"]) (use inv in \<open>auto intro!: quiet_devices simp: kept_device_def drawn_def push_inv_def\<close>)
  moreover have "snd (DisableDevice delivery worker err s) = ?s2\<lparr>p_devs := (p_devs ?s2)\<lparr>devices := ?off (devices (p_devs s))\<rparr>\<rparr>"
    using Some by (simp add: DisableDevice_def set_pushes_def)
  ultimately show ?thesis using inv2
    by (simp add: push_inv_def entries_ok_def set_pushes_def)
qed

subsection \<open>The dispatcher\<close>

lemma read_random_pushes: "read_random n s = (b, t) \<Longrightarrow> quiet s t \<and> drawn s t \<and> pushes t = pushes s"
  by (auto simp: read_random_def rand_Read_eq drawn_def intro!: quiet_ids)

lemma Encrypt_frame:
  assumes "Encrypt k key plaintext s = (r, t)"
  shows "quiet s t \<and> drawn s t \<and> pushes t = pushes s"
proof (cases "length key = 32")
  case False
  then show ?thesis using assms by (auto simp: Encrypt_def quiet_def)
next
  case True
  obtain secret s1 where one: "read_random 32 s = (secret, s1)" by (cases "read_random 32 s")
  note f1 = read_random_pushes [OF one]
  have "quiet s s2 \<and> drawn s s2 \<and> pushes s2 = pushes s" if "read_random n s1 = (b, s2)" for n b s2
    using read_random_pushes [OF that] f1 quiet_rows_trans [of s s1 s2] by (simp add: drawn_def)
  then show ?thesis using assms True f1 by (auto simp: Encrypt_def one Let_def split: sum.splits prod.splits)
qed

lemma push_deliver_inv:
  assumes "push_inv c s" and "push_deliver env n d s = (r, t)"
  shows "push_inv c t"
proof -
  have "push_inv c (s\<lparr>p_devs := devs\<rparr>)" if "Encrypt k key plaintext (p_devs s) = (r, devs)" for k key plaintext r devs
    using Encrypt_frame [OF that] assms(1) quiet_drawn_inv [of "p_devs s" devs] by (simp add: push_inv_def entries_ok_def)
  then show ?thesis using assms by (auto simp: push_deliver_def split: sum.splits prod.splits)
qed

lemma push_turn_inv:
  assumes inv: "push_inv c s"
  shows "push_inv c (snd (push_turn env n s))"
proof -
  obtain r s1 where claim: "Push_Claim (re_worker env) s = (r, s1)" by (cases "Push_Claim (re_worker env) s")
  have s1: "push_inv c s1" using Push_Claim_inv [OF inv, of "re_worker env"] by (simp add: claim)
  show ?thesis
  proof (cases r)
    case None
    then show ?thesis using s1 by (simp add: push_turn_def claim)
  next
    case (Some d)
    obtain e s2 where deliver: "push_deliver env n d s1 = (e, s2)" by (cases "push_deliver env n d s1")
    have s2: "push_inv c s2" by (rule push_deliver_inv [OF s1 deliver])
    have failed: "push_inv c t" if "Push_Fail i w x s2 = (b, t)" for i w x b t using that Push_Fail_inv [OF s2, of i w x] by simp
    have completed: "push_inv c t" if "Push_Complete i w s2 = (b, t)" for i w b t using that Push_Complete_inv [OF s2, of i w] by simp
    have disabled: "push_inv c t" if "DisableDevice i w x s2 = (b, t)" for i w x b t using that DisableDevice_inv [OF s2, of i w x] by simp
    show ?thesis
      by (auto simp: push_turn_def claim Some deliver dest: failed completed disabled split: option.splits prod.splits bool.splits)
  qed
qed

lemma turns_inv:
  assumes "\<And>n s. I s \<Longrightarrow> I (snd (turn n s))" and "I s"
  shows "I (snd (turns turn n left s))"
  using assms(2)
proof (induction left arbitrary: n s)
  case (Suc left)
  have "I (snd (turn n s))" by (rule assms(1) [OF Suc.prems])
  then show ?case using Suc.IH by (auto split: prod.splits sum.splits)
qed simp

lemma Push_Process_inv: "push_inv c s \<Longrightarrow> push_inv c (snd (Push_Process relay s))"
  unfolding Push_Process_def by (auto intro: turns_inv [of "push_inv c"] push_turn_inv split: option.splits)


subsection \<open>A delivery\<close>

definition entries_grow :: "pdb \<Rightarrow> pdb \<Rightarrow> bool" where
  "entries_grow s t \<longleftrightarrow> p_devs t = p_devs s \<and> p_push_next t = p_push_next s \<and> p_inbox_next s \<le> p_inbox_next t \<and>
     (\<forall>r \<in> set (p_inbox t). p_inbox_next s \<le> ib_id r \<or>
        (\<exists>q \<in> set (p_inbox s). ib_id q = ib_id r \<and> ib_incident_id q = ib_incident_id r))"

lemma entries_grow_refl [simp]: "entries_grow s s"
  by (auto simp: entries_grow_def)

lemma entries_grow_trans: "entries_grow s t \<Longrightarrow> entries_grow t u \<Longrightarrow> entries_grow s u"
  unfolding entries_grow_def by (metis order_trans)

lemma entries_map:
  assumes "entries_ok s" and "\<And>r. ib_id (f r) = ib_id r \<and> ib_incident_id (f r) = ib_incident_id r"
  shows "entries_ok (s\<lparr>p_inbox := update_where P f (p_inbox s)\<rparr>) \<and> entries_grow s (s\<lparr>p_inbox := update_where P f (p_inbox s)\<rparr>)"
proof -
  have "map ib_id (update_where P f (p_inbox s)) = map ib_id (p_inbox s)" by (rule map_update_where) (simp add: assms(2))
  moreover have "\<exists>q \<in> set (p_inbox s). ib_id q = ib_id r \<and> ib_incident_id q = ib_incident_id r"
    if "r \<in> set (update_where P f (p_inbox s))" for r
    using in_update_where [OF that] assms(2) by metis
  ultimately show ?thesis using assms(1) unfolding entries_ok_def entries_grow_def
    by (auto simp: list_all_iff) metis
qed

lemma deposit_grows:
  assumes "entries_ok s"
  shows "entries_ok (deposit fresh s) \<and> entries_grow s (deposit fresh s)"
proof -
  have new: "entries_ok (s\<lparr>p_inbox := p_inbox s @ [r\<lparr>ib_id := p_inbox_next s\<rparr>], p_inbox_next := p_inbox_next s + 1\<rparr>)" for r
    using assms by (fastforce simp: entries_ok_def list_all_iff)
  let ?same = "\<lambda>r. ib_user_id r = ib_user_id fresh \<and> ib_incident_id r = ib_incident_id fresh"
  have "entries_ok (s\<lparr>p_inbox := update_where ?same (reopened_entry fresh) (p_inbox s)\<rparr>) \<and>
      entries_grow s (s\<lparr>p_inbox := update_where ?same (reopened_entry fresh) (p_inbox s)\<rparr>)"
    by (rule entries_map [OF assms]) (simp add: reopened_entry_def)
  then show ?thesis using new [of fresh] by (auto simp: deposit_def Let_def entries_grow_def)
qed

lemma deposits_grow: "entries_ok s \<Longrightarrow> entries_ok (fold deposit es s) \<and> entries_grow s (fold deposit es s)"
  by (induction es arbitrary: s) (use deposit_grows entries_grow_trans in fastforce)+

lemma Deliver_entries_grow:
  assumes "entries_ok s" and "(affected, t) = (if dv_EventKind d = Firing then deposit_opening d s else revise_entries d s)"
  shows "entries_ok t \<and> entries_grow s t"
proof (cases "dv_EventKind d = Firing")
  case True
  then show ?thesis using assms deposits_grow [OF assms(1)] by (simp add: deposit_opening_def Let_def)
next
  case False
  let ?hit = "\<lambda>r. ib_incident_id r = dv_IncidentID d \<and> ib_revision r < dv_IncidentRevision d"
  have "entries_ok (s\<lparr>p_inbox := update_where ?hit (revised_entry s d) (p_inbox s)\<rparr>) \<and>
      entries_grow s (s\<lparr>p_inbox := update_where ?hit (revised_entry s d) (p_inbox s)\<rparr>)"
    by (rule entries_map [OF assms(1)]) (simp add: revised_entry_def)
  then show ?thesis using assms(2) False by (simp add: revise_entries_def Let_def)
qed

lemma length_numbered [simp]: "length (numbered k rows) = length rows"
  by (simp add: numbered_def)

lemma numbered_nth: "i < length rows \<Longrightarrow> numbered k rows ! i = (rows ! i)\<lparr>pu_id := k + int i\<rparr>"
  by (simp add: numbered_def)

lemma numbered_mem:
  assumes "q \<in> set (numbered k rows)"
  obtains p j where "p \<in> set rows" and "q = p\<lparr>pu_id := j\<rparr>" and "k \<le> j" and "j < k + int (length rows)"
proof -
  from assms obtain i where i: "i < length rows" "q = numbered k rows ! i" by (auto simp: in_set_conv_nth)
  show thesis by (rule that [of "rows ! i" "k + int i"]) (use i in \<open>simp_all add: numbered_nth\<close>)
qed

lemma numbered_in_order:
  assumes "sorted_wrt (\<lambda>p q. \<not> same_place p q) rows"
  shows "sorted_wrt in_order (numbered k rows)"
  using assms unfolding sorted_wrt_iff_nth_less
  by (auto simp: numbered_nth in_order_def same_place_def)

lemma places_apart:
  assumes "distinct (map ib_id es)" and "distinct (map de_id ds)"
  shows "sorted_wrt (\<lambda>p q. \<not> same_place p q) (concat (map (\<lambda>entry. map (\<lambda>dev. push_of s d dev entry) (filter (Q entry) ds)) es))"
  using assms(1)
proof (induction es)
  case (Cons e es)
  have place: "pu_inbox_id (push_of s d dev entry) = ib_id entry" "pu_device_id (push_of s d dev entry) = de_id dev" for dev entry
    by (simp_all add: push_of_def Let_def)
  have "sorted_wrt (\<lambda>x y. de_id x \<noteq> de_id y) ds" using assms(2) by (simp add: distinct_map sorted_wrt_iff_nth_less distinct_conv_nth inj_on_def)
  then have "sorted_wrt (\<lambda>x y. de_id x \<noteq> de_id y) (filter (Q e) ds)" by (rule sorted_wrt_filter)
  then have "sorted_wrt (\<lambda>p q. \<not> same_place p q) (map (\<lambda>dev. push_of s d dev e) (filter (Q e) ds))"
    unfolding sorted_wrt_map by (rule sorted_wrt_mono_rel [rotated]) (simp add: same_place_def place)
  moreover have "\<not> same_place p q" if "p \<in> set (map (\<lambda>dev. push_of s d dev e) (filter (Q e) ds))"
      "q \<in> set (concat (map (\<lambda>entry. map (\<lambda>dev. push_of s d dev entry) (filter (Q entry) ds)) es))" for p q
    using that Cons.prems by (auto simp: same_place_def place)
  ultimately show ?case using Cons by (auto simp: sorted_wrt_append)
qed simp

lemma awaits_push_of:
  assumes "outgoing_ok (p_pushes s)"
  shows "awaits (p_pushes s) (push_of s d dev entry)"
proof -
  have "sorted_wrt in_order (p_pushes s)" using assms by (simp add: outgoing_ok_def)
  from last_told_eq [OF this, of "de_id dev" "ib_id entry"]
  have told: "last_told s dev entry =
      (let es = told (de_id dev) (ib_id entry) (p_pushes s) in if es = [] then None else Some (last es))"
    by (simp add: last_told_def pushes_for_def Let_def)
  show ?thesis
  proof (cases "ib_event_kind entry = ResolvedEvent")
    case True
    then show ?thesis
      by (auto simp: awaits_def told_of_def push_of_def told Let_def coalesce_def split: if_splits)
  next
    case False
    then show ?thesis by (simp add: awaits_def push_of_def Let_def)
  qed
qed

lemma Deliver_inv:
  assumes inv: "push_inv c s" and current: "current_delivery d s"
  shows "push_inv c (snd (Deliver d s))"
proof -
  obtain affected t where entries: "(affected, t) = (if dv_EventKind d = Firing then deposit_opening d s else revise_entries d s)"
    by (metis surj_pair)
  have "entries_ok s" using inv by (simp add: push_inv_def)
  from Deliver_entries_grow [OF this entries] have ok: "entries_ok t" and grow: "entries_grow s t" by simp_all
  have devs: "p_devs t = p_devs s" using grow by (simp add: entries_grow_def)
  have t: "push_inv c t" using inv ok by (simp add: push_inv_def devs)
  define wanted where "wanted = concat (map (\<lambda>entry. map (\<lambda>dev. push_of t d dev entry)
       (filter (\<lambda>dev. de_user_id dev = ib_user_id entry \<and> reachable t dev) (devices (p_devs t))))
       (filter (\<lambda>entry. ib_incident_id entry = dv_IncidentID d) (p_inbox t)))"
  define fresh where "fresh = numbered (p_push_next t) (filter (\<lambda>p. \<not> list_ex (same_push p) (p_pushes t)) wanted)"
  define rows where "rows = update_where (outdated t d) (cancel_push revision_replaced) (p_pushes t)"
  have wanted: "\<exists>dev entry. p = push_of t d dev entry \<and> entry \<in> set (p_inbox t) \<and> ib_incident_id entry = dv_IncidentID d"
    if "p \<in> set wanted" for p
    using that by (auto simp: wanted_def)
  have "distinct (map ib_id (p_inbox t))" "distinct (map de_id (devices (p_devs t)))"
    using t by (simp_all add: push_inv_def entries_ok_def devices_inv_def devices_ok_def)
  then have "sorted_wrt (\<lambda>p q. \<not> same_place p q) wanted"
    unfolding wanted_def by (intro places_apart) (simp_all add: distinct_map_filter)
  then have sorted: "sorted_wrt in_order fresh" unfolding fresh_def by (intro numbered_in_order sorted_wrt_filter)
  have rows: "outgoing_ok rows" unfolding rows_def
    by (rule outgoing_ok_update) (use t in \<open>auto simp: push_inv_def outdated_def intro: harmless_cancel\<close>)
  have fresh: "\<exists>dev entry j. q = (push_of t d dev entry)\<lparr>pu_id := j\<rparr> \<and> p_push_next t \<le> j \<and> j < p_push_next t + int (length fresh) \<and>
      entry \<in> set (p_inbox t) \<and> ib_incident_id entry = dv_IncidentID d \<and> \<not> list_ex (same_push q) (p_pushes t)" if q: "q \<in> set fresh" for q
  proof -
    from q obtain p j where p: "p \<in> set wanted" "\<not> list_ex (same_push p) (p_pushes t)" "q = p\<lparr>pu_id := j\<rparr>"
        "p_push_next t \<le> j" "j < p_push_next t + int (length fresh)"
      unfolding fresh_def by (auto elim!: numbered_mem)
    from wanted [OF p(1)] obtain dev entry where "p = push_of t d dev entry" "entry \<in> set (p_inbox t)" "ib_incident_id entry = dv_IncidentID d" by blast
    moreover have "same_push q = same_push p" by (simp add: p(3) same_push_def fun_eq_iff)
    then have "\<not> list_ex (same_push q) (p_pushes t)" using p(2) by simp
    ultimately show ?thesis using p by blast
  qed
  have told: "told_of rows q = told_of (p_pushes t) q" for q
    unfolding told_of_def rows_def by (rule told_harmless) (auto simp: outdated_def intro: harmless_cancel)
  have between: "in_order p q" if p: "p \<in> set rows" and q: "q \<in> set fresh" for p q
  proof -
    from fresh [OF q] obtain dev entry j where new: "q = (push_of t d dev entry)\<lparr>pu_id := j\<rparr>" "p_push_next t \<le> j"
        "entry \<in> set (p_inbox t)" "ib_incident_id entry = dv_IncidentID d" "\<not> list_ex (same_push q) (p_pushes t)" by blast
    then have rev: "pu_revision q = dv_IncidentRevision d" "pu_inbox_id q = ib_id entry" by (simp_all add: push_of_def Let_def)
    from p obtain p0 where p0: "p0 \<in> set (p_pushes t)" "p = (if outdated t d p0 then cancel_push revision_replaced p0 else p0)"
      by (auto simp: rows_def set_update_where)
    have same: "pu_id p = pu_id p0" "pu_revision p = pu_revision p0" "same_place p q = same_place p0 q" "live p \<Longrightarrow> live p0 \<and> \<not> outdated t d p0"
      by (auto simp: p0(2) cancel_push_def same_place_def live_def split: if_splits)
    have bounds: "pu_id p0 < p_push_next t" "pu_inbox_id p0 < p_inbox_next s"
      using t p0(1) inv devs by (auto simp: push_inv_def entries_ok_def list_all_iff)
    have "pu_revision p0 < pu_revision q \<and> \<not> live p" if place: "same_place p0 q"
    proof -
      have here: "ib_id entry = pu_inbox_id p0" using place rev(2) by (simp add: same_place_def)
      then obtain r where "r \<in> set (p_inbox s)" "ib_id r = pu_inbox_id p0" "ib_incident_id r = dv_IncidentID d"
        using grow new(3,4) bounds(2) unfolding entries_grow_def by fastforce
      then have "of_incident s (dv_IncidentID d) p0" unfolding of_incident_def list_ex_iff by blast
      then have "pu_revision p0 \<le> dv_IncidentRevision d" using current p0(1) devs by (simp add: current_delivery_def list_all_iff)
      moreover have "\<not> same_push q p0" using new(5) p0(1) by (simp add: list_ex_iff)
      then have "pu_revision p0 \<noteq> dv_IncidentRevision d" using place rev(1) by (simp add: same_push_def same_place_def)
      ultimately have "pu_revision p0 < dv_IncidentRevision d" by simp
      moreover have "of_incident t (dv_IncidentID d) p0" using here new(3,4) unfolding of_incident_def list_ex_iff by blast
      ultimately show ?thesis using same(4) rev(1) by (auto simp: outdated_def)
    qed
    then show ?thesis using bounds(1) new(1,2) same by (auto simp: in_order_def)
  qed
  have waits: "pu_status q = DPending \<and> awaits rows q" if "q \<in> set fresh" for q
  proof -
    from fresh [OF that] obtain dev entry j where q: "q = (push_of t d dev entry)\<lparr>pu_id := j\<rparr>" by blast
    have "awaits (p_pushes t) (push_of t d dev entry)" by (rule awaits_push_of) (use t in \<open>simp add: push_inv_def\<close>)
    then show ?thesis unfolding awaits_def told by (simp add: q told_of_def live_def push_of_def Let_def)
  qed
  have sent: "outgoing_ok (rows @ fresh)" by (rule outgoing_ok_append [OF rows sorted between waits])
  have calm: "\<not> outdated t d q" if "q \<in> set fresh" for q using fresh [OF that] by (auto simp: outdated_def push_of_def Let_def)
  let ?u = "drop_outdated d (schedule_pushes d t)"
  have sched: "schedule_pushes d t = set_pushes (\<lambda>rs. rs @ fresh) t\<lparr>p_push_next := p_push_next t + int (length fresh)\<rparr>"
    by (simp add: schedule_pushes_def fresh_def wanted_def Let_def)
  then have "outdated (schedule_pushes d t) d = outdated t d" by (simp add: fun_eq_iff outdated_def of_incident_def set_pushes_def)
  then have u: "p_pushes ?u = rows @ fresh" "p_inbox ?u = p_inbox t" "p_inbox_next ?u = p_inbox_next t"
      "p_push_next ?u = p_push_next t + int (length fresh)" "p_devs ?u = (p_devs t)\<lparr>pushes := rows @ fresh\<rparr>"
    using calm by (simp_all add: drop_outdated_def sched set_pushes_def rows_def update_where_def map_idI)
  have "pu_inbox_id p < p_inbox_next t \<and> pu_id p < p_push_next t + int (length fresh)" if p: "p \<in> set (rows @ fresh)" for p
  proof (cases "p \<in> set fresh")
    case True
    from fresh [OF this] obtain dev entry j where "p = (push_of t d dev entry)\<lparr>pu_id := j\<rparr>" "j < p_push_next t + int (length fresh)"
        "entry \<in> set (p_inbox t)" by blast
    then show ?thesis using ok by (simp add: push_of_def Let_def entries_ok_def list_all_iff)
  next
    case False
    then obtain p0 where "p0 \<in> set (p_pushes t)" "pu_id p = pu_id p0" "pu_inbox_id p = pu_inbox_id p0"
      using p by (auto simp: rows_def set_update_where cancel_push_def split: if_splits)
    then show ?thesis using ok by (auto simp: entries_ok_def list_all_iff)
  qed
  then have "entries_ok ?u" using ok by (simp add: entries_ok_def u list_all_iff)
  then have "push_inv c ?u" using t sent by (simp add: push_inv_def u(1) u(5))
  then show ?thesis using t inv by (auto simp: Deliver_def entries [symmetric])
qed

subsection \<open>The machine\<close>

lemma push_step_inv:
  assumes "push_admissible c op s" and inv: "push_inv c s"
  shows "push_inv c (push_step op s)"
proof (cases op)
  case (PDevice o')
  have "devices_inv c (device_step o' (p_devs s))"
    using companions.step_inv [of c o'] assms by (simp add: PDevice push_inv_def)
  moreover have c: "cancelled_for (p_pushes s) (pushes (device_step o' (p_devs s)))" by (rule device_step_pushes)
  moreover have "entries_ok (s\<lparr>p_devs := device_step o' (p_devs s)\<rparr>)"
    using inv c by (auto simp: push_inv_def entries_ok_def cancelled_for_def list_all_iff set_update_where cancel_push_def)
  moreover have "outgoing_ok (pushes (device_step o' (p_devs s)))" by (rule cancelled_ok [OF _ c]) (use inv in \<open>simp add: push_inv_def\<close>)
  ultimately show ?thesis by (simp add: PDevice push_inv_def)
next
  case (PRead u ids)
  then show ?thesis using inv entries_map [of s "\<lambda>r. r\<lparr>ib_read_at := Some (p_now s)\<rparr>"]
    by (simp add: MarkRead_def Let_def push_inv_def)
next
  case (PDismiss u)
  then show ?thesis using inv entries_map [of s "\<lambda>r. r\<lparr>ib_dismissed_at := Some (p_now s), ib_read_at := Some (coalesce (ib_read_at r) (p_now s))\<rparr>"]
    by (simp add: Dismiss_def Let_def push_inv_def)
next
  case (PNotes n)
  then show ?thesis using inv by (simp add: push_inv_def entries_ok_def)
qed (use inv assms(1) in \<open>simp_all add: Deliver_inv Push_Process_inv Push_Claim_inv Push_Complete_inv Push_Fail_inv DisableDevice_inv\<close>)

interpretation pushers: orderly_machine push_step "push_admissible c" "push_inv c" for c
  by unfold_locales (rule push_step_inv)

end
