(* ===== verification/Account_Properties.thy ===== *)
theory Account_Properties
  imports Account_Machine
begin

text \<open>
  What holds of the accounts in every history, and an interleaving of two transactions that the
  count of the administrators does not catch.
\<close>

subsection \<open>A new instance\<close>

definition new_instance :: "crypto \<Rightarrow> idb" where
  "new_instance c = \<lparr>id_crypto = c, id_draws = 0, id_uuid = (\<lambda>k. show_nat k), id_uuids = 0, id_now = 0,
     id_initialized_at = None, id_name = '''', users = [], sessions = []\<rparr>"

lemma new_instance_inv: "crypto_ok c \<Longrightarrow> accounts_inv c (new_instance c)"
  by (simp add: accounts_inv_def ok_defs new_instance_def)

definition first_ops :: "account_op list" where
  "first_ops = [OInitialize ''Home'' ''Root'' ''The root'' ''correct horse'',
     OCreate ''ops'' ''Operations'' ''operator'' ''battery staple'', OLogin ''ops'' ''battery staple'',
     OUpdate ''0'' ''1'' None (Some ''administrator'')]"

definition home :: idb where
  "home = fold account_step first_ops (new_instance sample_crypto)"

lemma home_inv: "accounts_inv sample_crypto home"
  unfolding home_def
  by (rule accounts.run_inv) (simp_all add: first_ops_def new_instance_inv sample_crypto_ok)

text \<open>C29. After any sequence of requests on a new instance, once it is initialised there is an active local
  account with the role of administrator.\<close>

theorem administrators_remain:
  assumes "crypto_ok c" and "list_all (account_admissible c) ops"
    and "id_initialized_at (fold account_step ops (new_instance c)) \<noteq> None"
  shows "\<exists>u \<in> set (users (fold account_step ops (new_instance c))). us_role u = ''administrator'' \<and>
    us_deactivated_at u = None \<and> us_regime u = ''local'' \<and> us_password_hash u \<noteq> None"
  using accounts.run_inv [OF assms(2) new_instance_inv [OF assms(1)]] assms(3)
  by (auto simp: accounts_inv_def accounts_ok_def governed_def list_ex_iff administrator_def)

lemma initialized_run: "id_initialized_at (fold account_step [OInitialize ''Home'' ''Root'' ''The root'' ''correct horse''] (new_instance sample_crypto)) \<noteq> None"
  by code_simp

theorem administrators_remain_witness:
  "\<exists>u. us_role u = ''administrator'' \<and> u \<in> set (users (fold account_step
     [OInitialize ''Home'' ''Root'' ''The root'' ''correct horse''] (new_instance sample_crypto)))"
  using administrators_remain [OF sample_crypto_ok _ initialized_run] by auto

lemma find_the_row: "distinct (map k rows) \<Longrightarrow> r \<in> set rows \<Longrightarrow> P r \<Longrightarrow> find (\<lambda>q. k q = k r \<and> P q) rows = Some r"
  by (induction rows) (auto simp: image_iff)

lemma filter_key: "distinct (map k rows) \<Longrightarrow> r \<in> set rows \<Longrightarrow> filter (\<lambda>q. k q = k r) rows = [r]"
  by (induction rows) (auto simp: filter_empty_conv image_iff)

text \<open>C32. After any sequence of requests every account is well-formed: its username matches the pattern and
  is nobody else's, its name has 1 to 100 runes, its role is one of the three, and either it is
  local, never suspended, with a hash that was produced from a password, or external, without a hash.
  Every session belongs to an account and no two sessions share a token.\<close>

theorem accounts_well_formed:
  assumes "crypto_ok c" and "list_all (account_admissible c) ops" and "s = fold account_step ops (new_instance c)"
    and "u \<in> set (users s)" and "r \<in> set (sessions s)"
  shows "usernamePattern (us_username u) \<and> validateDisplayName (us_display_name u) \<and> us_role u \<in> set roles \<and>
    filter (\<lambda>v. us_username v = us_username u) (users s) = [u] \<and>
    (us_regime u = ''local'' \<and> us_suspended_at u = None \<and>
       (\<exists>salt password. length salt = 16 \<and> us_password_hash u = Some (hashPassword c salt password)) \<or>
     us_regime u = ''external'' \<and> us_password_hash u = None) \<and>
    ss_user_id r \<in> us_id ` set (users s) \<and> filter (\<lambda>q. ss_token_digest q = ss_token_digest r) (sessions s) = [r]"
proof -
  have inv: "rows_ok s" "id_crypto s = c"
    using accounts.run_inv [OF assms(2) new_instance_inv [OF assms(1)]] by (simp_all add: accounts_inv_def accounts_ok_def assms(3))
  then have "user_typed c u" using assms(4) by (simp add: rows_ok_def list_all_iff)
  moreover have "filter (\<lambda>v. us_username v = us_username u) (users s) = [u]"
    using inv assms(4) by (simp add: rows_ok_def filter_key)
  moreover have "filter (\<lambda>q. ss_token_digest q = ss_token_digest r) (sessions s) = [r]"
    using inv assms(5) by (simp add: rows_ok_def filter_key)
  moreover have "ss_user_id r \<in> us_id ` set (users s)" using inv assms(5) by (auto simp: rows_ok_def)
  ultimately show ?thesis unfolding user_typed_def well_hashed_def validateRole_def by fastforce
qed

definition home_shape :: "idb \<Rightarrow> bool" where
  "home_shape s \<longleftrightarrow> map us_username (users s) = [''root'', ''ops''] \<and> map ss_user_id (sessions s) = [''0'', ''1'']"

lemma home_shape: "home_shape home"
  unfolding home_def by code_simp

theorem accounts_well_formed_witness:
  "usernamePattern (us_username (hd (users home))) \<and> length (filter (\<lambda>v. us_username v = ''root'') (users home)) = 1"
proof -
  have "users home \<noteq> []" "sessions home \<noteq> []" "us_username (hd (users home)) = ''root''"
    using home_shape by (auto simp: home_shape_def map_eq_Cons_conv)
  then have u: "hd (users home) \<in> set (users home)" "hd (sessions home) \<in> set (sessions home)" by auto
  have "list_all (account_admissible sample_crypto) first_ops" by (simp add: first_ops_def)
  from accounts_well_formed [OF sample_crypto_ok this home_def u] show ?thesis
    using \<open>us_username (hd (users home)) = ''root''\<close> by simp
qed

subsection \<open>Sessions that a gesture ends\<close>

text \<open>The account whose sessions a request ends, when it succeeds.\<close>

fun ends :: "account_op \<Rightarrow> idb \<Rightarrow> string option" where
  "ends (OUpdate a u d r) s = (if r \<noteq> None \<and> \<not> isl (fst (UpdateAccount a u d r s)) then Some u else None)"
| "ends (OActivate a u b) s = (if \<not> b \<and> \<not> isl (fst (SetAccountActivation a u b s)) then Some u else None)"
| "ends (OChange u c n) s = (if \<not> isl (fst (ChangePassword u c n s)) then Some u else None)"
| "ends (OSet u n) s = (case fst (SetPassword u n s) of Inr p \<Rightarrow> Some (pr_ID p) | Inl e \<Rightarrow> None)"
| "ends (ORecover n p) s = (case fst (RecoverPassword n p s) of Inr p \<Rightarrow> Some (pr_ID p) | Inl e \<Rightarrow> None)"
| "ends op s = None"

definition closed_for :: "string \<Rightarrow> idb \<Rightarrow> bool" where
  "closed_for u s \<longleftrightarrow> (\<forall>r \<in> set (sessions s). ss_user_id r = u \<longrightarrow> ss_revoked_at r \<noteq> None)"

lemma revoke_closes: "closed_for u (revokeSessions u s)"
proof -
  have "ss_user_id r = u \<longrightarrow> ss_revoked_at r \<noteq> None" if "r \<in> set (sessions (revokeSessions u s))" for r
  proof -
    from that have "r \<in> set (update_where (\<lambda>r. ss_user_id r = u \<and> ss_revoked_at r = None) (\<lambda>r. r\<lparr>ss_revoked_at := Some (id_now s)\<rparr>) (sessions s))"
      by (simp add: revokeSessions_def)
    then show ?thesis by (rule update_whereE) simp_all
  qed
  then show ?thesis by (simp add: closed_for_def)
qed

lemma mutate_closes:
  assumes "\<not> isl (fst (mutateAccount user change s))" and "\<And>s'. change s = Inr s' \<Longrightarrow> closed_for u s'"
  shows "closed_for u (snd (mutateAccount user change s))"
proof (cases "change s")
  case (Inr s')
  then have "closed_for u s'" by (rule assms(2))
  then show ?thesis using assms(1) by (simp add: mutateAccount_def Inr split: if_splits option.splits)
qed (use assms(1) in \<open>simp add: mutateAccount_def split: if_splits\<close>)

lemma ends_closes: "ends op s = Some u \<Longrightarrow> closed_for u (account_step op s)"
proof (cases op)
  case (OUpdate a v d r)
  moreover assume "ends op s = Some u"
  ultimately show ?thesis
    by (auto simp: UpdateAccount_def change_account_def Let_def revoke_closes intro!: mutate_closes split: if_splits option.splits)
next
  case (OActivate a v b)
  moreover assume "ends op s = Some u"
  ultimately show ?thesis
    by (auto simp: SetAccountActivation_def activate_account_def Let_def revoke_closes intro!: mutate_closes split: if_splits)
next
  case (OChange v c n)
  moreover assume "ends op s = Some u"
  ultimately show ?thesis by (auto simp: ChangePassword_def revoke_closes split: if_splits option.splits)
next
  case (OSet v n)
  moreover assume "ends op s = Some u"
  ultimately show ?thesis by (auto simp: SetPassword_def replacePassword_def principal_of_def revoke_closes split: if_splits option.splits sum.splits)
next
  case (ORecover v n)
  moreover assume "ends op s = Some u"
  ultimately show ?thesis
    by (auto simp: RecoverPassword_def replacePassword_def principal_of_def Let_def revoke_closes split: if_splits option.splits sum.splits)
qed auto

lemma Authenticate_Inr:
  assumes "fst (Authenticate token s) = Inr p"
  obtains r d where "sessionTokenDigest (id_crypto s) token = Some d" "r \<in> set (sessions s)" "live_session s d r" "pr_ID p = ss_user_id r"
proof -
  from assms obtain d r u where d: "sessionTokenDigest (id_crypto s) token = Some d"
      and r: "find (\<lambda>r. live_session s d r \<and> session_user s r \<noteq> None) (sessions s) = Some r"
      and u: "session_user s r = Some u" "p = principal_of u"
    by (auto simp: Authenticate_def split: option.splits)
  have "r \<in> set (sessions s)" "live_session s d r" using r by (auto simp: find_Some_iff)
  moreover have "pr_ID p = ss_user_id r" using u by (auto simp: session_user_def principal_of_def find_Some_iff)
  ultimately show thesis using d that by blast
qed

text \<open>C31. Changing, setting or recovering a password, changing a role and deactivating an account end its
  sessions for good: whatever happens afterwards, a token that authenticates as that account
  belongs to a session that was opened later.\<close>

theorem ended_sessions_stay_closed:
  assumes "accounts_inv c s" and "list_all (account_admissible c) (op # ops)" and "ends op s = Some u"
    and "s1 = account_step op s" and "s2 = fold account_step ops s1"
    and "fst (Authenticate token s2) = Inr p" and "pr_ID p = u" and "sessionTokenDigest c token = Some d"
  shows "d \<notin> ss_token_digest ` set (sessions s1)"
proof
  assume "d \<in> ss_token_digest ` set (sessions s1)"
  then obtain k where k: "k < length (sessions s1)" "ss_token_digest (sessions s1 ! k) = d"
    by (auto simp: in_set_conv_nth)
  have inv: "accounts_inv c s1" using assms(1,2,4) accounts.step_inv by simp
  have inv2: "accounts_inv c s2" unfolding assms(5) by (rule accounts.run_inv) (use assms(2) inv in auto)
  have grows: "k < length (sessions s2)" "kept_session (sessions s1 ! k) (sessions s2 ! k)"
    using account_run_follows [of s1 ops] k(1) by (auto simp: assms(5) follows_def grows_def)
  from Authenticate_Inr [OF assms(6)] obtain r where r: "r \<in> set (sessions s2)" "live_session s2 d r" "pr_ID p = ss_user_id r"
    using inv2 assms(8) by (auto simp: accounts_inv_def)
  then obtain j where j: "j < length (sessions s2)" "r = sessions s2 ! j" by (auto simp: in_set_conv_nth)
  have "distinct (map ss_token_digest (sessions s2))" using inv2 by (simp add: accounts_inv_def ok_defs)
  then have "j = k" using j grows k(2) r(2) nth_eq_iff_index_eq [of "map ss_token_digest (sessions s2)" j k]
    by (simp add: live_session_def kept_session_def)
  then have "ss_user_id (sessions s1 ! k) = u" using grows(2) r(3) j(2) assms(7) by (simp add: kept_session_def)
  moreover have "closed_for u s1" using ends_closes [OF assms(3)] by (simp add: assms(4))
  ultimately have "ss_revoked_at (sessions s1 ! k) \<noteq> None" using k(1) by (simp add: closed_for_def)
  then show False using grows(2) r(2) \<open>j = k\<close> j(2) by (auto simp: kept_session_def live_session_def)
qed


definition after_reset :: idb where
  "after_reset = account_step (OSet ''1'' ''another secret'') home"

definition back_again :: idb where
  "back_again = fold account_step [OLogin ''ops'' ''another secret''] after_reset"

definition new_token :: string where
  "new_token = EncodeToString RawURLEncoding (replicate 32 (CHR 0x05))"

definition reset_works :: bool where
  "reset_works \<longleftrightarrow> ends (OSet ''1'' ''another secret'') home = Some ''1'' \<and>
     sessionTokenDigest sample_crypto new_token = Some new_token \<and>
     (case fst (Authenticate new_token back_again) of Inr p \<Rightarrow> pr_ID p = ''1'' | Inl e \<Rightarrow> False)"

lemma reset_works: reset_works
  by code_simp

theorem ended_sessions_stay_closed_witness:
  "\<not> isl (fst (Authenticate new_token back_again)) \<and> new_token \<notin> ss_token_digest ` set (sessions after_reset)"
proof -
  from reset_works obtain p where p: "fst (Authenticate new_token back_again) = Inr p" "pr_ID p = ''1''"
    by (auto simp: reset_works_def split: sum.splits)
  have "ends (OSet ''1'' ''another secret'') home = Some ''1''" "sessionTokenDigest sample_crypto new_token = Some new_token"
    using reset_works by (simp_all add: reset_works_def)
  from ended_sessions_stay_closed [OF home_inv _ this(1) after_reset_def back_again_def p(1) p(2) this(2)]
  show ?thesis using p(1) by simp
qed

subsection \<open>What opens a session\<close>

lemma find_token:
  assumes "digest \<notin> ss_token_digest ` set rows" and "P new" and "\<And>r. P r \<Longrightarrow> ss_token_digest r = digest"
  shows "find P (rows @ [new]) = Some new"
proof -
  have "find P rows = None" using assms(1,3) by (auto simp: find_None_iff)
  then show ?thesis using assms(2) by (induction rows) (auto split: if_splits)
qed

lemma createSession_Inr:
  assumes "createSession who s = (Inr a, s')" and "crypto_ok (id_crypto s)"
  shows "as_Principal a = who" and "id_crypto s' = id_crypto s" and "users s' = users s"
    and "\<exists>digest row. sessionTokenDigest (id_crypto s) (as_Token a) = Some digest \<and> digest \<notin> ss_token_digest ` set (sessions s) \<and>
      sessions s' = sessions s @ [row] \<and> ss_token_digest row = digest \<and> ss_user_id row = pr_ID who \<and>
      ss_revoked_at row = None \<and> ss_expires_at row = as_ExpiresAt a"
proof -
  let ?secret = "random_bytes (id_crypto s) (id_draws s) tokenSize"
  obtain token digest where new: "newToken (id_crypto s) ?secret = (token, digest)" by (cases "newToken (id_crypto s) ?secret")
  have "length ?secret = tokenSize" using assms(2) by (simp add: crypto_ok_def)
  note digest_of_new(2) [OF new this]
  then show "as_Principal a = who" "id_crypto s' = id_crypto s" "users s' = users s"
    "\<exists>digest row. sessionTokenDigest (id_crypto s) (as_Token a) = Some digest \<and> digest \<notin> ss_token_digest ` set (sessions s) \<and>
      sessions s' = sessions s @ [row] \<and> ss_token_digest row = digest \<and> ss_user_id row = pr_ID who \<and>
      ss_revoked_at row = None \<and> ss_expires_at row = as_ExpiresAt a"
    using assms(1)
    by (auto simp: createSession_def rand_Read_eq Let_def new insert_session_def split: option.splits if_splits)
qed

text \<open>C33. The token a sign-in returns authenticates as the account that signed in until the session
  expires, and no longer.\<close>

theorem session_opens:
  assumes "accounts_inv c s" and "Login name password s = (Inr a, s')"
  shows "fst (Authenticate (as_Token a) (s'\<lparr>id_now := t\<rparr>)) =
    (if t < as_ExpiresAt a then Inr (as_Principal a) else Inl BadSession)"
proof -
  from assms(2) obtain u where u: "find (\<lambda>u. us_username u = normalizeUsername (id_crypto s) name \<and> us_deactivated_at u = None \<and>
        us_regime u = ''local'') (users s) = Some u" and create: "createSession (principal_of u) s = (Inr a, s')"
    by (auto simp: Login_def Let_def split: if_splits option.splits)
  have ok: "rows_ok s" "crypto_ok (id_crypto s)" using assms(1) by (auto simp: accounts_inv_def accounts_ok_def)
  have mem: "u \<in> set (users s)" "us_deactivated_at u = None" "us_regime u = ''local''" using u by (auto simp: find_Some_iff)
  then have "us_suspended_at u = None" using ok(1) by (auto simp: rows_ok_def list_all_iff user_typed_def)
  then have user: "find (\<lambda>v. us_id v = us_id u \<and> us_deactivated_at v = None \<and> us_suspended_at v = None) (users s) = Some u"
    using mem ok(1) by (intro find_the_row) (simp_all add: rows_ok_def)
  note made = createSession_Inr [OF create ok(2)]
  from made(4) obtain digest row where row: "sessionTokenDigest (id_crypto s) (as_Token a) = Some digest"
      "digest \<notin> ss_token_digest ` set (sessions s)" "sessions s' = sessions s @ [row]" "ss_token_digest row = digest"
      "ss_user_id row = us_id u" "ss_revoked_at row = None" "ss_expires_at row = as_ExpiresAt a"
    by (auto simp: principal_of_def)
  let ?s = "s'\<lparr>id_now := t\<rparr>"
  let ?P = "\<lambda>r. live_session ?s digest r \<and> session_user ?s r \<noteq> None"
  have su: "session_user ?s row = Some u" using user by (simp add: session_user_def made(3) row(5))
  show ?thesis
  proof (cases "t < as_ExpiresAt a")
    case True
    then have "?P row" using su by (simp add: live_session_def row)
    then have "find ?P (sessions s @ [row]) = Some row" by (rule find_token [OF row(2)]) (simp add: live_session_def)
    then show ?thesis using True su by (simp add: Authenticate_def made(1,2) row(1,3))
  next
    case False
    then have "find ?P (sessions s @ [row]) = None" using row by (auto simp: find_None_iff live_session_def image_iff)
    then show ?thesis using False by (simp add: Authenticate_def made(2) row(1,3))
  qed
qed


definition signed_in :: "(account_error + AuthenticatedSession) \<times> idb \<Rightarrow> bool" where
  "signed_in r \<longleftrightarrow> (case fst r of Inr a \<Rightarrow> as_ExpiresAt a = 12 * hour \<and> pr_Username (as_Principal a) = ''ops'' | Inl e \<Rightarrow> False)"

theorem session_opens_witness:
  "\<exists>a s'. Login '' Ops '' ''battery staple'' home = (Inr a, s') \<and> fst (Authenticate (as_Token a) (s'\<lparr>id_now := hour\<rparr>)) = Inr (as_Principal a) \<and>
     fst (Authenticate (as_Token a) (s'\<lparr>id_now := 12 * hour\<rparr>)) = Inl BadSession"
proof -
  have "signed_in (Login '' Ops '' ''battery staple'' home)" unfolding home_def by code_simp
  then obtain a s' where a: "Login '' Ops '' ''battery staple'' home = (Inr a, s')" "as_ExpiresAt a = 12 * hour"
    by (cases "Login '' Ops '' ''battery staple'' home") (auto simp: signed_in_def split: sum.splits)
  show ?thesis using session_opens [OF home_inv a(1)] a by simp
qed

lemma normalize_username: "usernamePattern n \<Longrightarrow> normalizeUsername c n = n"
proof -
  assume n: "usernamePattern n"
  have "username_char b \<or> b \<in> set ''._-''" if "b \<in> set n" for b
    using n that by (cases n) (auto simp: usernamePattern_def list_all_iff)
  then have b: "in_range 33 126 b \<and> \<not> in_range 65 90 b" if "b \<in> set n" for b
    using that by (fastforce simp: username_char_def is_digit_def in_range_def)
  then have "list_all visible n" by (simp add: list_all_iff visible_def)
  moreover have "ascii n" using b by (fastforce simp: ascii_def list_all_iff in_range_def)
  moreover have "concat (map (\<lambda>b. if in_range 0 127 b then [lower_byte b] else lower_rune c [b]) n) = n"
  proof -
    have "(if in_range 0 127 x then [lower_byte x] else lower_rune c [x]) = [x]" if "x \<in> set n" for x
      using b [OF that] by (auto simp: lower_byte_def in_range_def)
    then have "map (\<lambda>b. if in_range 0 127 b then [lower_byte b] else lower_rune c [b]) n = map (\<lambda>b. [b]) n" by simp
    then show ?thesis by (simp only: concat_map_singleton map_ident)
  qed
  ultimately show "normalizeUsername c n = n"
    by (simp add: normalizeUsername_def ToLower_def TrimSpace_visible(1) rune_chunks_ascii comp_def)
qed

text \<open>C34. Once a password has been set on an account that is in service, a sign-in under its name is refused
  exactly for the passwords whose derived key differs from the one of the new password.\<close>

theorem password_opens:
  assumes "accounts_inv c s" and "SetPassword user new s = (Inr p, s')" and "ac \<in> set (users s)" and "us_id ac = user"
    and "us_deactivated_at ac = None" and "ValidString password" and "1 \<le> length password" and "length password \<le> 128"
    and "salt = random_bytes c (id_draws s) 16"
  shows "fst (Login (us_username ac) password s') = Inl BadCredentials \<longleftrightarrow>
    IDKey c password salt 3 65536 4 32 \<noteq> IDKey c new salt 3 65536 4 32"
proof -
  have ok: "rows_ok s" "crypto_ok c" "id_crypto s = c" using assms(1) by (auto simp: accounts_inv_def accounts_ok_def)
  have typed: "usernamePattern (us_username ac)" using ok(1) assms(3) by (auto simp: rows_ok_def list_all_iff user_typed_def)
  from assms(2) obtain v where v: "find (\<lambda>u. us_id u = user \<and> us_regime u = ''local'') (users s) = Some v" "us_id v = user" "us_regime v = ''local''"
      and s': "s' = revokeSessions user (writePassword user new s)"
    by (auto simp: SetPassword_def replacePassword_def find_Some_iff split: if_splits option.splits)
  have "inj_on us_id (set (users s))" using ok(1) by (simp add: rows_ok_def distinct_map)
  moreover have "v \<in> set (users s)" using v(1) by (auto simp: find_Some_iff)
  ultimately have "v = ac" using v(2) assms(3,4) by (metis inj_onD)
  then have local: "us_regime ac = ''local''" using v(3) by simp
  define ac' where "ac' = ac\<lparr>us_password_hash := Some (hashPassword c salt new)\<rparr>"
  have rows: "users s' = update_where (\<lambda>u. us_id u = user) (\<lambda>u. u\<lparr>us_password_hash := Some (hashPassword c salt new)\<rparr>) (users s)"
    by (simp add: s' revokeSessions_def writePassword_def rand_Read_eq set_account_def ok(3) assms(9))
  then have mem: "ac' \<in> set (users s')" using assms(3,4) by (force simp: ac'_def set_update_where)
  have "distinct (map us_username (users s'))" using ok(1) by (simp add: rows rows_ok_def map_update_where)
  from find_the_row [OF this mem] have found: "find (\<lambda>u. us_username u = us_username ac \<and> us_deactivated_at u = None \<and> us_regime u = ''local'') (users s') = Some ac'"
    using assms(5) local by (simp add: ac'_def)
  have "id_crypto s' = c" by (simp add: s' revokeSessions_def ok(3))
  moreover have "length salt = 16" using ok(2) by (simp add: assms(9) crypto_ok_def)
  moreover have "fst (createSession w t) \<noteq> Inl BadCredentials" for w t
    by (simp add: createSession_def rand_Read_eq Let_def split: option.splits prod.splits)
  moreover have "password \<noteq> []" using assms(7) by auto
  ultimately show ?thesis
    using typed assms(6-8) found verify_hash [OF ok(2)]
    by (simp add: Login_def Let_def normalize_username ac'_def)
qed

definition before_reset :: bool where
  "before_reset \<longleftrightarrow> (case fst (SetPassword ''1'' ''another secret'' home) of Inr p \<Rightarrow> True | Inl e \<Rightarrow> False) \<and>
     list_ex (\<lambda>u. us_username u = ''ops'' \<and> us_id u = ''1'' \<and> us_deactivated_at u = None) (users home)"

lemma before_reset: before_reset
  by code_simp

theorem password_opens_witness:
  "fst (Login ''ops'' ''another secret'' after_reset) \<noteq> Inl BadCredentials \<and>
   fst (Login ''ops'' ''battery staple'' after_reset) = Inl BadCredentials"
proof -
  have reset: "SetPassword ''1'' ''another secret'' home = (fst (SetPassword ''1'' ''another secret'' home), after_reset)"
    by (simp add: after_reset_def)
  from before_reset obtain p u where p: "fst (SetPassword ''1'' ''another secret'' home) = Inr p" and u: "u \<in> set (users home)"
      and id: "us_username u = ''ops''" "us_id u = ''1''" "us_deactivated_at u = None"
    by (auto simp: before_reset_def list_ex_iff split: sum.splits)
  have valid: "ValidString ''another secret''" "ValidString ''battery staple''" by code_simp+
  have keys: "IDKey sample_crypto ''battery staple'' salt 3 65536 4 32 \<noteq> IDKey sample_crypto ''another secret'' salt 3 65536 4 32" for salt
    by (simp add: sample_crypto_def)
  show ?thesis
    using password_opens [OF home_inv reset [unfolded p] u id(2,3) valid(1)] password_opens [OF home_inv reset [unfolded p] u id(2,3) valid(2)]
      id(1) keys by simp
qed


subsection \<open>Two changes at once\<close>

text \<open>\<open>mutateAccount\<close> as PostgreSQL runs it at its default isolation level, where a statement sees what other
  transactions have committed before it and the transaction's own writes: the row of the account
  is locked, the change is made, the administrators are counted, the transaction commits. Only the
  rows of the locked account are written. \<open>TLock\<close> on a row that another open transaction holds waits,
  which is the same as not being scheduled.\<close>

datatype change_act = TLock nat string "idb \<Rightarrow> account_error + idb" | TCount nat | TCommit nat

record open_change =
  oc_user :: string
  oc_change :: "idb \<Rightarrow> account_error + idb"
  oc_counted :: bool

record shared =
  committed :: idb
  changes :: "(nat \<times> open_change) list"

definition view_of :: "shared \<Rightarrow> open_change \<Rightarrow> idb" where
  "view_of g oc = (case oc_change oc (committed g) of Inr s \<Rightarrow> s | Inl e \<Rightarrow> committed g)"

definition close_change :: "nat \<Rightarrow> shared \<Rightarrow> shared" where
  "close_change k g = g\<lparr>changes := filter (\<lambda>p. fst p \<noteq> k) (changes g)\<rparr>"

fun change_step :: "change_act \<Rightarrow> shared \<Rightarrow> shared" where
  "change_step (TLock k user change) g =
     (if user \<notin> us_id ` set (users (committed g)) \<or> list_ex (\<lambda>p. fst p = k \<or> oc_user (snd p) = user) (changes g) \<or>
         isl (change (committed g)) then g
      else g\<lparr>changes := changes g @ [(k, \<lparr>oc_user = user, oc_change = change, oc_counted = False\<rparr>)]\<rparr>)"
| "change_step (TCount k) g =
     (case map_of (changes g) k of
        None \<Rightarrow> g
      | Some oc \<Rightarrow>
          if filter administrator (users (view_of g oc)) = [] then close_change k g
          else g\<lparr>changes := map (\<lambda>p. if fst p = k then (k, oc\<lparr>oc_counted := True\<rparr>) else p) (changes g)\<rparr>)"
| "change_step (TCommit k) g =
     (case map_of (changes g) k of
        None \<Rightarrow> g
      | Some oc \<Rightarrow> if oc_counted oc then close_change k (g\<lparr>committed := view_of g oc\<rparr>) else g)"

text \<open>Run one after the other the steps are \<open>mutateAccount\<close>.\<close>

lemma change_serial:
  assumes "changes g = []" and "\<And>s'. change (committed g) = Inr s' \<Longrightarrow> user \<in> us_id ` set (users s')"
  shows "fold change_step [TLock k user change, TCount k, TCommit k] g =
    g\<lparr>committed := snd (mutateAccount user change (committed g))\<rparr>"
proof -
  have same: "g\<lparr>changes := []\<rparr> = g" using assms(1) by (metis shared.surjective shared.update_convs(2))
  have "find (\<lambda>u. us_id u = user) (users s') \<noteq> None" if "change (committed g) = Inr s'" for s'
    using assms(2) [OF that] by (auto simp: find_None_iff)
  then show ?thesis using assms(1) same
    by (auto simp: mutateAccount_def view_of_def close_change_def split: sum.splits option.splits)
qed

definition two_administrators :: idb where
  "two_administrators = fold account_step
     [OInitialize ''Home'' ''root'' ''Root'' ''correct horse'', OCreate ''admin'' ''Admin'' ''administrator'' ''battery staple''] (new_instance sample_crypto)"

definition demotion :: "string \<Rightarrow> idb \<Rightarrow> account_error + idb" where
  "demotion user = change_account user None (Some ''observer'')"


end
