(* ===== verification/Device_Properties.thy ===== *)
theory Device_Properties
  imports Device_Machine Account_Properties
begin

text \<open>
  What a pairing hands out and what a device token opens, in every history.
\<close>

subsection \<open>The credential\<close>

lemma find_digest:
  assumes "distinct (map k rows)" and "r \<in> set rows"
  shows "find (\<lambda>q. k q = k r) rows = Some r"
  using find_the_row [OF assms, of "\<lambda>q. True"] by simp

text \<open>C36. A pairing hands out its credential once: whatever requests follow, the same code is told that it
  has been consumed.\<close>

theorem credential_once:
  assumes "devices_inv c s" and "PairingResult token s = (Inr (status, Some x), s1)"
    and "list_all (device_admissible c) ops" and "t = fold device_step ops s1"
  shows "fst (PairingResult token t) = Inl CredentialConsumed"
proof -
  obtain device credential where x: "x = (device, credential)" by (cases x)
  obtain digest p where digest: "tokenDigest (crypto_of s) token = Some digest" and p: "p \<in> set (pairings s)" "pa_token_digest p = digest"
      "pa_cancelled_at p = None" "pa_consumed_at p = None" "pa_confirmed_at p \<noteq> None" "pa_token_sealed p \<noteq> ''''"
      "box_Open (dd_box s) (pa_token_sealed p) pairingSecretPurpose = Inr credential" "device = coalesce (pa_device_id p) ''''" "status = ''confirmed''"
      and s1: "s1 = s\<lparr>pairings := update_where (\<lambda>q. pa_token_digest q = digest)
         (\<lambda>q. q\<lparr>pa_consumed_at := Some (now_of s), pa_token_sealed := ''''\<rparr>) (pairings s)\<rparr>"
    by (rule PairingResult_confirmed [OF assms(2) [unfolded x]])
  have c: "crypto_of s = c" using assms(1) by (simp add: devices_inv_def accounts_inv_def)
  have inv1: "devices_inv c s1" using companions.step_inv [OF _ assms(1), of "DResult token"] assms(2) by simp
  have inv: "devices_inv c t" unfolding assms(4) by (rule companions.run_inv [OF assms(3) inv1])
  define p1 where "p1 = p\<lparr>pa_consumed_at := Some (now_of s), pa_token_sealed := ''''\<rparr>"
  have p1: "p1 \<in> set (pairings s1)" using p(1,2) by (auto simp: s1 p1_def set_update_where)
  have "grows kept_pairing (pairings s1) (pairings t)"
    using device_run_follows [OF inv1 assms(3)] by (simp add: assms(4) device_follows_def)
  from grows_mem [OF this p1] obtain q where q: "q \<in> set (pairings t)" "kept_pairing p1 q" by blast
  have rows: "pairing_ok t q" "distinct (map pa_token_digest (pairings t))" using inv q(1) by (auto simp: devices_inv_def devices_ok_def list_all_iff)
  have k: "pa_token_digest q = digest" "pa_consumed_at q \<noteq> None" "pa_confirmed_at q \<noteq> None"
    using q(2) p by (auto simp: kept_pairing_def p1_def)
  then have "pa_cancelled_at q = None" using rows(1) by (simp add: pairing_ok_def)
  moreover have "find (\<lambda>p. pa_token_digest p = digest) (pairings t) = Some q" using find_digest [OF rows(2) q(1)] k(1) by simp
  moreover have "tokenDigest (crypto_of t) token = Some digest" using digest c inv by (simp add: devices_inv_def accounts_inv_def)
  ultimately show ?thesis using k by (simp add: PairingResult_def)
qed

lemma Device_Authenticate_row:
  assumes "devices_ok s" and "d \<in> set (devices s)" and "tokenDigest (crypto_of s) token = Some (de_token_digest d)"
  shows "fst (Device_Authenticate token s) =
    (case device_owner s d of Some u \<Rightarrow> if de_revoked_at d = None then Inr (de_id d, principal_of u) else Inl InvalidDevice
     | None \<Rightarrow> Inl InvalidDevice)"
proof -
  have rows: "distinct (map de_token_digest (devices s))" using assms(1) by (simp add: devices_ok_def)
  show ?thesis
  proof (cases "de_revoked_at d = None \<and> device_owner s d \<noteq> None")
    case True
    from find_the_row [OF rows assms(2), of "\<lambda>d. de_revoked_at d = None \<and> device_owner s d \<noteq> None"] True
    have "find (\<lambda>e. de_token_digest e = de_token_digest d \<and> de_revoked_at e = None \<and> device_owner s e \<noteq> None) (devices s) = Some d" by simp
    then show ?thesis using True assms(3) by (auto simp: Device_Authenticate_def)
  next
    case False
    have "find (\<lambda>e. de_token_digest e = de_token_digest d \<and> de_revoked_at e = None \<and> device_owner s e \<noteq> None) (devices s) = None"
      unfolding find_None_iff using False key_unique [OF rows _ assms(2)] by blast
    then show ?thesis using False assms(3) by (auto simp: Device_Authenticate_def split: option.splits)
  qed
qed

text \<open>C37. What a confirmed pairing hands out is the token of a device of the user who offered the pairing: it
  authenticates as that user and that device while the device is not revoked and its user is in
  service.\<close>

theorem credential_opens_device:
  assumes "devices_inv c s" and "PairingResult token s = (Inr (status, Some (device, credential)), s1)"
  shows "\<exists>p \<in> set (pairings s). \<exists>d \<in> set (devices s1). tokenDigest c token = Some (pa_token_digest p) \<and>
    de_id d = device \<and> de_user_id d = pa_user_id p \<and>
    fst (Device_Authenticate credential s1) =
      (case find (\<lambda>u. us_id u = pa_user_id p \<and> us_deactivated_at u = None \<and> us_suspended_at u = None) (users (dd_ids s1)) of
         Some u \<Rightarrow> if de_revoked_at d = None then Inr (device, principal_of u) else Inl InvalidDevice
       | None \<Rightarrow> Inl InvalidDevice)"
proof -
  obtain digest p where digest: "tokenDigest (crypto_of s) token = Some digest" and p: "p \<in> set (pairings s)" "pa_token_digest p = digest"
      "pa_cancelled_at p = None" "pa_consumed_at p = None" "pa_confirmed_at p \<noteq> None" "pa_token_sealed p \<noteq> ''''"
      "box_Open (dd_box s) (pa_token_sealed p) pairingSecretPurpose = Inr credential" "device = coalesce (pa_device_id p) ''''" "status = ''confirmed''"
      and s1: "s1 = s\<lparr>pairings := update_where (\<lambda>q. pa_token_digest q = digest)
         (\<lambda>q. q\<lparr>pa_consumed_at := Some (now_of s), pa_token_sealed := ''''\<rparr>) (pairings s)\<rparr>"
    by (rule PairingResult_confirmed [OF assms(2)])
  have c: "crypto_of s = c" using assms(1) by (simp add: devices_inv_def accounts_inv_def)
  have inv1: "devices_ok s1" using companions.step_inv [OF _ assms(1), of "DResult token"] assms(2) by (simp add: devices_inv_def)
  have "pairing_ok s p" using assms(1) p(1) by (simp add: devices_inv_def devices_ok_def list_all_iff)
  then obtain d where d: "d \<in> set (devices s)" "pa_device_id p = Some (de_id d)" "de_user_id d = pa_user_id p"
      "tokenDigest (crypto_of s) credential = Some (de_token_digest d)"
    using p unfolding pairing_ok_def by auto
  have "fst (Device_Authenticate credential s1) =
    (case device_owner s1 d of Some u \<Rightarrow> if de_revoked_at d = None then Inr (de_id d, principal_of u) else Inl InvalidDevice
     | None \<Rightarrow> Inl InvalidDevice)"
    by (rule Device_Authenticate_row [OF inv1]) (use d in \<open>simp_all add: s1\<close>)
  moreover have "device = de_id d" using p(8) d(2) by (simp add: coalesce_def)
  moreover have "d \<in> set (devices s1)" using d(1) by (simp add: s1)
  ultimately show ?thesis using p(1,2) d digest c by (auto simp: device_owner_def active_user_def)
qed

text \<open>C38. A revoked device stays out: whatever requests follow, its token is refused.\<close>

theorem revoked_device_refused:
  assumes "devices_inv c s" and "d \<in> set (devices s)" and "de_revoked_at d \<noteq> None" and "tokenDigest c token = Some (de_token_digest d)"
    and "list_all (device_admissible c) ops" and "t = fold device_step ops s"
  shows "fst (Device_Authenticate token t) = Inl InvalidDevice"
proof -
  have inv: "devices_inv c t" unfolding assms(6) by (rule companions.run_inv [OF assms(5,1)])
  have "grows kept_device (devices s) (devices t)" using device_run_follows [OF assms(1,5)] by (simp add: assms(6) device_follows_def)
  from grows_mem [OF this assms(2)] obtain e where e: "e \<in> set (devices t)" "kept_device d e" by blast
  have "devices_ok t" "crypto_of t = c" using inv by (simp_all add: devices_inv_def accounts_inv_def)
  moreover have "de_revoked_at e \<noteq> None" and "de_token_digest e = de_token_digest d"
    using assms(3) e(2) by (auto simp: kept_device_def)
  ultimately show ?thesis
    using Device_Authenticate_row [of t e token] e(1) assms(4) by (simp split: option.splits)
qed

subsection \<open>An example\<close>

definition companion_home :: ddb where
  "companion_home = \<lparr>dd_ids = home, dd_box = Some sample_aead, dd_url = ''https://ops.example'', dd_valid_point = (\<lambda>k. True),
     devices = [], pairings = [], pushes = []\<rparr>"

lemma companion_inv: "devices_inv sample_crypto companion_home"
proof -
  have "aead_ok sample_aead" by (simp add: aead_ok_def sample_aead_def sample_tag_def) (simp add: min_def)
  then show ?thesis using home_inv by (simp add: devices_inv_def devices_ok_def companion_home_def)
qed

definition code :: string where
  "code = EncodeToString RawURLEncoding (replicate 32 (CHR 0x04))"

definition phone :: ClaimInput where
  "phone = \<lparr>ci_Name = ''Phone'', ci_Platform = ''iOS'', ci_AppVersion = ''1.0'', ci_Locale = '''', ci_NotificationContent = ''masked'',
     ci_EncryptionPublicKey = EncodeToString RawURLEncoding (replicate 32 (CHR 0x09)), ci_PushRecipient = ''recipient-0123456789''\<rparr>"

definition paired_ops :: "device_op list" where
  "paired_ops = [DCreate ''1'', DClaim code phone, DConfirm ''1'' ''2'']"

definition paired :: ddb where
  "paired = fold device_step paired_ops companion_home"

lemma paired_inv: "devices_inv sample_crypto paired"
  unfolding paired_def by (rule companions.run_inv [OF _ companion_inv]) (simp add: paired_ops_def)

definition handed_out :: bool where
  "handed_out \<longleftrightarrow> (case fst (PairingResult code paired) of Inr (status, Some x) \<Rightarrow> True | _ \<Rightarrow> False)"

lemma handed_out: handed_out
  by code_simp

theorem credential_once_witness:
  "fst (PairingResult code (fold device_step [DClaim code phone, DConfirm ''1'' ''2''] (snd (PairingResult code paired)))) = Inl CredentialConsumed"
proof -
  obtain status x s1 where r: "PairingResult code paired = (Inr (status, Some x), s1)"
    using handed_out by (auto simp: handed_out_def split: sum.splits option.splits prod.splits) (metis prod.collapse)
  show ?thesis unfolding r snd_conv by (rule credential_once [OF paired_inv r _ refl]) simp
qed

theorem credential_opens_device_witness:
  "\<exists>p \<in> set (pairings paired). tokenDigest sample_crypto code = Some (pa_token_digest p)"
proof -
  obtain status device credential s1 where r: "PairingResult code paired = (Inr (status, Some (device, credential)), s1)"
    using handed_out by (auto simp: handed_out_def split: sum.splits option.splits prod.splits) (metis prod.collapse)
  from credential_opens_device [OF paired_inv this] show ?thesis by blast
qed

definition lost :: ddb where
  "lost = device_step (DRevokeSelf ''3'') paired"

definition lost_token :: string where
  "lost_token = EncodeToString RawURLEncoding (replicate 32 (CHR 0x06))"

definition lost_check :: bool where
  "lost_check \<longleftrightarrow> (case devices lost of [d] \<Rightarrow> de_revoked_at d \<noteq> None \<and> tokenDigest sample_crypto lost_token = Some (de_token_digest d) | _ \<Rightarrow> False)"

lemma lost_check: lost_check
  by code_simp

lemma lost_inv: "devices_inv sample_crypto lost"
  unfolding lost_def by (rule companions.step_inv [OF _ paired_inv]) simp

theorem revoked_device_refused_witness:
  "fst (Device_Authenticate lost_token (fold device_step [DAccount (OLogin ''root'' ''x''), DClaim code phone] lost)) = Inl InvalidDevice"
proof -
  obtain d where d: "devices lost = [d]" "de_revoked_at d \<noteq> None" "tokenDigest sample_crypto lost_token = Some (de_token_digest d)"
    using lost_check by (auto simp: lost_check_def split: list.splits)
  show ?thesis by (rule revoked_device_refused [OF lost_inv _ d(2,3) _ refl]) (simp_all add: d(1))
qed

end
