(* ===== verification/Notification_Outbox.thy ===== *)
theory Notification_Outbox
  imports Notifications Machines
begin

text \<open>
  The outbox under every sequence of operations: one row per Incident, Channel and event, what
  is delivered is never touched again, an opening reaches a worker only for an Incident that
  still deserves it, and the escalation rules of the revisions.
\<close>

subsection \<open>What the statements leave alone\<close>

definition same_world :: "ndb \<Rightarrow> ndb \<Rightarrow> bool" where
  "same_world s s' \<longleftrightarrow> n_now s' = n_now s \<and> n_stability_seconds s' = n_stability_seconds s \<and>
     n_db s' = n_db s \<and> n_plan s' = n_plan s \<and> n_channels s' = n_channels s"

lemma same_world_refl [simp]: "same_world s s"
  by (simp add: same_world_def)

lemma same_world_trans: "same_world s t \<Longrightarrow> same_world t u \<Longrightarrow> same_world s u"
  by (simp add: same_world_def)

lemma same_world_outbox [simp]: "same_world s (s\<lparr>n_outbox := rows\<rparr>)" "same_world s (s\<lparr>n_next_id := n, n_outbox := rows\<rparr>)"
  by (simp_all add: same_world_def)

lemma same_world_upsert [simp]: "same_world s (upsert f row s)"
  by (simp add: upsert_def same_world_def)

lemma same_world_upserts [simp]: "same_world s (fold (upsert f) rows s)"
  by (induction rows arbitrary: s) (auto intro: same_world_trans [OF same_world_upsert])

lemma same_world_cancel [simp]: "same_world s (cancel_deliveries reason P s)"
  by (simp add: cancel_deliveries_def same_world_def)

lemma same_world_reads:
  assumes "same_world s s'"
  shows "under_maintenance s' = under_maintenance s" "notifiable s' = notifiable s" "open_lease s' = open_lease s"
    "incident_of s' = incident_of s" "channel_of s' = channel_of s" "obsolete s' = obsolete s" "announced s' = announced s"
    "due_at s' = due_at s" "active_name s' = active_name s"
proof -
  have w: "n_now s' = n_now s" "n_stability_seconds s' = n_stability_seconds s" "n_db s' = n_db s" "n_plan s' = n_plan s" "n_channels s' = n_channels s"
    using assms by (simp_all add: same_world_def)
  show m: "under_maintenance s' = under_maintenance s" by (simp add: under_maintenance_def [abs_def] w)
  show n: "notifiable s' = notifiable s" by (simp add: notifiable_def [abs_def] w m)
  show "open_lease s' = open_lease s" by (auto simp: open_lease_def fun_eq_iff w split: option.splits)
  show "incident_of s' = incident_of s" by (simp add: incident_of_def [abs_def] w)
  show "channel_of s' = channel_of s" by (simp add: channel_of_def [abs_def] w)
  show "obsolete s' = obsolete s" by (simp add: obsolete_def [abs_def] n)
  show "announced s' = announced s" by (simp add: announced_def [abs_def] n)
  show "due_at s' = due_at s" by (simp add: due_at_def fun_eq_iff w)
  have "target_name_of s' = target_name_of s" by (simp add: target_name_of_def [abs_def] w)
  then have "first_target s' = first_target s" by (simp add: first_target_def [abs_def] w)
  then show "active_name s' = active_name s" by (simp add: active_name_def fun_eq_iff)
qed

subsection \<open>The invariant of the outbox\<close>

definition event_of :: "delivery_row \<Rightarrow> uuid \<times> uuid \<times> string" where
  "event_of d = (dl_incident_id d, dl_channel_id d, dl_event_key d)"

definition opening_key :: "string \<Rightarrow> bool" where
  "opening_key k \<longleftrightarrow> k = ''firing'' \<or> k = ''resumed''"

text \<open>A row that is delivered or cancelled has no lease, and openings are told by their key.\<close>

definition settled :: "delivery_row \<Rightarrow> bool" where
  "settled d \<longleftrightarrow> (unsent d \<or> dl_lease_owner d = None) \<and> (dl_event_kind d = Firing \<longleftrightarrow> opening_key (dl_event_key d))"

definition outbox_ok :: "ndb \<Rightarrow> bool" where
  "outbox_ok s \<longleftrightarrow> distinct (map dl_id (n_outbox s)) \<and> distinct (map event_of (n_outbox s)) \<and>
     list_all (\<lambda>d. dl_id d < n_next_id s \<and> settled d) (n_outbox s)"

text \<open>What a row keeps: its identity, and everything once it is delivered.\<close>

definition row_kept :: "delivery_row \<Rightarrow> delivery_row \<Rightarrow> bool" where
  "row_kept d d' \<longleftrightarrow> dl_id d' = dl_id d \<and> event_of d' = event_of d \<and> dl_event_kind d' = dl_event_kind d \<and>
     (dl_status d = DDelivered \<longrightarrow> d' = d)"

definition remembers :: "ndb \<Rightarrow> ndb \<Rightarrow> bool" where
  "remembers s s' \<longleftrightarrow> (outbox_ok s \<longrightarrow> outbox_ok s' \<and> grows row_kept (n_outbox s) (n_outbox s'))"

lemma row_kept_refl [simp]: "row_kept d d"
  by (simp add: row_kept_def)

lemma row_kept_trans: "row_kept a b \<Longrightarrow> row_kept b c \<Longrightarrow> row_kept a c"
  by (auto simp: row_kept_def)

lemma remembers_refl [simp]: "remembers s s"
  by (simp add: remembers_def grows_refl)

lemma remembers_trans: "remembers s t \<Longrightarrow> remembers t u \<Longrightarrow> remembers s u"
  unfolding remembers_def using grows_trans row_kept_trans by blast

lemma remembers_update:
  assumes "\<And>d. d \<in> set (n_outbox s) \<Longrightarrow> settled d \<Longrightarrow> P d \<Longrightarrow> row_kept d (f d) \<and> settled (f d)"
    and "n_outbox s' = update_where P f (n_outbox s)" and "n_next_id s' = n_next_id s"
  shows "remembers s s'"
  unfolding remembers_def
proof
  assume ok: "outbox_ok s"
  then have step: "row_kept d (f d) \<and> settled (f d)" if "d \<in> set (n_outbox s)" "P d" for d
    using that assms(1) by (simp add: outbox_ok_def list_all_iff)
  have "map dl_id (n_outbox s') = map dl_id (n_outbox s)" "map event_of (n_outbox s') = map event_of (n_outbox s)"
    unfolding assms(2) by (intro map_update_where; use step in \<open>simp add: row_kept_def\<close>)+
  moreover have "dl_id d < n_next_id s \<and> settled d" if "d \<in> set (n_outbox s')" for d
    using that ok step unfolding assms(2) by (elim update_whereE) (auto simp: outbox_ok_def list_all_iff row_kept_def)
  moreover have "grows row_kept (n_outbox s) (n_outbox s')"
    unfolding assms(2) by (rule grows_update) (use step in auto)
  ultimately show "outbox_ok s' \<and> grows row_kept (n_outbox s) (n_outbox s')"
    using ok by (simp add: outbox_ok_def list_all_iff assms(3))
qed

lemma remembers_world: "same_world s s' \<or> True \<Longrightarrow> n_outbox s' = n_outbox s \<Longrightarrow> n_next_id s' = n_next_id s \<Longrightarrow> remembers s s'"
  by (simp add: remembers_def outbox_ok_def grows_refl)

lemma remembers_upsert:
  assumes "\<And>d. settled d \<Longrightarrow> same_key d row \<Longrightarrow> dl_status d = DCancelled \<Longrightarrow> row_kept d (f row d) \<and> settled (f row d)"
    and "settled row"
  shows "remembers s (upsert f row s)"
  unfolding remembers_def
proof
  assume ok: "outbox_ok s"
  show "outbox_ok (upsert f row s) \<and> grows row_kept (n_outbox s) (n_outbox (upsert f row s))"
  proof (cases "\<exists>d \<in> set (n_outbox s). same_key d row")
    case True
    define t where "t = s\<lparr>n_outbox := n_outbox (upsert f row s)\<rparr>"
    have "remembers s t"
      by (rule remembers_update [where P = "\<lambda>d. same_key d row \<and> dl_status d = DCancelled" and f = "f row"])
        (use assms(1) True in \<open>auto simp: t_def upsert_def\<close>)
    then have t: "outbox_ok t" "grows row_kept (n_outbox s) (n_outbox t)" using ok by (simp_all add: remembers_def)
    have "n_outbox (upsert f row s) = n_outbox t" "n_next_id (upsert f row s) = n_next_id t + 1"
      by (simp_all add: t_def upsert_def)
    then show ?thesis using t by (fastforce simp: outbox_ok_def list_all_iff)
  next
    case False
    then have "event_of row \<notin> event_of ` set (n_outbox s)" by (auto simp: event_of_def same_key_def)
    moreover have "event_of (row\<lparr>dl_id := n\<rparr>) = event_of row" "settled (row\<lparr>dl_id := n\<rparr>) = settled row" for n
      by (simp_all add: event_of_def settled_def unsent_def)
    moreover have "n_next_id s \<notin> dl_id ` set (n_outbox s)" using ok by (auto simp: outbox_ok_def list_all_iff)
    ultimately show ?thesis using ok False assms(2)
      by (auto simp: upsert_def outbox_ok_def list_all_iff grows_append)
  qed
qed

lemma remembers_upserts:
  assumes "\<And>row d. row \<in> set rows \<Longrightarrow> settled d \<Longrightarrow> same_key d row \<Longrightarrow> dl_status d = DCancelled \<Longrightarrow> row_kept d (f row d) \<and> settled (f row d)"
    and "\<And>row. row \<in> set rows \<Longrightarrow> settled row"
  shows "remembers s (fold (upsert f) rows s)"
  using assms
proof (induction rows arbitrary: s)
  case (Cons row rows)
  have "remembers s (upsert f row s)" by (rule remembers_upsert) (use Cons.prems in auto)
  moreover have "remembers (upsert f row s) (fold (upsert f) rows (upsert f row s))" using Cons by simp
  ultimately show ?case using remembers_trans by simp
qed simp

lemma remembers_cancel: "remembers s (cancel_deliveries reason P s)"
  by (rule remembers_update [where f = "cancel_row reason"])
    (auto simp: cancel_deliveries_def cancel_row_def row_kept_def event_of_def settled_def unsent_def)

lemma settled_candidates:
  "row \<in> set (openings s) \<Longrightarrow> settled row" "row \<in> set (resumptions s) \<Longrightarrow> settled row"
  "row \<in> set (updates s) \<Longrightarrow> settled row" "row \<in> set (resolutions s) \<Longrightarrow> settled row"
  by (auto simp: openings_def resumptions_def updates_def resolutions_def settled_def unsent_def delivery_of_def
      revision_row_def opening_key_def resolution_key_def Let_def split: if_splits)

lemma remembers_Schedule: "remembers s (Schedule s)"
proof -
  have keep: "remembers s (fold (upsert keep_row) rows s)" if "\<And>row. row \<in> set rows \<Longrightarrow> settled row" for rows s
    by (rule remembers_upserts) (use that in \<open>auto simp: keep_row_def\<close>)
  have opened: "remembers s (schedule_openings s)" for s
    unfolding schedule_openings_def
    by (rule remembers_upserts)
      (simp add: rearm_opening_def row_kept_def event_of_def settled_def unsent_def, rule settled_candidates(1))
  have resumed: "remembers s (schedule_resumptions s)" for s
    unfolding schedule_resumptions_def
    by (rule remembers_upserts)
      (simp add: rearm_resumption_def rearm_opening_def row_kept_def event_of_def settled_def unsent_def, rule settled_candidates(2))
  have refreshes: "remembers s (refresh_pending s)" for s
    by (rule remembers_update [where f = "\<lambda>d. case incident_of s d of None \<Rightarrow> d | Some i \<Rightarrow> refreshed s i d" and
          P = "\<lambda>d. dl_event_key d \<in> {''firing'', ''resumed''} \<and> unsent d \<and> open_lease s d \<and> incident_of s d \<noteq> None"])
      (auto simp: refresh_pending_def refreshed_def row_kept_def event_of_def settled_def unsent_def split: option.splits)
  have cancels: "remembers s (cancel_obsolete s)" "remembers s (replace_stale s)" "remembers s (cancel_disabled s)" for s
    by (simp_all add: cancel_obsolete_def replace_stale_def cancel_disabled_def remembers_cancel)
  have rows: "remembers s (schedule_updates s)" "remembers s (schedule_resolutions s)" for s
    by (simp_all add: schedule_updates_def schedule_resolutions_def keep settled_candidates)
  note step1 = remembers_trans [OF cancels(1) opened]
  note step2 = remembers_trans [OF remembers_trans [OF step1 resumed] refreshes]
  note step3 = remembers_trans [OF remembers_trans [OF step2 rows(1)] cancels(2)]
  show ?thesis unfolding Schedule_def by (rule remembers_trans [OF remembers_trans [OF step3 rows(2)] cancels(3)])
qed

subsection \<open>Every sequence of operations\<close>

text \<open>\<open>World\<close> is everything else: the incident cycle, planned maintenance, the administration of
  Channels, and time.\<close>

datatype outbox_op =
    OSchedule | OClaim string | OComplete int string | OFail int string string
  | World instant db mdb "channel_row list"

fun outbox_step :: "outbox_op \<Rightarrow> ndb \<Rightarrow> ndb" where
  "outbox_step OSchedule s = Schedule s"
| "outbox_step (OClaim worker) s = snd (Claim worker s)"
| "outbox_step (OComplete i worker) s = snd (Delivery_Complete i worker s)"
| "outbox_step (OFail i worker err) s = snd (Delivery_Fail i worker err s)"
| "outbox_step (World now db plan channels) s = s\<lparr>n_now := now, n_db := db, n_plan := plan, n_channels := channels\<rparr>"

lemma claimed_unsent:
  assumes "first_min k (filter (claimable s) (n_outbox s)) = Some d"
  shows "d \<in> set (n_outbox s)" and "claimable s d" and "unsent d"
  using first_min_in [OF assms] by (auto simp: claimable_def)

lemma remembers_Claim: "remembers s (snd (Claim worker s))"
proof (cases "first_min (\<lambda>d. (dl_next_attempt_at d, dl_id d)) (filter (claimable s) (n_outbox s))")
  case (Some d)
  note d = claimed_unsent [OF Some]
  show ?thesis unfolding remembers_def
  proof
    assume ok: "outbox_ok s"
    have only: "r = d" if "r \<in> set (n_outbox s)" "dl_id r = dl_id d" for r
      using that d(1) ok by (auto simp: outbox_ok_def distinct_map inj_on_def)
    have leased: "row_kept r (lease_row s worker r) \<and> settled (lease_row s worker r)"
      if "r \<in> set (n_outbox s)" "settled r" "dl_id r = dl_id d" for r
      using only [OF that(1,3)] d(3) that(2) by (auto simp: lease_row_def row_kept_def event_of_def settled_def unsent_def)
    have "remembers s (s\<lparr>n_outbox := update_where (\<lambda>r. dl_id r = dl_id d) (lease_row s worker) (n_outbox s)\<rparr>)"
      by (rule remembers_update [where P = "\<lambda>r. dl_id r = dl_id d" and f = "lease_row s worker"]) (simp_all add: leased)
    then show "outbox_ok (snd (Claim worker s)) \<and> grows row_kept (n_outbox s) (n_outbox (snd (Claim worker s)))"
      using ok Some by (auto simp: Claim_def remembers_def grows_refl split: option.splits)
  qed
qed (simp add: Claim_def)

lemma remembers_held:
  assumes "\<And>d. f d = d\<lparr>dl_status := dl_status (f d), dl_attempts := dl_attempts (f d), dl_next_attempt_at := dl_next_attempt_at (f d),
      dl_delivered_at := dl_delivered_at (f d), dl_last_error := dl_last_error (f d), dl_lease_owner := None, dl_lease_until := None\<rparr>"
  shows "remembers s (snd (mark_channels st err (held_by i worker) s (s\<lparr>n_outbox := update_where (held_by i worker) f (n_outbox s)\<rparr>)))"
proof (rule remembers_update [where P = "held_by i worker" and f = f])
  fix d assume "settled d" and held: "held_by i worker d"
  have fields: "dl_id (f d) = dl_id d" "event_of (f d) = event_of d" "dl_event_kind (f d) = dl_event_kind d" "dl_event_key (f d) = dl_event_key d"
    "dl_lease_owner (f d) = None"
    by (subst assms, simp add: event_of_def)+
  then show "row_kept d (f d) \<and> settled (f d)"
    using \<open>settled d\<close> held by (auto simp: row_kept_def settled_def held_by_def unsent_def)
qed (simp_all add: mark_channels_def Let_def)

lemma remembers_step: "remembers s (outbox_step op s)"
proof (cases op)
  case (OComplete i worker)
  then show ?thesis by (simp add: Delivery_Complete_def remembers_held complete_delivery_def)
next
  case (OFail i worker err)
  then show ?thesis by (simp add: Delivery_Fail_def remembers_held fail_delivery_def)
next
  case (World now db plan channels)
  then show ?thesis by (intro remembers_world) simp_all
qed (simp_all add: remembers_Schedule remembers_Claim)

interpretation outbox: machine outbox_step "\<lambda>_. True" outbox_ok
  using remembers_step by unfold_locales (auto simp: remembers_def)

lemma remembers_run: "remembers s (fold outbox_step ops s)"
proof (induction ops arbitrary: s)
  case (Cons op ops)
  have "remembers (outbox_step op s) (fold outbox_step ops (outbox_step op s))" by (rule Cons)
  then show ?case using remembers_trans [OF remembers_step] by simp
qed simp


subsection \<open>Openings that are sent\<close>

lemma upserts_rows:
  assumes "\<forall>d \<in> set (n_outbox s). Q d" and "\<And>row n. row \<in> set rows \<Longrightarrow> Q (row\<lparr>dl_id := n\<rparr>)"
    and "\<And>row d. row \<in> set rows \<Longrightarrow> same_key d row \<Longrightarrow> Q d \<Longrightarrow> Q (f row d)"
  shows "\<forall>d \<in> set (n_outbox (fold (upsert f) rows s)). Q d"
  using assms
proof (induction rows arbitrary: s)
  case (Cons row rows)
  have "\<forall>d \<in> set (n_outbox (upsert f row s)). Q d"
  proof (cases "\<exists>d \<in> set (n_outbox s). same_key d row")
    case True
    then show ?thesis using Cons.prems(1,3) unfolding upsert_def by (simp add: set_update_where) blast
  next
    case False
    then show ?thesis using Cons.prems(1,2) unfolding upsert_def by simp
  qed
  then have "\<forall>d \<in> set (n_outbox (fold (upsert f) rows (upsert f row s))). Q d"
    by (rule Cons.IH) (use Cons.prems(2,3) in \<open>meson list.set_intros(2)\<close>)+
  then show ?case by simp
qed simp

text \<open>What an opening that may still be sent is known to be, once the first statements have run
  and once the pending rows are refreshed.\<close>

definition deserved :: "ndb \<Rightarrow> delivery_row \<Rightarrow> bool" where
  "deserved s d \<longleftrightarrow> (dl_event_kind d = Firing \<and> unsent d \<and> open_lease s d \<longrightarrow>
     (\<forall>i. incident_of s d = Some i \<longrightarrow> \<not> obsolete s i))"

definition current :: "ndb \<Rightarrow> delivery_row \<Rightarrow> bool" where
  "current s d \<longleftrightarrow> (dl_event_kind d = Firing \<and> unsent d \<and> open_lease s d \<longrightarrow>
     (\<forall>i. incident_of s d = Some i \<longrightarrow> \<not> obsolete s i \<and> dl_severity d = in_severity i \<and>
        dl_incident_revision d = in_revision i \<and> (dl_status d = DPending \<longrightarrow> dl_next_attempt_at d = due_at s i)))"

lemma incident_of_row:
  assumes "distinct (map in_id (incidents (n_db s)))" and "i \<in> set (incidents (n_db s))" and "dl_incident_id d = in_id i"
  shows "incident_of s d = Some i"
  using find_distinct_key [OF assms(1,2)] assms(3) by (simp add: incident_of_def)

lemma incident_of_cong: "dl_incident_id d = dl_incident_id e \<Longrightarrow> incident_of s d = incident_of s e"
  by (simp add: incident_of_def)

lemma deserved_announced:
  assumes "distinct (map in_id (incidents (n_db s)))" and "i \<in> set (incidents (n_db s))" and "announced s i" and "dl_incident_id d = in_id i"
  shows "deserved s d"
  using incident_of_row [OF assms(1,2,4)] assms(3) by (simp add: deserved_def announced_def obsolete_def)

lemma opening_incidents:
  "row \<in> set (openings s) \<Longrightarrow> \<exists>i \<in> set (incidents (n_db s)). announced s i \<and> dl_incident_id row = in_id i"
  "row \<in> set (resumptions s) \<Longrightarrow> \<exists>i \<in> set (incidents (n_db s)). announced s i \<and> dl_incident_id row = in_id i"
  by (auto simp: openings_def resumptions_def delivery_of_def)

lemma deserved_upserts:
  assumes "distinct (map in_id (incidents (n_db s)))" and "\<forall>d \<in> set (n_outbox s). deserved s d"
    and "\<And>row. row \<in> set rows \<Longrightarrow> \<exists>i \<in> set (incidents (n_db s)). announced s i \<and> dl_incident_id row = in_id i"
    and "\<And>row d. dl_incident_id (f row d) = dl_incident_id d"
  shows "\<forall>d \<in> set (n_outbox (fold (upsert f) rows s)). deserved s d"
  using assms(2)
proof (rule upserts_rows)
  fix row n assume "row \<in> set rows"
  then show "deserved s (row\<lparr>dl_id := n\<rparr>)" using assms(3) deserved_announced [OF assms(1)] by fastforce
next
  fix row d assume "row \<in> set rows" and "same_key d row"
  then show "deserved s (f row d)" using assms(3) [of row] assms(4) [of row d] deserved_announced [OF assms(1)]
    by (force simp: same_key_def)
qed

lemma current_later:
  assumes "\<forall>d \<in> set (n_outbox s). current s d"
  shows "(\<forall>row \<in> set rows. dl_event_kind row \<noteq> Firing) \<Longrightarrow> \<forall>d \<in> set (n_outbox (fold (upsert keep_row) rows s)). current s d"
    and "\<forall>d \<in> set (n_outbox (cancel_deliveries reason P s)). current s d"
proof -
  show "\<forall>d \<in> set (n_outbox (fold (upsert keep_row) rows s)). current s d" if "\<forall>row \<in> set rows. dl_event_kind row \<noteq> Firing"
    using assms by (rule upserts_rows) (use that in \<open>auto simp: current_def keep_row_def\<close>)
  show "\<forall>d \<in> set (n_outbox (cancel_deliveries reason P s)). current s d"
    using assms by (auto simp: cancel_deliveries_def cancel_row_def current_def unsent_def elim!: update_whereE)
qed

lemma later_kinds:
  "row \<in> set (updates s) \<Longrightarrow> dl_event_kind row \<noteq> Firing" "row \<in> set (resolutions s) \<Longrightarrow> dl_event_kind row \<noteq> Firing"
  by (auto simp: updates_def resolutions_def revision_row_def Let_def)

lemma deserved_world: "same_world s s' \<Longrightarrow> deserved s' = deserved s" and current_world: "same_world s s' \<Longrightarrow> current s' = current s"
  by (simp_all add: deserved_def [abs_def] current_def [abs_def] same_world_reads)

lemma Schedule_current:
  assumes "outbox_ok s" and "distinct (map in_id (incidents (n_db s)))"
  shows "(\<forall>d \<in> set (n_outbox (Schedule s)). current s d) \<and> same_world s (Schedule s)"
proof -
  define s1 where "s1 = cancel_obsolete s"
  define s2 where "s2 = schedule_openings s1"
  define s3 where "s3 = schedule_resumptions s2"
  define s4 where "s4 = refresh_pending s3"
  define s5 where "s5 = schedule_updates s4"
  define s6 where "s6 = replace_stale s5"
  define s7 where "s7 = schedule_resolutions s6"
  have w1: "same_world s s1" by (simp add: s1_def cancel_obsolete_def)
  have w2: "same_world s s2" by (rule same_world_trans [OF w1]) (simp add: s2_def schedule_openings_def)
  have w3: "same_world s s3" by (rule same_world_trans [OF w2]) (simp add: s3_def schedule_resumptions_def)
  have w4: "same_world s s4" by (rule same_world_trans [OF w3]) (simp add: s4_def refresh_pending_def)
  have w5: "same_world s s5" by (rule same_world_trans [OF w4]) (simp add: s5_def schedule_updates_def)
  have w6: "same_world s s6" by (rule same_world_trans [OF w5]) (simp add: s6_def replace_stale_def)
  have w7: "same_world s s7" by (rule same_world_trans [OF w6]) (simp add: s7_def schedule_resolutions_def)
  have db: "n_db t = n_db s" if "same_world s t" for t using that by (simp add: same_world_def)
  have d1: "\<forall>d \<in> set (n_outbox s1). deserved s1 d"
    unfolding deserved_world [OF w1]
    by (auto simp: s1_def cancel_obsolete_def cancel_deliveries_def cancel_row_def deserved_def unsent_def elim!: update_whereE)
  have "\<forall>d \<in> set (n_outbox s2). deserved s1 d" unfolding s2_def schedule_openings_def
    by (rule deserved_upserts [OF _ d1 opening_incidents(1)]) (simp_all add: db [OF w1] assms(2) rearm_opening_def)
  then have d2: "\<forall>d \<in> set (n_outbox s2). deserved s2 d" by (simp add: deserved_world [OF w1] deserved_world [OF w2])
  have "\<forall>d \<in> set (n_outbox s3). deserved s2 d" unfolding s3_def schedule_resumptions_def
    by (rule deserved_upserts [OF _ d2 opening_incidents(2)])
      (simp_all add: db [OF w2] assms(2) rearm_resumption_def rearm_opening_def)
  then have d3: "\<forall>d \<in> set (n_outbox s3). deserved s d" by (simp add: deserved_world [OF w2])
  have "remembers s s3"
  proof -
    have "remembers s s1" by (simp add: s1_def cancel_obsolete_def remembers_cancel)
    moreover have "remembers s1 s2" unfolding s2_def schedule_openings_def
      by (rule remembers_upserts)
        (simp add: rearm_opening_def row_kept_def event_of_def settled_def unsent_def, rule settled_candidates(1))
    moreover have "remembers s2 s3" unfolding s3_def schedule_resumptions_def
      by (rule remembers_upserts)
        (simp add: rearm_resumption_def rearm_opening_def row_kept_def event_of_def settled_def unsent_def, rule settled_candidates(2))
    ultimately show ?thesis using remembers_trans by blast
  qed
  then have settled: "settled d" if "d \<in> set (n_outbox s3)" for d
    using assms(1) that by (simp add: remembers_def outbox_ok_def list_all_iff)
  have d4: "\<forall>d \<in> set (n_outbox s4). current s d"
  proof
    fix d assume "d \<in> set (n_outbox s4)"
    then consider (refreshed) e i where "e \<in> set (n_outbox s3)" "incident_of s e = Some i" "d = refreshed s3 i e"
        "unsent e" "open_lease s e"
      | (kept) "d \<in> set (n_outbox s3)" "\<not> (dl_event_key d \<in> {''firing'', ''resumed''} \<and> unsent d \<and> open_lease s d \<and> incident_of s d \<noteq> None)"
      unfolding s4_def refresh_pending_def by (auto simp: same_world_reads [OF w3] elim!: update_whereE)
    then show "current s d"
    proof cases
      case refreshed
      have same: "incident_of s d = Some i" using refreshed(2,3) incident_of_cong [of d e s] by (simp add: refreshed_def)
      have "dl_event_kind e = Firing \<Longrightarrow> \<not> obsolete s i" using d3 refreshed by (simp add: deserved_def)
      then show ?thesis using same refreshed(3)
        by (simp add: current_def refreshed_def same_world_reads [OF w3] unsent_def)
    next
      case kept
      then show ?thesis using settled [OF kept(1)] by (auto simp: current_def settled_def opening_key_def)
    qed
  qed
  have "\<forall>d \<in> set (n_outbox s5). current s d"
    using current_later(1) [of s4 "updates s4"] d4 later_kinds by (simp add: s5_def schedule_updates_def current_world [OF w4])
  then have "\<forall>d \<in> set (n_outbox s6). current s d"
    using current_later(2) [of s5] by (simp add: s6_def replace_stale_def current_world [OF w5])
  then have "\<forall>d \<in> set (n_outbox s7). current s d"
    using current_later(1) [of s6 "resolutions s6"] later_kinds by (simp add: s7_def schedule_resolutions_def current_world [OF w6])
  then have "\<forall>d \<in> set (n_outbox (cancel_disabled s7)). current s d"
    using current_later(2) [of s7] by (simp add: cancel_disabled_def current_world [OF w7])
  moreover have "same_world s (cancel_disabled s7)" by (rule same_world_trans [OF w7]) (simp add: cancel_disabled_def)
  moreover have "Schedule s = cancel_disabled s7"
    by (simp add: Schedule_def s7_def s6_def s5_def s4_def s3_def s2_def s1_def)
  ultimately show ?thesis by simp
qed

text \<open>C27. An opening that a worker receives after a pass of scheduling is for an Incident that is
  active, not acknowledged, and touches a resource that is not under maintenance; it carries its
  current severity and revision; and unless it is critical or a retry, the Incident has been open
  (or resumed) for the whole stability delay.\<close>

theorem opening_deserved:
  assumes "outbox_ok s" and "distinct (map in_id (incidents (n_db s)))"
    and "Claim worker (Schedule s) = (Some v, s')" and "dv_EventKind v = Firing"
  shows "\<exists>i d. i \<in> set (incidents (n_db s)) \<and> d \<in> set (n_outbox (Schedule s)) \<and>
    in_id i = dv_IncidentID v \<and> dl_id d = dv_ID v \<and>
    in_status i = Active \<and> in_acknowledged_at i = None \<and> notifiable s i \<and>
    dv_Severity v = in_severity i \<and> dv_IncidentRevision v = in_revision i \<and>
    (in_severity i = SeverityCritical \<or> dl_status d = DFailed \<or>
     coalesce (in_resumed_at i) (in_created_at i) + n_stability_seconds s * second \<le> n_now s)"
proof -
  let ?s = "Schedule s"
  have cur: "\<forall>d \<in> set (n_outbox ?s). current s d" and w: "same_world s ?s" using Schedule_current [OF assms(1,2)] by blast+
  obtain d i c where d: "first_min (\<lambda>d. (dl_next_attempt_at d, dl_id d)) (filter (claimable ?s) (n_outbox ?s)) = Some d"
    and i: "incident_of ?s d = Some i" and v: "v = claimed_delivery ?s i c d"
    using assms(3) by (auto simp: Claim_def split: option.splits)
  note claimed = claimed_unsent [OF d]
  have kind: "dl_event_kind d = Firing" using assms(4) v by (simp add: claimed_delivery_def)
  have "open_lease ?s = open_lease s" by (rule same_world_reads(3) [OF w])
  moreover have "n_now ?s = n_now s" using w by (simp add: same_world_def)
  ultimately have "open_lease s d" "dl_next_attempt_at d \<le> n_now s" using claimed(2) by (simp_all add: claimable_def)
  moreover have i': "incident_of s d = Some i" using i same_world_reads(4) [OF w] by simp
  ultimately have "\<not> obsolete s i" "dl_severity d = in_severity i" "dl_incident_revision d = in_revision i"
      "dl_status d = DPending \<Longrightarrow> due_at s i \<le> n_now s"
    using bspec [OF cur claimed(1)] claimed(3) kind by (simp_all add: current_def)
  moreover have "i \<in> set (incidents (n_db s))" "in_id i = dl_incident_id d"
    using i' find_SomeD by (fastforce simp: incident_of_def)+
  moreover have "in_status i = Active \<or> in_status i = Resolved" by (cases "in_status i") auto
  ultimately show ?thesis using claimed(1,3) v
    by (intro exI [of _ i] exI [of _ d])
      (auto simp: claimed_delivery_def obsolete_def due_at_def unsent_def split: if_splits row_status.splits)
qed

subsection \<open>Escalation\<close>

definition sent :: "ndb \<Rightarrow> delivery_row list" where
  "sent s = filter (\<lambda>d. dl_status d = DDelivered) (n_outbox s)"

lemma delivered_alerts_sent:
  "delivered_alerts s i c = filter (\<lambda>d. dl_incident_id d = i \<and> dl_channel_id d = c \<and> dl_presentation d = Alert) (sent s)"
  by (simp add: delivered_alerts_def sent_def filter_filter conj_ac)

lemma sent_update:
  assumes "\<And>d. d \<in> set rows \<Longrightarrow> P d \<Longrightarrow> dl_status d \<noteq> DDelivered \<and> dl_status (f d) \<noteq> DDelivered"
  shows "filter (\<lambda>d. dl_status d = DDelivered) (update_where P f rows) = filter (\<lambda>d. dl_status d = DDelivered) rows"
  using assms by (induction rows) auto

lemma sent_cancel [simp]: "sent (cancel_deliveries reason P s) = sent s"
  unfolding sent_def cancel_deliveries_def
  by simp (rule sent_update, auto simp: unsent_def cancel_row_def)

lemma sent_upsert:
  assumes "dl_status row = DPending" and "\<And>d. dl_status d = DCancelled \<Longrightarrow> dl_status (f row d) \<noteq> DDelivered"
  shows "sent (upsert f row s) = sent s"
proof -
  have "filter (\<lambda>d. dl_status d = DDelivered) (update_where (\<lambda>d. same_key d row \<and> dl_status d = DCancelled) (f row) rows)
      = filter (\<lambda>d. dl_status d = DDelivered) rows" for rows
    by (rule sent_update) (use assms(2) in auto)
  then show ?thesis using assms(1) by (simp add: sent_def upsert_def)
qed

lemma sent_upserts:
  assumes "\<And>row. row \<in> set rows \<Longrightarrow> dl_status row = DPending" and "\<And>row d. dl_status d = DCancelled \<Longrightarrow> dl_status (f row d) \<noteq> DDelivered"
  shows "sent (fold (upsert f) rows s) = sent s"
  using assms
proof (induction rows arbitrary: s)
  case (Cons row rows)
  have "sent (upsert f row s) = sent s" by (rule sent_upsert) (use Cons.prems in auto)
  moreover have "sent (fold (upsert f) rows (upsert f row s)) = sent (upsert f row s)" by (rule Cons.IH) (use Cons.prems in auto)
  ultimately show ?case by simp
qed simp

lemma candidates_pending:
  "row \<in> set (openings s) \<Longrightarrow> dl_status row = DPending" "row \<in> set (resumptions s) \<Longrightarrow> dl_status row = DPending"
  "row \<in> set (updates s) \<Longrightarrow> dl_status row = DPending" "row \<in> set (resolutions s) \<Longrightarrow> dl_status row = DPending"
  by (auto simp: openings_def resumptions_def updates_def resolutions_def delivery_of_def revision_row_def Let_def)

lemma sent_statements [simp]:
  "sent (cancel_obsolete s) = sent s" "sent (schedule_openings s) = sent s" "sent (schedule_resumptions s) = sent s"
  "sent (refresh_pending s) = sent s" "sent (schedule_updates s) = sent s" "sent (replace_stale s) = sent s"
  "sent (schedule_resolutions s) = sent s" "sent (cancel_disabled s) = sent s"
proof -
  show "sent (schedule_openings s) = sent s" unfolding schedule_openings_def
    by (rule sent_upserts [OF candidates_pending(1)]) (simp_all add: rearm_opening_def)
  show "sent (schedule_resumptions s) = sent s" unfolding schedule_resumptions_def
    by (rule sent_upserts [OF candidates_pending(2)]) (simp_all add: rearm_resumption_def rearm_opening_def)
  show "sent (schedule_updates s) = sent s" unfolding schedule_updates_def
    by (rule sent_upserts [OF candidates_pending(3)]) (simp_all add: keep_row_def)
  show "sent (schedule_resolutions s) = sent s" unfolding schedule_resolutions_def
    by (rule sent_upserts [OF candidates_pending(4)]) (simp_all add: keep_row_def)
  have "filter (\<lambda>d. dl_status d = DDelivered) (update_where P (\<lambda>d. case incident_of s d of None \<Rightarrow> d | Some i \<Rightarrow> refreshed s i d) rows)
      = filter (\<lambda>d. dl_status d = DDelivered) rows" if "\<And>d. P d \<Longrightarrow> unsent d" for P rows
  proof (rule sent_update)
    fix d assume "P d"
    then have "dl_status d \<noteq> DDelivered" using that [of d] by (auto simp: unsent_def)
    then show "dl_status d \<noteq> DDelivered \<and> dl_status (case incident_of s d of None \<Rightarrow> d | Some i \<Rightarrow> refreshed s i d) \<noteq> DDelivered"
      by (simp add: refreshed_def split: option.splits)
  qed
  note kept = this
  have eq: "n_outbox (refresh_pending s) = update_where
      (\<lambda>d. dl_event_key d \<in> {''firing'', ''resumed''} \<and> unsent d \<and> open_lease s d \<and> incident_of s d \<noteq> None)
      (\<lambda>d. case incident_of s d of None \<Rightarrow> d | Some i \<Rightarrow> refreshed s i d) (n_outbox s)"
    unfolding refresh_pending_def by simp
  show "sent (refresh_pending s) = sent s" unfolding sent_def eq by (rule kept) blast
qed (simp_all add: cancel_obsolete_def replace_stale_def cancel_disabled_def)

text \<open>A revision that interrupts: stronger than every alert the Channel delivered, or the first
  to say that the Incident has spread.\<close>

definition escalates :: "ndb \<Rightarrow> incident_row \<Rightarrow> uuid \<Rightarrow> bool" where
  "escalates s i channel \<longleftrightarrow> in_status i = Active \<and> notifiable s i \<and>
     (list_all (\<lambda>d. severity_rank (dl_severity d) < severity_rank (in_severity i)) (delivered_alerts s (in_id i) channel) \<or>
      in_extended i \<and> \<not> list_ex dl_extended (delivered_alerts s (in_id i) channel))"

definition routed :: "ndb \<Rightarrow> incident_row \<Rightarrow> uuid \<Rightarrow> bool" where
  "routed s i channel \<longleftrightarrow>
     (\<exists>c \<in> set (n_channels s). ch_id c = channel \<and> (ch_kind c = ''in_app'' \<or> in_severity i \<in> set (ch_severities c)))"

definition update_ok :: "ndb \<Rightarrow> delivery_row \<Rightarrow> bool" where
  "update_ok s d \<longleftrightarrow>
     (\<exists>i \<in> set (incidents (n_db s)). in_id i = dl_incident_id d \<and> routed s i (dl_channel_id d) \<and>
        (\<exists>first \<in> set (sent s). dl_incident_id first = in_id i \<and> dl_channel_id first = dl_channel_id d \<and> dl_event_key first = ''firing'') \<and>
        (dl_presentation d = Alert \<longrightarrow> escalates s i (dl_channel_id d)) \<and>
        (dl_presentation d = Alert \<or> (\<exists>c \<in> set (n_channels s). ch_id c = dl_channel_id d \<and> ch_kind c = ''in_app'')))"

lemma strongest_less: "strongest ds < r \<Longrightarrow> list_all (\<lambda>d. severity_rank (dl_severity d) < r) ds"
  by (induction ds) (auto simp: strongest_def)

lemma updates_ok:
  assumes "row \<in> set (updates s)"
  shows "update_ok s row"
proof -
  from assms obtain i o1 c where row: "row = revision_row s i o1" and i: "i \<in> set (incidents (n_db s))"
    and oc: "(o1, c) \<in> set (delivered_openings s i)"
    and cond: "ch_kind c = ''in_app'' \<or> revision_presentation s i (dl_channel_id o1) = Alert \<and> in_severity i \<in> set (ch_severities c)"
    by (auto simp: updates_def)
  have o1: "o1 \<in> set (sent s)" "dl_incident_id o1 = in_id i" "dl_event_key o1 = ''firing''"
      and c: "c \<in> set (n_channels s)" "ch_id c = dl_channel_id o1"
    using oc by (auto simp: delivered_openings_def sent_def)
  have fields: "dl_incident_id row = in_id i" "dl_channel_id row = dl_channel_id o1"
      "dl_presentation row = revision_presentation s i (dl_channel_id o1)"
    by (simp_all add: row revision_row_def Let_def delivery_of_def)
  have "escalates s i (dl_channel_id o1)" if "revision_presentation s i (dl_channel_id o1) = Alert"
    using that strongest_less by (cases "in_status i")
      (auto simp: revision_presentation_def Let_def escalates_def list_ex_iff split: if_splits)
  then show ?thesis unfolding update_ok_def using i o1 c cond fields by (auto simp: routed_def)
qed

lemma update_ok_world:
  assumes "same_world s s'" and "sent s' = sent s"
  shows "update_ok s' = update_ok s"
  using assms by (simp add: update_ok_def [abs_def] routed_def escalates_def delivered_alerts_sent same_world_reads(2) [OF assms(1)] same_world_def)

text \<open>A revision that is new after scheduling.\<close>

definition fresh_update :: "ndb \<Rightarrow> delivery_row \<Rightarrow> bool" where
  "fresh_update s d \<longleftrightarrow> (dl_event_kind d = IncidentUpdate \<and> n_next_id s \<le> dl_id d \<longrightarrow> update_ok s d)"

lemma fresh_upserts:
  assumes "\<forall>d \<in> set (n_outbox s). fresh_update t d" and "\<And>row. row \<in> set rows \<Longrightarrow> dl_event_kind row = IncidentUpdate \<Longrightarrow> update_ok t row"
    and "\<And>row d. dl_event_kind (f row d) = dl_event_kind d \<and> dl_id (f row d) = dl_id d \<and> dl_incident_id (f row d) = dl_incident_id d \<and>
      dl_channel_id (f row d) = dl_channel_id d \<and> dl_presentation (f row d) = dl_presentation d"
  shows "\<forall>d \<in> set (n_outbox (fold (upsert f) rows s)). fresh_update t d"
  using assms(1)
proof (rule upserts_rows)
  fix row n assume "row \<in> set rows"
  then show "fresh_update t (row\<lparr>dl_id := n\<rparr>)" using assms(2) [of row] by (auto simp: fresh_update_def update_ok_def)
next
  fix row d assume "fresh_update t d"
  then show "fresh_update t (f row d)" using assms(3) [of row d] by (simp add: fresh_update_def update_ok_def)
qed

lemma fresh_cancel:
  "\<forall>d \<in> set (n_outbox s). fresh_update t d \<Longrightarrow> \<forall>d \<in> set (n_outbox (cancel_deliveries reason P s)). fresh_update t d"
  by (auto simp: cancel_deliveries_def cancel_row_def fresh_update_def update_ok_def elim!: update_whereE)

lemma opening_kinds:
  "row \<in> set (openings s) \<Longrightarrow> dl_event_kind row = Firing" "row \<in> set (resumptions s) \<Longrightarrow> dl_event_kind row = Firing"
  "row \<in> set (resolutions s) \<Longrightarrow> dl_event_kind row = ResolvedEvent"
  by (auto simp: openings_def resumptions_def resolutions_def delivery_of_def)

lemma Schedule_fresh:
  assumes "outbox_ok s"
  shows "\<forall>d \<in> set (n_outbox (Schedule s)). fresh_update s d"
proof -
  define s1 where "s1 = cancel_obsolete s"
  define s2 where "s2 = schedule_openings s1"
  define s3 where "s3 = schedule_resumptions s2"
  define s4 where "s4 = refresh_pending s3"
  have "\<forall>d \<in> set (n_outbox s). fresh_update s d" using assms by (auto simp: outbox_ok_def list_all_iff fresh_update_def)
  then have "\<forall>d \<in> set (n_outbox s1). fresh_update s d" unfolding s1_def cancel_obsolete_def by (rule fresh_cancel)
  then have "\<forall>d \<in> set (n_outbox s2). fresh_update s d" unfolding s2_def schedule_openings_def
    by (rule fresh_upserts) (simp_all add: opening_kinds rearm_opening_def)
  then have "\<forall>d \<in> set (n_outbox s3). fresh_update s d" unfolding s3_def schedule_resumptions_def
    by (rule fresh_upserts) (simp_all add: opening_kinds rearm_resumption_def rearm_opening_def)
  then have s4: "\<forall>d \<in> set (n_outbox s4). fresh_update s d"
    by (auto simp: s4_def refresh_pending_def refreshed_def fresh_update_def update_ok_def split: option.splits elim!: update_whereE)
  have "same_world s s4"
    by (simp add: s4_def s3_def s2_def s1_def same_world_def refresh_pending_def schedule_resumptions_def schedule_openings_def
        cancel_obsolete_def same_world_upserts [unfolded same_world_def] same_world_cancel [unfolded same_world_def])
  moreover have "sent s4 = sent s" by (simp add: s4_def s3_def s2_def s1_def)
  ultimately have ok: "update_ok s4 = update_ok s" by (rule update_ok_world)
  have "\<forall>d \<in> set (n_outbox (schedule_updates s4)). fresh_update s d" unfolding schedule_updates_def using s4
    by (rule fresh_upserts) (simp_all add: updates_ok ok [symmetric] keep_row_def)
  then have "\<forall>d \<in> set (n_outbox (replace_stale (schedule_updates s4))). fresh_update s d"
    unfolding replace_stale_def by (rule fresh_cancel)
  then have "\<forall>d \<in> set (n_outbox (schedule_resolutions (replace_stale (schedule_updates s4)))). fresh_update s d"
    unfolding schedule_resolutions_def by (rule fresh_upserts) (simp_all add: opening_kinds keep_row_def)
  then show ?thesis unfolding Schedule_def cancel_disabled_def s1_def [symmetric] s2_def [symmetric] s3_def [symmetric] s4_def [symmetric]
    by (rule fresh_cancel)
qed

text \<open>A revision of an Incident reaches a Channel that cannot revise what it sent only to
  interrupt: it is an alert, the Incident is active and touches a resource outside maintenance,
  its severity exceeds that of every alert the Channel delivered for it or it is the first to say
  that the Incident has spread, the Channel takes that severity, and it did deliver the opening.\<close>

theorem revision_interrupts:
  assumes "outbox_ok s" and "d \<in> set (n_outbox (Schedule s))" and "n_next_id s \<le> dl_id d" and "dl_event_kind d = IncidentUpdate"
    and "\<not> list_ex (\<lambda>c. ch_id c = dl_channel_id d \<and> ch_kind c = ''in_app'') (n_channels s)"
  shows "dl_presentation d = Alert \<and>
    (\<exists>i c first. i \<in> set (incidents (n_db s)) \<and> in_id i = dl_incident_id d \<and>
       c \<in> set (n_channels s) \<and> ch_id c = dl_channel_id d \<and> in_severity i \<in> set (ch_severities c) \<and>
       first \<in> set (n_outbox s) \<and> dl_status first = DDelivered \<and> dl_incident_id first = in_id i \<and>
       dl_channel_id first = dl_channel_id d \<and> dl_event_key first = ''firing'' \<and>
       in_status i = Active \<and> notifiable s i \<and>
       (list_all (\<lambda>p. severity_rank (dl_severity p) < severity_rank (in_severity i)) (delivered_alerts s (in_id i) (dl_channel_id d)) \<or>
        in_extended i \<and> \<not> list_ex dl_extended (delivered_alerts s (in_id i) (dl_channel_id d))))"
proof -
  have ok: "update_ok s d" using bspec [OF Schedule_fresh [OF assms(1)] assms(2)] assms(3,4) by (simp add: fresh_update_def)
  have other: "ch_kind c \<noteq> ''in_app''" if "c \<in> set (n_channels s)" "ch_id c = dl_channel_id d" for c
    using assms(5) that by (auto simp: list_ex_iff)
  then have alert: "dl_presentation d = Alert" using ok by (auto simp: update_ok_def)
  show ?thesis using ok alert other unfolding update_ok_def routed_def escalates_def sent_def by fastforce
qed

end
