(* ===== verification/Push_Properties.thy ===== *)
theory Push_Properties
  imports Push_Machine Device_Properties Notification_Properties
begin

text \<open>
  What a device is told of an Incident, in every history, and what reaches only that device.
\<close>

subsection \<open>The story told to a device\<close>

text \<open>C39. A device never learns an end without a beginning, nor two ends in a row: whatever the requests of
  devices and people, the failures of the relay and the turns of the dispatchers, as long as the
  deliveries of an Incident come in the order of its revisions. The alerts come in that order too.\<close>

theorem device_story:
  assumes "devices_inv c (p_devs s)" and "p_inbox s = []" and "p_pushes s = []"
    and "orderly (push_admissible c) push_step ops s" and "t = fold push_step ops s"
  shows "well_told False (told dev entry (p_pushes t)) \<and>
    sorted_wrt (<) (map pu_revision (filter (\<lambda>p. pu_device_id p = dev \<and> pu_inbox_id p = entry) (p_pushes t)))"
proof -
  have "push_inv c s" using assms(1-3) by (simp add: push_inv_def entries_ok_def outgoing_ok_def told_def)
  from pushers.orderly_run [OF assms(4) this] have ok: "outgoing_ok (p_pushes t)" by (simp add: assms(5) push_inv_def)
  have "sorted_wrt (\<lambda>p q. pu_revision p < pu_revision q) (filter (\<lambda>p. pu_device_id p = dev \<and> pu_inbox_id p = entry) (p_pushes t))"
    by (rule sorted_wrt_mono_rel [OF _ sorted_wrt_filter [of in_order]]) (use ok in \<open>auto simp: outgoing_ok_def in_order_def same_place_def\<close>)
  then show ?thesis using ok by (simp add: outgoing_ok_def sorted_wrt_map)
qed

text \<open>One person of an external directory, with a companion whose pairing is over.\<close>

definition guest :: user_row where
  "guest = \<lparr>us_id = ''7'', us_username = ''guest'', us_display_name = ''Guest'', us_password_hash = None, us_role = ''operator'',
     us_regime = ''external'', us_created_at = 0, us_deactivated_at = None, us_suspended_at = None, us_suspension_reason = ''''\<rparr>"

definition guest_named :: bool where
  "guest_named \<longleftrightarrow> usernamePattern (us_username guest) \<and> validateDisplayName (us_display_name guest) \<and> validateRole (us_role guest)"

definition lodge :: idb where
  "lodge = (new_instance sample_crypto)\<lparr>users := [guest]\<rparr>"

definition desk :: ddb where
  "desk = \<lparr>dd_ids = lodge, dd_box = Some sample_aead, dd_url = ''https://ops.example'', dd_valid_point = (\<lambda>k. True),
     devices = [\<lparr>de_id = ''d'', de_user_id = ''7'', de_name = ''Phone'', de_platform = ''ios'', de_app_version = ''1.0'', de_locale = ''fr'',
        de_content = ''masked'', de_public_key = ''k'', de_recipient_sealed = Some ''r'', de_token_digest = ''t'', de_last_seen_at = None,
        de_push_disabled_at = None, de_revoked_at = None, de_created_at = 0, de_updated_at = 0\<rparr>],
     pairings = [\<lparr>pa_id = ''p'', pa_user_id = ''7'', pa_token_digest = ''q'', pa_expires_at = 9, pa_claim = None, pa_claimed_at = Some 0,
        pa_confirmed_at = Some 0, pa_cancelled_at = None, pa_consumed_at = Some 0, pa_device_id = Some ''d'', pa_token_sealed = '''',
        pa_created_at = 0\<rparr>],
     pushes = []\<rparr>"

lemma desk_inv: "devices_inv sample_crypto desk"
proof -
  have guest_named by code_simp
  then have "user_typed sample_crypto guest" by (simp add: guest_named_def user_typed_def guest_def)
  then have "accounts_inv sample_crypto lodge" by (simp add: accounts_inv_def ok_defs lodge_def new_instance_def sample_crypto_ok)
  moreover have "aead_ok sample_aead" by (simp add: aead_ok_def sample_aead_def sample_tag_def) (simp add: min_def)
  ultimately show ?thesis by (simp add: devices_inv_def devices_ok_def desk_def pairing_ok_def)
qed

definition push_home :: pdb where
  "push_home = \<lparr>p_notes = bell, p_devs = desk, p_inbox = [], p_inbox_next = 1, p_push_next = 1,
     p_relay = \<lparr>rl_configured = False, rl_status = ''unavailable'', rl_last_checked_at = None, rl_last_success_at = None, rl_last_error = ''''\<rparr>\<rparr>"

definition told_revision :: "int \<Rightarrow> event_kind \<Rightarrow> presentation \<Rightarrow> instant option \<Rightarrow> Delivery" where
  "told_revision revision event shown resolved =
     \<lparr>dv_ID = 1, dv_IncidentID = in_id bell_incident, dv_IncidentRevision = revision, dv_ChannelID = ''c'', dv_ChannelKind = KindInApp,
      dv_EventKind = event, dv_Presentation = shown, dv_TargetName = ''db'', dv_NatureKey = '''', dv_NatureScope = '''', dv_NatureLabel = ''Disk'',
      dv_AlertKind = '''', dv_Severity = ''major'', dv_ImpactCount = 1, dv_AffectedTargets = 1, dv_MaxAffected = 1,
      dv_PropagationStatus = Open, dv_Extended = False, dv_OpenedAt = 0, dv_ResolvedAt = resolved, dv_CredentialSealed = '''',
      dv_Context = \<lparr>cx_Fact = None, cx_TargetNames = [], cx_PreviousSeverity = '''', cx_DurationSeconds = 0, cx_Resumptions = 0\<rparr>\<rparr>"

text \<open>An opening is delivered, the end is delivered, the Incident resumes without an alert and ends again.\<close>

definition story_ops :: "push_op list" where
  "story_ops =
     [PDeliver (told_revision 1 Firing Alert None), PClaim ''w'', PComplete 1 ''w'',
      PDeliver (told_revision 2 ResolvedEvent Alert (Some 5)), PClaim ''w'', PComplete 2 ''w'',
      PDeliver (told_revision 4 ResolvedEvent Alert (Some 9))]"

fun story_admissible :: "push_op \<Rightarrow> pdb \<Rightarrow> bool" where
  "story_admissible (PDevice op) s = False"
| "story_admissible (PDeliver d) s = current_delivery d s"
| "story_admissible op s = True"

lemma orderly_mono: "(\<And>op s. ok op s \<Longrightarrow> ok' op s) \<Longrightarrow> orderly ok step ops s \<Longrightarrow> orderly ok' step ops s"
  by (induction ops arbitrary: s) auto

lemma story_admissible_ok: "story_admissible op s \<Longrightarrow> push_admissible c op s"
  by (cases op) simp_all

fun checked_run :: "('op \<Rightarrow> 's \<Rightarrow> bool) \<Rightarrow> ('op \<Rightarrow> 's \<Rightarrow> 's) \<Rightarrow> 'op list \<Rightarrow> 's \<Rightarrow> 's option" where
  "checked_run ok step [] s = Some s"
| "checked_run ok step (op # ops) s = (if ok op s then checked_run ok step ops (step op s) else None)"

lemma checked_run: "checked_run ok step ops s = Some t \<longleftrightarrow> orderly ok step ops s \<and> t = fold step ops s"
  by (induction ops arbitrary: s) auto

definition story_check :: bool where
  "story_check \<longleftrightarrow>
     (case checked_run story_admissible push_step story_ops push_home of
        None \<Rightarrow> False
      | Some t \<Rightarrow> map (\<lambda>p. (pu_status p, pu_presentation p)) (p_pushes t) = [(DDelivered, Alert), (DDelivered, Alert), (DPending, Silent)])"

lemma story_check: story_check
  by code_simp
theorem device_story_witness:
  "well_told False (told ''d'' 1 (p_pushes (fold push_step story_ops push_home))) \<and>
   map pu_presentation (p_pushes (fold push_step story_ops push_home)) = [Alert, Alert, Silent]"
proof -
  obtain t where "checked_run story_admissible push_step story_ops push_home = Some t" and
      shown: "map (\<lambda>p. (pu_status p, pu_presentation p)) (p_pushes t) = [(DDelivered, Alert), (DDelivered, Alert), (DPending, Silent)]"
    using story_check by (auto simp: story_check_def split: option.splits)
  then have run: "orderly story_admissible push_step story_ops push_home" "t = fold push_step story_ops push_home"
    by (simp_all add: checked_run)
  have ops: "orderly (push_admissible sample_crypto) push_step story_ops push_home"
    by (rule orderly_mono [OF story_admissible_ok run(1)])
  have "devices_inv sample_crypto (p_devs push_home)" "p_inbox push_home = []" "p_pushes push_home = []"
    using desk_inv by (simp_all add: push_home_def) (simp add: desk_def)
  from device_story [OF this ops refl, of "''d''" 1] have "well_told False (told ''d'' 1 (p_pushes (fold push_step story_ops push_home)))" by blast
  moreover have "map snd (map (\<lambda>p. (pu_status p, pu_presentation p)) (p_pushes t)) = [Alert, Alert, Silent]"
    unfolding shown by simp
  ultimately show ?thesis by (simp add: comp_def run(2))
qed
subsection \<open>A push in flight\<close>

lemma Deliver_spares_flight:
  assumes "p \<in> set (p_pushes s)" and "pu_lease_until p = Some until" and "p_now s < until"
  shows "p \<in> set (p_pushes (snd (Deliver d s)))"
proof -
  obtain affected t where entries: "(affected, t) = (if dv_EventKind d = Firing then deposit_opening d s else revise_entries d s)"
    by (metis surj_pair)
  have "p_devs (fold deposit es s) = p_devs s" for es
    by (induction es arbitrary: s) (simp_all add: deposit_def Let_def)
  then have devs: "p_devs t = p_devs s"
    using entries by (auto simp: deposit_opening_def revise_entries_def Let_def split: if_splits)
  have "\<not> outdated t d p" if "\<not> in_flight t d"
    using that assms by (auto simp: in_flight_def list_ex_iff devs split: option.splits)
  moreover have "outdated (schedule_pushes d t) d = outdated t d"
    by (simp add: fun_eq_iff outdated_def of_incident_def schedule_pushes_def set_pushes_def Let_def)
  ultimately have "p \<in> set (p_pushes (drop_outdated d (schedule_pushes d t)))" if "\<not> in_flight t d"
    using that assms(1) by (force simp: drop_outdated_def set_pushes_def set_update_where schedule_pushes_def Let_def devs)
  then show ?thesis using assms(1) by (auto simp: Deliver_def entries [symmetric] devs)
qed

subsection \<open>The envelope of a message\<close>

text \<open>What is used of the primitives: both ends of an exchange compute the same secret, and the cipher
  under a derived key opens what it sealed.\<close>

definition curve_ok :: "curve \<Rightarrow> bool" where
  "curve_ok k \<longleftrightarrow>
     (\<forall>a b pa pb. X25519 k a (Basepoint k) = Inr pa \<and> X25519 k b (Basepoint k) = Inr pb \<longrightarrow> X25519 k a pb = X25519 k b pa) \<and>
     (\<forall>secret info. aead_ok (NewX k (hkdf_key k secret info)))"

text \<open>C40. The device whose public key sealed a message opens it with its private key and what is in the
  envelope.\<close>

theorem envelope_opens:
  assumes "curve_ok k" and "crypto_ok (crypto_of s)"
    and "X25519 k private (Basepoint k) = Inr publicKey" and "Encrypt k publicKey plaintext s = (Inr e, t)"
  shows "\<exists>ephemeral nonce ciphertext secret.
    DecodeString RawURLEncoding (ev_EphemeralPublicKey e) = Some ephemeral \<and>
    DecodeString RawURLEncoding (ev_Nonce e) = Some nonce \<and>
    DecodeString RawURLEncoding (ev_Ciphertext e) = Some ciphertext \<and>
    X25519 k private ephemeral = Inr secret \<and>
    aead_Open (NewX k (hkdf_key k secret envelopeContext)) nonce ciphertext envelopeContext = Some plaintext"
proof -
  obtain mine s1 where one: "read_random 32 s = (mine, s1)" by (cases "read_random 32 s")
  from assms(4) obtain ephemeral secret nonce s2 where
      keys: "X25519 k mine (Basepoint k) = Inr ephemeral" "X25519 k mine publicKey = Inr secret"
      and two: "read_random (NonceSize (NewX k (hkdf_key k secret envelopeContext))) s1 = (nonce, s2)"
      and e: "e = \<lparr>ev_Version = 1, ev_EphemeralPublicKey = EncodeToString RawURLEncoding ephemeral,
        ev_Nonce = EncodeToString RawURLEncoding nonce,
        ev_Ciphertext = EncodeToString RawURLEncoding (aead_Seal (NewX k (hkdf_key k secret envelopeContext)) nonce plaintext envelopeContext)\<rparr>"
    by (auto simp: Encrypt_def one Let_def split: if_splits sum.splits prod.splits)
  have "crypto_of s1 = crypto_of s" using one by (auto simp: read_random_def rand_Read_eq)
  then have "length nonce = NonceSize (NewX k (hkdf_key k secret envelopeContext))"
    using two assms(2) by (auto simp: read_random_def rand_Read_eq crypto_ok_def)
  moreover have "X25519 k private ephemeral = Inr secret" using assms(1,3) keys unfolding curve_ok_def by metis
  moreover have "aead_ok (NewX k (hkdf_key k secret envelopeContext))" using assms(1) by (simp add: curve_ok_def)
  ultimately show ?thesis using Decode_Encode [of RawURLEncoding] by (simp add: e aead_ok_def)
qed

text \<open>An exchange for the example: the sum of the keys, byte by byte.\<close>

definition sum_bytes :: "string \<Rightarrow> string \<Rightarrow> string" where
  "sum_bytes a b = map2 (\<lambda>x y. char_of (of_char x + of_char y :: nat)) a b"

definition sample_curve :: curve where
  "sample_curve = \<lparr>X25519 = (\<lambda>a p. Inr (if p = ''B'' then ''PP'' @ a else sum_bytes a (drop 2 p))), Basepoint = ''B'',
     hkdf_key = (\<lambda>secret info. secret), NewX = (\<lambda>key. sample_aead)\<rparr>"

lemma sample_curve_ok: "curve_ok sample_curve"
proof -
  have "sum_bytes a b = sum_bytes b a" for a b
    by (rule nth_equalityI) (auto simp: sum_bytes_def min.commute add.commute)
  moreover have "aead_ok sample_aead" by (simp add: aead_ok_def sample_aead_def sample_tag_def) (simp add: min_def)
  ultimately show ?thesis by (simp add: curve_ok_def sample_curve_def)
qed

definition envelope_sent :: bool where
  "envelope_sent \<longleftrightarrow> (case fst (Encrypt sample_curve (''PP'' @ replicate 30 (CHR ''k'')) ''hello'' desk) of Inr e \<Rightarrow> True | Inl e \<Rightarrow> False)"

lemma envelope_sent: envelope_sent
  by code_simp

theorem envelope_opens_witness:
  "\<exists>e. fst (Encrypt sample_curve (''PP'' @ replicate 30 (CHR ''k'')) ''hello'' desk) = Inr e \<and>
     (\<exists>ephemeral. DecodeString RawURLEncoding (ev_EphemeralPublicKey e) = Some ephemeral)"
proof -
  obtain e t where sent: "Encrypt sample_curve (''PP'' @ replicate 30 (CHR ''k'')) ''hello'' desk = (Inr e, t)"
    using envelope_sent by (auto simp: envelope_sent_def split: sum.splits) (metis prod.collapse)
  have "crypto_of desk = sample_crypto" using desk_inv by (simp add: devices_inv_def accounts_inv_def)
  then have "crypto_ok (crypto_of desk)" by (simp add: sample_crypto_ok)
  moreover have "X25519 sample_curve (replicate 30 (CHR ''k'')) (Basepoint sample_curve) = Inr (''PP'' @ replicate 30 (CHR ''k''))"
    by (simp add: sample_curve_def)
  ultimately show ?thesis using envelope_opens [OF sample_curve_ok _ _ sent] sent by fastforce
qed

end
