(* ===== verification/Spec2Isabelle.thy ===== *)
theory Spec2Isabelle
  imports Incident_Properties Monitoring Maintenance_Plan Realtime Versions Rate_Limiter Push_Properties Account_Properties
begin

text \<open>
  CairnOps watches the resources of an installation. Connectors and native Checks produce facts;
  a snapshot of facts becomes Proofs, Impacts and Incidents; the revisions of Incidents become
  notifications; every change is announced to the browsers through an event stream. The code is
  in Go, the state in PostgreSQL, and most rules are in the SQL of the stores. This library is a
  model of that code, from the sources under \<^verbatim>\<open>src/internal\<close>, with what makes it correct.

  \<^bold>\<open>How the code is modelled.\<close> A table is a list of records in insertion order, a statement is a
  definition that reads and rewrites the lists as its SQL does, and a handler composes its
  statements in the order of the code and returns its error or its result with the new state.
  Go strings are lists of bytes (\<^verbatim>\<open>Go_Strings\<close>); instants and durations are integers in
  nanoseconds, with Go's saturation and 64-bit range written out where the code depends on it
  (\<^verbatim>\<open>Cairn_Prelude\<close>); float64 ratios are exact rationals. Transactions run one after the other:
  the row locks of the code serialise them, so an interleaving of workers is a sequence of whole
  transactions, and a failing transaction leaves the tables as they were. Generated identifiers,
  the order of Go maps, the clock, the rules of time zones, the answers of checks and senders
  and the order in which concurrent checks finish are parameters; what the proofs need of them is
  a named hypothesis (\<open>env_ok\<close>, \<open>zones_ok\<close>).

  \<^bold>\<open>The parts.\<close>
  \<^item> Shared: \<^verbatim>\<open>Cairn_Prelude\<close> (time, results, tables), \<^verbatim>\<open>Machines\<close> (the locale of a store driven by
    operations: an invariant proved once per operation holds after every sequence, interpreted
    by each component below), \<^verbatim>\<open>Go_Strings\<close>, \<^verbatim>\<open>Go_Strconv\<close>, \<^verbatim>\<open>Go_Json\<close>, \<^verbatim>\<open>Go_Time\<close> (what the code
    uses of Go's library).
  \<^item> \<^verbatim>\<open>Domain\<close>: \<^verbatim>\<open>internal/domain\<close>, Sources, trigger policies, availability measures, latency
    profiles. \<^verbatim>\<open>Alert_Text\<close> and \<^verbatim>\<open>Synthesis\<close>: the wording of alerts and notifications
    (\<^verbatim>\<open>internal/alerttext\<close>, \<^verbatim>\<open>internal/synthesis\<close>).
  \<^item> \<^verbatim>\<open>Incident_Model\<close>, \<^verbatim>\<open>Incident_Cycle\<close>, \<^verbatim>\<open>Incident_Service\<close>: \<^verbatim>\<open>internal/incidents\<close>, the tables
    of the cycle, the application of a snapshot (\<^verbatim>\<open>cycle.go\<close>), the gestures of a user
    (\<^verbatim>\<open>incidents.go\<close>, \<^verbatim>\<open>store.go\<close>), the native Checks (\<^verbatim>\<open>native.go\<close>). \<^verbatim>\<open>Incident_Invariant\<close>,
    \<^verbatim>\<open>Incident_Sync\<close>, \<^verbatim>\<open>Incident_Agreement\<close>, \<^verbatim>\<open>Incident_Growth\<close>, \<^verbatim>\<open>Incident_Snapshot\<close>,
    \<^verbatim>\<open>Incident_Total\<close>, \<^verbatim>\<open>Incident_History\<close>, \<^verbatim>\<open>Incident_Properties\<close>: the constraints of the schema,
    the agreement of derived rows with what they are derived from, what is never taken back, what
    a snapshot does to each identity, which transactions fail, and the properties of every
    history.
  \<^item> \<^verbatim>\<open>Monitoring\<close>: \<^verbatim>\<open>internal/monitoring\<close>, leases on due Sources and the tick of the scheduler.
  \<^item> \<^verbatim>\<open>Maintenance\<close>, \<^verbatim>\<open>Maintenance_Plan\<close>: \<^verbatim>\<open>internal/maintenance\<close>, recurrences in local time,
    creation, cancellation and extension of windows, and the plan as a machine.
  \<^item> \<^verbatim>\<open>Realtime\<close>: \<^verbatim>\<open>internal/realtime\<close>, the hub as an interleaving of its goroutines' steps.
  \<^item> \<^verbatim>\<open>Notifications\<close>, \<^verbatim>\<open>Notification_Outbox\<close>, \<^verbatim>\<open>Notification_Properties\<close>:
    \<^verbatim>\<open>internal/notifications\<close>, the eight statements of a scheduling pass over the tables of
    incidents and maintenance, and the life of a delivery.
  \<^item> \<^verbatim>\<open>Versions\<close>, \<^verbatim>\<open>Rate_Limiter\<close>: \<^verbatim>\<open>internal/versions\<close> and \<^verbatim>\<open>internal/pushrelay/limiter.go\<close>.

  \<^bold>\<open>Termination.\<close> Loops of the code are structural recursion or folds, except: the pages of
  \<open>catchUp\<close>, with fuel, proved to end with the last version of the table; the weeks of a
  recurrence and the bisection of \<open>localTime\<close>, bounded by the dates they run between; the decoding
  of UTF-8, by the length of the text.

  \<^bold>\<open>Not modelled.\<close> The rounding of timestamps to microseconds, the collation of text and
  unexpected failures of PostgreSQL. HTTP handlers, the reading of configuration, and the clients
  of other products only move data between the network and the parts above. Connectors,
  reconciliation, indicators, accounts and retention have rules of their own and are left to later
  extensions.
\<close>

end
